(* ===== verification/Prelude.thy ===== *)
theory Prelude
  imports Main "HOL-Library.Word" "HOL-Library.Char_ord" "HOL-Library.List_Lexorder"
    "HOL-Library.Multiset"
begin

text \<open>
  Shared vocabulary of the development: the Python exceptions of the modelled files, bytes and
  byte strings, the state-and-exception actions in which stateful Python code is written, and
  the small pieces of the Python language and standard library (str of an int, hexadecimal text,
  strip, the substring test) that several components use.  A Python str is a list of characters
  (code points below 256); a bytes object is a list of 8-bit words.
\<close>

named_theorems model_defs
  \<comment> \<open>small definitions that component proofs unfold together\<close>

unbundle bit_operations_syntax

section \<open>Exceptions\<close>

text \<open>
  One constructor per exception class that the modelled code raises or catches.  The classes
  ExperimentError and AuthReject stand in the subclass relation of the source: an
  \<open>except ExperimentError\<close> clause also catches AuthReject.
\<close>

datatype exn =
    ProtocolError string
  | ExperimentError string
  | AuthReject string
  | IntegrityError string
  | OperationalError string
  | ProgrammingError string
  | OSError string
  | SocketTimeout
  | ValueError string
  | TypeError string
  | KeyError string
  | IndexError string
  | AttributeError string
  | StructError string
  | ZeroDivisionError
  | RecursionError
  | SystemExit string
  | BoundaryError string
  | BuildFailure string

fun is_AuthReject :: "exn \<Rightarrow> bool" where
  "is_AuthReject (AuthReject _) = True"
| "is_AuthReject _ = False"

fun is_ExperimentError :: "exn \<Rightarrow> bool" where
  "is_ExperimentError (ExperimentError _) = True"
| "is_ExperimentError (AuthReject _) = True"
| "is_ExperimentError _ = False"

fun is_ProtocolError :: "exn \<Rightarrow> bool" where
  "is_ProtocolError (ProtocolError _) = True"
| "is_ProtocolError _ = False"

text \<open>\<open>str(exception)\<close> of an exception constructed with one message.\<close>

fun exn_text :: "exn \<Rightarrow> string" where
  "exn_text (ProtocolError m) = m"
| "exn_text (ExperimentError m) = m"
| "exn_text (AuthReject m) = m"
| "exn_text (IntegrityError m) = m"
| "exn_text (OperationalError m) = m"
| "exn_text (ProgrammingError m) = m"
| "exn_text (OSError m) = m"
| "exn_text SocketTimeout = ''timed out''"
| "exn_text (ValueError m) = m"
| "exn_text (TypeError m) = m"
| "exn_text (KeyError m) = m"
| "exn_text (IndexError m) = m"
| "exn_text (AttributeError m) = m"
| "exn_text (StructError m) = m"
| "exn_text ZeroDivisionError = ''division by zero''"
| "exn_text RecursionError = ''maximum recursion depth exceeded''"
| "exn_text (SystemExit m) = m"
| "exn_text (BoundaryError m) = m"
| "exn_text (BuildFailure m) = m"

text \<open>Sequencing of pure fallible computations.\<close>

fun res_bind :: "'e + 'a \<Rightarrow> ('a \<Rightarrow> 'e + 'b) \<Rightarrow> 'e + 'b" where
  "res_bind (Inl e) f = Inl e"
| "res_bind (Inr a) f = f a"

fun res_map :: "('a \<Rightarrow> 'b) \<Rightarrow> 'e + 'a \<Rightarrow> 'e + 'b" where
  "res_map f (Inl e) = Inl e"
| "res_map f (Inr a) = Inr (f a)"

fun is_ok :: "'e + 'a \<Rightarrow> bool" where
  "is_ok (Inl _) = False"
| "is_ok (Inr _) = True"

text \<open>\<open>[f(x) for x in xs]\<close> where \<open>f\<close> may raise: the first exception ends the loop.\<close>

fun res_map_list :: "('a \<Rightarrow> 'e + 'b) \<Rightarrow> 'a list \<Rightarrow> 'e + 'b list" where
  "res_map_list f [] = Inr []"
| "res_map_list f (x # xs) =
     res_bind (f x) (\<lambda>y. res_bind (res_map_list f xs) (\<lambda>ys. Inr (y # ys)))"

lemma res_bind_Inr_iff: "res_bind r f = Inr b \<longleftrightarrow> (\<exists>a. r = Inr a \<and> f a = Inr b)"
  by (cases r) auto

lemma res_map_list_Inr:
  "res_map_list f xs = Inr ys \<longleftrightarrow> length ys = length xs \<and> (\<forall>i < length xs. f (xs ! i) = Inr (ys ! i))"
proof (induction xs arbitrary: ys)
  case Nil
  then show ?case by auto
next
  case (Cons x xs)
  show ?case
  proof (cases ys)
    case Nil
    then show ?thesis by (auto simp: res_bind_Inr_iff)
  next
    case (Cons y ys')
    then show ?thesis
      using Cons.IH [of ys'] by (auto simp: res_bind_Inr_iff nth_Cons' less_Suc_eq_0_disj)
  qed
qed

lemma res_map_list_ok:
  "(\<And>x. x \<in> set xs \<Longrightarrow> f x = Inr (g x)) \<Longrightarrow> res_map_list f xs = Inr (map g xs)"
  by (induction xs) auto

lemma res_map_list_cong:
  "xs = ys \<Longrightarrow> (\<And>x. x \<in> set ys \<Longrightarrow> f x = g x) \<Longrightarrow> res_map_list f xs = res_map_list g ys"
proof (induction ys arbitrary: xs)
  case (Cons y ys)
  then show ?case by (cases "g y") auto
qed simp

section \<open>Actions: state and exceptions\<close>

text \<open>
  A Python statement that works on some state: it ends normally or with an exception, and in both
  cases leaves a state behind (what was written before a raise stays written).
\<close>

type_synonym ('s, 'a) act = "'s \<Rightarrow> (exn + 'a) \<times> 's"

definition act_return :: "'a \<Rightarrow> ('s, 'a) act" where
  "act_return a = (\<lambda>s. (Inr a, s))"

definition act_raise :: "exn \<Rightarrow> ('s, 'a) act" where
  "act_raise e = (\<lambda>s. (Inl e, s))"

definition act_bind :: "('s, 'a) act \<Rightarrow> ('a \<Rightarrow> ('s, 'b) act) \<Rightarrow> ('s, 'b) act" where
  "act_bind m f = (\<lambda>s. case m s of (Inl e, s') \<Rightarrow> (Inl e, s') | (Inr a, s') \<Rightarrow> f a s')"

text \<open>\<open>try: m / except E as e: h\<close>, where \<open>c\<close> tells the exceptions the clause catches.\<close>

definition act_try :: "('s, 'a) act \<Rightarrow> (exn \<Rightarrow> bool) \<Rightarrow> (exn \<Rightarrow> ('s, 'a) act) \<Rightarrow> ('s, 'a) act" where
  "act_try m c h = (\<lambda>s. case m s of
       (Inl e, s') \<Rightarrow> (if c e then h e s' else (Inl e, s'))
     | (Inr a, s') \<Rightarrow> (Inr a, s'))"

text \<open>\<open>try: m / finally: fin\<close>, for a \<open>fin\<close> that does not raise.\<close>

definition act_finally :: "('s, 'a) act \<Rightarrow> ('s \<Rightarrow> 's) \<Rightarrow> ('s, 'a) act" where
  "act_finally m fin = (\<lambda>s. case m s of (r, s') \<Rightarrow> (r, fin s'))"

text \<open>Statements one after the other.\<close>

fun act_seq :: "('s, unit) act list \<Rightarrow> ('s, unit) act" where
  "act_seq [] s = (Inr (), s)"
| "act_seq (a # as) s = (case a s of (Inl e, s') \<Rightarrow> (Inl e, s') | (Inr _, s') \<Rightarrow> act_seq as s')"

lemmas act_defs = act_return_def act_raise_def act_bind_def act_try_def act_finally_def

text \<open>
  Hoare triples of actions: from a state with \<open>P\<close>, a normal end has \<open>Q\<close> of the value and the
  state, an exceptional end has \<open>E\<close> of the state.
\<close>

definition triple :: "('s \<Rightarrow> bool) \<Rightarrow> ('s, 'a) act \<Rightarrow> ('a \<Rightarrow> 's \<Rightarrow> bool) \<Rightarrow> ('s \<Rightarrow> bool) \<Rightarrow> bool" where
  "triple P m Q E \<longleftrightarrow> (\<forall>s r s'. P s \<longrightarrow> m s = (r, s') \<longrightarrow> (case r of Inl e \<Rightarrow> E s' | Inr a \<Rightarrow> Q a s'))"

lemma tripleI:
  "(\<And>s e s'. P s \<Longrightarrow> m s = (Inl e, s') \<Longrightarrow> E s') \<Longrightarrow>
   (\<And>s a s'. P s \<Longrightarrow> m s = (Inr a, s') \<Longrightarrow> Q a s') \<Longrightarrow> triple P m Q E"
  by (auto simp: triple_def split: sum.splits)

lemma tripleD:
  "triple P m Q E \<Longrightarrow> P s \<Longrightarrow> m s = (Inl e, s') \<Longrightarrow> E s'"
  "triple P m Q E \<Longrightarrow> P s \<Longrightarrow> m s = (Inr a, s') \<Longrightarrow> Q a s'"
  by (force simp: triple_def)+

lemma triple_bind:
  assumes m: "triple P m Q E" and f: "\<And>a. triple (Q a) (f a) R E"
  shows "triple P (act_bind m f) R E"
  unfolding triple_def
proof (intro allI impI)
  fix s r s' assume P: "P s" and run: "act_bind m f s = (r, s')"
  show "case r of Inl e \<Rightarrow> E s' | Inr a \<Rightarrow> R a s'"
  proof (cases "m s")
    case (Pair r1 s1)
    show ?thesis
    proof (cases r1)
      case (Inl e)
      then have "E s1" using tripleD(1) [OF m P] Pair by simp
      moreover have "r = Inl e" "s' = s1" using Inl Pair run by (simp_all add: act_bind_def)
      ultimately show ?thesis by simp
    next
      case (Inr a)
      then have Qa: "Q a s1" using tripleD(2) [OF m P] Pair by simp
      have "f a s1 = (r, s')" using Inr Pair run by (simp add: act_bind_def)
      then show ?thesis using f Qa by (simp add: triple_def)
    qed
  qed
qed

lemma triple_raise: "(\<And>s. P s \<Longrightarrow> E s) \<Longrightarrow> triple P (act_raise e) Q E"
  by (auto simp: triple_def act_raise_def)

lemma triple_return: "(\<And>s. P s \<Longrightarrow> Q a s) \<Longrightarrow> triple P (act_return a) Q E"
  by (auto simp: triple_def act_return_def)

lemma triple_finally:
  assumes m: "triple P m (\<lambda>a s. Q a (fin s)) (\<lambda>s. E (fin s))"
  shows "triple P (act_finally m fin) Q E"
proof (rule tripleI)
  fix s e s' assume "P s" "act_finally m fin s = (Inl e, s')"
  then show "E s'" using tripleD(1) [OF m] by (cases "m s") (auto simp: act_finally_def)
next
  fix s a s' assume "P s" "act_finally m fin s = (Inr a, s')"
  then show "Q a s'" using tripleD(2) [OF m] by (cases "m s") (auto simp: act_finally_def)
qed

lemma triple_weaken:
  assumes m: "triple P m Q E" and "\<And>s. P' s \<Longrightarrow> P s" and "\<And>a s. Q a s \<Longrightarrow> Q' a s"
    and "\<And>s. E s \<Longrightarrow> E' s"
  shows "triple P' m Q' E'"
  by (rule tripleI) (use assms(2-4) tripleD [OF m] in blast)+

section \<open>Bytes and text\<close>

type_synonym byte = "8 word"
type_synonym bytes = "byte list"

text \<open>A bytes literal, or the ASCII / Latin-1 encoding of a text.\<close>

definition ascii :: "string \<Rightarrow> bytes" where
  "ascii s = map (\<lambda>c. word_of_nat (of_char c)) s"

lemma length_ascii [simp]: "length (ascii s) = length s"
  by (simp add: ascii_def)

lemma ascii_append: "ascii (s @ t) = ascii s @ ascii t"
  by (simp add: ascii_def)

lemma of_char_lt_256: "(of_char c :: nat) < 256"
  by simp

lemma byte_of_char_inj: "(word_of_nat (of_char c) :: byte) = word_of_nat (of_char d) \<longleftrightarrow> c = d"
proof
  assume h: "(word_of_nat (of_char c) :: byte) = word_of_nat (of_char d)"
  have "unat (word_of_nat (of_char c) :: byte) = of_char c"
    "unat (word_of_nat (of_char d) :: byte) = of_char d"
    using of_char_lt_256 [of c] of_char_lt_256 [of d]
    by (simp_all add: unat_of_nat take_bit_nat_eq_self)
  then have "(of_char c :: nat) = of_char d" using h by metis
  then show "c = d" by simp
qed simp

lemma ascii_inj [simp]: "ascii s = ascii t \<longleftrightarrow> s = t"
  unfolding ascii_def
  by (rule inj_map_eq_map) (auto simp: inj_def byte_of_char_inj)

text \<open>Hexadecimal text of bytes: \<open>bytes.hex()\<close> and \<open>hexdigest()\<close>.\<close>

definition hex_char :: "nat \<Rightarrow> char" where
  "hex_char n = ''0123456789abcdef'' ! n"

definition hex_byte :: "byte \<Rightarrow> string" where
  "hex_byte b = [hex_char (unat b div 16), hex_char (unat b mod 16)]"

definition hex_of :: "bytes \<Rightarrow> string" where
  "hex_of bs = concat (map hex_byte bs)"

lemma hex_char_mem: "n < 16 \<Longrightarrow> hex_char n \<in> set ''0123456789abcdef''"
  unfolding hex_char_def by (rule nth_mem) simp

lemma set_hex_of: "set (hex_of bs) \<subseteq> set ''0123456789abcdef''"
proof -
  have "set (hex_byte b) \<subseteq> set ''0123456789abcdef''" for b
  proof -
    have "unat b < 256" using unsigned_less [of b] by simp
    then have "unat b div 16 < 16" "unat b mod 16 < 16" by simp_all
    then show ?thesis
      unfolding hex_byte_def using hex_char_mem by (metis empty_set empty_subsetI insert_subset list.simps(15))
  qed
  then show ?thesis unfolding hex_of_def by fastforce
qed

lemma length_hex_of [simp]: "length (hex_of bs) = 2 * length bs"
  by (induction bs) (simp_all add: hex_of_def hex_byte_def)

lemma hex_char_inj: "m < 16 \<Longrightarrow> n < 16 \<Longrightarrow> hex_char m = hex_char n \<longleftrightarrow> m = n"
  unfolding hex_char_def by (rule nth_eq_iff_index_eq) simp_all

lemma hex_byte_inj: "hex_byte a = hex_byte b \<longleftrightarrow> a = b"
proof
  assume h: "hex_byte a = hex_byte b"
  have lt: "unat a < 256" "unat b < 256" using unsigned_less [of a] unsigned_less [of b] by simp_all
  then have "unat a div 16 = unat b div 16" "unat a mod 16 = unat b mod 16"
    using h by (simp_all add: hex_byte_def hex_char_inj)
  then have "unat a = unat b" by (metis div_mult_mod_eq)
  then show "a = b" by (simp add: word_unat_eq_iff)
qed simp

lemma hex_of_inj [simp]: "hex_of a = hex_of b \<longleftrightarrow> a = b"
proof (induction a arbitrary: b)
  case Nil
  then show ?case by (cases b) (simp_all add: hex_of_def hex_byte_def)
next
  case (Cons x a)
  show ?case
  proof (cases b)
    case Nil
    then show ?thesis by (simp add: hex_of_def hex_byte_def)
  next
    case (Cons y b')
    have "hex_of (x # a) = hex_of (y # b') \<longleftrightarrow> hex_byte x = hex_byte y \<and> hex_of a = hex_of b'"
      by (auto simp: hex_of_def hex_byte_def)
    then show ?thesis using Cons.IH Cons by (simp add: hex_byte_inj)
  qed
qed

text \<open>\<open>hashlib.sha256(data).hexdigest()\<close>, for the digest function \<open>sha\<close>.\<close>

definition sha_hex :: "(bytes \<Rightarrow> bytes) \<Rightarrow> bytes \<Rightarrow> string" where
  "sha_hex sha b = hex_of (sha b)"

lemma sha_hex_eq [simp]: "sha_hex sha a = sha_hex sha b \<longleftrightarrow> sha a = sha b"
  by (simp add: sha_hex_def)

text \<open>The documented length of a SHA-256 digest.\<close>

definition digest32 :: "(bytes \<Rightarrow> bytes) \<Rightarrow> bool" where
  "digest32 sha \<longleftrightarrow> (\<forall>b. length (sha b) = 32)"

lemma sha_hex_nonempty: "digest32 sha \<Longrightarrow> sha_hex sha b \<noteq> []"
  using length_hex_of [of "sha b"]
  by (auto simp: sha_hex_def digest32_def simp flip: length_0_conv simp del: length_hex_of)

text \<open>\<open>str.strip()\<close>: white space removed at both ends.\<close>

definition py_space :: "char \<Rightarrow> bool" where
  "py_space c \<longleftrightarrow> (let n = (of_char c :: nat) in
     (9 \<le> n \<and> n \<le> 13) \<or> (28 \<le> n \<and> n \<le> 32) \<or> n = 133 \<or> n = 160)"

definition py_strip :: "string \<Rightarrow> string" where
  "py_strip s = rev (dropWhile py_space (rev (dropWhile py_space s)))"

lemma hex_not_space: "c \<in> set ''0123456789abcdef'' \<Longrightarrow> \<not> py_space c"
  by (auto simp: py_space_def Let_def)

lemma py_strip_clean:
  assumes "\<And>c. c \<in> set s \<Longrightarrow> \<not> py_space c" and "\<And>c. c \<in> set w \<Longrightarrow> py_space c"
  shows "py_strip (s @ w) = s"
proof (cases s)
  case Nil
  moreover have w: "dropWhile py_space w = []"
    using assms(2) by (simp only: dropWhile_eq_Nil_conv) blast
  ultimately show ?thesis by (simp add: py_strip_def w del: dropWhile_eq_Nil_conv)
next
  case (Cons a s')
  then have "dropWhile py_space (s @ w) = s @ w" using assms(1) by simp
  moreover have "dropWhile py_space (rev w @ rev s) = rev s"
  proof -
    have "dropWhile py_space (rev w @ rev s) = dropWhile py_space (rev s)"
      by (rule dropWhile_append2) (simp add: assms(2))
    also have "\<dots> = rev s"
      using assms(1) [OF last_in_set] by (auto simp: dropWhile_eq_self_iff hd_rev)
    finally show ?thesis .
  qed
  ultimately show ?thesis by (simp add: py_strip_def)
qed

lemma py_strip_hex: "py_strip (hex_of b @ [CHR 0x0A]) = hex_of b"
proof (rule py_strip_clean)
  fix c assume "c \<in> set (hex_of b)"
  then show "\<not> py_space c" using set_hex_of hex_not_space by blast
next
  fix c assume "c \<in> set [CHR 0x0A]"
  then show "py_space c" by (simp add: py_space_def)
qed

text \<open>\<open>needle in hay\<close> on str and on bytes.\<close>

fun py_prefix :: "'a list \<Rightarrow> 'a list \<Rightarrow> bool" where
  "py_prefix [] _ = True"
| "py_prefix (_ # _) [] = False"
| "py_prefix (a # as) (b # bs) = (a = b \<and> py_prefix as bs)"

fun py_in :: "'a list \<Rightarrow> 'a list \<Rightarrow> bool" where
  "py_in needle [] = (needle = [])"
| "py_in needle (c # cs) = (py_prefix needle (c # cs) \<or> py_in needle cs)"

text \<open>\<open>str(n)\<close> of an int.\<close>

definition digit_char :: "nat \<Rightarrow> char" where
  "digit_char d = ''0123456789'' ! d"

fun str_nat :: "nat \<Rightarrow> string" where
  "str_nat n = (if n < 10 then [digit_char n] else str_nat (n div 10) @ [digit_char (n mod 10)])"

declare str_nat.simps [simp del]

definition str_int :: "int \<Rightarrow> string" where
  "str_int i = (if i < 0 then CHR ''-'' # str_nat (nat (- i)) else str_nat (nat i))"

definition is_digit :: "char \<Rightarrow> bool" where
  "is_digit c \<longleftrightarrow> c \<in> set ''0123456789''"

definition digit_val :: "char \<Rightarrow> nat" where
  "digit_val c = of_char c - 48"

lemma digit_char_cases:
  "d < 10 \<Longrightarrow> is_digit (digit_char d) \<and> digit_val (digit_char d) = d"
proof -
  assume "d < 10"
  then have "d = 0 \<or> d = 1 \<or> d = 2 \<or> d = 3 \<or> d = 4 \<or> d = 5 \<or> d = 6 \<or> d = 7 \<or> d = 8 \<or> d = 9"
    by arith
  then show ?thesis
    by (elim disjE; simp add: digit_char_def is_digit_def digit_val_def)
qed

fun nat_of_digits :: "nat \<Rightarrow> string \<Rightarrow> nat" where
  "nat_of_digits acc [] = acc"
| "nat_of_digits acc (c # cs) = nat_of_digits (10 * acc + digit_val c) cs"

lemma nat_of_digits_append:
  "nat_of_digits acc (xs @ ys) = nat_of_digits (nat_of_digits acc xs) ys"
  by (induction xs arbitrary: acc) auto

lemma str_nat_digits: "\<forall>c \<in> set (str_nat n). is_digit c"
proof (induction n rule: str_nat.induct)
  case (1 n)
  then show ?case
    by (subst str_nat.simps) (auto simp: digit_char_cases)
qed

lemma str_nat_nonempty [simp]: "str_nat n \<noteq> []"
  by (subst str_nat.simps) simp

lemma nat_of_str_nat: "nat_of_digits 0 (str_nat n) = n"
proof (induction n rule: str_nat.induct)
  case (1 n)
  then show ?case
    by (subst str_nat.simps) (auto simp: digit_char_cases nat_of_digits_append)
qed

lemma str_nat_inj [simp]: "str_nat m = str_nat n \<longleftrightarrow> m = n"
  by (metis nat_of_str_nat)

lemma str_nat_no_leading_zero: "str_nat n = c # cs \<Longrightarrow> c = CHR ''0'' \<Longrightarrow> n = 0"
proof (induction n arbitrary: cs rule: str_nat.induct)
  case (1 n)
  show ?case
  proof (cases "n < 10")
    case True
    then have "digit_char n = CHR ''0''" using "1.prems" by (subst (asm) str_nat.simps) simp
    then have "digit_val (digit_char n) = 0" by (simp add: digit_val_def)
    then show ?thesis using digit_char_cases [OF True] by simp
  next
    case False
    then obtain ds where "str_nat (n div 10) = c # ds"
      using "1.prems"(1) by (subst (asm) str_nat.simps) (cases "str_nat (n div 10)", auto)
    then have "n div 10 = 0" using "1.IH" False "1.prems"(2) by blast
    then show ?thesis using False by simp
  qed
qed

end
