(* ===== verification/Json.thy ===== *)
theory Json
  imports Prelude "HOL-Library.AList"
begin

text \<open>
  JSON values without fractional numbers, the canonical text of
  \<open>json.dumps(value, sort_keys=True, separators=(",", ":"))\<close> and the reader \<open>json.loads\<close>,
  with the round trip between them.  The texts the program writes canonically and reads back
  (event records and frame bodies) hold ints and strings only; a number with a fraction or an
  exponent is a decode error of this reader.  Strings are over code points below 256, which the
  writer escapes as \<open>ensure_ascii\<close> does.
\<close>

datatype json =
    JNull
  | JBool bool
  | JInt int
  | JStr string
  | JList "json list"
  | JObj "(string \<times> json) list"

section \<open>Writing\<close>

definition esc_char :: "char \<Rightarrow> string" where
  "esc_char c = (
     if c = CHR 0x22 then [CHR 0x5C, CHR 0x22]
     else if c = CHR 0x5C then [CHR 0x5C, CHR 0x5C]
     else if c = CHR 0x0A then [CHR 0x5C, CHR ''n'']
     else if c = CHR 0x0D then [CHR 0x5C, CHR ''r'']
     else if c = CHR 0x09 then [CHR 0x5C, CHR ''t'']
     else if c = CHR 0x08 then [CHR 0x5C, CHR ''b'']
     else if c = CHR 0x0C then [CHR 0x5C, CHR ''f'']
     else if 32 \<le> (of_char c :: nat) \<and> (of_char c :: nat) < 127 then [c]
     else [CHR 0x5C, CHR ''u'', CHR ''0'', CHR ''0'',
           hex_char (of_char c div 16), hex_char (of_char c mod 16)])"

definition esc_str :: "string \<Rightarrow> string" where
  "esc_str s = concat (map esc_char s) @ [CHR 0x22]"

fun show_json :: "json \<Rightarrow> string"
  and show_items :: "json list \<Rightarrow> string"
  and show_members :: "(string \<times> json) list \<Rightarrow> string" where
  "show_json JNull = ''null''"
| "show_json (JBool b) = (if b then ''true'' else ''false'')"
| "show_json (JInt i) = str_int i"
| "show_json (JStr s) = CHR 0x22 # esc_str s"
| "show_json (JList []) = ''[]''"
| "show_json (JList (v # vs)) = CHR ''['' # show_json v @ show_items vs"
| "show_json (JObj []) = ''{}''"
| "show_json (JObj ((k, v) # kvs)) =
     CHR ''{'' # CHR 0x22 # esc_str k @ CHR '':'' # show_json v @ show_members kvs"
| "show_items [] = '']''"
| "show_items (v # vs) = CHR '','' # show_json v @ show_items vs"
| "show_members [] = ''}''"
| "show_members ((k, v) # kvs) =
     CHR '','' # CHR 0x22 # esc_str k @ CHR '':'' # show_json v @ show_members kvs"

text \<open>\<open>sort_keys=True\<close>: the members of every object in the order of their keys.\<close>

fun sort_members :: "json \<Rightarrow> json" where
  "sort_members (JList vs) = JList (map sort_members vs)"
| "sort_members (JObj kvs) = JObj (sort_key fst (map (map_prod id sort_members) kvs))"
| "sort_members v = v"

definition json_dumps :: "json \<Rightarrow> string" where
  "json_dumps v = show_json (sort_members v)"

text \<open>Keys of an object are distinct, as they are in every Python dict.\<close>

fun wf_json :: "json \<Rightarrow> bool" where
  "wf_json (JList vs) = list_all wf_json vs"
| "wf_json (JObj kvs) = (distinct (map fst kvs) \<and> list_all (\<lambda>kv. wf_json (snd kv)) kvs)"
| "wf_json v = True"

section \<open>Reading\<close>

type_synonym 'a reader = "string \<Rightarrow> ('a \<times> string) option"

definition json_ws :: "char \<Rightarrow> bool" where
  "json_ws c \<longleftrightarrow> c \<in> {CHR '' '', CHR 0x09, CHR 0x0A, CHR 0x0D}"

definition hex_val :: "char \<Rightarrow> nat option" where
  "hex_val c = (let n = of_char c :: nat in
     if 48 \<le> n \<and> n \<le> 57 then Some (n - 48)
     else if 97 \<le> n \<and> n \<le> 102 then Some (n - 87)
     else if 65 \<le> n \<and> n \<le> 70 then Some (n - 55) else None)"

definition unescape :: "char \<Rightarrow> char option" where
  "unescape e = (
     if e = CHR 0x22 then Some (CHR 0x22) else if e = CHR 0x5C then Some (CHR 0x5C)
     else if e = CHR ''/'' then Some (CHR ''/'') else if e = CHR ''n'' then Some (CHR 0x0A)
     else if e = CHR ''r'' then Some (CHR 0x0D) else if e = CHR ''t'' then Some (CHR 0x09)
     else if e = CHR ''b'' then Some (CHR 0x08) else if e = CHR ''f'' then Some (CHR 0x0C)
     else None)"

definition hex4 :: "char \<Rightarrow> char \<Rightarrow> char \<Rightarrow> char \<Rightarrow> char option" where
  "hex4 a b c d = (case (hex_val a, hex_val b, hex_val c, hex_val d) of
     (Some 0, Some 0, Some x, Some y) \<Rightarrow> Some (char_of (16 * x + y)) | _ \<Rightarrow> None)"

fun read_chars :: "string reader" where
  "read_chars [] = None"
| "read_chars (c # cs) = (
     if c = CHR 0x22 then Some ([], cs)
     else if c = CHR 0x5C then
       (case cs of
          e # cs' \<Rightarrow>
            if e = CHR ''u'' then
              (case cs' of
                 a # b # x # y # r \<Rightarrow>
                   (case hex4 a b x y of None \<Rightarrow> None
                    | Some ch \<Rightarrow> map_option (map_prod ((#) ch) id) (read_chars r))
               | _ \<Rightarrow> None)
            else (case unescape e of None \<Rightarrow> None
                  | Some ch \<Rightarrow> map_option (map_prod ((#) ch) id) (read_chars cs'))
        | [] \<Rightarrow> None)
     else if (of_char c :: nat) < 32 then None
     else map_option (map_prod ((#) c) id) (read_chars cs))"

definition read_nat :: "nat reader" where
  "read_nat s = (let ds = takeWhile is_digit s; r = dropWhile is_digit s in
     if ds = [] \<or> (2 \<le> length ds \<and> hd ds = CHR ''0'')
        \<or> (r \<noteq> [] \<and> hd r \<in> {CHR ''.'', CHR ''e'', CHR ''E''}) then None
     else Some (nat_of_digits 0 ds, r))"

definition read_int :: "int reader" where
  "read_int s = (case s of
     c # cs \<Rightarrow> (if c = CHR ''-'' then map_option (map_prod (\<lambda>n. - int n) id) (read_nat cs)
                else map_option (map_prod int id) (read_nat s))
   | [] \<Rightarrow> None)"

fun read_word :: "string \<Rightarrow> unit reader" where
  "read_word [] s = Some ((), s)"
| "read_word (w # ws) [] = None"
| "read_word (w # ws) (c # cs) = (if w = c then read_word ws cs else None)"

text \<open>A dict built from the members in order: a repeated key keeps its place and its last value.\<close>

fun dict_of_pairs :: "(string \<times> json) list \<Rightarrow> (string \<times> json) list \<Rightarrow> (string \<times> json) list" where
  "dict_of_pairs d [] = d"
| "dict_of_pairs d ((k, v) # kvs) = dict_of_pairs (AList.update k v d) kvs"

type_synonym hook = "(string \<times> json) list \<Rightarrow> json option"

fun read_value :: "hook \<Rightarrow> nat \<Rightarrow> json reader"
  and read_items :: "hook \<Rightarrow> nat \<Rightarrow> json list reader"
  and read_member :: "hook \<Rightarrow> nat \<Rightarrow> (string \<times> json) reader"
  and read_members :: "hook \<Rightarrow> nat \<Rightarrow> (string \<times> json) list reader" where
  "read_value h 0 s = None"
| "read_value h (Suc f) s = (case dropWhile json_ws s of
     [] \<Rightarrow> None
   | c # cs \<Rightarrow>
       if c = CHR 0x22 then map_option (map_prod JStr id) (read_chars cs)
       else if c = CHR ''['' then
         (case dropWhile json_ws cs of
            [] \<Rightarrow> None
          | d # ds \<Rightarrow> if d = CHR '']'' then Some (JList [], ds)
              else (case read_value h f (d # ds) of None \<Rightarrow> None
                    | Some (v, r) \<Rightarrow> map_option (map_prod (\<lambda>vs. JList (v # vs)) id) (read_items h f r)))
       else if c = CHR ''{'' then
         (case dropWhile json_ws cs of
            [] \<Rightarrow> None
          | d # ds \<Rightarrow> if d = CHR ''}'' then map_option (\<lambda>v. (v, ds)) (h [])
              else (case read_member h f (d # ds) of None \<Rightarrow> None
                    | Some (kv, r) \<Rightarrow> (case read_members h f r of None \<Rightarrow> None
                        | Some (kvs, r') \<Rightarrow> map_option (\<lambda>v. (v, r')) (h (kv # kvs)))))
       else if c = CHR ''n'' then map_option (map_prod (\<lambda>_. JNull) id) (read_word ''null'' (c # cs))
       else if c = CHR ''t'' then map_option (map_prod (\<lambda>_. JBool True) id) (read_word ''true'' (c # cs))
       else if c = CHR ''f'' then map_option (map_prod (\<lambda>_. JBool False) id) (read_word ''false'' (c # cs))
       else map_option (map_prod JInt id) (read_int (c # cs)))"
| "read_items h 0 s = None"
| "read_items h (Suc f) s = (case dropWhile json_ws s of
     [] \<Rightarrow> None
   | c # cs \<Rightarrow> if c = CHR '']'' then Some ([], cs)
       else if c = CHR '','' then
         (case read_value h f cs of None \<Rightarrow> None
          | Some (v, r) \<Rightarrow> map_option (map_prod ((#) v) id) (read_items h f r))
       else None)"
| "read_member h 0 s = None"
| "read_member h (Suc f) s = (case dropWhile json_ws s of
     [] \<Rightarrow> None
   | c # cs \<Rightarrow> if c = CHR 0x22 then
         (case read_chars cs of None \<Rightarrow> None
          | Some (k, r) \<Rightarrow> (case dropWhile json_ws r of
              [] \<Rightarrow> None
            | d # ds \<Rightarrow> if d = CHR '':'' then map_option (map_prod (Pair k) id) (read_value h f ds)
                         else None))
       else None)"
| "read_members h 0 s = None"
| "read_members h (Suc f) s = (case dropWhile json_ws s of
     [] \<Rightarrow> None
   | c # cs \<Rightarrow> if c = CHR ''}'' then Some ([], cs)
       else if c = CHR '','' then
         (case read_member h f cs of None \<Rightarrow> None
          | Some (kv, r) \<Rightarrow> map_option (map_prod ((#) kv) id) (read_members h f r))
       else None)"

text \<open>
  \<open>json.loads(text)\<close>: one value, and nothing but white space after it.  The hook builds an object from
  its members, as \<open>object_pairs_hook\<close> does; without one it is the dict.
\<close>

definition json_loads_with :: "hook \<Rightarrow> string \<Rightarrow> exn + json" where
  "json_loads_with h s = (case read_value h (2 * length s + 2) s of
     None \<Rightarrow> Inl (ValueError ''JSONDecodeError'')
   | Some (v, r) \<Rightarrow> if dropWhile json_ws r = [] then Inr v else Inl (ValueError ''Extra data''))"

definition dict_hook :: hook where
  "dict_hook kvs = Some (JObj (dict_of_pairs [] kvs))"

definition json_loads :: "string \<Rightarrow> exn + json" where
  "json_loads = json_loads_with dict_hook"

text \<open>UTF-8 to text; what decodes outside the modelled code points is a decode error.\<close>

fun utf8_text :: "bytes \<Rightarrow> string option" where
  "utf8_text [] = Some []"
| "utf8_text (b # bs) = (
     if unat b < 128 then map_option ((#) (char_of (unat b))) (utf8_text bs)
     else case bs of
       [] \<Rightarrow> None
     | c # cs \<Rightarrow> if (unat b = 194 \<or> unat b = 195) \<and> 128 \<le> unat c \<and> unat c < 192
                 then map_option ((#) (char_of (64 * (unat b - 192) + (unat c - 128)))) (utf8_text cs)
                 else None)"

definition json_loads_bytes :: "bytes \<Rightarrow> exn + json" where
  "json_loads_bytes b = (case utf8_text b of
     None \<Rightarrow> Inl (ValueError ''UnicodeDecodeError'') | Some s \<Rightarrow> json_loads s)"

definition canonical_json :: "json \<Rightarrow> bytes" where
  "canonical_json v = ascii (json_dumps v)"

section \<open>Strings read back\<close>

lemma hex_val_hex_char: "n < 16 \<Longrightarrow> hex_val (hex_char n) = Some n"
proof -
  have "list_all (\<lambda>k. hex_val (hex_char k) = Some k) [0..<16]" by code_simp
  then show "n < 16 \<Longrightarrow> ?thesis" by (simp only: list_all_iff set_upt) simp
qed

lemma hex4_hex_char:
  "hex4 (CHR ''0'') (CHR ''0'') (hex_char (of_char c div 16)) (hex_char (of_char c mod 16)) = Some c"
proof -
  have "(of_char c :: nat) div 16 < 16" using of_char_lt_256 [of c] by linarith
  moreover have "hex_val (CHR ''0'') = Some 0" by (simp add: hex_val_def)
  ultimately show ?thesis by (simp add: hex4_def hex_val_hex_char)
qed

lemma read_chars_esc_char:
  "read_chars (esc_char c @ t) = map_option (map_prod ((#) c) id) (read_chars t)"
  by (simp add: esc_char_def unescape_def hex4_hex_char)

lemma read_chars_esc_str: "read_chars (esc_str s @ r) = Some (s, r)"
proof (induction s)
  case Nil
  then show ?case by (simp add: esc_str_def)
next
  case (Cons c s)
  have "esc_str (c # s) @ r = esc_char c @ (esc_str s @ r)" by (simp add: esc_str_def)
  then show ?case using Cons.IH by (simp only: read_chars_esc_char) simp
qed

section \<open>Numbers read back\<close>

text \<open>What may follow a number: nothing that would continue it.\<close>

fun ends_number :: "string \<Rightarrow> bool" where
  "ends_number [] = True"
| "ends_number (c # cs) = (\<not> is_digit c \<and> c \<notin> {CHR ''.'', CHR ''e'', CHR ''E''})"

lemma ends_number_seps [simp]:
  "ends_number (CHR '','' # t)" "ends_number (CHR '']'' # t)" "ends_number (CHR ''}'' # t)"
  by (simp_all add: is_digit_def)

lemma str_nat_0: "str_nat 0 = [digit_char 0]"
  by (subst str_nat.simps) simp

lemma str_nat_two_digits: "2 \<le> length (str_nat n) \<Longrightarrow> hd (str_nat n) \<noteq> CHR ''0''"
proof
  assume l: "2 \<le> length (str_nat n)" and h: "hd (str_nat n) = CHR ''0''"
  obtain c cs where c: "str_nat n = c # cs" by (cases "str_nat n") auto
  then have "n = 0" using h str_nat_no_leading_zero by simp
  then show False using l str_nat_0 by simp
qed

lemma read_nat_str_nat: "ends_number r \<Longrightarrow> read_nat (str_nat n @ r) = Some (n, r)"
proof -
  assume r: "ends_number r"
  have tw: "takeWhile is_digit (str_nat n @ r) = str_nat n"
    and dw: "dropWhile is_digit (str_nat n @ r) = r"
    using str_nat_digits [of n] r by (cases r; simp)+
  show ?thesis
    using r str_nat_two_digits [of n] unfolding read_nat_def Let_def tw dw
    by (cases r) (auto simp: nat_of_str_nat)
qed

lemma str_nat_hd_digit: "\<exists>c cs. str_nat n = c # cs \<and> is_digit c"
  using str_nat_digits [of n] by (cases "str_nat n") auto

lemma str_int_hd: "\<exists>c cs. str_int i = c # cs \<and> (c = CHR ''-'' \<or> is_digit c)"
  using str_nat_hd_digit [of "nat i"] by (auto simp: str_int_def)

lemma read_int_str_int: "ends_number r \<Longrightarrow> read_int (str_int i @ r) = Some (i, r)"
proof (cases "i < 0")
  case True
  then show "ends_number r \<Longrightarrow> ?thesis" by (simp add: read_int_def str_int_def read_nat_str_nat)
next
  case False
  obtain c cs where c: "str_nat (nat i) = c # cs" "is_digit c" using str_nat_hd_digit by blast
  have "c \<noteq> CHR ''-''" using c(2) by (auto simp: is_digit_def)
  moreover assume "ends_number r"
  ultimately show ?thesis
    using False c(1) read_nat_str_nat [of r "nat i"] by (simp add: read_int_def str_int_def)
qed

section \<open>Values read back\<close>

lemma alist_update_new: "k \<notin> fst ` set d \<Longrightarrow> AList.update k v d = d @ [(k, v)]"
  by (induction d) auto

lemma dict_of_pairs_distinct:
  "distinct (map fst (d @ kvs)) \<Longrightarrow> dict_of_pairs d kvs = d @ kvs"
proof (induction kvs arbitrary: d)
  case Nil
  then show ?case by simp
next
  case (Cons kv kvs)
  obtain k v where kv: "kv = (k, v)" by (cases kv)
  have "k \<notin> fst ` set d" using Cons.prems kv by auto
  then have "AList.update k v d = d @ [(k, v)]" by (rule alist_update_new)
  then show ?case using Cons kv by simp
qed

text \<open>The first character of a value is no white space and closes nothing.\<close>

lemma show_json_first:
  "\<exists>c cs. show_json v = c # cs \<and> \<not> json_ws c \<and> c \<noteq> CHR '']'' \<and> c \<noteq> CHR ''}''"
proof (cases v)
  case (JInt i)
  then show ?thesis using str_int_hd [of i] by (auto simp: json_ws_def is_digit_def)
next
  case (JList vs)
  then show ?thesis by (cases vs) (auto simp: json_ws_def)
next
  case (JObj kvs)
  then show ?thesis by (cases kvs) (auto simp: json_ws_def)
qed (auto simp: json_ws_def)

lemma dropWhile_ws_show: "dropWhile json_ws (show_json v @ r) = show_json v @ r"
  using show_json_first [of v] by (metis append_Cons dropWhile.simps(2))

lemma read_value_int:
  "ends_number r \<Longrightarrow> 0 < f \<Longrightarrow> read_value h f (str_int i @ r) = Some (JInt i, r)"
proof -
  assume r: "ends_number r" and f: "0 < f"
  obtain c cs where c: "str_int i = c # cs" and d: "c = CHR ''-'' \<or> is_digit c"
    using str_int_hd by blast
  have n: "\<not> json_ws c" "c \<noteq> CHR 0x22" "c \<noteq> CHR ''[''" "c \<noteq> CHR ''{''" "c \<noteq> CHR ''n''"
    "c \<noteq> CHR ''t''" "c \<noteq> CHR ''f''"
    using d by (auto simp: json_ws_def is_digit_def)
  have "read_int (c # (cs @ r)) = Some (i, r)"
    using read_int_str_int [OF r, of i] c by simp
  then show ?thesis using f n c by (cases f) simp_all
qed

lemmas read_simps = read_value.simps read_items.simps read_member.simps read_members.simps

lemma json_ws_seps [simp]:
  "\<not> json_ws (CHR '','')" "\<not> json_ws (CHR '':'')" "\<not> json_ws (CHR ''['')" "\<not> json_ws (CHR '']'')"
  "\<not> json_ws (CHR ''{'')" "\<not> json_ws (CHR ''}'')" "\<not> json_ws (CHR 0x22)"
  by (simp_all add: json_ws_def)

lemma read_member_key:
  "read_member h (Suc g) (CHR 0x22 # esc_str k @ CHR '':'' # t)
     = map_option (map_prod (Pair k) id) (read_value h g t)"
  by (simp add: read_chars_esc_str)

lemma ends_number_show_items: "ends_number (show_items vs @ r)"
  by (cases vs) (simp_all add: is_digit_def)

lemma ends_number_show_members: "ends_number (show_members kvs @ r)"
  by (cases kvs) (auto simp: is_digit_def)

text \<open>
  The round trip, for every rest that does not continue a number, with fuel bounded by the length
  of the text written.
\<close>

definition plain_hook :: "hook \<Rightarrow> bool" where
  "plain_hook h \<longleftrightarrow> (\<forall>kvs. distinct (map fst kvs) \<longrightarrow> h kvs = Some (JObj kvs))"

lemma plain_dict_hook: "plain_hook dict_hook"
  using dict_of_pairs_distinct [of "[]"] by (simp add: plain_hook_def dict_hook_def)

lemma read_show:
  assumes h: "plain_hook h"
  shows "wf_json v \<Longrightarrow> length (show_json v) \<le> f \<Longrightarrow> ends_number r \<Longrightarrow>
     read_value h f (show_json v @ r) = Some (v, r)"
  "list_all wf_json vs \<Longrightarrow> length (show_items vs) \<le> f \<Longrightarrow>
     read_items h f (show_items vs @ r) = Some (vs, r)"
  "list_all (\<lambda>kv. wf_json (snd kv)) kvs \<Longrightarrow> length (show_members kvs) \<le> f \<Longrightarrow>
     read_members h f (show_members kvs @ r) = Some (kvs, r)"
proof (induction v and vs and kvs arbitrary: f r and f r and f r
    rule: show_json_show_items_show_members.induct)
  case 1
  then show ?case by (cases f) (simp_all add: json_ws_def)
next
  case (2 b)
  then show ?case by (cases f; cases b) (simp_all add: json_ws_def)
next
  case (3 i)
  then have "0 < f" using str_int_hd [of i] by auto
  then show ?case using 3 by (simp add: read_value_int)
next
  case (4 s)
  then show ?case by (cases f) (simp_all add: read_chars_esc_str)
next
  case 5
  then show ?case by (cases f) simp_all
next
  case (6 v vs)
  then obtain g where f: "f = Suc g" by (cases f) auto
  obtain c cs where c: "show_json v = c # cs" "\<not> json_ws c" "c \<noteq> CHR '']''"
    using show_json_first [of v] by blast
  have v: "read_value h g (show_json v @ (show_items vs @ r)) = Some (v, show_items vs @ r)"
    using "6.IH"(1) "6.prems" f ends_number_show_items by simp
  have vs: "read_items h g (show_items vs @ r) = Some (vs, r)"
    using "6.IH"(2) "6.prems" f by simp
  show ?case using v vs c f by simp
next
  case 7
  have "h [] = Some (JObj [])" using h by (simp add: plain_hook_def)
  then show ?case using 7 by (cases f) simp_all
next
  case (8 k v kvs)
  then obtain g where f: "f = Suc (Suc g)" by (cases f; cases "f - 1") auto
  have v: "read_value h g (show_json v @ (show_members kvs @ r)) = Some (v, show_members kvs @ r)"
    using "8.IH"(1) "8.prems" f ends_number_show_members by simp
  have kvs: "read_members h (Suc g) (show_members kvs @ r) = Some (kvs, r)"
    using "8.IH"(2) "8.prems" f by (simp del: read_members.simps)
  have d: "h ((k, v) # kvs) = Some (JObj ((k, v) # kvs))"
    using "8.prems" h by (simp add: plain_hook_def)
  show ?case using v kvs d f
    by (simp add: read_member_key del: read_member.simps read_members.simps)
next
  case 9
  then show ?case by (cases f) simp_all
next
  case (10 v vs)
  then obtain g where f: "f = Suc g" by (cases f) auto
  have v: "read_value h g (show_json v @ (show_items vs @ r)) = Some (v, show_items vs @ r)"
    using "10.IH"(1) "10.prems" f ends_number_show_items by simp
  have vs: "read_items h g (show_items vs @ r) = Some (vs, r)"
    using "10.IH"(2) "10.prems" f by simp
  show ?case using v vs f by simp
next
  case 11
  then show ?case by (cases f) simp_all
next
  case (12 k v kvs)
  then obtain g where f: "f = Suc (Suc g)" by (cases f; cases "f - 1") auto
  have v: "read_value h g (show_json v @ (show_members kvs @ r)) = Some (v, show_members kvs @ r)"
    using "12.IH"(1) "12.prems" f ends_number_show_members by simp
  have kvs: "read_members h (Suc g) (show_members kvs @ r) = Some (kvs, r)"
    using "12.IH"(2) "12.prems" f by (simp del: read_members.simps)
  show ?case using v kvs f
    by (simp add: read_member_key del: read_member.simps read_members.simps)
      (simp add: read_members.simps(2) read_member_key del: read_member.simps)
qed

section \<open>The canonical text\<close>

lemma wf_sort_members: "wf_json v \<Longrightarrow> wf_json (sort_members v)"
proof (induction v rule: sort_members.induct)
  case (1 vs)
  then show ?case by (auto simp: list_all_iff)
next
  case (2 kvs)
  have "mset (map fst (sort_key fst (map (map_prod id sort_members) kvs)))
      = mset (map fst (map (map_prod id sort_members) kvs))" by (simp only: mset_map mset_sort)
  also have "\<dots> = mset (map fst kvs)" by (simp add: comp_def)
  finally have "distinct (map fst (sort_key fst (map (map_prod id sort_members) kvs)))
      \<longleftrightarrow> distinct (map fst kvs)" by (rule mset_eq_imp_distinct_iff)
  then show ?case using 2 by (auto simp: list_all_iff)
qed auto

definition plain_char :: "char \<Rightarrow> bool" where
  "plain_char c \<longleftrightarrow> (of_char c :: nat) < 128"

lemma plain_digit: "is_digit c \<Longrightarrow> plain_char c"
  by (auto simp: is_digit_def plain_char_def)

lemma plain_hex_char: "n < 16 \<Longrightarrow> plain_char (hex_char n)"
  using hex_char_mem [of n] by (auto simp: plain_char_def)

lemma plain_esc_char: "x \<in> set (esc_char c) \<Longrightarrow> plain_char x"
proof -
  have "(of_char c :: nat) div 16 < 16" using of_char_lt_256 [of c] by linarith
  then have "plain_char (hex_char (of_char c div 16))" "plain_char (hex_char (of_char c mod 16))"
    by (simp_all add: plain_hex_char)
  then show "x \<in> set (esc_char c) \<Longrightarrow> plain_char x"
    by (auto simp: esc_char_def plain_char_def split: if_splits)
qed

lemma plain_esc_str: "x \<in> set (esc_str k) \<Longrightarrow> plain_char x"
  by (auto simp: esc_str_def plain_esc_char) (simp add: plain_char_def)

lemma plain_str_int: "x \<in> set (str_int i) \<Longrightarrow> plain_char x"
  using str_nat_digits by (auto simp: str_int_def plain_digit split: if_splits) (simp add: plain_char_def)

lemma plain_show:
  "x \<in> set (show_json v) \<Longrightarrow> plain_char x"
  "x \<in> set (show_items vs) \<Longrightarrow> plain_char x"
  "x \<in> set (show_members kvs) \<Longrightarrow> plain_char x"
proof (induction v and vs and kvs rule: show_json_show_items_show_members.induct)
  case (2 b)
  then show ?case by (cases b) (auto simp: plain_char_def)
qed (auto simp: plain_char_def plain_str_int [unfolded plain_char_def]
    plain_esc_str [unfolded plain_char_def])

text \<open>The text holds no control character, so it stays on one line.\<close>

definition printable :: "char \<Rightarrow> bool" where
  "printable c \<longleftrightarrow> 32 \<le> (of_char c :: nat) \<and> (of_char c :: nat) < 127"

lemma printable_hex_char: "n < 16 \<Longrightarrow> printable (hex_char n)"
  using hex_char_mem [of n] by (auto simp: printable_def)

lemma printable_esc_char: "x \<in> set (esc_char c) \<Longrightarrow> printable x"
proof -
  have "(of_char c :: nat) div 16 < 16" using of_char_lt_256 [of c] by linarith
  then have "printable (hex_char (of_char c div 16))" "printable (hex_char (of_char c mod 16))"
    by (simp_all add: printable_hex_char)
  then show "x \<in> set (esc_char c) \<Longrightarrow> printable x"
    by (auto simp: esc_char_def printable_def split: if_splits)
qed

lemma printable_esc_str: "x \<in> set (esc_str k) \<Longrightarrow> printable x"
  by (auto simp: esc_str_def printable_esc_char) (simp add: printable_def)

lemma printable_str_int: "x \<in> set (str_int i) \<Longrightarrow> printable x"
proof -
  have d: "is_digit y \<Longrightarrow> printable y" for y by (auto simp: is_digit_def printable_def)
  show "x \<in> set (str_int i) \<Longrightarrow> printable x"
    using str_nat_digits d by (auto simp: str_int_def split: if_splits) (simp add: printable_def)
qed

lemma show_printable:
  "x \<in> set (show_json v) \<Longrightarrow> printable x"
  "x \<in> set (show_items vs) \<Longrightarrow> printable x"
  "x \<in> set (show_members kvs) \<Longrightarrow> printable x"
proof (induction v and vs and kvs rule: show_json_show_items_show_members.induct)
  case (2 b)
  then show ?case by (cases b) (auto simp: printable_def)
qed (auto simp: printable_def printable_str_int [unfolded printable_def]
    printable_esc_str [unfolded printable_def])

lemma utf8_text_ascii: "(\<And>c. c \<in> set s \<Longrightarrow> plain_char c) \<Longrightarrow> utf8_text (ascii s) = Some s"
proof (induction s)
  case Nil
  then show ?case by (simp add: ascii_def)
next
  case (Cons c s)
  have "unat (word_of_nat (of_char c) :: byte) = of_char c"
    using of_char_lt_256 [of c] by (simp add: unat_of_nat take_bit_nat_eq_self)
  moreover have "(of_char c :: nat) < 128" using Cons.prems [of c] by (simp add: plain_char_def)
  ultimately show ?case using Cons by (simp add: ascii_def)
qed

theorem json_loads_with_dumps:
  "plain_hook h \<Longrightarrow> wf_json v \<Longrightarrow> json_loads_with h (json_dumps v) = Inr (sort_members v)"
  using read_show(1) [of h, OF _ wf_sort_members, of v "2 * length (json_dumps v) + 2" "[]"]
  by (simp add: json_loads_with_def json_dumps_def)

corollary json_loads_dumps: "wf_json v \<Longrightarrow> json_loads (json_dumps v) = Inr (sort_members v)"
  by (simp add: json_loads_def json_loads_with_dumps plain_dict_hook)

theorem json_loads_canonical:
  "wf_json v \<Longrightarrow> json_loads_bytes (canonical_json v) = Inr (sort_members v)"
proof -
  assume wf: "wf_json v"
  have "utf8_text (ascii (json_dumps v)) = Some (json_dumps v)"
    by (rule utf8_text_ascii) (simp add: json_dumps_def plain_show(1))
  then show ?thesis
    using json_loads_dumps [OF wf] by (simp add: json_loads_bytes_def canonical_json_def)
qed

corollary canonical_json_inj:
  "wf_json v \<Longrightarrow> wf_json w \<Longrightarrow> canonical_json v = canonical_json w \<longleftrightarrow> sort_members v = sort_members w"
  by (metis json_loads_canonical sum.inject(2) canonical_json_def json_dumps_def)

end
