(* ===== verification/Sealed_File.thy ===== *)
theory Sealed_File
  imports Prelude
begin

text \<open>
  A SQLite file with a \<open>.sha256\<close> sidecar, as the ledger and the coordinator both keep it.  What
  SQLite writes for given committed tables is the parameter \<open>im\<close> (its file format is not code of
  the repository); \<open>sha\<close> is SHA-256.  A torn write appends bytes to the file behind SQLite's back.
\<close>

record 'd disk =
  stored :: "'d option"       \<comment> \<open>committed tables; None: the file does not exist\<close>
  torn :: bytes               \<comment> \<open>bytes appended to the file outside SQLite\<close>
  sidecar :: "string option"  \<comment> \<open>text of the seal file; None: no such file\<close>
  writable :: bool            \<comment> \<open>whether the directory takes the new seal file\<close>

definition empty_disk :: "'d disk" where
  "empty_disk = \<lparr>stored = None, torn = [], sidecar = None, writable = True\<rparr>"

text \<open>\<open>path.read_bytes()\<close>\<close>

definition file_bytes :: "('d \<Rightarrow> bytes) \<Rightarrow> 'd disk \<Rightarrow> bytes option" where
  "file_bytes im d = map_option (\<lambda>db. im db @ torn d) (stored d)"

text \<open>
  The digest of the file, written to a temporary file, flushed and moved over the sidecar.  The
  move is one atomic step; a failed write leaves the old sidecar.
\<close>

definition write_seal :: "(bytes \<Rightarrow> bytes) \<Rightarrow> ('d \<Rightarrow> bytes) \<Rightarrow> ('d disk, unit) act" where
  "write_seal sha im d = (case file_bytes im d of
       None \<Rightarrow> (Inl (OSError ''no such file''), d)
     | Some b \<Rightarrow> if writable d then (Inr (), d\<lparr>sidecar := Some (sha_hex sha b @ [CHR 0x0A])\<rparr>)
                 else (Inl (OSError ''seal not writable''), d))"

text \<open>\<open>read_text().strip() == sha256(read_bytes()).hexdigest()\<close>\<close>

definition seal_matches :: "(bytes \<Rightarrow> bytes) \<Rightarrow> ('d \<Rightarrow> bytes) \<Rightarrow> 'd disk \<Rightarrow> bool" where
  "seal_matches sha im d = (case (sidecar d, file_bytes im d) of
       (Some s, Some b) \<Rightarrow> py_strip s = sha_hex sha b
     | _ \<Rightarrow> False)"

text \<open>The file as the last successful seal left it.\<close>

definition sealed :: "(bytes \<Rightarrow> bytes) \<Rightarrow> ('d \<Rightarrow> bytes) \<Rightarrow> 'd \<Rightarrow> 'd disk \<Rightarrow> bool" where
  "sealed sha im db d \<longleftrightarrow> stored d = Some db \<and> torn d = []
     \<and> sidecar d = Some (sha_hex sha (im db) @ [CHR 0x0A])"

lemma strip_seal [simp]: "py_strip (sha_hex sha b @ [CHR 0x0A]) = sha_hex sha b"
  by (simp add: sha_hex_def py_strip_hex)

lemma sealed_matches: "sealed sha im db d \<Longrightarrow> seal_matches sha im d"
  by (simp add: sealed_def seal_matches_def file_bytes_def)

text \<open>
  A file that was sealed with tables \<open>db\<close> and now holds other bytes passes the check only if the
  two contents collide.
\<close>

lemma seal_detects:
  assumes "sidecar d = Some (sha_hex sha b @ [CHR 0x0A])" and "file_bytes im d = Some b'"
  shows "seal_matches sha im d \<longleftrightarrow> sha b = sha b'"
  using assms by (simp add: seal_matches_def)

lemma write_seal_ok:
  "stored d = Some db \<Longrightarrow> torn d = [] \<Longrightarrow> writable d \<Longrightarrow>
     \<exists>d'. write_seal sha im d = (Inr (), d') \<and> sealed sha im db d' \<and> writable d'"
  by (simp add: write_seal_def file_bytes_def sealed_def)

lemma write_seal_stored: "write_seal sha im d = (r, d') \<Longrightarrow>
   stored d' = stored d \<and> torn d' = torn d \<and> writable d' = writable d"
  by (auto simp: write_seal_def split: option.splits if_splits)

text \<open>
  The contract of a service over a sealed file: an operation that returns normally leaves the file
  sealed, one that raises while the seal can be written leaves it as it was.
\<close>

locale sealed_service =
  fixes run_op :: "'o \<Rightarrow> ('s, unit) act"
    and intact :: "'s \<Rightarrow> bool"
    and can_seal :: "'s \<Rightarrow> bool"
  assumes op_ok: "intact s \<Longrightarrow> can_seal s \<Longrightarrow> run_op x s = (Inr u, s') \<Longrightarrow> intact s' \<and> can_seal s'"
    and op_err: "intact s \<Longrightarrow> can_seal s \<Longrightarrow> run_op x s = (Inl e, s') \<Longrightarrow> s' = s"
begin

lemma op_intact: "intact s \<Longrightarrow> can_seal s \<Longrightarrow> run_op x s = (r, s') \<Longrightarrow> intact s' \<and> can_seal s'"
  by (cases r) (use op_ok op_err in blast)+

lemma seq_intact:
  "intact s \<Longrightarrow> can_seal s \<Longrightarrow> act_seq (map run_op xs) s = (r, s') \<Longrightarrow> intact s' \<and> can_seal s'"
proof (induction xs arbitrary: s)
  case Nil
  then show ?case by simp
next
  case (Cons x xs)
  obtain r1 s1 where 1: "run_op x s = (r1, s1)" by (cases "run_op x s")
  have "intact s1 \<and> can_seal s1" using op_intact Cons.prems(1,2) 1 by blast
  then show ?case using Cons.IH Cons.prems(3) 1 by (cases r1) auto
qed

end

end
