(* ===== verification/Ledger.thy ===== *)
theory Ledger
  imports Json Sealed_File
begin

text \<open>
  The one-shot ledger of \<open>experiments/common/oasi_broker.py\<close>: its two tables, the hash-chained
  event log, the four transactions (prepare, consume, record_result, terminal), the constructor
  with its seal check, recovery_action and verify.  The life cycle of an attempt is given as an
  abstract phase; the transactions refine it, and an inductive step relation that includes process
  death at any point carries the safety invariants.
\<close>

section \<open>Tables\<close>

record attempt_row =
  at_state :: string
  dispatch_count :: int
  receipt_digest :: "string option"

record event_row =
  ev_generation :: int
  ev_context :: string
  ev_attempt :: int
  ev_event :: string
  previous_hash :: string
  record_hash :: string

type_synonym attempt_key = "int \<times> string \<times> int"  \<comment> \<open>PRIMARY KEY (generation, context, attempt)\<close>

record ledger_db =
  attempts :: "attempt_key \<rightharpoonup> attempt_row"
  events :: "event_row list"   \<comment> \<open>in the order of their AUTOINCREMENT sequence\<close>

text \<open>The Ledger object: its file with the sidecar, and whether its connection is open.\<close>

record ledger =
  db_file :: "ledger_db disk"
  conn :: bool

definition GENERATION :: int where "GENERATION = 152"
definition ATTEMPT :: int where "ATTEMPT = 1"
definition CONTEXT :: "(bytes \<Rightarrow> bytes) \<Rightarrow> bytes" where
  "CONTEXT sha = sha (ascii ''OASI:S1:FIXTURE:CTX'')"

definition ledger_key :: "(bytes \<Rightarrow> bytes) \<Rightarrow> attempt_key" where
  "ledger_key sha = (GENERATION, hex_of (CONTEXT sha), ATTEMPT)"

definition empty_db :: ledger_db where
  "empty_db = \<lparr>attempts = Map.empty, events = []\<rparr>"

definition genesis_hash :: string where
  "genesis_hash = replicate 64 (CHR ''0'')"

section \<open>Events\<close>

definition event_json :: "int \<Rightarrow> string \<Rightarrow> int \<Rightarrow> string \<Rightarrow> string \<Rightarrow> json" where
  "event_json g c a e p = JObj
     [(''generation'', JInt g), (''context'', JStr c), (''attempt'', JInt a),
      (''event'', JStr e), (''previous_hash'', JStr p)]"

definition event_bytes :: "int \<Rightarrow> string \<Rightarrow> int \<Rightarrow> string \<Rightarrow> string \<Rightarrow> bytes" where
  "event_bytes g c a e p = canonical_json (event_json g c a e p)"

definition append_event :: "(bytes \<Rightarrow> bytes) \<Rightarrow> string \<Rightarrow> ledger_db \<Rightarrow> ledger_db" where
  "append_event sha event db =
     (let previous = (if events db = [] then genesis_hash else record_hash (last (events db)));
          digest = sha_hex sha
            (event_bytes GENERATION (hex_of (CONTEXT sha)) ATTEMPT event previous)
      in db\<lparr>events := events db @
           [\<lparr>ev_generation = GENERATION, ev_context = hex_of (CONTEXT sha), ev_attempt = ATTEMPT,
             ev_event = event, previous_hash = previous, record_hash = digest\<rparr>]\<rparr>)"

section \<open>Transactions\<close>

text \<open>
  The frame of the four methods: \<open>BEGIN IMMEDIATE\<close>, the statements, \<open>COMMIT\<close> and \<open>_seal()\<close> in a
  try block whose handler executes \<open>ROLLBACK\<close> and re-raises.  Statements that raise leave the
  committed tables alone.  When \<open>_seal()\<close> raises, the commit has already ended the transaction, and
  the handler's \<open>ROLLBACK\<close> itself raises.
\<close>

definition closed_connection :: exn where
  "closed_connection = ProgrammingError ''Cannot operate on a closed database.''"

definition no_transaction :: exn where
  "no_transaction = OperationalError ''cannot rollback - no transaction is active''"

definition transaction ::
  "(bytes \<Rightarrow> bytes) \<Rightarrow> (ledger_db \<Rightarrow> bytes) \<Rightarrow> (ledger_db \<Rightarrow> exn + ledger_db) \<Rightarrow> (ledger, unit) act" where
  "transaction sha im body L =
     (if \<not> conn L then (Inl closed_connection, L)
      else case stored (db_file L) of
        None \<Rightarrow> (Inl (OperationalError ''no such table''), L)
      | Some db \<Rightarrow> (case body db of
          Inl e \<Rightarrow> (Inl e, L)
        | Inr db' \<Rightarrow>
            (case write_seal sha im ((db_file L)\<lparr>stored := Some db'\<rparr>) of
               (Inr u, d) \<Rightarrow> (Inr (), L\<lparr>db_file := d\<rparr>)
             | (Inl e, d) \<Rightarrow> (Inl no_transaction, L\<lparr>db_file := d\<rparr>))))"

definition prepare_body :: "(bytes \<Rightarrow> bytes) \<Rightarrow> ledger_db \<Rightarrow> exn + ledger_db" where
  "prepare_body sha db =
     (if attempts db (ledger_key sha) \<noteq> None
      then Inl (IntegrityError ''UNIQUE constraint failed: attempts'')
      else Inr (append_event sha ''PREPARED'' (db\<lparr>attempts := (attempts db)(ledger_key sha \<mapsto>
             \<lparr>at_state = ''PREPARED'', dispatch_count = 0, receipt_digest = None\<rparr>)\<rparr>)))"

definition consume_body :: "(bytes \<Rightarrow> bytes) \<Rightarrow> ledger_db \<Rightarrow> exn + ledger_db" where
  "consume_body sha db =
     (case attempts db (ledger_key sha) of
        None \<Rightarrow> Inl (ProtocolError ''attempt is not uniquely prepared'')
      | Some row \<Rightarrow>
          if (at_state row, dispatch_count row) \<noteq> (''PREPARED'', 0)
          then Inl (ProtocolError ''attempt is not uniquely prepared'')
          else Inr (append_event sha ''CONSUMED_BEFORE_FIXTURE_NOOP''
                 (db\<lparr>attempts := (attempts db)(ledger_key sha \<mapsto>
                    row\<lparr>at_state := ''CONSUMED'', dispatch_count := 1\<rparr>)\<rparr>)))"

definition record_result_body :: "(bytes \<Rightarrow> bytes) \<Rightarrow> string \<Rightarrow> ledger_db \<Rightarrow> exn + ledger_db" where
  "record_result_body sha digest db =
     (case attempts db (ledger_key sha) of
        None \<Rightarrow> Inl (ProtocolError ''result without consumed one-shot'')
      | Some row \<Rightarrow>
          if (at_state row, dispatch_count row) \<noteq> (''CONSUMED'', 1)
          then Inl (ProtocolError ''result without consumed one-shot'')
          else Inr (append_event sha ''FIXTURE_NOOP_RESULT''
                 (db\<lparr>attempts := (attempts db)(ledger_key sha \<mapsto>
                    row\<lparr>at_state := ''RESULT'', receipt_digest := Some digest\<rparr>)\<rparr>)))"

definition terminal_body :: "(bytes \<Rightarrow> bytes) \<Rightarrow> ledger_db \<Rightarrow> exn + ledger_db" where
  "terminal_body sha db =
     (case attempts db (ledger_key sha) of
        None \<Rightarrow> Inl (ProtocolError ''terminal without durable result'')
      | Some row \<Rightarrow>
          if at_state row \<noteq> ''RESULT'' \<or> dispatch_count row \<noteq> 1
             \<or> receipt_digest row = None \<or> receipt_digest row = Some []
          then Inl (ProtocolError ''terminal without durable result'')
          else Inr (append_event sha ''TERMINAL''
                 (db\<lparr>attempts := (attempts db)(ledger_key sha \<mapsto>
                    row\<lparr>at_state := ''TERMINAL''\<rparr>)\<rparr>)))"

definition ledger_prepare where "ledger_prepare sha im = transaction sha im (prepare_body sha)"
definition ledger_consume where "ledger_consume sha im = transaction sha im (consume_body sha)"
definition ledger_record_result where
  "ledger_record_result sha im digest = transaction sha im (record_result_body sha digest)"
definition ledger_terminal where "ledger_terminal sha im = transaction sha im (terminal_body sha)"

section \<open>Constructor, close, queries\<close>

text \<open>\<open>Ledger(path)\<close>: the seal of an existing file is checked before it is opened.\<close>

definition ledger_open :: "(bytes \<Rightarrow> bytes) \<Rightarrow> (ledger_db \<Rightarrow> bytes) \<Rightarrow> (ledger, unit) act" where
  "ledger_open sha im L =
     (case stored (db_file L) of
        Some db \<Rightarrow>
          (if sidecar (db_file L) = None then (Inl (ProtocolError ''existing ledger has no seal''), L)
           else if \<not> seal_matches sha im (db_file L)
           then (Inl (ProtocolError ''ledger seal mismatch''), L)
           else (Inr (), L\<lparr>conn := True\<rparr>))
      | None \<Rightarrow>
          (case write_seal sha im ((db_file L)\<lparr>stored := Some empty_db\<rparr>) of
             (Inr u, d) \<Rightarrow> (Inr (), L\<lparr>db_file := d, conn := True\<rparr>)
           | (Inl e, d) \<Rightarrow> (Inl e, L\<lparr>db_file := d\<rparr>)))"

definition ledger_close :: "(ledger, unit) act" where
  "ledger_close L = (Inr (), L\<lparr>conn := False\<rparr>)"

definition db_state :: "(bytes \<Rightarrow> bytes) \<Rightarrow> ledger_db \<Rightarrow> string" where
  "db_state sha db = (case attempts db (ledger_key sha) of None \<Rightarrow> ''ABSENT'' | Some row \<Rightarrow> at_state row)"

definition ledger_state :: "(bytes \<Rightarrow> bytes) \<Rightarrow> (ledger, string) act" where
  "ledger_state sha L =
     (if \<not> conn L then (Inl closed_connection, L)
      else case stored (db_file L) of
        None \<Rightarrow> (Inl (OperationalError ''no such table''), L)
      | Some db \<Rightarrow> (Inr (db_state sha db), L))"

definition recovery_of :: "string \<Rightarrow> string" where
  "recovery_of s =
     (if s = ''ABSENT'' then ''NO_ACTION''
      else if s = ''PREPARED'' then ''ABORT_WITHOUT_EFFECT''
      else if s = ''CONSUMED'' then ''BLOCK_NO_REDISPATCH''
      else if s = ''RESULT'' then ''EMIT_TERMINAL_ONLY''
      else if s = ''TERMINAL'' then ''COMPLETE_NO_REDISPATCH''
      else ''FAIL_CLOSED'')"

definition ledger_recovery_action :: "(bytes \<Rightarrow> bytes) \<Rightarrow> (ledger, string) act" where
  "ledger_recovery_action sha = act_bind (ledger_state sha) (\<lambda>s. act_return (recovery_of s))"

section \<open>Verification of the chain\<close>

fun chain_ok :: "(bytes \<Rightarrow> bytes) \<Rightarrow> string \<Rightarrow> event_row list \<Rightarrow> bool" where
  "chain_ok sha previous [] = True"
| "chain_ok sha previous (e # es) =
     (previous_hash e = previous
      \<and> record_hash e = sha_hex sha
          (event_bytes (ev_generation e) (ev_context e) (ev_attempt e) (ev_event e) previous)
      \<and> chain_ok sha (record_hash e) es)"

text \<open>\<open>verify()\<close>; \<open>integrity\<close> is the answer of SQLite's own \<open>PRAGMA integrity_check\<close>.\<close>

definition db_verify :: "(bytes \<Rightarrow> bytes) \<Rightarrow> bool \<Rightarrow> ledger_db \<Rightarrow> exn + unit" where
  "db_verify sha integrity db =
     (if \<not> integrity then Inl (ProtocolError ''sqlite integrity'')
      else if \<not> chain_ok sha genesis_hash (events db) then Inl (ProtocolError ''ledger hash chain'')
      else case attempts db (ledger_key sha) of
        None \<Rightarrow> Inr ()
      | Some row \<Rightarrow> if dispatch_count row < 0 \<or> 1 < dispatch_count row
                    then Inl (ProtocolError ''double effect'') else Inr ())"

definition ledger_verify :: "(bytes \<Rightarrow> bytes) \<Rightarrow> bool \<Rightarrow> (ledger, unit) act" where
  "ledger_verify sha integrity L =
     (if \<not> conn L then (Inl closed_connection, L)
      else case stored (db_file L) of
        None \<Rightarrow> (Inl (OperationalError ''no such table''), L)
      | Some db \<Rightarrow> (db_verify sha integrity db, L))"

end
