(* ===== verification/Wire.thy ===== *)
theory Wire
  imports Ledger
begin

text \<open>
  The wire protocol of \<open>experiments/common/oasi_broker.py\<close>: the signed frames the broker sends,
  the receipts it accepts, and the exact-length reads from the channel.  Ed25519 is the parameters
  \<open>ed_sign\<close> (private seed, message) and \<open>ed_verify\<close> (public key, signature, message).
\<close>

section \<open>Big-endian integers and slices\<close>

fun be :: "nat \<Rightarrow> nat \<Rightarrow> bytes" where
  "be 0 v = []"
| "be (Suc n) v = be n (v div 256) @ [word_of_nat v]"

definition un_be :: "bytes \<Rightarrow> nat" where
  "un_be bs = foldl (\<lambda>a b. 256 * a + unat b) 0 bs"

definition slice :: "nat \<Rightarrow> nat \<Rightarrow> 'a list \<Rightarrow> 'a list" where
  "slice i n xs = take n (drop i xs)"

text \<open>The \<open>Ns\<close> item of a struct format: cut or filled with zero bytes to N.\<close>

definition pack_s :: "nat \<Rightarrow> bytes \<Rightarrow> bytes" where
  "pack_s n bs = take n bs @ replicate (n - length bs) 0"

lemma length_be [simp]: "length (be n v) = n"
  by (induction n arbitrary: v) auto

lemma un_be_append: "un_be (bs @ [b]) = 256 * un_be bs + unat b"
  by (simp add: un_be_def)

lemma un_be_be: "un_be (be n v) = v mod 256 ^ n"
proof (induction n arbitrary: v)
  case 0
  then show ?case by (simp add: un_be_def)
next
  case (Suc n)
  have "unat (word_of_nat v :: byte) = v mod 256" by (simp add: unat_of_nat take_bit_eq_mod)
  then have "un_be (be (Suc n) v) = 256 * (v div 256 mod 256 ^ n) + v mod 256"
    by (simp add: un_be_append Suc)
  also have "\<dots> = v mod (256 * 256 ^ n)" by (simp add: mod_mult2_eq)
  finally show ?case by simp
qed

lemma be_un_be: "length bs = n \<Longrightarrow> be n (un_be bs) = bs"
proof (induction n arbitrary: bs)
  case 0
  then show ?case by simp
next
  case (Suc n)
  then obtain cs b where bs: "bs = cs @ [b]" "length cs = n" by (cases bs rule: rev_cases) auto
  have lt: "unat b < 256" using unsigned_less [of b] by simp
  then have "(256 * un_be cs + unat b) div 256 = un_be cs" by simp
  moreover have "(word_of_nat (256 * un_be cs + unat b) :: byte) = b"
  proof -
    have "(word_of_nat 256 :: byte) = 0" by (simp only: word_of_nat_eq_0_iff) simp
    then show ?thesis by (simp only: of_nat_add of_nat_mult) simp
  qed
  ultimately show ?case using bs Suc.IH [of cs] by (simp add: un_be_append)
qed

lemma length_pack_s [simp]: "length (pack_s n bs) = n"
  by (simp add: pack_s_def)

lemma pack_s_id: "length bs = n \<Longrightarrow> pack_s n bs = bs"
  by (simp add: pack_s_def)

section \<open>Frames\<close>

definition MAGIC :: bytes where "MAGIC = ascii ''OASI2BT1''"
definition RECEIPT_MAGIC :: bytes where "RECEIPT_MAGIC = ascii ''OASI2BR2''"
definition VERSION :: nat where "VERSION = 1"
definition KIND_PREPARE :: nat where "KIND_PREPARE = 1"
definition KIND_EXECUTE :: nat where "KIND_EXECUTE = 2"
definition STATUS_PREPARED :: nat where "STATUS_PREPARED = 129"
definition STATUS_EFFECT_RECEIPT :: nat where "STATUS_EFFECT_RECEIPT = 130"
definition LEASE_EPOCH :: nat where "LEASE_EPOCH = 1"
definition MAX_FRAME :: nat where "MAX_FRAME = 512"
definition RECEIPT_CORE_size :: nat where "RECEIPT_CORE_size = 54"
definition RECEIPT_SIGNATURE_BYTES :: nat where "RECEIPT_SIGNATURE_BYTES = 64"
definition KEY_ID :: bytes where "KEY_ID = pack_s 16 (ascii ''rfc8032-test-2'')"
definition PREPARE_PAYLOAD :: bytes where "PREPARE_PAYLOAD = ascii ''FIXTURE_NOOP_V1''"

text \<open>\<open>bytes.fromhex\<close> of a literal.\<close>

fun unhex :: "string \<Rightarrow> bytes" where
  "unhex (a # b # cs) = (case (hex_val a, hex_val b) of
     (Some x, Some y) \<Rightarrow> word_of_nat (16 * x + y) # unhex cs | _ \<Rightarrow> [])"
| "unhex _ = []"

definition TEST_ONLY_PRIVATE_SEED :: bytes where
  "TEST_ONLY_PRIVATE_SEED = unhex ''4ccd089b28ff96da9db6c346ec114e0f5b8a319f35aba624da8cf6ed4fb8a6fb''"
definition GUEST_RECEIPT_FIXTURE_PUBLIC_KEY :: bytes where
  "GUEST_RECEIPT_FIXTURE_PUBLIC_KEY =
     unhex ''d75a980182b10ab7d54bfed3c964073a0ee172f3daa62325af021a68f707511a''"

text \<open>\<open>HEADER.pack\<close> with format \<open>>8sBBIQQ32s16sH\<close>; every argument but the payload length is a constant.\<close>

definition frame_header :: "(bytes \<Rightarrow> bytes) \<Rightarrow> nat \<Rightarrow> nat \<Rightarrow> bytes" where
  "frame_header sha kind len =
     pack_s 8 MAGIC @ be 1 VERSION @ be 1 kind @ be 4 (nat GENERATION) @ be 8 (nat ATTEMPT)
     @ be 8 LEASE_EPOCH @ pack_s 32 (CONTEXT sha) @ pack_s 16 KEY_ID @ be 2 len"

definition signed_frame ::
  "(bytes \<Rightarrow> bytes) \<Rightarrow> (bytes \<Rightarrow> bytes \<Rightarrow> bytes) \<Rightarrow> nat \<Rightarrow> bytes \<Rightarrow> exn + bytes \<times> bytes" where
  "signed_frame sha ed_sign kind payload =
     (if kind \<notin> {KIND_PREPARE, KIND_EXECUTE} \<or> 128 < length payload
      then Inl (ProtocolError ''frame bounds'')
      else let signed = frame_header sha kind (length payload) @ payload;
               raw = signed @ ed_sign TEST_ONLY_PRIVATE_SEED signed
           in if 65536 \<le> length raw then Inl (StructError ''H format requires 0 <= number <= 65535'')
              else Inr (be 2 (length raw) @ raw, sha raw))"

section \<open>Receipts\<close>

definition parse_receipt ::
  "(bytes \<Rightarrow> bytes \<Rightarrow> bytes \<Rightarrow> bool) \<Rightarrow> bytes \<Rightarrow> nat \<Rightarrow> bytes \<Rightarrow> exn + unit" where
  "parse_receipt ed_verify raw expected_status expected_digest =
     (if length raw \<noteq> RECEIPT_CORE_size + RECEIPT_SIGNATURE_BYTES
      then Inl (ProtocolError ''receipt length'')
      else let core = take RECEIPT_CORE_size raw; signature = drop RECEIPT_CORE_size raw in
        if \<not> ed_verify GUEST_RECEIPT_FIXTURE_PUBLIC_KEY signature core
        then Inl (ProtocolError ''guest receipt fixture signature'')
        else let magic = slice 0 8 core; version = un_be (slice 8 1 core);
                 status = un_be (slice 9 1 core); generation = un_be (slice 10 4 core);
                 attempt = un_be (slice 14 8 core); digest = slice 22 32 core in
          if magic \<noteq> RECEIPT_MAGIC \<or> version \<noteq> VERSION \<or> status \<noteq> expected_status
             \<or> int generation \<noteq> GENERATION \<or> int attempt \<noteq> ATTEMPT \<or> digest \<noteq> expected_digest
          then Inl (ProtocolError ''receipt binding'')
          else Inr ())"

text \<open>The one core that a receipt for a status and a digest may carry.\<close>

definition receipt_core :: "nat \<Rightarrow> bytes \<Rightarrow> bytes" where
  "receipt_core status digest =
     RECEIPT_MAGIC @ be 1 VERSION @ be 1 status @ be 4 (nat GENERATION) @ be 8 (nat ATTEMPT) @ digest"

section \<open>The channel\<close>

text \<open>
  What will arrive on the channel, in order: pieces of data as the kernel delivers them, and
  silences that outlast the socket timeout.  After the last item the peer has closed.
\<close>

datatype arrival = Arrive bytes | Silence

type_synonym channel = "arrival list"

text \<open>\<open>channel.recv(n)\<close>\<close>

fun recv :: "nat \<Rightarrow> (channel, bytes) act" where
  "recv n [] = (Inr [], [])"
| "recv n (Silence # ch) = (Inl SocketTimeout, ch)"
| "recv n (Arrive b # ch) =
     (if length b \<le> n then (Inr b, ch) else (Inr (take n b), Arrive (drop n b) # ch))"

lemma recv_length: "recv n ch = (Inr chunk, ch') \<Longrightarrow> length chunk \<le> n"
  by (induction n ch rule: recv.induct) (auto split: if_splits)

function recv_loop :: "bytes list \<Rightarrow> nat \<Rightarrow> (channel, bytes) act" where
  "recv_loop chunks remaining ch =
     (if remaining = 0 then (Inr (concat chunks), ch)
      else case recv remaining ch of
        (Inl e, ch') \<Rightarrow> (Inl e, ch')
      | (Inr chunk, ch') \<Rightarrow>
          if chunk = [] then (Inl (ProtocolError ''transport truncation''), ch')
          else recv_loop (chunks @ [chunk]) (remaining - length chunk) ch')"
  by pat_completeness auto
termination
  by (relation "measure (\<lambda>(chunks, remaining, ch). remaining)") auto

declare recv_loop.simps [simp del]

definition recv_exact :: "nat \<Rightarrow> (channel, bytes) act" where
  "recv_exact n = recv_loop [] n"

definition recv_receipt ::
  "(bytes \<Rightarrow> bytes \<Rightarrow> bytes \<Rightarrow> bool) \<Rightarrow> nat \<Rightarrow> bytes \<Rightarrow> (channel, unit) act" where
  "recv_receipt ed_verify status digest =
     act_bind (recv_exact 2) (\<lambda>prefix.
       let len = un_be prefix in
       if len \<noteq> RECEIPT_CORE_size + RECEIPT_SIGNATURE_BYTES \<or> MAX_FRAME < len
       then act_raise (ProtocolError
              (''receipt prefix length='' @ str_nat len @ '' raw='' @ hex_of prefix))
       else act_bind (recv_exact len) (\<lambda>raw ch. (parse_receipt ed_verify raw status digest, ch)))"

section \<open>Exact reads do not depend on how the bytes arrive\<close>

text \<open>Non-empty pieces of data, and their content.\<close>

fun all_data :: "channel \<Rightarrow> bool" where
  "all_data [] = True"
| "all_data (Silence # ch) = False"
| "all_data (Arrive b # ch) = (b \<noteq> [] \<and> all_data ch)"

fun content :: "channel \<Rightarrow> bytes" where
  "content [] = []"
| "content (Silence # ch) = content ch"
| "content (Arrive b # ch) = b @ content ch"

lemma recv_data:
  assumes "all_data ch" and "0 < n"
  shows "\<exists>chunk ch'. recv n ch = (Inr chunk, ch') \<and> all_data ch' \<and> content ch = chunk @ content ch'
    \<and> (chunk = [] \<longleftrightarrow> content ch = []) \<and> length chunk \<le> n"
  using assms by (induction n ch rule: recv.induct) auto

lemma recv_loop_data:
  assumes "all_data ch"
  shows "if n \<le> length (content ch)
    then \<exists>ch'. recv_loop acc n ch = (Inr (concat acc @ take n (content ch)), ch')
           \<and> all_data ch' \<and> content ch' = drop n (content ch)
    else \<exists>ch'. recv_loop acc n ch = (Inl (ProtocolError ''transport truncation''), ch')"
  using assms
proof (induction acc n ch rule: recv_loop.induct)
  case (1 acc n ch)
  show ?case
  proof (cases "n = 0")
    case True
    then show ?thesis using 1 by (subst recv_loop.simps) simp
  next
    case False
    then obtain chunk ch' where r: "recv n ch = (Inr chunk, ch')" "all_data ch'"
      "content ch = chunk @ content ch'" "chunk = [] \<longleftrightarrow> content ch = []" "length chunk \<le> n"
      using recv_data [OF "1.prems"] by blast
    show ?thesis
    proof (cases "chunk = []")
      case True
      then have e: "content ch = []" using r(4) by blast
      show ?thesis using r(1) e True False by (subst recv_loop.simps) simp
    next
      case c: False
      have "recv_loop acc n ch = recv_loop (acc @ [chunk]) (n - length chunk) ch'"
        using r(1) c False by (subst recv_loop.simps) simp
      note step = this and IH = "1.IH" [OF False r(1) [symmetric] refl c r(2)]
      have le: "n - length chunk \<le> length (content ch') \<longleftrightarrow> n \<le> length (content ch)"
        using r(3,5) by auto
      have tk: "concat (acc @ [chunk]) @ take (n - length chunk) (content ch')
          = concat acc @ take n (content ch)"
        and dr: "drop (n - length chunk) (content ch') = drop n (content ch)"
        using r(3,5) by simp_all
      show ?thesis using IH unfolding step le tk dr .
    qed
  qed
qed

lemma recv_exact_data:
  "all_data ch \<Longrightarrow> n \<le> length (content ch) \<Longrightarrow>
     \<exists>ch'. recv_exact n ch = (Inr (take n (content ch)), ch') \<and> all_data ch'
       \<and> content ch' = drop n (content ch)"
  using recv_loop_data [of ch n "[]"] by (simp add: recv_exact_def)

lemma recv_exact_short:
  "all_data ch \<Longrightarrow> length (content ch) < n \<Longrightarrow>
     \<exists>ch'. recv_exact n ch = (Inl (ProtocolError ''transport truncation''), ch')"
  using recv_loop_data [of ch n "[]"] by (simp add: recv_exact_def)

section \<open>Receipts: what is accepted, exactly\<close>

lemmas receipt_consts =
  RECEIPT_CORE_size_def RECEIPT_SIGNATURE_BYTES_def RECEIPT_MAGIC_def VERSION_def GENERATION_def ATTEMPT_def

lemma slice_append:
  "length xs = i \<Longrightarrow> length ys = n \<Longrightarrow> slice i n (xs @ ys @ zs) = ys"
  by (simp add: slice_def)

lemma slice_split: "take (i + n) xs = take i xs @ slice i n xs"
  by (simp add: slice_def take_add)

lemma length_receipt_core: "length digest = 32 \<Longrightarrow> length (receipt_core status digest) = 54"
  by (simp add: receipt_core_def receipt_consts)

lemma receipt_core_fields:
  assumes "length digest = 32" and "status < 256"
  shows "slice 0 8 (receipt_core status digest) = RECEIPT_MAGIC"
    and "un_be (slice 8 1 (receipt_core status digest)) = VERSION"
    and "un_be (slice 9 1 (receipt_core status digest)) = status"
    and "un_be (slice 10 4 (receipt_core status digest)) = 152"
    and "un_be (slice 14 8 (receipt_core status digest)) = 1"
    and "slice 22 32 (receipt_core status digest) = digest"
proof -
  have m: "length RECEIPT_MAGIC = 8" by (simp add: RECEIPT_MAGIC_def)
  show "slice 0 8 (receipt_core status digest) = RECEIPT_MAGIC"
    by (simp add: receipt_core_def slice_def m)
  show "un_be (slice 8 1 (receipt_core status digest)) = VERSION"
    using un_be_be [of 1 VERSION]
    by (simp add: receipt_core_def slice_def m VERSION_def del: be.simps)
  show "un_be (slice 9 1 (receipt_core status digest)) = status"
    using un_be_be [of 1 status] assms(2)
    by (simp add: receipt_core_def slice_def m del: be.simps)
  show "un_be (slice 10 4 (receipt_core status digest)) = 152"
    using un_be_be [of 4 152]
    by (simp add: receipt_core_def slice_def m GENERATION_def del: be.simps)
  show "un_be (slice 14 8 (receipt_core status digest)) = 1"
    using un_be_be [of 8 1]
    by (simp add: receipt_core_def slice_def m ATTEMPT_def del: be.simps)
  show "slice 22 32 (receipt_core status digest) = digest"
    using assms(1) by (simp add: receipt_core_def slice_def m)
qed

lemma receipt_core_unique:
  assumes "length core = 54" and "slice 0 8 core = RECEIPT_MAGIC" and "un_be (slice 8 1 core) = VERSION"
    and "un_be (slice 9 1 core) = status" and "un_be (slice 10 4 core) = 152"
    and "un_be (slice 14 8 core) = 1" and "slice 22 32 core = digest"
  shows "core = receipt_core status digest"
proof -
  have len: "length (slice 8 1 core) = 1" "length (slice 9 1 core) = 1"
    "length (slice 10 4 core) = 4" "length (slice 14 8 core) = 8"
    using assms(1) by (simp_all add: slice_def)
  have "core = take (22 + 32) core" using assms(1) by simp
  also have "\<dots> = slice 0 8 core @ slice 8 1 core @ slice 9 1 core @ slice 10 4 core
      @ slice 14 8 core @ slice 22 32 core"
    using slice_split [of 22 32 core] slice_split [of 14 8 core] slice_split [of 10 4 core]
      slice_split [of 9 1 core] slice_split [of 8 1 core] slice_split [of 0 8 core] by simp
  also have "\<dots> = receipt_core status digest"
    using assms be_un_be [OF len(1)] be_un_be [OF len(2)] be_un_be [OF len(3)] be_un_be [OF len(4)]
    by (simp add: receipt_core_def GENERATION_def ATTEMPT_def del: be.simps)
  finally show ?thesis .
qed

lemma parse_receipt_iff:
  assumes "length digest = 32" and "status < 256"
  shows "parse_receipt ver raw status digest = Inr () \<longleftrightarrow>
    (\<exists>sig. raw = receipt_core status digest @ sig \<and> length sig = 64
       \<and> ver GUEST_RECEIPT_FIXTURE_PUBLIC_KEY sig (receipt_core status digest))"
proof
  assume ok: "parse_receipt ver raw status digest = Inr ()"
  let ?core = "take 54 raw"
  have f: "length raw = 118" "ver GUEST_RECEIPT_FIXTURE_PUBLIC_KEY (drop 54 raw) ?core"
    "slice 0 8 ?core = RECEIPT_MAGIC" "un_be (slice 8 1 ?core) = VERSION"
    "un_be (slice 9 1 ?core) = status" "int (un_be (slice 10 4 ?core)) = GENERATION"
    "int (un_be (slice 14 8 ?core)) = ATTEMPT" "slice 22 32 ?core = digest"
    using ok by (auto simp: parse_receipt_def Let_def RECEIPT_CORE_size_def
      RECEIPT_SIGNATURE_BYTES_def split: if_splits)
  have "?core = receipt_core status digest"
    by (rule receipt_core_unique) (use f in \<open>simp_all add: GENERATION_def ATTEMPT_def\<close>)
  then have "raw = receipt_core status digest @ drop 54 raw" using append_take_drop_id [of 54 raw] by simp
  moreover have "length (drop 54 raw) = 64" using f(1) by simp
  ultimately show "\<exists>sig. raw = receipt_core status digest @ sig \<and> length sig = 64
       \<and> ver GUEST_RECEIPT_FIXTURE_PUBLIC_KEY sig (receipt_core status digest)"
    using f(2) \<open>?core = receipt_core status digest\<close> by (intro exI [of _ "drop 54 raw"]) simp
next
  assume "\<exists>sig. raw = receipt_core status digest @ sig \<and> length sig = 64
       \<and> ver GUEST_RECEIPT_FIXTURE_PUBLIC_KEY sig (receipt_core status digest)"
  then show "parse_receipt ver raw status digest = Inr ()"
    using length_receipt_core [OF assms(1), of status] receipt_core_fields [OF assms]
    by (auto simp: parse_receipt_def Let_def RECEIPT_CORE_size_def RECEIPT_SIGNATURE_BYTES_def
      GENERATION_def ATTEMPT_def)
qed

text \<open>The frame the broker puts on the wire: its length prefix covers header, payload and signature.\<close>

lemma length_frame_header [simp]: "length (frame_header sha kind len) = 80"
  by (simp add: frame_header_def)

lemma signed_frame_digest: "signed_frame sha sig kind payload = Inr (wire, d) \<Longrightarrow> \<exists>raw. d = sha raw"
  by (auto simp: signed_frame_def Let_def simp del: be.simps split: if_splits)

lemma slice_frame:
  "slice i n (frame_header sha kind len @ rest) = slice i n (frame_header sha kind len)" if "i + n \<le> 80"
  using that by (simp add: slice_def)

lemma frame_header_fields:
  assumes "kind < 256" and "len < 65536"
  shows "slice 0 8 (frame_header sha kind len) = MAGIC"
    and "un_be (slice 8 1 (frame_header sha kind len)) = VERSION"
    and "un_be (slice 9 1 (frame_header sha kind len)) = kind"
    and "int (un_be (slice 10 4 (frame_header sha kind len))) = GENERATION"
    and "int (un_be (slice 14 8 (frame_header sha kind len))) = ATTEMPT"
    and "un_be (slice 22 8 (frame_header sha kind len)) = LEASE_EPOCH"
    and "slice 30 32 (frame_header sha kind len) = pack_s 32 (CONTEXT sha)"
    and "slice 62 16 (frame_header sha kind len) = KEY_ID"
    and "un_be (slice 78 2 (frame_header sha kind len)) = len"
proof -
  have m: "length MAGIC = 8" "length KEY_ID = 16" by (simp_all add: MAGIC_def KEY_ID_def)
  note d = frame_header_def slice_def pack_s_id m
  show "slice 0 8 (frame_header sha kind len) = MAGIC" by (simp add: d del: be.simps)
  show "un_be (slice 8 1 (frame_header sha kind len)) = VERSION"
    using un_be_be [of 1 VERSION] by (simp add: d VERSION_def del: be.simps)
  show "un_be (slice 9 1 (frame_header sha kind len)) = kind"
    using un_be_be [of 1 kind] assms(1) by (simp add: d del: be.simps)
  show "int (un_be (slice 10 4 (frame_header sha kind len))) = GENERATION"
    using un_be_be [of 4 152] by (simp add: d GENERATION_def del: be.simps)
  show "int (un_be (slice 14 8 (frame_header sha kind len))) = ATTEMPT"
    using un_be_be [of 8 1] by (simp add: d ATTEMPT_def del: be.simps)
  show "un_be (slice 22 8 (frame_header sha kind len)) = LEASE_EPOCH"
    using un_be_be [of 8 LEASE_EPOCH] by (simp add: d LEASE_EPOCH_def del: be.simps)
  show "slice 30 32 (frame_header sha kind len) = pack_s 32 (CONTEXT sha)" by (simp add: d del: be.simps)
  show "slice 62 16 (frame_header sha kind len) = KEY_ID" by (simp add: d del: be.simps)
  show "un_be (slice 78 2 (frame_header sha kind len)) = len"
    using un_be_be [of 2 len] assms(2) by (simp add: d del: be.simps)
qed

lemma signed_frame_wire:
  assumes "signed_frame sha sig kind payload = Inr (wire, d)" and "\<And>m. length (sig TEST_ONLY_PRIVATE_SEED m) = 64"
  shows "\<exists>body raw. raw = body @ sig TEST_ONLY_PRIVATE_SEED body \<and> body = frame_header sha kind (length payload) @ payload
    \<and> wire = be 2 (length raw) @ raw \<and> un_be (take 2 wire) = length raw \<and> d = sha raw
    \<and> length raw = 144 + length payload \<and> length raw \<le> MAX_FRAME \<and> kind \<in> {KIND_PREPARE, KIND_EXECUTE} \<and> length payload \<le> 128"
proof -
  let ?body = "frame_header sha kind (length payload) @ payload"
  let ?raw = "?body @ sig TEST_ONLY_PRIVATE_SEED ?body"
  have h: "kind \<in> {KIND_PREPARE, KIND_EXECUTE}" "length payload \<le> 128" "length ?raw < 65536"
    "wire = be 2 (length ?raw) @ ?raw" "d = sha ?raw"
    using assms(1) by (auto simp: signed_frame_def Let_def simp del: be.simps split: if_splits)
  have "un_be (take 2 wire) = length ?raw"
    using h(3) un_be_be [of 2 "length ?raw"] unfolding h(4) by (simp del: be.simps)
  moreover have "length ?raw = 144 + length payload" using assms(2) by simp
  moreover have "144 + length payload \<le> MAX_FRAME" using h(2) by (simp add: MAX_FRAME_def)
  ultimately show ?thesis using h by (intro exI [of _ ?body] exI [of _ ?raw]) (simp del: be.simps)
qed

end
