(* ===== verification/Ledger_Props.thy ===== *)
theory Ledger_Props
  imports Ledger
begin

text \<open>
  The life cycle of an attempt as an abstract machine, the refinement of it by the ledger's
  transactions, the step relation of a ledger whose process may die at any point and whose seal
  directory may refuse writes, and the tamper evidence of the event chain.
\<close>

section \<open>The abstract life cycle\<close>

datatype phase = Absent | Prepared | Consumed | Result string | Terminal string

datatype life_op = L_prepare | L_consume | L_result string | L_terminal

fun life_step :: "phase \<Rightarrow> life_op \<Rightarrow> phase option" where
  "life_step Absent L_prepare = Some Prepared"
| "life_step Prepared L_consume = Some Consumed"
| "life_step Consumed (L_result d) = Some (Result d)"
| "life_step (Result d) L_terminal = (if d = [] then None else Some (Terminal d))"
| "life_step _ _ = None"

fun rank :: "phase \<Rightarrow> nat" where
  "rank Absent = 0" | "rank Prepared = 1" | "rank Consumed = 2" | "rank (Result _) = 3"
| "rank (Terminal _) = 4"

fun history :: "phase \<Rightarrow> string list" where
  "history Absent = []"
| "history Prepared = [''PREPARED'']"
| "history Consumed = [''PREPARED'', ''CONSUMED_BEFORE_FIXTURE_NOOP'']"
| "history (Result _) = [''PREPARED'', ''CONSUMED_BEFORE_FIXTURE_NOOP'', ''FIXTURE_NOOP_RESULT'']"
| "history (Terminal _) =
     [''PREPARED'', ''CONSUMED_BEFORE_FIXTURE_NOOP'', ''FIXTURE_NOOP_RESULT'', ''TERMINAL'']"

fun row_of :: "phase \<Rightarrow> attempt_row option" where
  "row_of Absent = None"
| "row_of Prepared = Some \<lparr>at_state = ''PREPARED'', dispatch_count = 0, receipt_digest = None\<rparr>"
| "row_of Consumed = Some \<lparr>at_state = ''CONSUMED'', dispatch_count = 1, receipt_digest = None\<rparr>"
| "row_of (Result d) = Some \<lparr>at_state = ''RESULT'', dispatch_count = 1, receipt_digest = Some d\<rparr>"
| "row_of (Terminal d) = Some \<lparr>at_state = ''TERMINAL'', dispatch_count = 1, receipt_digest = Some d\<rparr>"

lemma life_step_rank: "life_step p x = Some q \<Longrightarrow> rank q = Suc (rank p)"
  by (induction p x rule: life_step.induct) (auto split: if_splits)

lemma life_step_consume: "life_step p L_consume = Some q \<longleftrightarrow> p = Prepared \<and> q = Consumed"
  by (cases p) auto

text \<open>The tables of a ledger in phase \<open>p\<close>.\<close>

definition db_at :: "(bytes \<Rightarrow> bytes) \<Rightarrow> phase \<Rightarrow> ledger_db \<Rightarrow> bool" where
  "db_at sha p db \<longleftrightarrow>
     attempts db = (case row_of p of None \<Rightarrow> Map.empty | Some r \<Rightarrow> [ledger_key sha \<mapsto> r])
     \<and> map ev_event (events db) = history p
     \<and> chain_ok sha genesis_hash (events db)"

fun life_body :: "(bytes \<Rightarrow> bytes) \<Rightarrow> life_op \<Rightarrow> ledger_db \<Rightarrow> exn + ledger_db" where
  "life_body sha L_prepare = prepare_body sha"
| "life_body sha L_consume = consume_body sha"
| "life_body sha (L_result d) = record_result_body sha d"
| "life_body sha L_terminal = terminal_body sha"

lemmas body_defs = prepare_body_def consume_body_def record_result_body_def terminal_body_def

section \<open>The event chain\<close>

definition chain_head :: "string \<Rightarrow> event_row list \<Rightarrow> string" where
  "chain_head previous es = (if es = [] then previous else record_hash (last es))"

lemma chain_head_Cons [simp]: "chain_head p (e # es) = chain_head (record_hash e) es"
  by (simp add: chain_head_def)

lemma chain_ok_append:
  "chain_ok sha p (es @ fs) \<longleftrightarrow> chain_ok sha p es \<and> chain_ok sha (chain_head p es) fs"
  by (induction es arbitrary: p) (simp_all, simp add: chain_head_def)

lemma append_event_events [simp]:
  "attempts (append_event sha e db) = attempts db"
  "map ev_event (events (append_event sha e db)) = map ev_event (events db) @ [e]"
  by (simp_all add: append_event_def Let_def)

lemma append_event_chain:
  "chain_ok sha genesis_hash (events db) \<Longrightarrow> chain_ok sha genesis_hash (events (append_event sha e db))"
  by (simp add: append_event_def Let_def chain_ok_append) (simp add: chain_head_def)

lemma append_event_update [simp]:
  "append_event sha e (db\<lparr>attempts := a\<rparr>) = (append_event sha e db)\<lparr>attempts := a\<rparr>"
  by (simp add: append_event_def Let_def)

section \<open>Refinement of the life cycle by the transaction bodies\<close>

lemma db_at_lookup: "db_at sha p db \<Longrightarrow> attempts db (ledger_key sha) = row_of p"
  by (cases "row_of p") (simp_all add: db_at_def)

lemma db_at_empty: "db_at sha Absent empty_db"
  by (simp add: db_at_def empty_db_def)

lemma db_at_move:
  assumes "db_at sha p db" and "row_of q = Some r" and "history q = history p @ [e]"
  shows "db_at sha q ((append_event sha e db)\<lparr>attempts := (attempts db)(ledger_key sha \<mapsto> r)\<rparr>)"
  using assms append_event_chain [of sha db e]
  by (auto simp: db_at_def split: option.splits)

lemma body_refines:
  assumes "db_at sha p db"
  shows "life_step p x = Some q \<Longrightarrow> \<exists>db'. life_body sha x db = Inr db' \<and> db_at sha q db'"
    and "life_step p x = None \<Longrightarrow> \<exists>e. life_body sha x db = Inl e"
proof -
  note l = db_at_lookup [OF assms]
  show "life_step p x = Some q \<Longrightarrow> \<exists>db'. life_body sha x db = Inr db' \<and> db_at sha q db'"
    by (cases p; cases x)
      (use l db_at_move [OF assms, of q] in \<open>auto simp: body_defs split: if_splits\<close>)
  show "life_step p x = None \<Longrightarrow> \<exists>e. life_body sha x db = Inl e"
    by (cases p; cases x) (use l in \<open>auto simp: body_defs split: if_splits\<close>)
qed

section \<open>Transactions on the sealed file\<close>

text \<open>The file after a commit of \<open>db\<close>: resealed if the seal can be written, with the old seal if not.\<close>

definition committed :: "(bytes \<Rightarrow> bytes) \<Rightarrow> (ledger_db \<Rightarrow> bytes) \<Rightarrow> ledger_db \<Rightarrow> ledger_db disk \<Rightarrow> ledger_db disk" where
  "committed sha im db d = d\<lparr>stored := Some db,
     sidecar := (if writable d then Some (sha_hex sha (im db @ torn d) @ [CHR 0x0A]) else sidecar d)\<rparr>"

lemma committed_simps [simp]:
  "stored (committed sha im db d) = Some db" "torn (committed sha im db d) = torn d"
  "writable (committed sha im db d) = writable d"
  by (simp_all add: committed_def)

lemma transaction_eq:
  "transaction sha im body L =
     (if \<not> conn L then (Inl closed_connection, L)
      else case stored (db_file L) of
        None \<Rightarrow> (Inl (OperationalError ''no such table''), L)
      | Some db \<Rightarrow> (case body db of
          Inl e \<Rightarrow> (Inl e, L)
        | Inr db' \<Rightarrow> (if writable (db_file L) then Inr () else Inl no_transaction,
            L\<lparr>db_file := committed sha im db' (db_file L)\<rparr>)))"
  by (auto simp: transaction_def write_seal_def file_bytes_def committed_def split: option.splits sum.splits)

lemma sealed_committed:
  "torn d = [] \<Longrightarrow> writable d \<Longrightarrow> sealed sha im db (committed sha im db d)"
  by (simp add: sealed_def committed_def)

definition ledger_ok :: "(bytes \<Rightarrow> bytes) \<Rightarrow> (ledger_db \<Rightarrow> bytes) \<Rightarrow> ledger \<Rightarrow> bool" where
  "ledger_ok sha im L \<longleftrightarrow> conn L \<and> (\<exists>db. sealed sha im db (db_file L))"

interpretation ledger_service:
  sealed_service "\<lambda>x. transaction sha im (life_body sha x)" "ledger_ok sha im"
    "\<lambda>L. writable (db_file L)" for sha im
proof unfold_locales
  fix s x u s'
  assume "ledger_ok sha im s" "writable (db_file s)"
    and "transaction sha im (life_body sha x) s = (Inr u, s')"
  then show "ledger_ok sha im s' \<and> writable (db_file s')"
    by (auto simp: ledger_ok_def transaction_eq sealed_def committed_def split: sum.splits)
next
  fix s x e s'
  assume "ledger_ok sha im s" "writable (db_file s)"
    and "transaction sha im (life_body sha x) s = (Inl e, s')"
  then show "s' = s"
    by (auto simp: ledger_ok_def transaction_eq sealed_def split: sum.splits)
qed

section \<open>A ledger whose process may die\<close>

text \<open>
  One rule per thing that can happen to a ledger file: a method call (on an open connection or
  not), the constructor, close or the death of the process between statements, its death between a
  \<open>COMMIT\<close> and the replacement of the seal, its death while the file is being created, a torn
  write to the closed file, and a change of the directory's permission to take the seal.
\<close>

datatype label =
    Called life_op bool   \<comment> \<open>a method call; True: it returned normally\<close>
  | Opened bool
  | Closed
  | Killed life_op        \<comment> \<open>died after the COMMIT of this call, before the seal\<close>
  | Killed_creating
  | Torn_write
  | Directory bool

inductive ledger_step ::
  "(bytes \<Rightarrow> bytes) \<Rightarrow> (ledger_db \<Rightarrow> bytes) \<Rightarrow> ledger \<Rightarrow> label \<Rightarrow> ledger \<Rightarrow> bool" for sha im where
  call: "transaction sha im (life_body sha x) L = (r, L') \<Longrightarrow> ledger_step sha im L (Called x (is_ok r)) L'"
| reopen: "\<not> conn L \<Longrightarrow> ledger_open sha im L = (r, L') \<Longrightarrow> ledger_step sha im L (Opened (is_ok r)) L'"
| close: "ledger_step sha im L Closed (L\<lparr>conn := False\<rparr>)"
| kill: "conn L \<Longrightarrow> stored (db_file L) = Some db \<Longrightarrow> life_body sha x db = Inr db' \<Longrightarrow>
    ledger_step sha im L (Killed x) (L\<lparr>db_file := (db_file L)\<lparr>stored := Some db'\<rparr>, conn := False\<rparr>)"
| kill_creating: "\<not> conn L \<Longrightarrow> stored (db_file L) = None \<Longrightarrow>
    ledger_step sha im L Killed_creating (L\<lparr>db_file := (db_file L)\<lparr>stored := Some empty_db\<rparr>\<rparr>)"
| torn: "\<not> conn L \<Longrightarrow>
    ledger_step sha im L Torn_write (L\<lparr>db_file := (db_file L)\<lparr>torn := torn (db_file L) @ bs\<rparr>\<rparr>)"
| directory: "ledger_step sha im L (Directory b) (L\<lparr>db_file := (db_file L)\<lparr>writable := b\<rparr>\<rparr>)"

inductive_cases ledger_stepE: "ledger_step sha im L l L'"

inductive ledger_run ::
  "(bytes \<Rightarrow> bytes) \<Rightarrow> (ledger_db \<Rightarrow> bytes) \<Rightarrow> ledger \<Rightarrow> label list \<Rightarrow> ledger \<Rightarrow> bool" for sha im where
  start: "ledger_run sha im L [] L"
| step: "ledger_run sha im L ls L' \<Longrightarrow> ledger_step sha im L' l L'' \<Longrightarrow> ledger_run sha im L (ls @ [l]) L''"

definition no_ledger :: ledger where
  "no_ledger = \<lparr>db_file = empty_disk, conn = False\<rparr>"

text \<open>The phase of a ledger: of the committed tables, or Absent before the file exists.\<close>

definition ledger_at :: "(bytes \<Rightarrow> bytes) \<Rightarrow> phase \<Rightarrow> ledger \<Rightarrow> bool" where
  "ledger_at sha p L \<longleftrightarrow> (case stored (db_file L) of
       None \<Rightarrow> p = Absent \<and> \<not> conn L
     | Some db \<Rightarrow> db_at sha p db)"

lemma ledger_at_none: "ledger_at sha Absent no_ledger"
  by (simp add: ledger_at_def no_ledger_def empty_disk_def)

text \<open>Every step stays in the phase or makes one move of the life cycle.\<close>

lemma call_refines:
  assumes "ledger_at sha p L" and "transaction sha im (life_body sha x) L = (r, L')"
  shows "\<exists>q. ledger_at sha q L' \<and> (q = p \<and> \<not> is_ok r \<or> life_step p x = Some q)"
proof (cases "\<exists>db. conn L \<and> stored (db_file L) = Some db \<and> life_step p x \<noteq> None")
  case True
  then obtain db q where db: "conn L" "stored (db_file L) = Some db" "life_step p x = Some q"
    by auto
  then obtain db' where "life_body sha x db = Inr db'" "db_at sha q db'"
    using assms(1) body_refines(1) [of sha p db x q] by (auto simp: ledger_at_def)
  then show ?thesis using assms(2) db by (auto simp: transaction_eq ledger_at_def)
next
  case False
  then have "L' = L \<and> \<not> is_ok r"
    using assms
    by (auto simp: transaction_eq ledger_at_def split: option.splits if_splits sum.splits
        dest: body_refines(2) [where x = x])
  then show ?thesis using assms(1) by auto
qed

lemma open_keeps_phase:
  "ledger_at sha p L \<Longrightarrow> ledger_open sha im L = (r, L') \<Longrightarrow> ledger_at sha p L'"
  by (auto simp: ledger_open_def ledger_at_def write_seal_def file_bytes_def db_at_empty
      split: option.splits if_splits prod.splits sum.splits)

lemma step_refines:
  assumes "ledger_step sha im L l L'" and "ledger_at sha p L"
  shows "\<exists>q. ledger_at sha q L' \<and> (q = p \<or> (\<exists>x. life_step p x = Some q))
     \<and> (\<forall>x. l = Called x True \<longrightarrow> life_step p x = Some q)"
  using assms
proof (induction rule: ledger_step.induct)
  case (call x L r L')
  then show ?case using call_refines [of sha p L im x r L'] by auto
next
  case (reopen L r L')
  then show ?case using open_keeps_phase by blast
next
  case (kill L db x db')
  have at: "db_at sha p db" using kill by (simp add: ledger_at_def)
  then obtain q where q: "life_step p x = Some q" "db_at sha q db'"
    using kill(3) body_refines [OF at, of x] by (cases "life_step p x") auto
  then show ?case by (auto simp: ledger_at_def)
next
  case (kill_creating L)
  then have "p = Absent" by (simp add: ledger_at_def)
  then show ?case using db_at_empty [of sha] by (auto simp: ledger_at_def intro!: exI [of _ Absent])
qed (auto simp: ledger_at_def split: option.splits)

text \<open>
  Along a run the phase only advances, and the number of calls of \<open>consume\<close> that returned normally
  is at most one, none as long as nothing is consumed.
\<close>

lemma run_phase:
  "ledger_run sha im L ls L' \<Longrightarrow> ledger_at sha p L \<Longrightarrow>
     \<exists>q. ledger_at sha q L' \<and> rank p \<le> rank q
       \<and> count_list ls (Called L_consume True) \<le> (if rank p < 2 \<and> 2 \<le> rank q then 1 else 0)"
proof (induction rule: ledger_run.induct)
  case (start L)
  then show ?case by auto
next
  case (step L ls L' l L'')
  then obtain q where q: "ledger_at sha q L'" "rank p \<le> rank q"
      "count_list ls (Called L_consume True) \<le> (if rank p < 2 \<and> 2 \<le> rank q then 1 else 0)" by blast
  obtain q' where q': "ledger_at sha q' L''" "q' = q \<or> (\<exists>x. life_step q x = Some q')"
      "\<forall>x. l = Called x True \<longrightarrow> life_step q x = Some q'"
    using step_refines [OF step(2) q(1)] by blast
  have r: "rank q \<le> rank q'" using q'(2) life_step_rank by fastforce
  show ?case
  proof (cases "l = Called L_consume True")
    case True
    then have "q = Prepared \<and> q' = Consumed" using q'(3) life_step_consume by blast
    then show ?thesis using q q'(1) True by (intro exI [of _ q']) (auto split: if_splits)
  next
    case False
    then show ?thesis using q q'(1) r by (intro exI [of _ q']) (auto split: if_splits)
  qed
qed

section \<open>Verification and recovery along runs\<close>

lemma db_at_verify: "db_at sha p db \<Longrightarrow> db_verify sha True db = Inr ()"
  using db_at_lookup [of sha p db] by (cases p) (auto simp: db_verify_def db_at_def)

lemma db_at_state:
  "db_at sha p db \<Longrightarrow> recovery_of (db_state sha db) =
     (case p of Absent \<Rightarrow> ''NO_ACTION'' | Prepared \<Rightarrow> ''ABORT_WITHOUT_EFFECT''
      | Consumed \<Rightarrow> ''BLOCK_NO_REDISPATCH'' | Result _ \<Rightarrow> ''EMIT_TERMINAL_ONLY''
      | Terminal _ \<Rightarrow> ''COMPLETE_NO_REDISPATCH'')"
  using db_at_lookup [of sha p db] by (cases p) (simp_all add: db_state_def recovery_of_def)

lemma db_at_history: "db_at sha p db \<Longrightarrow> map ev_event (events db) = history p"
  by (simp add: db_at_def)

section \<open>Tamper evidence\<close>

text \<open>The byte strings whose digests a chain records.\<close>

definition hashed :: "event_row \<Rightarrow> bytes" where
  "hashed e = event_bytes (ev_generation e) (ev_context e) (ev_attempt e) (ev_event e) (previous_hash e)"

definition event_members :: "int \<Rightarrow> string \<Rightarrow> int \<Rightarrow> string \<Rightarrow> string \<Rightarrow> (string \<times> json) set" where
  "event_members g c a e p = {(''generation'', JInt g), (''context'', JStr c),
     (''attempt'', JInt a), (''event'', JStr e), (''previous_hash'', JStr p)}"

lemma event_members_inj:
  assumes "event_members g c a e p = event_members g' c' a' e' p'"
  shows "g = g' \<and> c = c' \<and> a = a' \<and> e = e' \<and> p = p'"
proof -
  have "(''generation'', JInt g) \<in> event_members g' c' a' e' p'"
    "(''context'', JStr c) \<in> event_members g' c' a' e' p'"
    "(''attempt'', JInt a) \<in> event_members g' c' a' e' p'"
    "(''event'', JStr e) \<in> event_members g' c' a' e' p'"
    "(''previous_hash'', JStr p) \<in> event_members g' c' a' e' p'"
    unfolding assms [symmetric] by (simp_all add: event_members_def)
  then show ?thesis by (simp_all add: event_members_def)
qed

lemma sorted_event_members:
  "\<exists>kvs. sort_members (event_json g c a e p) = JObj kvs \<and> set kvs = event_members g c a e p"
  by (simp add: event_json_def event_members_def del: sort_key_simps)

lemma event_bytes_inj:
  "event_bytes g c a e p = event_bytes g' c' a' e' p' \<longleftrightarrow> g = g' \<and> c = c' \<and> a = a' \<and> e = e' \<and> p = p'"
proof
  assume h: "event_bytes g c a e p = event_bytes g' c' a' e' p'"
  have wf: "wf_json (event_json g c a e p)" for g c a e p by (simp add: event_json_def)
  have "sort_members (event_json g c a e p) = sort_members (event_json g' c' a' e' p')"
    using h canonical_json_inj [OF wf wf] unfolding event_bytes_def by blast
  then have "event_members g c a e p = event_members g' c' a' e' p'"
    using sorted_event_members [of g c a e p] sorted_event_members [of g' c' a' e' p'] by auto
  then show "g = g' \<and> c = c' \<and> a = a' \<and> e = e' \<and> p = p'" by (rule event_members_inj)
qed simp

lemma hashed_inj:
  "hashed e = hashed e' \<Longrightarrow> record_hash e = record_hash e' \<Longrightarrow> e = e'"
  by (simp add: hashed_def event_bytes_inj)

lemma chain_ok_snoc:
  "chain_ok sha p (es @ [e]) \<longleftrightarrow>
     chain_ok sha p es \<and> previous_hash e = chain_head p es \<and> record_hash e = sha_hex sha (hashed e)"
  by (auto simp: chain_ok_append hashed_def)

text \<open>
  Two chains from the same start with the same head are equal, unless two different records
  written in them have the same digest or one of the records hashes to the start value.
\<close>

lemma chain_tamper:
  "chain_ok sha p es \<Longrightarrow> chain_ok sha p es' \<Longrightarrow> chain_head p es = chain_head p es' \<Longrightarrow>
     es = es' \<or> (\<exists>e \<in> set es. \<exists>e' \<in> set es'. hashed e \<noteq> hashed e' \<and> sha (hashed e) = sha (hashed e'))
     \<or> (\<exists>e \<in> set es \<union> set es'. sha_hex sha (hashed e) = p)"
proof (induction es arbitrary: es' rule: rev_induct)
  case Nil
  then show ?case
    by (cases es' rule: rev_cases) (auto simp: chain_ok_snoc chain_head_def)
next
  case (snoc e es)
  show ?case
  proof (cases es' rule: rev_cases)
    case Nil
    then show ?thesis using snoc.prems by (auto simp: chain_ok_snoc chain_head_def)
  next
    case (snoc fs f)
    have c: "chain_ok sha p es" "chain_ok sha p fs" "previous_hash e = chain_head p es"
        "previous_hash f = chain_head p fs" "record_hash e = sha_hex sha (hashed e)"
        "record_hash f = sha_hex sha (hashed f)"
      using snoc.prems(1,2) snoc by (auto simp: chain_ok_snoc)
    have r: "record_hash e = record_hash f" using snoc.prems(3) snoc by (simp add: chain_head_def)
    then have d: "sha (hashed e) = sha (hashed f)" using c(5,6) by simp
    show ?thesis
    proof (cases "hashed e = hashed f")
      case False
      then show ?thesis using d snoc by auto
    next
      case True
      then have ef: "e = f" using hashed_inj r by blast
      then have "chain_head p es = chain_head p fs" using c(3,4) by simp
      from snoc.IH [OF c(1,2) this] show ?thesis using ef snoc by auto
    qed
  qed
qed

section \<open>Dying between the commit and the seal\<close>

text \<open>
  A ledger file that was sealed and whose process dies in the window after a commit keeps the old
  seal: it can only be opened again if the digests of the two file contents are equal.
\<close>

lemma killed_then_open:
  assumes "sealed sha im db (db_file L)" and "life_body sha x db = Inr db'"
    and "sha (im db') \<noteq> sha (im db)"
    and "K = L\<lparr>db_file := (db_file L)\<lparr>stored := Some db'\<rparr>, conn := False\<rparr>"
  shows "ledger_open sha im K = (Inl (ProtocolError ''ledger seal mismatch''), K)"
  using assms by (auto simp: ledger_open_def sealed_def seal_matches_def file_bytes_def)

lemma torn_then_open:
  assumes "sealed sha im db (db_file L)" and "sha (im db @ bs) \<noteq> sha (im db)"
    and "K = L\<lparr>db_file := (db_file L)\<lparr>torn := bs\<rparr>\<rparr>"
  shows "ledger_open sha im K = (Inl (ProtocolError ''ledger seal mismatch''), K)"
  using assms by (auto simp: ledger_open_def sealed_def seal_matches_def file_bytes_def)

lemma sealed_then_open:
  "sealed sha im db (db_file L) \<Longrightarrow> ledger_open sha im L = (Inr (), L\<lparr>conn := True\<rparr>)"
  by (auto simp: ledger_open_def sealed_def seal_matches_def file_bytes_def)

lemma new_then_open:
  "stored (db_file L) = None \<Longrightarrow> torn (db_file L) = [] \<Longrightarrow> writable (db_file L) \<Longrightarrow>
     \<exists>L'. ledger_open sha im L = (Inr (), L') \<and> ledger_ok sha im L' \<and> ledger_at sha Absent L'
       \<and> writable (db_file L')"
  by (simp add: ledger_open_def write_seal_def file_bytes_def ledger_ok_def sealed_def ledger_at_def
      db_at_empty)

end
