(* ===== verification/Broker.thy ===== *)
theory Broker
  imports Wire Ledger_Props
begin

text \<open>
  The broker run of \<open>experiments/common/oasi_broker.py\<close>: the polling loops with their deadlines,
  the drain of the serial line, and \<open>run_qemu\<close> with the ledger calls in their place between the
  frames.  What the operating system and the guest do is data: the polls a loop makes before its
  clock passes the deadline, what arrives on the channel, which sends fail, the credentials.
\<close>

section \<open>Polling loops\<close>

text \<open>
  One turn of a loop: the clock it reads (milliseconds), the answer of \<open>process.poll()\<close>, whether
  \<open>listener.accept()\<close> returned a connection before its own timeout, and the content of the log
  file.  The clock passes the deadline after the last turn of a list.
\<close>

record tick =
  now :: int
  exited :: "int option"
  accepted :: bool
  log_data :: "bytes option"

definition log_bytes :: "tick \<Rightarrow> bytes" where
  "log_bytes t = (case log_data t of None \<Rightarrow> [] | Some b \<Rightarrow> b)"

fun accept_qemu_channel :: "int \<Rightarrow> tick list \<Rightarrow> exn + unit" where
  "accept_qemu_channel deadline [] = Inl (ProtocolError ''transport accept timeout'')"
| "accept_qemu_channel deadline (t # ts) =
     (if \<not> now t < deadline then Inl (ProtocolError ''transport accept timeout'')
      else case exited t of
        Some c \<Rightarrow> Inl (ProtocolError (''qemu exited before transport: '' @ str_int c))
      | None \<Rightarrow> if accepted t then Inr () else accept_qemu_channel deadline ts)"

definition terminal_markers :: "bytes list" where
  "terminal_markers =
     [ascii (CHR 0x22 # ''success'' @ [CHR 0x22] @ '':true,'' @ [CHR 0x22] @ ''terminal'' @ [CHR 0x22]
        @ '':true,'' @ [CHR 0x22] @ ''zero_survivors'' @ [CHR 0x22] @ '':true''),
      ascii (CHR 0x22 # ''commit'' @ [CHR 0x22] @ '':false''),
      ascii ''OASI2_BROKER_GUEST_PASS'']"

definition ready_marker :: bytes where
  "ready_marker = ascii ''OASI2_ED25519_OPENSSL_SELFTEST_PASS''"

fun wait_for_terminal :: "int \<Rightarrow> tick list \<Rightarrow> exn + bytes" where
  "wait_for_terminal deadline [] = Inl (ProtocolError ''guardian terminal timeout'')"
| "wait_for_terminal deadline (t # ts) =
     (if \<not> now t < deadline then Inl (ProtocolError ''guardian terminal timeout'')
      else if list_all (\<lambda>m. py_in m (log_bytes t)) terminal_markers then Inr (log_bytes t)
      else case exited t of
        Some c \<Rightarrow> Inl (ProtocolError (''qemu exited before terminal: '' @ str_int c))
      | None \<Rightarrow> wait_for_terminal deadline ts)"

fun wait_for_guest_ready :: "int \<Rightarrow> tick list \<Rightarrow> exn + unit" where
  "wait_for_guest_ready deadline [] = Inl (ProtocolError ''guest readiness timeout'')"
| "wait_for_guest_ready deadline (t # ts) =
     (if \<not> now t < deadline then Inl (ProtocolError ''guest readiness timeout'')
      else if py_in ready_marker (log_bytes t) then Inr ()
      else case exited t of
        Some c \<Rightarrow> Inl (ProtocolError (''qemu exited before guest readiness: '' @ str_int c))
      | None \<Rightarrow> wait_for_guest_ready deadline ts)"

section \<open>Draining the serial line\<close>

function drain_loop :: "bytes \<Rightarrow> (channel, bytes) act" where
  "drain_loop drained ch =
     (if 64 \<le> length drained then (Inr drained, ch)
      else case recv (64 - length drained) ch of
        (Inl e, ch') \<Rightarrow> if e = SocketTimeout then (Inr drained, ch') else (Inl e, ch')
      | (Inr chunk, ch') \<Rightarrow>
          if chunk = [] then (Inl (ProtocolError ''transport closed during startup drain''), ch')
          else drain_loop (drained @ chunk) ch')"
  by pat_completeness auto
termination
  by (relation "measure (\<lambda>(drained, ch). 64 - length drained)")
    (auto simp flip: length_greater_0_conv)

declare drain_loop.simps [simp del]

definition drain_uart_startup_noise :: "(channel, bytes) act" where
  "drain_uart_startup_noise = act_bind (drain_loop []) (\<lambda>drained.
     if drained \<notin> {[], [255]}
     then act_raise (ProtocolError (''unexpected uart startup noise='' @ hex_of drained))
     else act_return drained)"

section \<open>The run\<close>

datatype peer =
    No_peercred                \<comment> \<open>the platform has no SO_PEERCRED\<close>
  | Peercred_unsupported       \<comment> \<open>getsockopt fails with EOPNOTSUPP\<close>
  | Peercred_error             \<comment> \<open>getsockopt fails otherwise\<close>
  | Credentials int int        \<comment> \<open>peer pid and uid\<close>

record qemu_env =
  ledger_path :: string
  socket_path :: string
  log_path :: string
  socket_exists :: bool
  log_exists :: bool
  listen_ok :: bool            \<comment> \<open>socket, bind, listen and Popen succeed\<close>
  peer :: peer
  process_pid :: int
  own_uid :: int
  accept_start :: int
  accept_ticks :: "tick list"
  ready_start :: int
  ready_ticks :: "tick list"
  terminal_start :: int
  terminal_ticks :: "tick list"
  terminal_log :: bytes        \<comment> \<open>the log as read after the process has ended\<close>
  integrity :: bool            \<comment> \<open>SQLite's \<open>PRAGMA integrity_check\<close> answers ok\<close>

text \<open>
  The state the run changes.  \<open>sent\<close> lists every frame handed to \<open>sendall\<close> (a failing send may still
  have reached the peer), each with the ledger tables that were committed at that moment.
\<close>

record broker =
  ledger :: ledger
  channel :: channel
  send_fates :: "bool list"    \<comment> \<open>False: this \<open>sendall\<close> raises; none left: it succeeds\<close>
  sent :: "(bytes \<times> ledger_db option) list"

record run_result =
  rr_state :: string
  rr_recovery_action :: string
  rr_prepare_transcript :: string
  rr_terminal_log :: string
  rr_peer_pid_verified :: bool
  rr_peer_credential_status :: string
  rr_uart_startup_noise :: string

definition on_ledger :: "(ledger, 'a) act \<Rightarrow> (broker, 'a) act" where
  "on_ledger m B = (case m (ledger B) of (r, L) \<Rightarrow> (r, B\<lparr>ledger := L\<rparr>))"

definition on_channel :: "(channel, 'a) act \<Rightarrow> (broker, 'a) act" where
  "on_channel m B = (case m (channel B) of (r, ch) \<Rightarrow> (r, B\<lparr>channel := ch\<rparr>))"

definition pure_act :: "exn + 'a \<Rightarrow> ('s, 'a) act" where
  "pure_act r s = (r, s)"

definition sendall :: "bytes \<Rightarrow> (broker, unit) act" where
  "sendall w B =
     (let B' = B\<lparr>send_fates := tl (send_fates B), sent := sent B @ [(w, stored (db_file (ledger B)))]\<rparr>
      in if send_fates B \<noteq> [] \<and> \<not> hd (send_fates B) then (Inl (OSError ''send''), B') else (Inr (), B'))"

definition refuse_replay :: "qemu_env \<Rightarrow> (broker, unit) act" where
  "refuse_replay env B =
     (if stored (db_file (ledger B)) \<noteq> None
      then (Inl (ProtocolError (''refusing replay: '' @ ledger_path env)), B)
      else if socket_exists env then (Inl (ProtocolError (''refusing replay: '' @ socket_path env)), B)
      else if log_exists env then (Inl (ProtocolError (''refusing replay: '' @ log_path env)), B)
      else (Inr (), B))"

definition check_peer :: "qemu_env \<Rightarrow> exn + string" where
  "check_peer env = (case peer env of
       No_peercred \<Rightarrow> Inr ''not_available''
     | Peercred_unsupported \<Rightarrow> Inr ''unsupported_wsl1_eopnotsupp''
     | Peercred_error \<Rightarrow> Inl (OSError ''getsockopt'')
     | Credentials pid uid \<Rightarrow>
         if pid \<noteq> process_pid env \<or> uid \<noteq> own_uid env
         then Inl (ProtocolError ''qemu peer credential mismatch'')
         else Inr ''verified'')"

definition connect_guest :: "qemu_env \<Rightarrow> exn + string" where
  "connect_guest env =
     (if \<not> listen_ok env then Inl (OSError ''listen'')
      else res_bind (accept_qemu_channel (accept_start env + 10000) (accept_ticks env)) (\<lambda>_.
        res_bind (check_peer env) (\<lambda>status.
          res_bind (wait_for_guest_ready (ready_start env + 20000) (ready_ticks env)) (\<lambda>_.
            Inr status))))"

definition finish_run ::
  "(bytes \<Rightarrow> bytes) \<Rightarrow> (ledger_db \<Rightarrow> bytes) \<Rightarrow> qemu_env \<Rightarrow> bytes \<Rightarrow> string \<Rightarrow> bytes \<Rightarrow> (broker, run_result) act" where
  "finish_run sha im env prepare_digest status noise =
     (let result_digest = sha_hex sha (terminal_log env @ prepare_digest) in
      act_bind (on_ledger (ledger_record_result sha im result_digest)) (\<lambda>_.
      act_bind (on_ledger (ledger_terminal sha im)) (\<lambda>_.
      act_bind (on_ledger (ledger_verify sha (integrity env))) (\<lambda>_.
      act_bind (on_ledger (ledger_state sha)) (\<lambda>state.
      act_bind (on_ledger (ledger_recovery_action sha)) (\<lambda>recovery.
      act_return
        \<lparr>rr_state = state, rr_recovery_action = recovery,
         rr_prepare_transcript = hex_of prepare_digest,
         rr_terminal_log = sha_hex sha (terminal_log env),
         rr_peer_pid_verified = (status = ''verified''),
         rr_peer_credential_status = status,
         rr_uart_startup_noise = hex_of noise\<rparr>))))))"

definition session ::
  "(bytes \<Rightarrow> bytes) \<Rightarrow> (ledger_db \<Rightarrow> bytes) \<Rightarrow> (bytes \<Rightarrow> bytes \<Rightarrow> bytes \<Rightarrow> bool) \<Rightarrow> qemu_env
    \<Rightarrow> bytes \<Rightarrow> bytes \<Rightarrow> bytes \<Rightarrow> (broker, run_result) act" where
  "session sha im ed_verify env prepare_wire prepare_digest execute_wire =
     act_bind (pure_act (connect_guest env)) (\<lambda>status.
     act_bind (on_channel drain_uart_startup_noise) (\<lambda>noise.
     act_bind (sendall prepare_wire) (\<lambda>_.
     act_bind (on_channel (recv_receipt ed_verify STATUS_PREPARED prepare_digest)) (\<lambda>_.
     act_bind (on_ledger (ledger_consume sha im)) (\<lambda>_.
     act_bind (sendall execute_wire) (\<lambda>_.
     act_bind (on_channel (recv_receipt ed_verify STATUS_EFFECT_RECEIPT prepare_digest)) (\<lambda>_.
     act_bind (pure_act (wait_for_terminal (terminal_start env + 20000) (terminal_ticks env))) (\<lambda>_.
     finish_run sha im env prepare_digest status noise))))))))"

definition run_qemu ::
  "(bytes \<Rightarrow> bytes) \<Rightarrow> (ledger_db \<Rightarrow> bytes) \<Rightarrow> (bytes \<Rightarrow> bytes \<Rightarrow> bytes)
    \<Rightarrow> (bytes \<Rightarrow> bytes \<Rightarrow> bytes \<Rightarrow> bool) \<Rightarrow> qemu_env \<Rightarrow> (broker, run_result) act" where
  "run_qemu sha im ed_sign ed_verify env =
     act_bind (refuse_replay env) (\<lambda>_.
     act_bind (on_ledger (ledger_open sha im)) (\<lambda>_.
     act_bind (on_ledger (ledger_prepare sha im)) (\<lambda>_.
     act_bind (pure_act (signed_frame sha ed_sign KIND_PREPARE PREPARE_PAYLOAD))
       (\<lambda>(prepare_wire, prepare_digest).
     act_bind (pure_act (signed_frame sha ed_sign KIND_EXECUTE prepare_digest)) (\<lambda>(execute_wire, _).
     act_finally (session sha im ed_verify env prepare_wire prepare_digest execute_wire)
       (\<lambda>B. B\<lparr>ledger := (ledger B)\<lparr>conn := False\<rparr>\<rparr>))))))"

end
