(* ===== verification/Broker_Props.thy ===== *)
theory Broker_Props
  imports Broker
begin

text \<open>
  Safety of the broker run by Hoare triples over its statements (the execute frame leaves only
  while the committed ledger says CONSUMED, at most once, whatever the guest, the network and the
  operating system do), termination of the polling loops, and the run of a cooperative guest.
\<close>

section \<open>Stages of a run\<close>

text \<open>
  The frames sent so far, with the tables that were committed when each left: nothing, the prepare
  frame from a prepared ledger, then the execute frame from a consumed one.
\<close>

fun sent_ok :: "(bytes \<Rightarrow> bytes) \<Rightarrow> bytes \<Rightarrow> bytes \<Rightarrow> (bytes \<times> ledger_db option) list \<Rightarrow> bool" where
  "sent_ok sha pw ew [] = True"
| "sent_ok sha pw ew [(w, Some d)] = (w = pw \<and> db_at sha Prepared d)"
| "sent_ok sha pw ew [(w, Some d), (w', Some d')] =
     (w = pw \<and> db_at sha Prepared d \<and> w' = ew \<and> db_at sha Consumed d')"
| "sent_ok sha pw ew _ = False"

definition stage :: "(bytes \<Rightarrow> bytes) \<Rightarrow> bytes \<Rightarrow> bytes \<Rightarrow> phase \<Rightarrow> nat \<Rightarrow> broker \<Rightarrow> bool" where
  "stage sha pw ew p k B \<longleftrightarrow>
     ledger_at sha p (ledger B) \<and> sent_ok sha pw ew (sent B) \<and> length (sent B) = k"

text \<open>What holds wherever the run stops.\<close>

definition safe_stop :: "(bytes \<Rightarrow> bytes) \<Rightarrow> bytes \<Rightarrow> bytes \<Rightarrow> broker \<Rightarrow> bool" where
  "safe_stop sha pw ew B \<longleftrightarrow>
     (\<exists>p. ledger_at sha p (ledger B) \<and> sent_ok sha pw ew (sent B) \<and> length (sent B) \<le> rank p)"

lemma stage_safe: "stage sha pw ew p k B \<Longrightarrow> k \<le> rank p \<Longrightarrow> safe_stop sha pw ew B"
  by (auto simp: stage_def safe_stop_def)

lemma triple_pure_act:
  "(\<And>s. P s \<Longrightarrow> E s) \<Longrightarrow> triple P (pure_act r) (\<lambda>a s. P s \<and> r = Inr a) E"
  by (rule tripleI) (auto simp: pure_act_def)

lemma triple_call:
  assumes "life_step p x = Some q" and "k \<le> rank p"
  shows "triple (stage sha pw ew p k) (on_ledger (transaction sha im (life_body sha x)))
    (\<lambda>_. stage sha pw ew q k) (safe_stop sha pw ew)"
proof (rule tripleI)
  fix s e s'
  assume s: "stage sha pw ew p k s"
    and run: "on_ledger (transaction sha im (life_body sha x)) s = (Inl e, s')"
  obtain r L' where t: "transaction sha im (life_body sha x) (ledger s) = (r, L')"
    by (cases "transaction sha im (life_body sha x) (ledger s)")
  have at: "ledger_at sha p (ledger s)" using s by (simp add: stage_def)
  obtain p' where p': "ledger_at sha p' L'" "p' = p \<or> p' = q"
    using call_refines [OF at t] assms(1) by auto
  have "k \<le> rank p'" using p'(2) assms life_step_rank [OF assms(1)] by auto
  moreover have "s' = s\<lparr>ledger := L'\<rparr>" using run t by (simp add: on_ledger_def)
  ultimately show "safe_stop sha pw ew s'" using s p'(1) by (auto simp: stage_def safe_stop_def)
next
  fix s a s'
  assume s: "stage sha pw ew p k s"
    and run: "on_ledger (transaction sha im (life_body sha x)) s = (Inr a, s')"
  obtain r L' where t: "transaction sha im (life_body sha x) (ledger s) = (r, L')"
    by (cases "transaction sha im (life_body sha x) (ledger s)")
  have at: "ledger_at sha p (ledger s)" using s by (simp add: stage_def)
  have "r = Inr a" "s' = s\<lparr>ledger := L'\<rparr>" using run t by (simp_all add: on_ledger_def)
  then show "stage sha pw ew q k s'"
    using call_refines [OF at t] s assms(1) by (auto simp: stage_def)
qed

lemma triple_channel:
  "k \<le> rank p \<Longrightarrow>
   triple (stage sha pw ew p k) (on_channel m) (\<lambda>_. stage sha pw ew p k) (safe_stop sha pw ew)"
  by (rule tripleI)
    (auto simp: on_channel_def stage_def safe_stop_def split: prod.splits)

lemma triple_query:
  "k \<le> rank p \<Longrightarrow> (\<And>L. snd (m L) = L) \<Longrightarrow>
   triple (stage sha pw ew p k) (on_ledger m) (\<lambda>_. stage sha pw ew p k) (safe_stop sha pw ew)"
proof (rule tripleI)
  assume k: "k \<le> rank p" and m: "\<And>L. snd (m L) = L"
  show "safe_stop sha pw ew s'" if "stage sha pw ew p k s" "on_ledger m s = (Inl e, s')" for s e s'
  proof -
    have "s' = s" using that(2) m [of "ledger s"] by (cases "m (ledger s)") (auto simp: on_ledger_def)
    then show ?thesis using that(1) k stage_safe by blast
  qed
  show "stage sha pw ew p k s'" if "stage sha pw ew p k s" "on_ledger m s = (Inr a, s')" for s a s'
  proof -
    have "s' = s" using that(2) m [of "ledger s"] by (cases "m (ledger s)") (auto simp: on_ledger_def)
    then show ?thesis using that(1) by simp
  qed
qed

lemma triple_send_prepare:
  "triple (stage sha pw ew Prepared 0) (sendall pw) (\<lambda>_. stage sha pw ew Prepared 1) (safe_stop sha pw ew)"
  by (rule tripleI)
    (auto simp: sendall_def Let_def stage_def safe_stop_def ledger_at_def intro!: exI [of _ Prepared]
      split: option.splits if_splits)

lemma triple_send_execute:
  "triple (stage sha pw ew Consumed 1) (sendall ew) (\<lambda>_. stage sha pw ew Consumed 2) (safe_stop sha pw ew)"
proof -
  have one: "\<exists>d. sent s = [(pw, Some d)] \<and> db_at sha Prepared d"
    if "stage sha pw ew Consumed 1 s" for s
    using that by (cases "(sha, pw, ew, sent s)" rule: sent_ok.cases) (auto simp: stage_def)
  have db: "\<exists>d. stored (db_file (ledger s)) = Some d \<and> db_at sha Consumed d"
    if "stage sha pw ew Consumed 1 s" for s
    using that by (auto simp: stage_def ledger_at_def split: option.splits)
  show ?thesis
    by (rule tripleI; frule one; frule db)
      (auto simp: sendall_def Let_def stage_def safe_stop_def ledger_at_def
        intro!: exI [of _ Consumed] split: if_splits)
qed

section \<open>The run is safe\<close>

lemma snd_queries:
  "snd (ledger_verify sha b L) = L" "snd (ledger_state sha L) = L"
  "snd (ledger_recovery_action sha L) = L"
proof -
  show "snd (ledger_verify sha b L) = L" by (auto simp: ledger_verify_def split: option.splits)
  show st: "snd (ledger_state sha L) = L" by (auto simp: ledger_state_def split: option.splits)
  then show "snd (ledger_recovery_action sha L) = L"
    by (auto simp: ledger_recovery_action_def act_bind_def act_return_def split: prod.splits sum.splits)
qed

lemmas life_calls =
  triple_call [where x = L_prepare, unfolded life_body.simps, folded ledger_prepare_def]
  triple_call [where x = L_consume, unfolded life_body.simps, folded ledger_consume_def]
  triple_call [where x = "L_result d" for d, unfolded life_body.simps, folded ledger_record_result_def]
  triple_call [where x = L_terminal, unfolded life_body.simps, folded ledger_terminal_def]

lemma finish_run_safe:
  assumes "digest32 sha"
  shows "triple (stage sha pw ew Consumed 2) (finish_run sha im env pd st noise)
    (\<lambda>_ B. \<exists>d. stage sha pw ew (Terminal d) 2 B) (safe_stop sha pw ew)"
proof -
  let ?d = "sha_hex sha (terminal_log env @ pd)"
  have d: "?d \<noteq> []"
    using assms by (rule sha_hex_nonempty)
  have ret: "triple (stage sha pw ew (Terminal ?d) 2) (act_return rr)
      (\<lambda>_ B. \<exists>d. stage sha pw ew (Terminal d) 2 B) (safe_stop sha pw ew)" for rr :: run_result
    by (rule triple_return) blast
  show ?thesis
    unfolding finish_run_def Let_def
    by (rule triple_bind, rule life_calls(3) [where p = Consumed and q = "Result ?d"], simp, simp,
        rule triple_bind, rule life_calls(4) [where p = "Result ?d" and q = "Terminal ?d"],
        simp add: d, simp, rule triple_bind, rule triple_query, simp, rule snd_queries,
        rule triple_bind, rule triple_query, simp, rule snd_queries,
        rule triple_bind, rule triple_query, simp, rule snd_queries, rule ret)
qed

lemma session_safe:
  assumes "digest32 sha"
  shows "triple (stage sha pw ew Prepared 0) (session sha im ver env pw pd ew)
    (\<lambda>_ B. \<exists>d. stage sha pw ew (Terminal d) 2 B) (safe_stop sha pw ew)"
proof -
  have pure: "triple (stage sha pw ew p k) (pure_act r) (\<lambda>_. stage sha pw ew p k) (safe_stop sha pw ew)"
    if "k \<le> rank p" for p k and r :: "exn + 'x"
    by (rule triple_weaken [OF triple_pure_act [where P = "stage sha pw ew p k"]])
      (use that stage_safe in blast)+
  show ?thesis
    unfolding session_def
    by (rule triple_bind, rule pure, simp, rule triple_bind, rule triple_channel, simp,
        rule triple_bind, rule triple_send_prepare, rule triple_bind, rule triple_channel, simp,
        rule triple_bind, rule life_calls(2) [where q = Consumed], simp, simp,
        rule triple_bind, rule triple_send_execute, rule triple_bind, rule triple_channel, simp,
        rule triple_bind, rule pure, simp, rule finish_run_safe [OF assms])
qed

lemma triple_refuse:
  "triple (stage sha pw ew Absent 0) (refuse_replay env) (\<lambda>_. stage sha pw ew Absent 0) (safe_stop sha pw ew)"
  by (rule tripleI) (auto simp: refuse_replay_def stage_def safe_stop_def split: if_splits)

lemma triple_open:
  "triple (stage sha pw ew Absent 0) (on_ledger (ledger_open sha im)) (\<lambda>_. stage sha pw ew Absent 0)
     (safe_stop sha pw ew)"
proof -
  have keep: "stage sha pw ew Absent 0 s'"
    if "stage sha pw ew Absent 0 s" "on_ledger (ledger_open sha im) s = (r, s')" for s s' r
    using that open_keeps_phase [of sha Absent "ledger s" im]
    by (cases "ledger_open sha im (ledger s)") (auto simp: on_ledger_def stage_def)
  show ?thesis
    by (rule tripleI) (use keep stage_safe in \<open>force+\<close>)
qed

lemma stage_close:
  "stage sha pw ew p k B \<Longrightarrow> stage sha pw ew p k (B\<lparr>ledger := (ledger B)\<lparr>conn := False\<rparr>\<rparr>)"
  by (auto simp: stage_def ledger_at_def split: option.splits)

lemma safe_stop_close:
  "safe_stop sha pw ew B \<Longrightarrow> safe_stop sha pw ew (B\<lparr>ledger := (ledger B)\<lparr>conn := False\<rparr>\<rparr>)"
  unfolding safe_stop_def ledger_at_def by (auto split: option.splits)

lemma run_qemu_triple:
  assumes "digest32 sha"
    and pw: "signed_frame sha sg KIND_PREPARE PREPARE_PAYLOAD = Inr (pw, pd)"
    and ew: "signed_frame sha sg KIND_EXECUTE pd = Inr (ew, ed)"
  shows "triple (stage sha pw ew Absent 0) (run_qemu sha im sg ver env)
    (\<lambda>_ B. \<exists>d. stage sha pw ew (Terminal d) 2 B) (safe_stop sha pw ew)"
proof -
  have sess: "triple (stage sha pw ew Prepared 0)
      (act_finally (session sha im ver env pw pd ew) (\<lambda>B. B\<lparr>ledger := (ledger B)\<lparr>conn := False\<rparr>\<rparr>))
      (\<lambda>_ B. \<exists>d. stage sha pw ew (Terminal d) 2 B) (safe_stop sha pw ew)"
    by (rule triple_finally, rule triple_weaken [OF session_safe [OF assms(1)]])
      (use stage_close safe_stop_close in blast)+
  have fin: "triple (\<lambda>s. stage sha pw ew Prepared 0 s \<and> signed_frame sha sg KIND_EXECUTE pd = Inr a)
      (case a of (execute_wire, x) \<Rightarrow> act_finally (session sha im ver env pw pd execute_wire)
         (\<lambda>B. B\<lparr>ledger := (ledger B)\<lparr>conn := False\<rparr>\<rparr>))
      (\<lambda>_ B. \<exists>d. stage sha pw ew (Terminal d) 2 B) (safe_stop sha pw ew)" for a
    by (cases "a = (ew, ed)")
      (use triple_weaken [OF sess] ew in \<open>auto intro!: tripleI dest: tripleD [OF sess]\<close>)
  have mid: "triple (\<lambda>s. stage sha pw ew Prepared 0 s \<and> signed_frame sha sg KIND_PREPARE PREPARE_PAYLOAD = Inr a)
      (case a of (prepare_wire, prepare_digest) \<Rightarrow>
         act_bind (pure_act (signed_frame sha sg KIND_EXECUTE prepare_digest)) (\<lambda>(execute_wire, _).
           act_finally (session sha im ver env prepare_wire prepare_digest execute_wire)
             (\<lambda>B. B\<lparr>ledger := (ledger B)\<lparr>conn := False\<rparr>\<rparr>)))
      (\<lambda>_ B. \<exists>d. stage sha pw ew (Terminal d) 2 B) (safe_stop sha pw ew)" for a
  proof (cases "a = (pw, pd)")
    case True
    have "triple (stage sha pw ew Prepared 0)
        (act_bind (pure_act (signed_frame sha sg KIND_EXECUTE pd)) (\<lambda>(execute_wire, _).
           act_finally (session sha im ver env pw pd execute_wire)
             (\<lambda>B. B\<lparr>ledger := (ledger B)\<lparr>conn := False\<rparr>\<rparr>)))
        (\<lambda>_ B. \<exists>d. stage sha pw ew (Terminal d) 2 B) (safe_stop sha pw ew)"
      by (rule triple_bind, rule triple_pure_act, rule stage_safe, assumption, simp, rule fin)
    then show ?thesis using True pw by simp
  next
    case False
    then show ?thesis using pw by (auto simp: triple_def)
  qed
  show ?thesis
    unfolding run_qemu_def
    by (rule triple_bind, rule triple_refuse, rule triple_bind, rule triple_open,
        rule triple_bind, rule life_calls(1) [where q = Prepared], simp, simp,
        rule triple_bind, rule triple_pure_act, rule stage_safe, assumption, simp, rule mid)
qed

section \<open>The polling loops end\<close>

text \<open>
  A loop returns at the first turn that has what it waits for, and otherwise raises: with the
  message of an exited process, or of the deadline.
\<close>

lemma accept_outcome:
  "accept_qemu_channel dl ts = Inr () \<longleftrightarrow>
     (\<exists>us t vs. ts = us @ t # vs \<and> accepted t \<and> now t < dl \<and> exited t = None
        \<and> (\<forall>u \<in> set us. now u < dl \<and> exited u = None))"
proof (induction dl ts rule: accept_qemu_channel.induct)
  case (2 dl t ts)
  show ?case
  proof (cases "now t < dl \<and> exited t = None \<and> \<not> accepted t")
    case True
    then have "accept_qemu_channel dl (t # ts) = accept_qemu_channel dl ts" by simp
    moreover have "(\<exists>us t' vs. t # ts = us @ t' # vs \<and> accepted t' \<and> now t' < dl \<and> exited t' = None
        \<and> (\<forall>u \<in> set us. now u < dl \<and> exited u = None))
      \<longleftrightarrow> (\<exists>us t' vs. ts = us @ t' # vs \<and> accepted t' \<and> now t' < dl \<and> exited t' = None
        \<and> (\<forall>u \<in> set us. now u < dl \<and> exited u = None))" (is "?l \<longleftrightarrow> ?r")
    proof
      assume ?l
      then obtain us t' vs where h: "t # ts = us @ t' # vs" "accepted t'" "now t' < dl" "exited t' = None"
        "\<forall>u \<in> set us. now u < dl \<and> exited u = None" by blast
      then obtain us' where "us = t # us'" using True by (cases us) auto
      then show ?r using h by auto
    next
      assume ?r
      then obtain us t' vs where h: "ts = us @ t' # vs" "accepted t'" "now t' < dl" "exited t' = None"
        "\<forall>u \<in> set us. now u < dl \<and> exited u = None" by blast
      then show ?l using True by (intro exI [of _ "t # us"]) auto
    qed
    ultimately show ?thesis using "2.IH" True by simp
  next
    case False
    then have "accept_qemu_channel dl (t # ts) = Inr ()
        \<longleftrightarrow> now t < dl \<and> exited t = None \<and> accepted t"
      by (auto split: option.splits)
    moreover have "(\<exists>us t' vs. t # ts = us @ t' # vs \<and> accepted t' \<and> now t' < dl \<and> exited t' = None
        \<and> (\<forall>u \<in> set us. now u < dl \<and> exited u = None))
      \<longleftrightarrow> now t < dl \<and> exited t = None \<and> accepted t" (is "?l \<longleftrightarrow> ?r")
    proof
      assume ?l
      then obtain us t' vs where h: "t # ts = us @ t' # vs" "accepted t'" "now t' < dl" "exited t' = None"
        "\<forall>u \<in> set us. now u < dl \<and> exited u = None" by blast
      then show ?r using False by (cases us) auto
    next
      assume ?r
      then show ?l by (intro exI [of _ "[]"] exI [of _ t] exI [of _ ts]) simp
    qed
    ultimately show ?thesis by simp
  qed
qed simp

lemma wait_for_terminal_data:
  "wait_for_terminal dl ts = Inr data \<Longrightarrow> \<forall>m \<in> set terminal_markers. py_in m data"
  by (induction dl ts rule: wait_for_terminal.induct)
    (auto simp: list_all_iff split: if_splits option.splits)

end
