(* ===== verification/Frame.thy ===== *)
theory Frame
  imports Wire
begin

text \<open>
  The signed frames of the two campaigns (\<open>make_frame\<close>, \<open>verify_frame\<close>, \<open>mutate_signature\<close> of
  \<open>experiments/s5/experiment.py\<close> and \<open>experiments/s6/experiment.py\<close>, which agree) and what binds a
  frame to one generation, context and attempt.
\<close>

definition FIXTURE_PRIVATE_SEED :: bytes where
  "FIXTURE_PRIVATE_SEED = unhex
     (''4ccd089b28ff96da9db6c346ec114e0f'' @ ''5b8a319f35aba624da8cf6ed4fb8a6fb'')"
definition FIXTURE_PUBLIC_KEY :: bytes where
  "FIXTURE_PUBLIC_KEY = unhex
     (''3d4017c3e843895a92b70aa74d1b7ebc'' @ ''9c982ccf2ec4968cc0cd55f12af4660c'')"

record frame =
  body :: bytes
  signature :: bytes

definition frame_json :: "int \<Rightarrow> string \<Rightarrow> int \<Rightarrow> string \<Rightarrow> json" where
  "frame_json generation context attempt payload = JObj
     [(''algorithm'', JStr ''ed25519-rfc8032-fixture-only''), (''generation'', JInt generation),
      (''context'', JStr context), (''attempt'', JInt attempt), (''payload'', JStr payload)]"

definition make_frame ::
  "(bytes \<Rightarrow> bytes) \<Rightarrow> (bytes \<Rightarrow> bytes \<Rightarrow> bytes) \<Rightarrow> int \<Rightarrow> string \<Rightarrow> int \<Rightarrow> int \<Rightarrow> frame" where
  "make_frame sha ed_sign generation context attempt seed =
     (let b = canonical_json (frame_json generation context attempt
                (sha_hex sha (ascii (''NOOP:'' @ str_int seed))))
      in \<lparr>body = b, signature = ed_sign FIXTURE_PRIVATE_SEED b\<rparr>)"

text \<open>\<open>value == n\<close> and \<open>value == text\<close> for the value of a member (None: \<open>get\<close> found no such key).\<close>

fun eq_int :: "json option \<Rightarrow> int \<Rightarrow> bool" where
  "eq_int (Some (JInt i)) n = (i = n)"
| "eq_int (Some (JBool b)) n = ((if b then 1 else 0) = n)"
| "eq_int _ n = False"

fun eq_str :: "json option \<Rightarrow> string \<Rightarrow> bool" where
  "eq_str (Some (JStr s)) t = (s = t)"
| "eq_str _ t = False"

definition verify_frame ::
  "(bytes \<Rightarrow> bytes \<Rightarrow> bytes \<Rightarrow> bool) \<Rightarrow> frame \<Rightarrow> int \<Rightarrow> string \<Rightarrow> int \<Rightarrow> exn + unit" where
  "verify_frame ed_verify f generation context attempt =
     (if \<not> ed_verify FIXTURE_PUBLIC_KEY (signature f) (body f) then Inl (AuthReject ''signature'')
      else case json_loads_bytes (body f) of
        Inl e \<Rightarrow> Inl e
      | Inr (JObj kvs) \<Rightarrow>
          if \<not> eq_int (map_of kvs ''generation'') generation then Inl (AuthReject ''generation'')
          else if \<not> eq_str (map_of kvs ''context'') context
                  \<or> \<not> eq_int (map_of kvs ''attempt'') attempt
          then Inl (AuthReject ''context_attempt'')
          else Inr ()
      | Inr _ \<Rightarrow> Inl (AttributeError ''get''))"

definition mutate_signature :: "frame \<Rightarrow> exn + frame" where
  "mutate_signature f = (case signature f of
       [] \<Rightarrow> Inl (IndexError ''bytearray index out of range'')
     | s # ss \<Rightarrow> Inr \<lparr>body = body f, signature = (s XOR 1) # ss\<rparr>)"

section \<open>Binding\<close>

lemma frame_members:
  "\<exists>kvs. json_loads_bytes (canonical_json (frame_json g c a p)) = Inr (JObj kvs)
     \<and> map_of kvs ''generation'' = Some (JInt g) \<and> map_of kvs ''context'' = Some (JStr c)
     \<and> map_of kvs ''attempt'' = Some (JInt a)"
proof -
  let ?kvs = "sort_key fst [(''algorithm'', JStr ''ed25519-rfc8032-fixture-only''), (''generation'', JInt g),
      (''context'', JStr c), (''attempt'', JInt a), (''payload'', JStr p)]"
  have wf: "wf_json (frame_json g c a p)" by (simp add: frame_json_def)
  have s: "sort_members (frame_json g c a p) = JObj ?kvs" by (simp add: frame_json_def del: sort_key_simps)
  have "map fst ?kvs = [''algorithm'', ''attempt'', ''context'', ''generation'', ''payload'']" by simp
  then have d: "distinct (map fst ?kvs)" by simp
  have m: "(''generation'', JInt g) \<in> set ?kvs" "(''context'', JStr c) \<in> set ?kvs"
    "(''attempt'', JInt a) \<in> set ?kvs" by simp_all
  show ?thesis
    using json_loads_canonical [OF wf] m unfolding s by (auto simp: map_of_eq_Some_iff [OF d])
qed

text \<open>
  An intact frame is accepted for its own generation, context and attempt, and rejected for every
  other with the message of the first field that differs.
\<close>

lemma verify_made_frame:
  assumes "ed_verify FIXTURE_PUBLIC_KEY (signature (make_frame sha sg g c a seed))
    (body (make_frame sha sg g c a seed))"
  shows "verify_frame ed_verify (make_frame sha sg g c a seed) g' c' a' =
    (if g \<noteq> g' then Inl (AuthReject ''generation'')
     else if c \<noteq> c' \<or> a \<noteq> a' then Inl (AuthReject ''context_attempt'') else Inr ())"
  using assms frame_members [of g c a "sha_hex sha (ascii (''NOOP:'' @ str_int seed))"]
  by (auto simp: verify_frame_def make_frame_def Let_def)

lemma verify_bad_signature:
  "\<not> ed_verify FIXTURE_PUBLIC_KEY (signature f) (body f) \<Longrightarrow>
     verify_frame ed_verify f g c a = Inl (AuthReject ''signature'')"
  by (simp add: verify_frame_def)

lemma flipped_byte: "(x :: byte) XOR 1 \<noteq> x"
proof
  assume "x XOR 1 = x"
  then have "x XOR (x XOR 1) = x XOR x" by simp
  then show False by (simp flip: xor.assoc)
qed

lemma mutate_twice:
  "mutate_signature f = Inr f' \<Longrightarrow> mutate_signature f' = Inr f \<and> f' \<noteq> f \<and> body f' = body f"
  by (cases f) (auto simp: mutate_signature_def xor.assoc flipped_byte split: list.splits)

text \<open>
  What the campaigns rely on in Ed25519: a signature made with the private seed verifies under the
  public key, has 64 bytes, and no longer verifies once its first bit is flipped.
\<close>

definition ed25519_pair :: "(bytes \<Rightarrow> bytes \<Rightarrow> bytes) \<Rightarrow> (bytes \<Rightarrow> bytes \<Rightarrow> bytes \<Rightarrow> bool) \<Rightarrow> bool" where
  "ed25519_pair sg ver \<longleftrightarrow> (\<forall>m. length (sg FIXTURE_PRIVATE_SEED m) = 64
     \<and> ver FIXTURE_PUBLIC_KEY (sg FIXTURE_PRIVATE_SEED m) m
     \<and> (\<forall>s ss. sg FIXTURE_PRIVATE_SEED m = s # ss \<longrightarrow> \<not> ver FIXTURE_PUBLIC_KEY ((s XOR 1) # ss) m))"

lemma made_frame_signed:
  "ed25519_pair sg ver \<Longrightarrow> ver FIXTURE_PUBLIC_KEY (signature (make_frame sha sg g c a seed))
     (body (make_frame sha sg g c a seed))"
  by (simp add: ed25519_pair_def make_frame_def Let_def)

lemma verify_intact:
  "ed25519_pair sg ver \<Longrightarrow> verify_frame ver (make_frame sha sg g c a seed) g c a = Inr ()"
  "ed25519_pair sg ver \<Longrightarrow>
     verify_frame ver (make_frame sha sg g c a seed) (g + 1) c a = Inl (AuthReject ''generation'')"
  by (simp_all add: verify_made_frame made_frame_signed)

lemma verify_mutated:
  assumes "ed25519_pair sg ver"
  shows "\<exists>f. mutate_signature (make_frame sha sg g c a seed) = Inr f
    \<and> verify_frame ver f g' c' a' = Inl (AuthReject ''signature'')"
proof -
  let ?b = "body (make_frame sha sg g c a seed)"
  have sig: "signature (make_frame sha sg g c a seed) = sg FIXTURE_PRIVATE_SEED ?b"
    by (simp add: make_frame_def Let_def)
  have "length (sg FIXTURE_PRIVATE_SEED ?b) = 64" using assms by (simp add: ed25519_pair_def)
  then obtain s ss where s: "sg FIXTURE_PRIVATE_SEED ?b = s # ss"
    by (cases "sg FIXTURE_PRIVATE_SEED ?b") auto
  then have "\<not> ver FIXTURE_PUBLIC_KEY ((s XOR 1) # ss) ?b" using assms by (simp add: ed25519_pair_def)
  then show ?thesis using sig s by (simp add: mutate_signature_def verify_bad_signature)
qed

end
