(* ===== verification/Sink.thy ===== *)
theory Sink
  imports Prelude
begin

text \<open>
  The two effect sinks: \<open>EffectSink\<close> of \<open>experiments/s5/experiment.py\<close>, which can deduplicate by
  key, and \<open>NonCooperativeSink\<close> of \<open>experiments/s6/experiment.py\<close>, which only appends.  Their
  promises are locales: what repeated application does to the number of effects.
\<close>

section \<open>The sinks\<close>

record effect_sink =
  effects :: "(string \<times> string) list"    \<comment> \<open>effect_key and payload, in sequence order\<close>
  dedup :: "string \<rightharpoonup> string"

definition new_effect_sink :: effect_sink where
  "new_effect_sink = \<lparr>effects = [], dedup = Map.empty\<rparr>"

definition effect_sink_apply :: "string \<Rightarrow> string \<Rightarrow> bool \<Rightarrow> effect_sink \<Rightarrow> bool \<times> effect_sink" where
  "effect_sink_apply key payload idempotent s =
     (if idempotent then
        (if dedup s key = None
         then (True, s\<lparr>dedup := (dedup s)(key \<mapsto> payload), effects := effects s @ [(key, payload)]\<rparr>)
         else (False, s))
      else (True, s\<lparr>effects := effects s @ [(key, payload)]\<rparr>))"

definition effect_sink_count :: "effect_sink \<Rightarrow> nat" where
  "effect_sink_count s = length (effects s)"

record append_sink =
  payloads :: "string list"

definition new_append_sink :: append_sink where
  "new_append_sink = \<lparr>payloads = []\<rparr>"

definition append_sink_apply :: "string \<Rightarrow> append_sink \<Rightarrow> append_sink" where
  "append_sink_apply payload s = s\<lparr>payloads := payloads s @ [payload]\<rparr>"

definition count_for_observer_only :: "append_sink \<Rightarrow> nat" where
  "count_for_observer_only s = length (payloads s)"

section \<open>Promises of a sink\<close>

locale sink =
  fixes put :: "'k \<Rightarrow> 's \<Rightarrow> 's" and total :: "'s \<Rightarrow> nat"
  assumes put_total: "total s \<le> total (put k s) \<and> total (put k s) \<le> Suc (total s)"
begin

lemma repeat_bounds: "total s \<le> total ((put k ^^ n) s) \<and> total ((put k ^^ n) s) \<le> total s + n"
proof (induction n)
  case (Suc n)
  then show ?case using put_total [of "(put k ^^ n) s" k] by simp
qed simp

end

locale append_only_sink =
  fixes put :: "'k \<Rightarrow> 's \<Rightarrow> 's" and total :: "'s \<Rightarrow> nat"
  assumes put_adds: "total (put k s) = Suc (total s)"
begin

lemma repeat_adds: "total ((put k ^^ n) s) = total s + n"
  by (induction n) (simp_all add: put_adds)

text \<open>Delivering again after an unknown outcome always shows.\<close>

lemma retry_doubles: "total s = 0 \<Longrightarrow> 1 < n \<Longrightarrow> 1 < total ((put k ^^ n) s)"
  by (simp add: repeat_adds)

end

sublocale append_only_sink \<subseteq> sink put total
  by unfold_locales (simp add: put_adds)

locale idempotent_sink = sink put total
  for put :: "'k \<Rightarrow> 's \<Rightarrow> 's" and total :: "'s \<Rightarrow> nat" +
  fixes seen :: "'k \<Rightarrow> 's \<Rightarrow> bool"
  assumes put_new: "\<not> seen k s \<Longrightarrow> total (put k s) = Suc (total s)"
    and put_seen: "seen k (put k s)"
    and put_again: "seen k s \<Longrightarrow> put k s = s"
begin

lemma put_put: "put k (put k s) = put k s"
  by (rule put_again) (rule put_seen)

lemma repeat_once: "0 < n \<Longrightarrow> (put k ^^ n) s = put k s"
proof (induction n)
  case (Suc n)
  then show ?case by (cases n) (simp_all add: put_put)
qed simp

lemma retry_exactly_once: "\<not> seen k s \<Longrightarrow> 0 < n \<Longrightarrow> total ((put k ^^ n) s) = Suc (total s)"
  by (simp add: repeat_once put_new)

end

interpretation dedup_sink: idempotent_sink
  "\<lambda>k s. snd (effect_sink_apply k payload True s)" effect_sink_count "\<lambda>k s. dedup s k \<noteq> None"
  for payload
  by unfold_locales (auto simp: effect_sink_apply_def effect_sink_count_def)

interpretation plain_sink: append_only_sink
  "\<lambda>k s. snd (effect_sink_apply k payload False s)" effect_sink_count
  for payload
  by unfold_locales (auto simp: effect_sink_apply_def effect_sink_count_def)

interpretation non_cooperative: append_only_sink append_sink_apply count_for_observer_only
  by unfold_locales (auto simp: append_sink_apply_def count_for_observer_only_def)

end
