(* ===== verification/Coordinator.thy ===== *)
theory Coordinator
  imports Sealed_File
begin

text \<open>
  The coordinator \<open>StateStore\<close> of \<open>experiments/s5/experiment.py\<close> and \<open>experiments/s6/experiment.py\<close>
  (the same class in both): a sealed SQLite file with one table of job states.  Unlike the ledger
  it verifies its seal before every operation, and it knows no state between READY and RESULT.
\<close>

type_synonym jobs = "string \<rightharpoonup> string"
type_synonym store = "jobs disk"

definition store_verify_seal :: "(bytes \<Rightarrow> bytes) \<Rightarrow> (jobs \<Rightarrow> bytes) \<Rightarrow> (store, unit) act" where
  "store_verify_seal sha im d =
     (if sidecar d = None then (Inl (ExperimentError ''coordinator seal missing''), d)
      else if file_bytes im d = None then (Inl (OSError ''no such file''), d)
      else if \<not> seal_matches sha im d then (Inl (ExperimentError ''coordinator seal mismatch''), d)
      else (Inr (), d))"

text \<open>\<open>StateStore(path)\<close>\<close>

definition store_open :: "(bytes \<Rightarrow> bytes) \<Rightarrow> (jobs \<Rightarrow> bytes) \<Rightarrow> (store, unit) act" where
  "store_open sha im d =
     (if stored d \<noteq> None then store_verify_seal sha im d
      else write_seal sha im (d\<lparr>stored := Some Map.empty\<rparr>))"

text \<open>
  A method with a \<open>with sqlite3.connect(...)\<close> block: the seal is verified, the statements run and
  are committed (or rolled back when they raise), and the seal is written anew.
\<close>

definition store_update ::
  "(bytes \<Rightarrow> bytes) \<Rightarrow> (jobs \<Rightarrow> bytes) \<Rightarrow> (jobs \<Rightarrow> exn + jobs) \<Rightarrow> (store, unit) act" where
  "store_update sha im statements = act_bind (store_verify_seal sha im) (\<lambda>_ d.
     case stored d of
       None \<Rightarrow> (Inl (OperationalError ''no such table: jobs''), d)
     | Some t \<Rightarrow> (case statements t of
           Inl e \<Rightarrow> (Inl e, d)
         | Inr t' \<Rightarrow> write_seal sha im (d\<lparr>stored := Some t'\<rparr>)))"

definition insert_ready :: "string \<Rightarrow> jobs \<Rightarrow> exn + jobs" where
  "insert_ready key t =
     (if t key \<noteq> None then Inl (IntegrityError ''UNIQUE constraint failed: jobs.job_key'')
      else Inr (t(key \<mapsto> ''READY'')))"

definition update_result :: "string \<Rightarrow> jobs \<Rightarrow> exn + jobs" where
  "update_result key t =
     (if t key \<noteq> Some ''READY'' then Inl (ExperimentError ''invalid result transition'')
      else Inr (t(key \<mapsto> ''RESULT'')))"

definition store_prepare where "store_prepare sha im key = store_update sha im (insert_ready key)"
definition store_result where "store_result sha im key = store_update sha im (update_result key)"

definition store_state :: "(bytes \<Rightarrow> bytes) \<Rightarrow> (jobs \<Rightarrow> bytes) \<Rightarrow> string \<Rightarrow> (store, string) act" where
  "store_state sha im key = act_bind (store_verify_seal sha im) (\<lambda>_ d.
     case stored d of
       None \<Rightarrow> (Inl (OperationalError ''no such table: jobs''), d)
     | Some t \<Rightarrow> (Inr (case t key of None \<Rightarrow> ''ABSENT'' | Some s \<Rightarrow> s), d))"

definition store_corrupt :: "(store, unit) act" where
  "store_corrupt d = (Inr (), d\<lparr>torn := torn d @ ascii ''TORN''\<rparr>)"

section \<open>A sealed service\<close>

datatype store_op = S_prepare string | S_result string

fun store_statements :: "store_op \<Rightarrow> jobs \<Rightarrow> exn + jobs" where
  "store_statements (S_prepare k) = insert_ready k"
| "store_statements (S_result k) = update_result k"

definition store_ok :: "(bytes \<Rightarrow> bytes) \<Rightarrow> (jobs \<Rightarrow> bytes) \<Rightarrow> store \<Rightarrow> bool" where
  "store_ok sha im d \<longleftrightarrow> (\<exists>t. sealed sha im t d)"

lemma verify_sealed: "sealed sha im t d \<Longrightarrow> store_verify_seal sha im d = (Inr (), d)"
  using sealed_matches [of sha im t d] by (auto simp: store_verify_seal_def sealed_def file_bytes_def)

lemma store_update_sealed:
  assumes "sealed sha im t d" and "writable d"
  shows "store_update sha im f d = (case f t of Inl e \<Rightarrow> (Inl e, d)
    | Inr t' \<Rightarrow> (Inr (), d\<lparr>stored := Some t', sidecar := Some (sha_hex sha (im t') @ [CHR 0x0A])\<rparr>))"
proof -
  have "stored d = Some t" "torn d = []" using assms(1) by (simp_all add: sealed_def)
  then show ?thesis
    using assms(2) verify_sealed [OF assms(1)]
    by (auto simp: store_update_def act_bind_def write_seal_def file_bytes_def split: sum.splits)
qed

interpretation store_service:
  sealed_service "\<lambda>x. store_update sha im (store_statements x)" "store_ok sha im" writable for sha im
proof unfold_locales
  fix s x u s'
  assume "store_ok sha im s" and w: "writable s"
    and run: "store_update sha im (store_statements x) s = (Inr u, s')"
  then obtain t where t: "sealed sha im t s" by (auto simp: store_ok_def)
  show "store_ok sha im s' \<and> writable s'"
    using run store_update_sealed [OF t w, of "store_statements x"] t w
    by (auto simp: store_ok_def sealed_def split: sum.splits)
next
  fix s x e s'
  assume "store_ok sha im s" and w: "writable s"
    and run: "store_update sha im (store_statements x) s = (Inl e, s')"
  then obtain t where t: "sealed sha im t s" by (auto simp: store_ok_def)
  show "s' = s"
    using run store_update_sealed [OF t w, of "store_statements x"]
    by (auto split: sum.splits)
qed

text \<open>
  A job moves from absent to READY to RESULT; a job that has its result cannot be prepared or
  completed again.
\<close>

lemma prepare_then_result:
  "insert_ready key t = Inr t' \<Longrightarrow> update_result key t' = Inr (t(key \<mapsto> ''RESULT''))"
  by (auto simp: insert_ready_def update_result_def split: if_splits)

lemma result_is_final:
  "update_result key t = Inr t' \<Longrightarrow> is_ok (insert_ready key t') = False \<and> is_ok (update_result key t') = False"
  by (auto simp: insert_ready_def update_result_def split: if_splits)

end
