(* ===== verification/Run_Dir.thy ===== *)
theory Run_Dir
  imports Frame Sink Coordinator Ledger_Props
begin

text \<open>
  What one run of a campaign works on: its directory with the effect sink, the coordinator's file
  and the ledger's file, and the outcome it reports.  The second half computes the exact files that
  the ledger and the coordinator leave in every state of an undisturbed run, so that a run is
  evaluated by rewriting.
\<close>

section \<open>Run directory and outcome\<close>

record 'k run_dir =
  dir_sink :: 'k
  dir_store :: store
  dir_ledger :: ledger

definition new_run_dir :: "'k \<Rightarrow> 'k run_dir" where
  "new_run_dir k = \<lparr>dir_sink = k, dir_store = empty_disk, dir_ledger = no_ledger\<rparr>"

definition on_sink :: "('k \<Rightarrow> 'k) \<Rightarrow> ('k run_dir, unit) act" where
  "on_sink f D = (Inr (), D\<lparr>dir_sink := f (dir_sink D)\<rparr>)"

definition on_store :: "(store, 'a) act \<Rightarrow> ('k run_dir, 'a) act" where
  "on_store m D = (case m (dir_store D) of (r, d) \<Rightarrow> (r, D\<lparr>dir_store := d\<rparr>))"

definition in_ledger :: "(ledger, 'a) act \<Rightarrow> ('k run_dir, 'a) act" where
  "in_ledger m D = (case m (dir_ledger D) of (r, L) \<Rightarrow> (r, D\<lparr>dir_ledger := L\<rparr>))"

definition of_result :: "exn + 'a \<Rightarrow> ('s, 'a) act" where
  "of_result r s = (r, s)"

text \<open>Statements in sequence where the value of the first is not used.\<close>

definition act_then :: "('s, 'a) act \<Rightarrow> ('s, 'b) act \<Rightarrow> ('s, 'b) act" where
  "act_then m n = act_bind m (\<lambda>_. n)"

record outcome =
  disposition :: string
  replay_accepted :: bool
  cross_generation_accepted :: bool
  altered_signature_accepted :: bool

definition base_outcome :: outcome where
  "base_outcome = \<lparr>disposition = ''COMPLETE'', replay_accepted = False,
     cross_generation_accepted = False, altered_signature_accepted = False\<rparr>"

text \<open>The bytes that the torn-write case appends to a ledger file through an ordinary file handle.\<close>

definition append_torn :: "('k run_dir, unit) act" where
  "append_torn D = (Inr (), D\<lparr>dir_ledger := (dir_ledger D)\<lparr>db_file :=
     (db_file (dir_ledger D))\<lparr>torn := torn (db_file (dir_ledger D)) @ ascii ''TORN''\<rparr>\<rparr>\<rparr>)"

definition close_ledger :: "'k run_dir \<Rightarrow> 'k run_dir" where
  "close_ledger D = D\<lparr>dir_ledger := (dir_ledger D)\<lparr>conn := False\<rparr>\<rparr>"

lemmas run_defs = act_defs act_then_def on_sink_def on_store_def in_ledger_def of_result_def

section \<open>The files of an undisturbed run\<close>

text \<open>The tables of an attempt in phase \<open>p\<close>, as the transactions build them.\<close>

definition db_in :: "(bytes \<Rightarrow> bytes) \<Rightarrow> phase \<Rightarrow> ledger_db" where
  "db_in sha p = (foldl (\<lambda>db e. append_event sha e db) empty_db (history p))
     \<lparr>attempts := (case row_of p of None \<Rightarrow> Map.empty | Some r \<Rightarrow> [ledger_key sha \<mapsto> r])\<rparr>"

definition ledger_in :: "(bytes \<Rightarrow> bytes) \<Rightarrow> (ledger_db \<Rightarrow> bytes) \<Rightarrow> phase \<Rightarrow> bool \<Rightarrow> ledger" where
  "ledger_in sha im p c = \<lparr>db_file = \<lparr>stored = Some (db_in sha p), torn = [],
     sidecar = Some (sha_hex sha (im (db_in sha p)) @ [CHR 0x0A]), writable = True\<rparr>, conn = c\<rparr>"

definition store_in :: "(bytes \<Rightarrow> bytes) \<Rightarrow> (jobs \<Rightarrow> bytes) \<Rightarrow> jobs \<Rightarrow> store" where
  "store_in sha im t = \<lparr>stored = Some t, torn = [],
     sidecar = Some (sha_hex sha (im t) @ [CHR 0x0A]), writable = True\<rparr>"

lemma attempts_fold: "attempts (foldl (\<lambda>db e. append_event sha e db) db es) = attempts db"
  by (induction es arbitrary: db) simp_all

lemma db_in_lookup [simp]: "attempts (db_in sha p) (ledger_key sha) = row_of p"
  by (cases "row_of p") (simp_all add: db_in_def)

lemma db_in_move:
  assumes "row_of q = Some r" and "history q = history p @ [e]"
  shows "(append_event sha e (db_in sha p))\<lparr>attempts := (attempts (db_in sha p))(ledger_key sha \<mapsto> r)\<rparr>
    = db_in sha q"
proof -
  have "(attempts (db_in sha p))(ledger_key sha \<mapsto> r) = [ledger_key sha \<mapsto> r]"
    by (cases "row_of p") (simp_all add: db_in_def)
  then show ?thesis using assms by (simp add: db_in_def)
qed

lemma body_in:
  "life_step p x = Some q \<Longrightarrow> life_body sha x (db_in sha p) = Inr (db_in sha q)"
  by (cases p; cases x)
    (use db_in_move [of q _ p _ sha] in \<open>auto simp: body_defs split: if_splits\<close>)

lemma transaction_in:
  "life_step p x = Some q \<Longrightarrow>
     transaction sha im (life_body sha x) (ledger_in sha im p True) = (Inr (), ledger_in sha im q True)"
  using body_in [of p x q sha] by (simp add: transaction_def ledger_in_def write_seal_def file_bytes_def)

lemma ledger_calls_in:
  "ledger_prepare sha im (ledger_in sha im Absent True) = (Inr (), ledger_in sha im Prepared True)"
  "ledger_consume sha im (ledger_in sha im Prepared True) = (Inr (), ledger_in sha im Consumed True)"
  "ledger_record_result sha im d (ledger_in sha im Consumed True) = (Inr (), ledger_in sha im (Result d) True)"
  "d \<noteq> [] \<Longrightarrow> ledger_terminal sha im (ledger_in sha im (Result d) True)
     = (Inr (), ledger_in sha im (Terminal d) True)"
  using transaction_in [of Absent L_prepare Prepared sha im] transaction_in [of Prepared L_consume Consumed sha im]
    transaction_in [of Consumed "L_result d" "Result d" sha im]
    transaction_in [of "Result d" L_terminal "Terminal d" sha im]
  by (simp_all add: ledger_prepare_def ledger_consume_def ledger_record_result_def ledger_terminal_def)

text \<open>A second dispatch is refused in every later phase.\<close>

lemma ledger_consume_refused:
  "2 \<le> rank p \<Longrightarrow> ledger_consume sha im (ledger_in sha im p True)
     = (Inl (ProtocolError ''attempt is not uniquely prepared''), ledger_in sha im p True)"
proof -
  assume "2 \<le> rank p"
  moreover have "attempts (db_in sha p) (ledger_key sha) = row_of p" by simp
  ultimately show ?thesis
    by (cases p) (simp_all add: ledger_consume_def transaction_def ledger_in_def consume_body_def)
qed

lemma ledger_open_new: "ledger_open sha im no_ledger = (Inr (), ledger_in sha im Absent True)"
  by (simp add: ledger_open_def no_ledger_def empty_disk_def write_seal_def file_bytes_def ledger_in_def
      db_in_def empty_db_def)

lemma ledger_open_in: "ledger_open sha im (ledger_in sha im p c) = (Inr (), ledger_in sha im p True)"
  by (simp add: ledger_open_def ledger_in_def seal_matches_def file_bytes_def)

lemma ledger_close_in: "ledger_close (ledger_in sha im p c) = (Inr (), ledger_in sha im p False)"
  by (simp add: ledger_close_def ledger_in_def)

lemma conn_in [simp]: "(ledger_in sha im p c)\<lparr>conn := b\<rparr> = ledger_in sha im p b"
  by (simp add: ledger_in_def)

lemma recovery_in:
  "ledger_recovery_action sha (ledger_in sha im p True) =
     (Inr (case p of Absent \<Rightarrow> ''NO_ACTION'' | Prepared \<Rightarrow> ''ABORT_WITHOUT_EFFECT''
        | Consumed \<Rightarrow> ''BLOCK_NO_REDISPATCH'' | Result _ \<Rightarrow> ''EMIT_TERMINAL_ONLY''
        | Terminal _ \<Rightarrow> ''COMPLETE_NO_REDISPATCH''), ledger_in sha im p True)"
proof -
  have "attempts (db_in sha p) (ledger_key sha) = row_of p" by simp
  then show ?thesis
    by (cases p) (simp_all add: ledger_recovery_action_def ledger_state_def act_bind_def act_return_def
        ledger_in_def db_state_def recovery_of_def)
qed

text \<open>A torn file is told from the sealed one: their digests differ.\<close>

definition tear_shows :: "(bytes \<Rightarrow> bytes) \<Rightarrow> ('d \<Rightarrow> bytes) \<Rightarrow> bool" where
  "tear_shows sha im \<longleftrightarrow> (\<forall>t. sha (im t @ ascii ''TORN'') \<noteq> sha (im t))"

definition torn_ledger :: "ledger \<Rightarrow> ledger" where
  "torn_ledger L = L\<lparr>db_file := (db_file L)\<lparr>torn := torn (db_file L) @ ascii ''TORN''\<rparr>\<rparr>"

lemma append_torn_eq: "append_torn D = (Inr (), D\<lparr>dir_ledger := torn_ledger (dir_ledger D)\<rparr>)"
  by (simp add: append_torn_def torn_ledger_def)

lemma tear_neq: "tear_shows sha im \<Longrightarrow> sha (im t) \<noteq> sha (im t @ ascii ''TORN'')"
  by (metis tear_shows_def)

lemma ledger_open_torn:
  "tear_shows sha im \<Longrightarrow> ledger_open sha im (torn_ledger (ledger_in sha im p c))
     = (Inl (ProtocolError ''ledger seal mismatch''), torn_ledger (ledger_in sha im p c))"
  by (auto simp: ledger_open_def torn_ledger_def ledger_in_def seal_matches_def file_bytes_def tear_neq)

lemma store_open_new: "store_open sha im empty_disk = (Inr (), store_in sha im Map.empty)"
  by (simp add: store_open_def empty_disk_def write_seal_def file_bytes_def store_in_def)

lemma store_sealed: "sealed sha im t (store_in sha im t)"
  by (simp add: sealed_def store_in_def)

lemma store_open_in: "store_open sha im (store_in sha im t) = (Inr (), store_in sha im t)"
  using verify_sealed [OF store_sealed, of sha im t] by (simp add: store_open_def) (simp add: store_in_def)

lemma store_update_in:
  "store_update sha im f (store_in sha im t)
     = (case f t of Inl e \<Rightarrow> (Inl e, store_in sha im t) | Inr t' \<Rightarrow> (Inr (), store_in sha im t'))"
proof -
  have "writable (store_in sha im t)" by (simp add: store_in_def)
  from store_update_sealed [OF store_sealed this, of f] show ?thesis
    by (auto simp: store_in_def split: sum.splits)
qed

lemma store_calls_in:
  "t key = None \<Longrightarrow> store_prepare sha im key (store_in sha im t) = (Inr (), store_in sha im (t(key \<mapsto> ''READY'')))"
  "t key = Some ''READY'' \<Longrightarrow>
     store_result sha im key (store_in sha im t) = (Inr (), store_in sha im (t(key \<mapsto> ''RESULT'')))"
  "store_state sha im key (store_in sha im t)
     = (Inr (case t key of None \<Rightarrow> ''ABSENT'' | Some s \<Rightarrow> s), store_in sha im t)"
  by (simp_all add: store_prepare_def store_result_def store_update_in insert_ready_def update_result_def)
    (simp add: store_state_def act_bind_def verify_sealed [OF store_sealed], simp add: store_in_def)

lemma store_open_corrupt:
  "tear_shows sha im \<Longrightarrow> store_open sha im (snd (store_corrupt (store_in sha im t)))
     = (Inl (ExperimentError ''coordinator seal mismatch''), snd (store_corrupt (store_in sha im t)))"
  by (auto simp: store_open_def store_corrupt_def store_verify_seal_def store_in_def seal_matches_def
      file_bytes_def tear_neq)

lemmas undisturbed = ledger_calls_in ledger_consume_refused ledger_open_new ledger_open_in ledger_close_in
  recovery_in ledger_open_torn store_open_new store_open_in store_calls_in store_open_corrupt

section \<open>The two rejections that the coordinated and the OASI mechanism share\<close>

definition reject_cross ::
  "(bytes \<Rightarrow> bytes \<Rightarrow> bytes \<Rightarrow> bool) \<Rightarrow> frame \<Rightarrow> int \<Rightarrow> string \<Rightarrow> ('k run_dir, outcome) act" where
  "reject_cross ver frame generation context =
     act_try (act_then (of_result (verify_frame ver frame (generation + 1) context 1))
         (act_return (base_outcome\<lparr>cross_generation_accepted := True\<rparr>)))
       is_AuthReject (\<lambda>_. act_return (base_outcome\<lparr>disposition := ''REJECTED_BINDING''\<rparr>))"

definition reject_altered ::
  "(bytes \<Rightarrow> bytes \<Rightarrow> bytes \<Rightarrow> bool) \<Rightarrow> frame \<Rightarrow> int \<Rightarrow> string \<Rightarrow> ('k run_dir, outcome) act" where
  "reject_altered ver frame generation context =
     act_try (act_then (of_result (res_bind (mutate_signature frame)
           (\<lambda>f. verify_frame ver f generation context 1)))
         (act_return (base_outcome\<lparr>altered_signature_accepted := True\<rparr>)))
       is_AuthReject (\<lambda>_. act_return (base_outcome\<lparr>disposition := ''REJECTED_SIGNATURE''\<rparr>))"

text \<open>The torn file is opened: an acceptance, or another message than the seal's, is an error.\<close>

definition expect_torn :: "('s, unit) act \<Rightarrow> exn \<Rightarrow> (exn \<Rightarrow> bool) \<Rightarrow> ('s, unit) act" where
  "expect_torn reopen accepted catches =
     act_try (act_then reopen (act_raise accepted)) catches
       (\<lambda>e. if py_in ''seal mismatch'' (exn_text e) then act_return () else act_raise e)"

definition expect_recovery :: "(bytes \<Rightarrow> bytes) \<Rightarrow> string \<Rightarrow> string \<Rightarrow> ('k run_dir, unit) act" where
  "expect_recovery sha action drift =
     act_bind (in_ledger (ledger_recovery_action sha)) (\<lambda>a.
       if a \<noteq> action then act_raise (ExperimentError drift) else act_return ())"

text \<open>
  The documented behaviour the runs rely on: Ed25519 for the fixture key pair, the length of a
  SHA-256 digest, and that the digests of a file before and after the torn write differ.
\<close>

definition fixture ::
  "(bytes \<Rightarrow> bytes) \<Rightarrow> (ledger_db \<Rightarrow> bytes) \<Rightarrow> (jobs \<Rightarrow> bytes) \<Rightarrow> (bytes \<Rightarrow> bytes \<Rightarrow> bytes)
    \<Rightarrow> (bytes \<Rightarrow> bytes \<Rightarrow> bytes \<Rightarrow> bool) \<Rightarrow> bool" where
  "fixture sha iml imc sg ver \<longleftrightarrow>
     ed25519_pair sg ver \<and> digest32 sha \<and> tear_shows sha iml \<and> tear_shows sha imc"

lemma reject_cross_eq:
  "ed25519_pair sg ver \<Longrightarrow> reject_cross ver (make_frame sha sg g c 1 seed) g c D
     = (Inr (base_outcome\<lparr>disposition := ''REJECTED_BINDING''\<rparr>), D)"
  by (simp add: reject_cross_def run_defs verify_intact)

lemma reject_altered_eq:
  "ed25519_pair sg ver \<Longrightarrow> reject_altered ver (make_frame sha sg g c 1 seed) g c D
     = (Inr (base_outcome\<lparr>disposition := ''REJECTED_SIGNATURE''\<rparr>), D)"
  using verify_mutated [of sg ver sha g c 1 seed g c 1]
  by (auto simp: reject_altered_def run_defs)

lemma fixtureD:
  assumes "fixture sha iml imc sg ver"
  shows "ed25519_pair sg ver" "tear_shows sha iml" "tear_shows sha imc" "sha_hex sha b \<noteq> []"
  using assms sha_hex_nonempty by (auto simp: fixture_def)

section \<open>The number of effects over any run, disturbed or not\<close>

text \<open>
  Statements that do not touch the sink, and a bound on the number of effects that a statement may
  add, whether it ends normally or raises.
\<close>

definition adds_at_most :: "('k \<Rightarrow> nat) \<Rightarrow> nat \<Rightarrow> ('k run_dir, 'a) act \<Rightarrow> bool" where
  "adds_at_most cnt n m \<longleftrightarrow> (\<forall>D. cnt (dir_sink (snd (m D))) \<le> cnt (dir_sink D) + n)"

lemma adds_at_mostI: "(\<And>D. dir_sink (snd (m D)) = dir_sink D) \<Longrightarrow> adds_at_most cnt n m"
  by (simp add: adds_at_most_def)

lemma adds_quiet:
  "adds_at_most cnt n (in_ledger f)" "adds_at_most cnt n (on_store h)"
  "adds_at_most cnt n (of_result r)" "adds_at_most cnt n (act_return a)"
  "adds_at_most cnt n (act_raise e)" "adds_at_most cnt n append_torn"
  by (rule adds_at_mostI; auto simp: in_ledger_def on_store_def of_result_def act_return_def act_raise_def
      append_torn_def split: prod.splits)+

lemma adds_bind:
  assumes "adds_at_most cnt i m" and "\<And>a. adds_at_most cnt j (f a)" and "i + j \<le> n"
  shows "adds_at_most cnt n (act_bind m f)"
  unfolding adds_at_most_def
proof
  fix D
  obtain r D' where m: "m D = (r, D')" by (cases "m D")
  have 1: "cnt (dir_sink D') \<le> cnt (dir_sink D) + i"
    using assms(1) m unfolding adds_at_most_def by (metis snd_conv)
  show "cnt (dir_sink (snd (act_bind m f D))) \<le> cnt (dir_sink D) + n"
  proof (cases r)
    case (Inl e)
    then show ?thesis using m 1 assms(3) by (simp add: act_bind_def)
  next
    case (Inr a)
    have "cnt (dir_sink (snd (f a D'))) \<le> cnt (dir_sink D') + j"
      using assms(2) unfolding adds_at_most_def by blast
    then show ?thesis using m 1 assms(3) Inr by (simp add: act_bind_def)
  qed
qed

lemma adds_then:
  "adds_at_most cnt i m \<Longrightarrow> adds_at_most cnt j f \<Longrightarrow> i + j \<le> n \<Longrightarrow> adds_at_most cnt n (act_then m f)"
  unfolding act_then_def by (rule adds_bind)

lemma adds_try:
  assumes "adds_at_most cnt i m" and "\<And>e. adds_at_most cnt j (h e)" and "i + j \<le> n"
  shows "adds_at_most cnt n (act_try m c h)"
  unfolding adds_at_most_def
proof
  fix D
  obtain r D' where m: "m D = (r, D')" by (cases "m D")
  have 1: "cnt (dir_sink D') \<le> cnt (dir_sink D) + i"
    using assms(1) m unfolding adds_at_most_def by (metis snd_conv)
  have 2: "cnt (dir_sink (snd (h e D'))) \<le> cnt (dir_sink D') + j" for e
    using assms(2) unfolding adds_at_most_def by blast
  show "cnt (dir_sink (snd (act_try m c h D))) \<le> cnt (dir_sink D) + n"
  proof (cases r)
    case (Inl e)
    then show ?thesis using m 1 2 [of e] assms(3) by (simp add: act_try_def)
  next
    case (Inr a)
    then show ?thesis using m 1 assms(3) by (simp add: act_try_def)
  qed
qed

lemma adds_close: "adds_at_most cnt n m \<Longrightarrow> adds_at_most cnt n (act_finally m close_ledger)"
  by (auto simp: adds_at_most_def act_finally_def close_ledger_def split: prod.splits) (metis snd_conv)

lemma adds_if:
  "adds_at_most cnt n m \<Longrightarrow> adds_at_most cnt n m' \<Longrightarrow> adds_at_most cnt n (if b then m else m')"
  by simp

text \<open>The bounds of compound statements, as conditional rewrite rules.\<close>

lemma adds_compound:
  "adds_at_most cnt 0 m \<Longrightarrow> adds_at_most cnt n f \<Longrightarrow> adds_at_most cnt n (act_then m f)"
  "adds_at_most cnt n m \<Longrightarrow> adds_at_most cnt 0 f \<Longrightarrow> adds_at_most cnt n (act_then m f)"
  "adds_at_most cnt 0 m \<Longrightarrow> (\<And>a. adds_at_most cnt n (g a)) \<Longrightarrow> adds_at_most cnt n (act_bind m g)"
  "adds_at_most cnt n m \<Longrightarrow> (\<And>e. adds_at_most cnt 0 (h e)) \<Longrightarrow> adds_at_most cnt n (act_try m c h)"
  by (rule adds_then adds_bind adds_try, assumption, (assumption | erule meta_spec), simp)+

lemmas adds_rules = adds_quiet adds_if adds_compound adds_close

lemma adds_quiet_blocks:
  "adds_at_most cnt n (reject_cross ver f g c)" "adds_at_most cnt n (reject_altered ver f g c)"
  "adds_at_most cnt n (expect_recovery sha a d)"
  "adds_at_most cnt 0 m \<Longrightarrow> adds_at_most cnt n (expect_torn m e cs)"
  unfolding reject_cross_def reject_altered_def expect_recovery_def expect_torn_def
  by (simp_all add: adds_rules)

end
