(* ===== verification/Broker_Live.thy ===== *)
theory Broker_Live
  imports Broker_Props Run_Dir
begin

text \<open>
  The run of \<open>run_qemu\<close> with a cooperative guest: if the environment answers, the drain finds
  silence and the two signed receipts arrive in any chunking, the run returns, with the attempt
  TERMINAL and exactly the two frames sent.  Also the exact refusal of every call out of turn.
\<close>

section \<open>Receipts that are accepted\<close>

definition receipt_wire :: "nat \<Rightarrow> bytes \<Rightarrow> bytes \<Rightarrow> bytes" where
  "receipt_wire status digest sig = be 2 118 @ receipt_core status digest @ sig"

definition signed_receipt :: "(bytes \<Rightarrow> bytes \<Rightarrow> bytes \<Rightarrow> bool) \<Rightarrow> nat \<Rightarrow> bytes \<Rightarrow> bytes \<Rightarrow> bool" where
  "signed_receipt ver status digest sig \<longleftrightarrow>
     length sig = 64 \<and> ver GUEST_RECEIPT_FIXTURE_PUBLIC_KEY sig (receipt_core status digest)"

lemma recv_receipt_ok:
  assumes "all_data ch" and "content ch = receipt_wire status digest sig @ rest"
    and "length digest = 32" and "status < 256" and "signed_receipt ver status digest sig"
  shows "\<exists>ch'. recv_receipt ver status digest ch = (Inr (), ch') \<and> all_data ch' \<and> content ch' = rest"
proof -
  have len: "length (receipt_core status digest) = 54" "length sig = 64"
    using length_receipt_core [OF assms(3)] assms(5) by (simp_all add: signed_receipt_def)
  have "un_be (be 2 118) = 118" by (simp add: un_be_be)
  obtain ch1 where 1: "recv_exact 2 ch = (Inr (be 2 118), ch1)" "all_data ch1"
      "content ch1 = receipt_core status digest @ sig @ rest"
    using recv_exact_data [OF assms(1), of 2] assms(2) by (auto simp: receipt_wire_def)
  obtain ch2 where 2: "recv_exact 118 ch1 = (Inr (receipt_core status digest @ sig), ch2)" "all_data ch2"
      "content ch2 = rest"
    using recv_exact_data [OF 1(2), of 118] 1(3) len by auto
  have "parse_receipt ver (receipt_core status digest @ sig) status digest = Inr ()"
    using assms(5) parse_receipt_iff [OF assms(3,4)] unfolding signed_receipt_def by blast
  then show ?thesis
    using 1(1) 2 \<open>un_be (be 2 118) = 118\<close>
    by (simp add: recv_receipt_def act_bind_def Let_def RECEIPT_CORE_size_def RECEIPT_SIGNATURE_BYTES_def MAX_FRAME_def)
qed

lemma drain_silence: "drain_uart_startup_noise (Silence # ch) = (Inr [], ch)"
  "drain_uart_startup_noise (Arrive [255] # Silence # ch) = (Inr [255], ch)"
  by (simp_all add: drain_uart_startup_noise_def act_bind_def act_return_def drain_loop.simps)

section \<open>A run that returns\<close>

text \<open>What the outside world has to do.\<close>

definition cooperative ::
  "(bytes \<Rightarrow> bytes \<Rightarrow> bytes \<Rightarrow> bool) \<Rightarrow> bytes \<Rightarrow> qemu_env \<Rightarrow> string \<Rightarrow> broker \<Rightarrow> bool" where
  "cooperative ver pd env status B \<longleftrightarrow>
     ledger B = no_ledger \<and> sent B = [] \<and> send_fates B = []
     \<and> \<not> socket_exists env \<and> \<not> log_exists env \<and> connect_guest env = Inr status
     \<and> is_ok (wait_for_terminal (terminal_start env + 20000) (terminal_ticks env)) \<and> integrity env
     \<and> (\<exists>ch sig1 sig2 rest. channel B = Silence # ch \<and> all_data ch
          \<and> content ch = receipt_wire STATUS_PREPARED pd sig1 @ receipt_wire STATUS_EFFECT_RECEIPT pd sig2 @ rest
          \<and> signed_receipt ver STATUS_PREPARED pd sig1 \<and> signed_receipt ver STATUS_EFFECT_RECEIPT pd sig2)"

definition completed :: "(bytes \<Rightarrow> bytes) \<Rightarrow> qemu_env \<Rightarrow> bytes \<Rightarrow> string \<Rightarrow> run_result" where
  "completed sha env pd status =
     \<lparr>rr_state = ''TERMINAL'', rr_recovery_action = ''COMPLETE_NO_REDISPATCH'',
      rr_prepare_transcript = hex_of pd, rr_terminal_log = sha_hex sha (terminal_log env),
      rr_peer_pid_verified = (status = ''verified''), rr_peer_credential_status = status,
      rr_uart_startup_noise = hex_of []\<rparr>"

lemma db_in_at: "db_at sha p (db_in sha p)"
proof -
  have f: "map ev_event (events (foldl (\<lambda>db e. append_event sha e db) db es)) = map ev_event (events db) @ es
      \<and> (chain_ok sha genesis_hash (events db) \<longrightarrow>
          chain_ok sha genesis_hash (events (foldl (\<lambda>db e. append_event sha e db) db es)))" for db es
    by (induction es arbitrary: db) (simp_all add: append_event_chain)
  show ?thesis
    using f [of empty_db "history p"] by (simp add: db_at_def db_in_def empty_db_def)
qed

lemma queries_in:
  "ledger_verify sha True (ledger_in sha im p True) = (Inr (), ledger_in sha im p True)"
  "ledger_state sha (ledger_in sha im (Terminal d) True) = (Inr ''TERMINAL'', ledger_in sha im (Terminal d) True)"
  using db_at_verify [OF db_in_at [of sha p]]
  by (simp_all add: ledger_verify_def ledger_state_def ledger_in_def db_state_def)

lemma finish_run_returns:
  assumes "digest32 sha" and "integrity env" and "ledger B = ledger_in sha im Consumed True"
  shows "\<exists>d. finish_run sha im env pd status noise B =
    (Inr ((completed sha env pd status)\<lparr>rr_uart_startup_noise := hex_of noise\<rparr>),
     B\<lparr>ledger := ledger_in sha im (Terminal d) True\<rparr>)"
  using sha_hex_nonempty [OF assms(1)] assms(2,3)
  by (intro exI [of _ "sha_hex sha (terminal_log env @ pd)"])
    (simp add: finish_run_def Let_def act_bind_def act_return_def on_ledger_def ledger_calls_in queries_in
      recovery_in completed_def)

lemma session_returns:
  assumes "digest32 sha" and "cooperative ver pd env status B0" and "length pd = 32"
    and "B = B0\<lparr>ledger := ledger_in sha im Prepared True\<rparr>"
  shows "\<exists>B' d. session sha im ver env pw pd ew B = (Inr (completed sha env pd status), B')
    \<and> sent B' = [(pw, Some (db_in sha Prepared)), (ew, Some (db_in sha Consumed))]
    \<and> ledger B' = ledger_in sha im (Terminal d) True"
proof -
  obtain ch sig1 sig2 rest log where c: "channel B = Silence # ch" "all_data ch"
      "content ch = receipt_wire STATUS_PREPARED pd sig1 @ receipt_wire STATUS_EFFECT_RECEIPT pd sig2 @ rest"
      "signed_receipt ver STATUS_PREPARED pd sig1" "signed_receipt ver STATUS_EFFECT_RECEIPT pd sig2"
      "connect_guest env = Inr status" "send_fates B = []" "sent B = []" "integrity env"
      "wait_for_terminal (terminal_start env + 20000) (terminal_ticks env) = Inr log"
    using assms(2,4) unfolding cooperative_def by (auto elim: is_ok.elims)
  have st: "STATUS_PREPARED < 256" "STATUS_EFFECT_RECEIPT < 256"
    by (simp_all add: STATUS_PREPARED_def STATUS_EFFECT_RECEIPT_def)
  obtain ch1 where 1: "recv_receipt ver STATUS_PREPARED pd ch = (Inr (), ch1)" "all_data ch1"
      "content ch1 = receipt_wire STATUS_EFFECT_RECEIPT pd sig2 @ rest"
    using recv_receipt_ok [OF c(2,3) assms(3) st(1) c(4)] by auto
  obtain ch2 where 2: "recv_receipt ver STATUS_EFFECT_RECEIPT pd ch1 = (Inr (), ch2)"
    using recv_receipt_ok [OF 1(2,3) assms(3) st(2) c(5)] by auto
  let ?B = "B\<lparr>ledger := ledger_in sha im Consumed True, send_fates := [],
    sent := [(pw, Some (db_in sha Prepared)), (ew, Some (db_in sha Consumed))], channel := ch2\<rparr>"
  have L: "ledger B = ledger_in sha im Prepared True" using assms(4) by simp
  have stored: "stored (db_file (ledger_in sha im p True)) = Some (db_in sha p)" for p
    by (simp add: ledger_in_def)
  have "session sha im ver env pw pd ew B = finish_run sha im env pd status [] ?B"
    using c 1 2 L
    by (simp add: session_def act_bind_def pure_act_def on_channel_def on_ledger_def drain_silence sendall_def Let_def
        ledger_calls_in stored)
  moreover obtain d where "finish_run sha im env pd status [] ?B =
      (Inr ((completed sha env pd status)\<lparr>rr_uart_startup_noise := hex_of []\<rparr>),
       ?B\<lparr>ledger := ledger_in sha im (Terminal d) True\<rparr>)"
    using finish_run_returns [OF assms(1) c(9), of ?B im pd status "[]"] by auto
  ultimately show ?thesis by (auto simp: completed_def)
qed

theorem run_qemu_returns:
  assumes sha: "digest32 sha" and coop: "cooperative ver pd env status B"
    and pw: "signed_frame sha sg KIND_PREPARE PREPARE_PAYLOAD = Inr (pw, pd)"
    and ew: "signed_frame sha sg KIND_EXECUTE pd = Inr (ew, ed)"
  shows "\<exists>B' d. run_qemu sha im sg ver env B = (Inr (completed sha env pd status), B')
    \<and> sent B' = [(pw, Some (db_in sha Prepared)), (ew, Some (db_in sha Consumed))]
    \<and> ledger B' = ledger_in sha im (Terminal d) False"
proof -
  have B: "ledger B = no_ledger" "\<not> socket_exists env" "\<not> log_exists env"
    using coop by (simp_all add: cooperative_def)
  obtain raw where "pd = sha raw" using signed_frame_digest [OF pw] by blast
  then have "length pd = 32" using sha by (simp add: digest32_def)
  from session_returns [OF sha coop this refl, of im pw ew]
  obtain B' d where s: "session sha im ver env pw pd ew (B\<lparr>ledger := ledger_in sha im Prepared True\<rparr>)
      = (Inr (completed sha env pd status), B')"
    "sent B' = [(pw, Some (db_in sha Prepared)), (ew, Some (db_in sha Consumed))]"
    "ledger B' = ledger_in sha im (Terminal d) True" by blast
  have r: "refuse_replay env B = (Inr (), B)"
    using B by (simp add: refuse_replay_def no_ledger_def empty_disk_def)
  have "run_qemu sha im sg ver env B =
      (Inr (completed sha env pd status), B'\<lparr>ledger := (ledger B')\<lparr>conn := False\<rparr>\<rparr>)"
    using s(1) r B(1) pw ew
    by (simp add: run_qemu_def act_bind_def on_ledger_def ledger_open_new ledger_calls_in pure_act_def act_finally_def)
  then show ?thesis using s(2,3) by (auto simp: ledger_in_def)
qed

section \<open>Calls out of turn\<close>

fun refusal :: "life_op \<Rightarrow> exn" where
  "refusal L_prepare = IntegrityError ''UNIQUE constraint failed: attempts''"
| "refusal L_consume = ProtocolError ''attempt is not uniquely prepared''"
| "refusal (L_result d) = ProtocolError ''result without consumed one-shot''"
| "refusal L_terminal = ProtocolError ''terminal without durable result''"

lemma body_refused:
  assumes "db_at sha p db" and "life_step p x = None"
  shows "life_body sha x db = Inl (refusal x)"
  using db_at_lookup [OF assms(1)] assms(2)
  by (cases p; cases x) (auto simp: body_defs split: if_splits)

end
