(* ===== verification/Pyval.thy ===== *)
theory Pyval
  imports Json Complex_Main
begin

text \<open>
  The dynamically typed values that the campaign code and the verifiers handle: what \<open>json.loads\<close>
  returns, with Python's equality (an int, a bool and a float of the same value are equal, dicts
  compare without order), truth, \<open>int()\<close>, indexing and \<open>get\<close>.  A float is the rational number it
  stands for; infinities and NaN do not occur.
\<close>

datatype pyval =
    VNone
  | VBool bool
  | VInt int
  | VFloat rat
  | VStr string
  | VList "pyval list"
  | VDict "(string \<times> pyval) list"

text \<open>\<open>==\<close>: equality of the canonical forms.\<close>

fun canon :: "pyval \<Rightarrow> pyval" where
  "canon (VBool b) = VFloat (if b then 1 else 0)"
| "canon (VInt i) = VFloat (of_int i)"
| "canon (VList vs) = VList (map canon vs)"
| "canon (VDict kvs) = VDict (sort_key fst (map (map_prod id canon) kvs))"
| "canon v = v"

definition py_eq :: "pyval \<Rightarrow> pyval \<Rightarrow> bool" where
  "py_eq v w \<longleftrightarrow> canon v = canon w"

lemma py_eq_refl [simp]: "py_eq v v"
  by (simp add: py_eq_def)

lemma py_eq_sym: "py_eq v w \<Longrightarrow> py_eq w v"
  by (simp add: py_eq_def)

lemma py_eq_trans: "py_eq u v \<Longrightarrow> py_eq v w \<Longrightarrow> py_eq u w"
  by (simp add: py_eq_def)

lemma py_eq_simps [simp]:
  "py_eq (VStr s) (VStr t) \<longleftrightarrow> s = t" "py_eq (VInt i) (VInt j) \<longleftrightarrow> i = j"
  "py_eq (VBool a) (VBool b) \<longleftrightarrow> a = b" "\<not> py_eq VNone (VInt i)" "\<not> py_eq VNone (VStr s)"
  "\<not> py_eq VNone (VBool b)" "py_eq (VInt i) (VBool b) \<longleftrightarrow> i = (if b then 1 else 0)"
  "py_eq (VBool b) (VInt i) \<longleftrightarrow> i = (if b then 1 else 0)"
  by (auto simp: py_eq_def)

fun truthy :: "pyval \<Rightarrow> bool" where
  "truthy VNone = False"
| "truthy (VBool b) = b"
| "truthy (VInt i) = (i \<noteq> 0)"
| "truthy (VFloat q) = (q \<noteq> 0)"
| "truthy (VStr s) = (s \<noteq> [])"
| "truthy (VList vs) = (vs \<noteq> [])"
| "truthy (VDict kvs) = (kvs \<noteq> [])"

text \<open>\<open>int(v)\<close>; texts are read as an optional sign and decimal digits between white space.\<close>

definition int_of_text :: "string \<Rightarrow> exn + int" where
  "int_of_text s = (let t = py_strip s;
       negative = (t \<noteq> [] \<and> hd t = CHR ''-'');
       ds = (if t \<noteq> [] \<and> hd t \<in> {CHR ''-'', CHR ''+''} then tl t else t)
     in if ds \<noteq> [] \<and> list_all is_digit ds
        then Inr (if negative then - int (nat_of_digits 0 ds) else int (nat_of_digits 0 ds))
        else Inl (ValueError ''invalid literal for int() with base 10''))"

definition trunc_rat :: "rat \<Rightarrow> int" where
  "trunc_rat q = (if 0 \<le> q then \<lfloor>q\<rfloor> else \<lceil>q\<rceil>)"

fun py_int :: "pyval \<Rightarrow> exn + int" where
  "py_int (VInt i) = Inr i"
| "py_int (VBool b) = Inr (if b then 1 else 0)"
| "py_int (VFloat q) = Inr (trunc_rat q)"
| "py_int (VStr s) = int_of_text s"
| "py_int _ = Inl (TypeError ''int() argument must be a string or a real number'')"

text \<open>\<open>isinstance(v, int)\<close>: bool is a subclass of int.\<close>

fun is_int_instance :: "pyval \<Rightarrow> bool" where
  "is_int_instance (VInt _) = True"
| "is_int_instance (VBool _) = True"
| "is_int_instance _ = False"

definition is_true :: "pyval \<Rightarrow> bool" where "is_true v \<longleftrightarrow> v = VBool True"
definition is_false :: "pyval \<Rightarrow> bool" where "is_false v \<longleftrightarrow> v = VBool False"

fun hashable :: "pyval \<Rightarrow> bool" where
  "hashable (VList _) = False"
| "hashable (VDict _) = False"
| "hashable _ = True"

section \<open>Rows\<close>

text \<open>A parsed line: an object as a map, or a value on which every access by key raises.\<close>

datatype row = Row "string \<rightharpoonup> pyval" | Not_object

fun row_index :: "row \<Rightarrow> string \<Rightarrow> exn + pyval" where
  "row_index (Row d) k = (case d k of None \<Rightarrow> Inl (KeyError k) | Some v \<Rightarrow> Inr v)"
| "row_index Not_object k = Inl (TypeError ''indices must be integers'')"

fun row_get :: "row \<Rightarrow> string \<Rightarrow> exn + pyval" where
  "row_get (Row d) k = (case d k of None \<Rightarrow> Inr VNone | Some v \<Rightarrow> Inr v)"
| "row_get Not_object k = Inl (AttributeError ''get'')"

text \<open>\<open>[r for r in rows if p(r)]\<close>, \<open>any(p(r) for r in rows)\<close> and \<open>sum(p(r) for r in rows)\<close>.\<close>

fun res_filter :: "('a \<Rightarrow> exn + bool) \<Rightarrow> 'a list \<Rightarrow> exn + 'a list" where
  "res_filter p [] = Inr []"
| "res_filter p (x # xs) = res_bind (p x) (\<lambda>b.
     res_bind (res_filter p xs) (\<lambda>ys. Inr (if b then x # ys else ys)))"

fun res_any :: "('a \<Rightarrow> exn + bool) \<Rightarrow> 'a list \<Rightarrow> exn + bool" where
  "res_any p [] = Inr False"
| "res_any p (x # xs) = res_bind (p x) (\<lambda>b. if b then Inr True else res_any p xs)"

definition res_count :: "('a \<Rightarrow> exn + bool) \<Rightarrow> 'a list \<Rightarrow> exn + int" where
  "res_count p xs = res_map (\<lambda>ys. int (length ys)) (res_filter p xs)"

text \<open>\<open>p and q\<close>, \<open>p or q\<close>\<close>

definition res_and :: "exn + bool \<Rightarrow> exn + bool \<Rightarrow> exn + bool" where
  "res_and p q = res_bind p (\<lambda>b. if b then q else Inr False)"

definition res_or :: "exn + bool \<Rightarrow> exn + bool \<Rightarrow> exn + bool" where
  "res_or p q = res_bind p (\<lambda>b. if b then Inr True else q)"

definition index_eq :: "string \<Rightarrow> pyval \<Rightarrow> row \<Rightarrow> exn + bool" where
  "index_eq k v r = res_map (\<lambda>w. py_eq w v) (row_index r k)"

definition index_true :: "string \<Rightarrow> row \<Rightarrow> exn + bool" where
  "index_true k r = res_map truthy (row_index r k)"

definition index_int :: "string \<Rightarrow> row \<Rightarrow> exn + int" where
  "index_int k r = res_bind (row_index r k) py_int"

lemma res_filter_ok:
  "(\<And>x. x \<in> set xs \<Longrightarrow> p x = Inr (q x)) \<Longrightarrow> res_filter p xs = Inr (filter q xs)"
  by (induction xs) auto

lemma res_any_ok:
  "(\<And>x. x \<in> set xs \<Longrightarrow> p x = Inr (q x)) \<Longrightarrow> res_any p xs = Inr (\<exists>x \<in> set xs. q x)"
  by (induction xs) auto

lemma res_any_False:
  "res_any p xs = Inr False \<longleftrightarrow> (\<forall>x \<in> set xs. p x = Inr False)"
  by (induction xs) (auto simp: res_bind_Inr_iff)

lemma res_count_ok:
  "(\<And>x. x \<in> set xs \<Longrightarrow> p x = Inr (q x)) \<Longrightarrow> res_count p xs = Inr (int (length (filter q xs)))"
  by (simp add: res_count_def res_filter_ok)

lemma res_filter_Inr:
  "res_filter p xs = Inr ys \<longleftrightarrow>
     (\<forall>x \<in> set xs. \<exists>b. p x = Inr b) \<and> ys = filter (\<lambda>x. p x = Inr True) xs"
proof (induction xs arbitrary: ys)
  case (Cons x xs)
  then show ?case by (cases "p x") (auto simp: res_bind_Inr_iff)
qed auto

section \<open>JSON lines\<close>

text \<open>Values without floats to JSON and back; the floats of a summary never pass through a line.\<close>

fun to_json :: "pyval \<Rightarrow> json option"
  and to_items :: "pyval list \<Rightarrow> json list option"
  and to_members :: "(string \<times> pyval) list \<Rightarrow> (string \<times> json) list option" where
  "to_json VNone = Some JNull"
| "to_json (VBool b) = Some (JBool b)"
| "to_json (VInt i) = Some (JInt i)"
| "to_json (VFloat q) = None"
| "to_json (VStr s) = Some (JStr s)"
| "to_json (VList vs) = map_option JList (to_items vs)"
| "to_json (VDict kvs) = map_option JObj (to_members kvs)"
| "to_items [] = Some []"
| "to_items (v # vs) = (case (to_json v, to_items vs) of (Some j, Some js) \<Rightarrow> Some (j # js) | _ \<Rightarrow> None)"
| "to_members [] = Some []"
| "to_members ((k, v) # kvs) =
     (case (to_json v, to_members kvs) of (Some j, Some js) \<Rightarrow> Some ((k, j) # js) | _ \<Rightarrow> None)"

fun of_json :: "json \<Rightarrow> pyval" where
  "of_json JNull = VNone"
| "of_json (JBool b) = VBool b"
| "of_json (JInt i) = VInt i"
| "of_json (JStr s) = VStr s"
| "of_json (JList js) = VList (map of_json js)"
| "of_json (JObj kjs) = VDict (map (map_prod id of_json) kjs)"

definition row_of_json :: "json \<Rightarrow> row" where
  "row_of_json j = (case j of JObj kjs \<Rightarrow> Row (map_of (map (map_prod id of_json) kjs)) | _ \<Rightarrow> Not_object)"

text \<open>\<open>json.dumps(record, sort_keys=True, separators=(",", ":"))\<close>\<close>

definition dump_line :: "(string \<times> pyval) list \<Rightarrow> exn + string" where
  "dump_line members = (case to_json (VDict members) of
     None \<Rightarrow> Inl (TypeError ''float in a line'') | Some j \<Rightarrow> Inr (json_dumps j))"

text \<open>\<open>text.splitlines()\<close>\<close>

definition line_break :: "char \<Rightarrow> bool" where
  "line_break c \<longleftrightarrow> (let n = of_char c :: nat in (10 \<le> n \<and> n \<le> 13) \<or> (28 \<le> n \<and> n \<le> 30) \<or> n = 133)"

fun splitlines_from :: "string \<Rightarrow> string \<Rightarrow> string list" where
  "splitlines_from acc [] = (if acc = [] then [] else [rev acc])"
| "splitlines_from acc (c # cs) =
     (if c = CHR 0x0D \<and> cs \<noteq> [] \<and> hd cs = CHR 0x0A then rev acc # splitlines_from [] (tl cs)
      else if line_break c then rev acc # splitlines_from [] cs
      else splitlines_from (c # acc) cs)"

definition splitlines :: "string \<Rightarrow> string list" where
  "splitlines s = splitlines_from [] s"

lemma splitlines_from_line:
  "(\<And>c. c \<in> set l \<Longrightarrow> \<not> line_break c) \<Longrightarrow>
     splitlines_from acc (l @ CHR 0x0A # t) = (rev acc @ l) # splitlines_from [] t"
proof (induction l arbitrary: acc)
  case Nil
  then show ?case by (simp add: line_break_def)
next
  case (Cons c l)
  have "\<not> line_break c" using Cons.prems by simp
  moreover have "c \<noteq> CHR 0x0D" using \<open>\<not> line_break c\<close> by (auto simp: line_break_def)
  ultimately show ?case using Cons by simp
qed

lemma splitlines_lines:
  "(\<And>l c. l \<in> set ls \<Longrightarrow> c \<in> set l \<Longrightarrow> \<not> line_break c) \<Longrightarrow>
     splitlines (concat (map (\<lambda>l. l @ [CHR 0x0A]) ls)) = ls"
  unfolding splitlines_def
proof (induction ls)
  case (Cons l ls)
  have "\<not> line_break c" if "c \<in> set l" for c using Cons.prems that by auto
  then have "splitlines_from [] (l @ CHR 0x0A # t) = l # splitlines_from [] t" for t
    using splitlines_from_line [of l "[]" t] by simp
  moreover have "splitlines_from [] (concat (map (\<lambda>l. l @ [CHR 0x0A]) ls)) = ls"
    by (rule Cons.IH) (use Cons.prems in auto)
  ultimately show ?case by simp
qed simp

section \<open>A line read back\<close>

text \<open>Rows of the campaigns hold atoms only; their line is one line and reads back as the same map.\<close>

fun atom :: "pyval \<Rightarrow> bool" where
  "atom VNone = True"
| "atom (VBool _) = True"
| "atom (VInt _) = True"
| "atom (VStr _) = True"
| "atom _ = False"

definition flat_row :: "(string \<times> pyval) list \<Rightarrow> bool" where
  "flat_row m \<longleftrightarrow> distinct (map fst m) \<and> list_all (\<lambda>kv. atom (snd kv)) m"

lemma atom_json: "atom v \<Longrightarrow> \<exists>j. to_json v = Some j \<and> sort_members j = j \<and> of_json j = v \<and> wf_json j"
  by (cases v) simp_all

lemma flat_members:
  "list_all (\<lambda>kv. atom (snd kv)) m \<Longrightarrow> \<exists>js. to_members m = Some js \<and> map fst js = map fst m
     \<and> map (map_prod id sort_members) js = js \<and> map (map_prod id of_json) js = m
     \<and> list_all (\<lambda>kj. wf_json (snd kj)) js"
proof (induction m)
  case (Cons kv m)
  obtain k v where kv: "kv = (k, v)" by (cases kv)
  obtain j where "to_json v = Some j" "sort_members j = j" "of_json j = v" "wf_json j"
    using atom_json [of v] Cons.prems kv by auto
  then show ?case using Cons kv by auto
qed simp

lemma sort_key_map_prod:
  fixes xs :: "('a :: linorder \<times> 'b) list" and f :: "'b \<Rightarrow> 'c"
  shows "map (map_prod id f) (sort_key fst xs) = sort_key fst (map (map_prod id f) xs)"
proof -
  have i: "map (map_prod id f) (insort_key fst x ys) = insort_key fst (map_prod id f x) (map (map_prod id f) ys)"
    for x :: "'a \<times> 'b" and ys :: "('a \<times> 'b) list"
    by (induction ys) auto
  show ?thesis by (induction xs) (simp_all add: i [unfolded id_def] id_def)
qed

lemma distinct_fst_sort_key: "distinct (map fst (sort_key fst kvs)) \<longleftrightarrow> distinct (map fst kvs)"
  by (rule mset_eq_imp_distinct_iff) (simp only: mset_map mset_sort)

lemma map_of_sort_key: "distinct (map fst kvs) \<Longrightarrow> map_of (sort_key fst kvs) = map_of kvs"
  by (simp add: map_of_inject_set distinct_fst_sort_key)

lemma printable_no_break: "printable c \<Longrightarrow> \<not> line_break c"
  by (auto simp: line_break_def Let_def printable_def)

theorem dump_line_members:
  assumes "flat_row m"
  shows "\<exists>s kjs. dump_line m = Inr s \<and> (\<forall>c \<in> set s. printable c)
    \<and> (\<forall>h. plain_hook h \<longrightarrow> json_loads_with h s = Inr (JObj kjs))
    \<and> map_of (map (map_prod id of_json) kjs) = map_of m"
proof -
  obtain js where js: "to_members m = Some js" "map fst js = map fst m"
      "map (map_prod id sort_members) js = js" "map (map_prod id of_json) js = m"
      "list_all (\<lambda>kj. wf_json (snd kj)) js"
    using flat_members [of m] assms by (auto simp: flat_row_def)
  have d: "distinct (map fst m)" using assms by (simp add: flat_row_def)
  then have wf: "wf_json (JObj js)" using js(2,5) by simp
  have "sort_members (JObj js) = JObj (sort_key fst js)" using js(3) by simp
  then have "plain_hook h \<Longrightarrow> json_loads_with h (json_dumps (JObj js)) = Inr (JObj (sort_key fst js))" for h
    using json_loads_with_dumps [OF _ wf] by simp
  moreover have "map_of (map (map_prod id of_json) (sort_key fst js)) = map_of m"
    using d by (simp add: sort_key_map_prod js(4) map_of_sort_key)
  moreover have "dump_line m = Inr (json_dumps (JObj js))" using js(1) by (simp add: dump_line_def)
  moreover have "printable c" if "c \<in> set (json_dumps (JObj js))" for c
    using show_printable(1) [of c "sort_members (JObj js)"] that
    by (simp add: json_dumps_def del: sort_members.simps)
  ultimately show ?thesis by blast
qed

corollary dump_line_reads_back:
  assumes "flat_row m"
  shows "\<exists>s. dump_line m = Inr s \<and> (\<forall>c \<in> set s. printable c)
    \<and> res_map row_of_json (json_loads s) = Inr (Row (map_of m))"
  using dump_line_members [OF assms] plain_dict_hook by (auto simp: json_loads_def row_of_json_def)

end
