(* ===== verification/Stats.thy ===== *)
theory Stats
  imports Pyval
begin

text \<open>
  The statistics of both campaigns and of their verifiers: nearest-rank percentiles, the Wilson
  interval, means and rates.  Floating point is a parameter: \<open>fl\<close> rounds the exact result of one
  operation to a double, \<open>pow_half\<close> and \<open>fsqrt\<close> are \<open>x ** 0.5\<close> and \<open>math.sqrt(x)\<close>, \<open>rnd n\<close> is
  \<open>round(x, n)\<close>.
\<close>

record floats =
  fl :: "rat \<Rightarrow> rat"
  pow_half :: "rat \<Rightarrow> rat"
  fsqrt :: "rat \<Rightarrow> rat"
  rnd :: "nat \<Rightarrow> rat \<Rightarrow> rat"

text \<open>
  What IEEE 754 double rounding guarantees: it is monotone, leaves a small dyadic number alone and
  has a relative error of at most \<open>2 ^ -53\<close> between \<open>2 ^ -1000\<close> and \<open>2 ^ 1000\<close>.
\<close>

definition ieee_rounding :: "(rat \<Rightarrow> rat) \<Rightarrow> bool" where
  "ieee_rounding f \<longleftrightarrow>
     (\<forall>x y. x \<le> y \<longrightarrow> f x \<le> f y)
     \<and> (\<forall>k e. \<bar>k\<bar> < 2 ^ 53 \<and> e \<le> 1000 \<longrightarrow> f (of_int k / 2 ^ e) = of_int k / 2 ^ e)
     \<and> (\<forall>x. 1 / 2 ^ 1000 \<le> x \<and> x \<le> 2 ^ 1000 \<longrightarrow> \<bar>f x - x\<bar> \<le> x / 2 ^ 53)"

definition fmean :: "floats \<Rightarrow> int list \<Rightarrow> exn + rat" where
  "fmean F xs = (if xs = [] then Inl (ValueError ''fmean requires at least one data point'')
     else Inr (fl F (fl F (sum_list (map (\<lambda>x. fl F (of_int x)) xs)) / of_int (int (length xs)))))"

definition mean3 :: "floats \<Rightarrow> int list \<Rightarrow> exn + pyval" where
  "mean3 F xs = res_map (\<lambda>m. VFloat (rnd F 3 m)) (fmean F xs)"

definition rate :: "floats \<Rightarrow> int \<Rightarrow> int \<Rightarrow> exn + pyval" where
  "rate F a n = (if n = 0 then Inl ZeroDivisionError else Inr (VFloat (rnd F 9 (fl F (of_int a / of_int n)))))"

definition py_max :: "int list \<Rightarrow> exn + pyval" where
  "py_max xs = (if xs = [] then Inl (ValueError ''max() arg is an empty sequence'')
     else Inr (VInt (foldr max (tl xs) (hd xs))))"

text \<open>Percentiles; \<open>xs[i]\<close> with a negative index counts from the end and fails on an empty list.\<close>

definition py_nth :: "int list \<Rightarrow> int \<Rightarrow> exn + int" where
  "py_nth xs i = (let j = (if i < 0 then i + int (length xs) else i) in
     if 0 \<le> j \<and> j < int (length xs) then Inr (xs ! nat j) else Inl (IndexError ''list index out of range''))"

definition nearest_rank_int :: "floats \<Rightarrow> int list \<Rightarrow> rat \<Rightarrow> exn + int" where
  "nearest_rank_int F values percentile =
     (let ordered = sort values;
          len = int (length ordered);
          rank = max 1 (trunc_rat (fl F (fl F (fl F percentile * of_int len) + fl F (999999999 / 10 ^ 9))))
      in py_nth ordered (min (rank - 1) (len - 1)))"

definition nearest_rank_ceil :: "floats \<Rightarrow> int list \<Rightarrow> rat \<Rightarrow> exn + int" where
  "nearest_rank_ceil F values percentile =
     (let ordered = sort values;
          len = int (length ordered)
      in py_nth ordered (min (max 1 \<lceil>fl F (fl F percentile * of_int len)\<rceil> - 1) (len - 1)))"

text \<open>The Wilson interval; \<open>sqroot\<close> is the square sqroot the file uses.\<close>

definition wilson :: "floats \<Rightarrow> (rat \<Rightarrow> rat) \<Rightarrow> int \<Rightarrow> int \<Rightarrow> exn + pyval" where
  "wilson F sqroot successes n =
     (if n = 0 then Inl ZeroDivisionError
      else let f = fl F;
               z = f (1959963984540054 / 10 ^ 15);
               p = f (of_int successes / of_int n);
               zz = f (z * z);
               denominator = f (1 + f (zz / of_int n));
               center = f (f (p + f (zz / of_int (2 * n))) / denominator);
               margin = f (f (z * sqroot (f (f (f (p * f (1 - p)) / of_int n) + f (zz / of_int (4 * n * n)))))
                           / denominator)
           in Inr (VList [VFloat (rnd F 9 (max 0 (f (center - margin)))),
                          VFloat (rnd F 9 (min 1 (f (center + margin))))]))"

text \<open>A dict display whose values may raise, evaluated in order.\<close>

fun res_members :: "(string \<times> (exn + pyval)) list \<Rightarrow> exn + (string \<times> pyval) list" where
  "res_members [] = Inr []"
| "res_members ((k, r) # kvs) = res_bind r (\<lambda>v. res_bind (res_members kvs) (\<lambda>m. Inr ((k, v) # m)))"

section \<open>Facts\<close>

lemma py_nth_ok: "0 \<le> i \<Longrightarrow> i < int (length xs) \<Longrightarrow> py_nth xs i = Inr (xs ! nat i)"
  by (simp add: py_nth_def)

text \<open>A percentile of a non-empty list is one of its values, whatever the floats do.\<close>

lemma rank_index:
  fixes r len :: int
  assumes "0 < len" shows "0 \<le> min (max 1 r - 1) (len - 1) \<and> min (max 1 r - 1) (len - 1) < len"
  using assms by auto

lemma nearest_rank_member:
  assumes "xs \<noteq> []"
  shows "\<exists>v \<in> set xs. nearest_rank_int F xs p = Inr v" and "\<exists>v \<in> set xs. nearest_rank_ceil F xs p = Inr v"
proof -
  have l: "0 < int (length (sort xs))" using assms by simp
  have m: "\<exists>v \<in> set xs. py_nth (sort xs) (min (max 1 r - 1) (int (length (sort xs)) - 1)) = Inr v" for r
  proof -
    let ?i = "min (max 1 r - 1) (int (length (sort xs)) - 1)"
    have i: "0 \<le> ?i" "?i < int (length (sort xs))" using rank_index [OF l, of r] by blast+
    have "nat ?i < length (sort xs)" using i by linarith
    then have "sort xs ! nat ?i \<in> set (sort xs)" by (rule nth_mem)
    then show ?thesis using py_nth_ok [OF i] by simp
  qed
  show "\<exists>v \<in> set xs. nearest_rank_int F xs p = Inr v"
    using m unfolding nearest_rank_int_def Let_def by blast
  show "\<exists>v \<in> set xs. nearest_rank_ceil F xs p = Inr v"
    using m unfolding nearest_rank_ceil_def Let_def by blast
qed

text \<open>
  The two ways of rounding up agree on every cell of thirty runs: rank 15, 29 and 30 for the three
  percentiles that are reported.
\<close>

lemma ieee_close:
  "ieee_rounding f \<Longrightarrow> 1 / 2 ^ 1000 \<le> x \<Longrightarrow> x \<le> 2 ^ 1000 \<Longrightarrow> \<bar>f x - x\<bar> \<le> x / 2 ^ 53"
  by (simp add: ieee_rounding_def)

lemma ieee_exact:
  "ieee_rounding f \<Longrightarrow> \<bar>k\<bar> < 2 ^ 53 \<Longrightarrow> f (of_int k) = of_int k"
  unfolding ieee_rounding_def by (metis (no_types, lifting) div_by_1 power_0 zero_le)

lemma ieee_half: "ieee_rounding f \<Longrightarrow> f (1 / 2) = 1 / 2"
proof -
  assume i: "ieee_rounding f"
  then have "f (of_int 1 / 2 ^ 1) = of_int 1 / 2 ^ 1"
    unfolding ieee_rounding_def by (metis abs_one one_le_numeral one_less_power one_less_numeral_iff
      semiring_norm(76) zero_less_numeral power_one_right numeral_One)
  then show ?thesis by simp
qed

lemma ieee_close_mid:
  assumes "ieee_rounding f" and "1 / 2 \<le> x" and "x \<le> 100"
  shows "\<bar>f x - x\<bar> \<le> 1 / 10 ^ 12"
proof -
  have b: "1 / 2 ^ 1000 \<le> (1 / 2 :: rat)" "(100 :: rat) \<le> 2 ^ 1000" by simp_all
  have "\<bar>f x - x\<bar> \<le> x / 2 ^ 53"
    by (rule ieee_close [OF assms(1) order_trans [OF b(1) assms(2)] order_trans [OF assms(3) b(2)]])
  also have "\<dots> \<le> 100 / 2 ^ 53" using assms(3) by (simp add: divide_right_mono)
  also have "\<dots> \<le> 1 / 10 ^ 12" by simp
  finally show ?thesis .
qed

lemma ieee_ranks:
  assumes "ieee_rounding f"
  shows "\<lceil>f (f (1 / 2) * 30)\<rceil> = 15" "trunc_rat (f (f (f (1 / 2) * 30) + f (999999999 / 10 ^ 9))) = 15"
    and "\<lceil>f (f (95 / 100) * 30)\<rceil> = 29" "trunc_rat (f (f (f (95 / 100) * 30) + f (999999999 / 10 ^ 9))) = 29"
    and "\<lceil>f (f (99 / 100) * 30)\<rceil> = 30" "trunc_rat (f (f (f (99 / 100) * 30) + f (999999999 / 10 ^ 9))) = 30"
proof -
  note close = ieee_close_mid [OF assms]
  let ?u = "f (999999999 / 10 ^ 9)"
  have "\<bar>?u - 999999999 / 10 ^ 9\<bar> \<le> 1 / 10 ^ 12" by (rule close) simp_all
  then have u: "99 / 100 \<le> ?u" "?u \<le> 9999999999 / 10000000000" by (simp_all add: abs_if split: if_splits)
  have up: "\<lceil>y\<rceil> = r \<and> trunc_rat (f (y + ?u)) = r"
    if "of_int r - 9 / 10 \<le> y" "y \<le> of_int r" "2 \<le> r" "r \<le> 40" for y r
  proof -
    have rr: "2 \<le> (of_int r :: rat)" "(of_int r :: rat) \<le> 40" using that(3,4) by simp_all
    have "\<bar>f (y + ?u) - (y + ?u)\<bar> \<le> 1 / 10 ^ 12"
    proof (rule close)
      show "1 / 2 \<le> y + ?u" using that(1) rr(1) u(1) by linarith
      show "y + ?u \<le> 100" using that(2) rr(2) u(2) by linarith
    qed
    then have s: "f (y + ?u) \<le> y + ?u + 1 / 100000000000" "y + ?u - 1 / 100000000000 \<le> f (y + ?u)"
      by (simp_all add: abs_if split: if_splits)
    have "of_int r - 1 < y" using that(1) by simp
    then have "\<lceil>y\<rceil> = r" using that(2) by (intro ceiling_unique)
    moreover have "of_int r \<le> f (y + ?u) \<and> f (y + ?u) < of_int r + 1"
      using s u that(1,2) by linarith
    then have "\<lfloor>f (y + ?u)\<rfloor> = r" "0 \<le> f (y + ?u)" using rr(1) floor_unique by auto
    ultimately show ?thesis by (simp add: trunc_rat_def)
  qed
  have prod: "of_int r - 9 / 10 \<le> f (f p * 30) \<and> f (f p * 30) \<le> of_int r"
    if "of_int r - 8 / 10 \<le> p * 30" "p * 30 \<le> of_int r - 2 / 10" "1 / 2 \<le> p" "p \<le> 1" for p r
  proof -
    have fp: "f p \<le> p + 1 / 1000" "p - 1 / 1000 \<le> f p"
      using close [of p] that(3,4) by (simp_all add: abs_if split: if_splits)
    have "1 / 2 \<le> f p * 30" "f p * 30 \<le> 100" using fp that(3,4) by linarith+
    then have "f (f p * 30) \<le> f p * 30 + 1 / 1000" "f p * 30 - 1 / 1000 \<le> f (f p * 30)"
      using close [of "f p * 30"] by (simp_all add: abs_if split: if_splits)
    then show ?thesis using fp that(1,2) by linarith
  qed
  have half: "f (f (1 / 2) * 30) = 15"
    using ieee_exact [OF assms, of 15] by (simp add: ieee_half [OF assms])
  show "\<lceil>f (f (1 / 2) * 30)\<rceil> = 15" "trunc_rat (f (f (f (1 / 2) * 30) + ?u)) = 15"
    using up [of 15 15] unfolding half by simp_all
  show "\<lceil>f (f (95 / 100) * 30)\<rceil> = 29" "trunc_rat (f (f (f (95 / 100) * 30) + ?u)) = 29"
    using up [of 29 "f (f (95 / 100) * 30)"] prod [of 29 "95 / 100"] by simp_all
  show "\<lceil>f (f (99 / 100) * 30)\<rceil> = 30" "trunc_rat (f (f (f (99 / 100) * 30) + ?u)) = 30"
    using up [of 30 "f (f (99 / 100) * 30)"] prod [of 30 "99 / 100"] by simp_all
qed

lemma nearest_rank_30:
  assumes "ieee_rounding (fl F)" and "length xs = 30" and "p \<in> {1 / 2, 95 / 100, 99 / 100}"
  shows "nearest_rank_int F xs p = nearest_rank_ceil F xs p"
proof -
  note r = ieee_ranks [OF assms(1)]
  from assms(3) consider "p = 1 / 2" | "p = 95 / 100" | "p = 99 / 100" by blast
  then show ?thesis
    by cases (simp_all only: nearest_rank_int_def nearest_rank_ceil_def Let_def length_sort assms(2)
        of_nat_numeral of_int_numeral r)
qed

text \<open>The reported interval stays within [0, 1] at its outer ends, for a monotone \<open>round\<close>.\<close>

lemma wilson_unit:
  assumes "wilson F sqroot k n = Inr (VList [VFloat lo, VFloat hi])"
    and "\<And>x y. x \<le> y \<Longrightarrow> rnd F 9 x \<le> rnd F 9 y" and "rnd F 9 0 = 0" and "rnd F 9 1 = 1"
  shows "0 \<le> lo \<and> hi \<le> 1"
  using assms(1) assms(2) [of 0] assms(2) [of _ 1] assms(3,4)
  by (auto simp: wilson_def Let_def split: if_splits)

end
