(* ===== verification/Grid.thy ===== *)
theory Grid
  imports Pyval
begin

text \<open>
  The grid of a campaign: every case, every repetition, every mechanism in a shuffled order.  Which
  rows a selection by mechanism and case picks does not depend on the shuffle.  The parts of a run
  record that the two campaigns share (measurements, the results directory) are here as well.
\<close>

definition grid :: "('c \<Rightarrow> 'r \<Rightarrow> 'm list) \<Rightarrow> ('m \<Rightarrow> 'c \<Rightarrow> 'r \<Rightarrow> 'x) \<Rightarrow> 'c list \<Rightarrow> 'r list \<Rightarrow> 'x list" where
  "grid order f cs rs = concat (map (\<lambda>c. concat (map (\<lambda>r. map (\<lambda>m. f m c r) (order c r)) rs)) cs)"

lemma set_grid:
  "(\<And>c r. set (order c r) = ms) \<Longrightarrow> set (grid order f cs rs) = {f m c r | m c r. m \<in> ms \<and> c \<in> set cs \<and> r \<in> set rs}"
  by (auto simp: grid_def)

lemma length_grid:
  assumes "\<And>c r. length (order c r) = n"
  shows "length (grid order f cs rs) = length cs * length rs * n"
proof -
  have 1: "length (concat (map (\<lambda>r. map (\<lambda>m. f m c r) (order c r)) rs)) = length rs * n" for c
    by (induction rs) (simp_all add: assms)
  show ?thesis unfolding grid_def by (induction cs) (simp_all add: 1 algebra_simps)
qed

lemma map_grid: "map h (grid order f cs rs) = grid order (\<lambda>m c r. h (f m c r)) cs rs"
  by (simp add: grid_def map_concat comp_def)

lemma filter_single: "distinct xs \<Longrightarrow> m \<in> set xs \<Longrightarrow> filter (\<lambda>x. x = m) xs = [m]"
  by (induction xs) (auto simp: filter_empty_conv)

lemma map_singleton: "concat (map (\<lambda>r. [h r]) rs) = map h rs"
  by (induction rs) simp_all

text \<open>Selection of one mechanism, over all cases or in one case.\<close>

lemma filter_grid:
  assumes "\<And>c r. distinct (order c r) \<and> m0 \<in> set (order c r)"
    and "\<And>m c r. c \<in> set cs \<Longrightarrow> r \<in> set rs \<Longrightarrow> m \<in> set (order c r) \<Longrightarrow> P (f m c r) \<longleftrightarrow> m = m0 \<and> Q c"
  shows "filter P (grid order f cs rs) = concat (map (\<lambda>c. map (\<lambda>r. f m0 c r) rs) (filter Q cs))"
proof -
  have row: "filter P (map (\<lambda>m. f m c r) (order c r)) = (if Q c then [f m0 c r] else [])"
    if "c \<in> set cs" "r \<in> set rs" for c r
  proof -
    have "filter P (map (\<lambda>m. f m c r) (order c r)) = map (\<lambda>m. f m c r) (filter (\<lambda>m. m = m0 \<and> Q c) (order c r))"
      using assms(2) [OF that] by (simp add: filter_map comp_def cong: filter_cong)
    then show ?thesis using filter_single [of "order c r" m0] assms(1) [of c r] by simp
  qed
  have case1: "filter P (concat (map (\<lambda>r. map (\<lambda>m. f m c r) (order c r)) rs)) = (if Q c then map (\<lambda>r. f m0 c r) rs else [])"
    if "c \<in> set cs" for c
    using row [OF that] by (induction rs) (simp_all add: filter_concat)
  show ?thesis unfolding grid_def using case1 by (induction cs) (simp_all add: filter_concat)
qed

lemma filter_grid_cell:
  assumes "\<And>c r. distinct (order c r) \<and> m0 \<in> set (order c r)" and "distinct cs" and "c0 \<in> set cs"
    and "\<And>m c r. c \<in> set cs \<Longrightarrow> r \<in> set rs \<Longrightarrow> m \<in> set (order c r) \<Longrightarrow> P (f m c r) \<longleftrightarrow> m = m0 \<and> c = c0"
  shows "filter P (grid order f cs rs) = map (\<lambda>r. f m0 c0 r) rs"
  using filter_grid [of order m0 cs rs P f "\<lambda>c. c = c0", OF assms(1,4)] filter_single [OF assms(2,3)] by simp

text \<open>Counting in a selection: each case counts fully or not at all.\<close>

lemma count_cases:
  assumes "\<And>c r. c \<in> set cs \<Longrightarrow> r \<in> set rs \<Longrightarrow> P (f c r) \<longleftrightarrow> Q c"
  shows "length (filter P (concat (map (\<lambda>c. map (\<lambda>r. f c r) rs) cs))) = length rs * length (filter Q cs)"
proof -
  have "filter P (map (\<lambda>r. f c r) rs) = (if Q c then map (\<lambda>r. f c r) rs else [])" if "c \<in> set cs" for c
    using assms [OF that] by (auto simp: filter_map comp_def cong: filter_cong)
  then show ?thesis by (induction cs) simp_all
qed

section \<open>Measurements and the results directory\<close>

text \<open>What the clocks, tracemalloc, \<open>/proc\<close> and the file sizes of one run give.\<close>

record meters =
  wall_ns :: int
  cpu_ns :: int
  heap_peak :: int
  rss_before :: int
  rss_after :: int
  artifact_bytes :: int

text \<open>
  The output directory: lines of the open partial file, the finished raw file, the last checkpoint
  and the summary, as the JSON values they hold.
\<close>

record results =
  output_exists :: bool
  locked :: "string option"
  raw_partial :: "string list option"
  raw_runs :: "string list option"
  checkpoint :: "pyval option"
  summary_file :: "pyval option"

definition no_results :: results where
  "no_results = \<lparr>output_exists = False, locked = None, raw_partial = None, raw_runs = None,
     checkpoint = None, summary_file = None\<rparr>"

definition lines_text :: "string list \<Rightarrow> string" where
  "lines_text ls = concat (map (\<lambda>l. l @ [CHR 0x0A]) ls)"

definition raw_bytes :: "string list \<Rightarrow> bytes" where
  "raw_bytes ls = ascii (lines_text ls)"

record campaign =
  out :: results
  recorded :: "(string \<times> pyval) list list"
  warmups_done :: int

fun py_join :: "string \<Rightarrow> string list \<Rightarrow> string" where
  "py_join sep [] = []"
| "py_join sep [x] = x"
| "py_join sep (x # y # xs) = x @ sep @ py_join sep (y # xs)"

definition dict_get :: "(string \<rightharpoonup> pyval) \<Rightarrow> string \<Rightarrow> pyval" where
  "dict_get d k = (case d k of None \<Rightarrow> VNone | Some v \<Rightarrow> v)"

text \<open>\<open>random.Random(seed).shuffle(order)\<close>: some permutation, the same for the same seed text.\<close>

definition shuffles :: "(string \<Rightarrow> string list \<Rightarrow> string list) \<Rightarrow> bool" where
  "shuffles sh \<longleftrightarrow> (\<forall>s xs. mset (sh s xs) = mset xs)"

lemma shufflesD:
  assumes "shuffles sh"
  shows "set (sh s xs) = set xs" "length (sh s xs) = length xs" "distinct (sh s xs) \<longleftrightarrow> distinct xs"
  using assms unfolding shuffles_def
  by (metis mset_eq_setD, metis mset_eq_length, metis mset_eq_imp_distinct_iff)

text \<open>Sequences of statements that all end normally.\<close>

lemma act_seq_append:
  "act_seq (xs @ ys) s = (case act_seq xs s of (Inl e, s') \<Rightarrow> (Inl e, s') | (Inr _, s') \<Rightarrow> act_seq ys s')"
  by (induction xs arbitrary: s) (auto split: sum.splits prod.splits)

lemma act_seq_fold:
  "(\<And>a s. a \<in> set xs \<Longrightarrow> f a s = (Inr (), g a s)) \<Longrightarrow> act_seq (map f xs) s = (Inr (), fold g xs s)"
  by (induction xs arbitrary: s) simp_all

section \<open>The raw file\<close>

definition line_of :: "(string \<times> pyval) list \<Rightarrow> string" where
  "line_of m = (case dump_line m of Inl e \<Rightarrow> [] | Inr s \<Rightarrow> s)"

lemma flat_line:
  assumes "flat_row m"
  shows "dump_line m = Inr (line_of m)" and "c \<in> set (line_of m) \<Longrightarrow> printable c"
    and "res_map row_of_json (json_loads (line_of m)) = Inr (Row (map_of m))"
  using dump_line_reads_back [OF assms] by (auto simp: line_of_def)

text \<open>The raw file of flat rows reads back, line by line, as the rows.\<close>

lemma raw_lines_read_back:
  assumes "\<And>m. m \<in> set ms \<Longrightarrow> flat_row m"
  shows "splitlines (lines_text (map line_of ms)) = map line_of ms"
    and "res_map_list (\<lambda>l. res_map row_of_json (json_loads l)) (map line_of ms) = Inr (map (\<lambda>m. Row (map_of m)) ms)"
proof -
  show "splitlines (lines_text (map line_of ms)) = map line_of ms"
    unfolding lines_text_def by (rule splitlines_lines) (use assms flat_line(2) printable_no_break in auto)
  show "res_map_list (\<lambda>l. res_map row_of_json (json_loads l)) (map line_of ms) = Inr (map (\<lambda>m. Row (map_of m)) ms)"
    using assms by (induction ms) (simp_all add: flat_line(3))
qed

text \<open>\<open>[json.loads(line) for line in raw.read_text().splitlines()]\<close>\<close>

definition read_rows :: "bytes \<Rightarrow> exn + row list" where
  "read_rows raw = (case utf8_text raw of
     None \<Rightarrow> Inl (ValueError ''UnicodeDecodeError'')
   | Some s \<Rightarrow> res_map_list (\<lambda>l. res_map row_of_json (json_loads l)) (splitlines s))"

lemma written_text:
  assumes "\<And>m. m \<in> set ms \<Longrightarrow> flat_row m"
  shows "utf8_text (raw_bytes (map line_of ms)) = Some (lines_text (map line_of ms))"
proof -
  have "plain_char c" if "c \<in> set (lines_text (map line_of ms))" for c
  proof -
    from that have "c = CHR 0x0A \<or> (\<exists>m \<in> set ms. c \<in> set (line_of m))"
      by (auto simp: lines_text_def split: if_splits)
    then have "printable c \<or> c = CHR 0x0A" using flat_line(2) assms by blast
    then show ?thesis by (auto simp: printable_def plain_char_def)
  qed
  then show ?thesis unfolding raw_bytes_def by (rule utf8_text_ascii)
qed

lemma read_rows_written:
  assumes "\<And>m. m \<in> set ms \<Longrightarrow> flat_row m"
  shows "read_rows (raw_bytes (map line_of ms)) = Inr (map (\<lambda>m. Row (map_of m)) ms)"
  using written_text [OF assms] raw_lines_read_back [OF assms] by (simp add: read_rows_def)

section \<open>No two rows of a grid are the same\<close>

lemma distinct_grid:
  assumes "distinct cs" and "distinct rs" and "\<And>c r. distinct (order c r)"
    and "\<And>m c r m' c' r'. c \<in> set cs \<Longrightarrow> c' \<in> set cs \<Longrightarrow> f m c r = f m' c' r' \<Longrightarrow> m = m' \<and> c = c' \<and> r = r'"
  shows "distinct (grid order f cs rs)"
proof -
  have one: "distinct (concat (map (\<lambda>r. map (\<lambda>m. f m c r) (order c r)) rs))" if c: "c \<in> set cs" for c
    using assms(2)
  proof (induction rs)
    case (Cons r rs)
    have "inj_on (\<lambda>m. f m c r) (set (order c r))" using assms(4) [OF c c] by (auto simp: inj_on_def)
    moreover have "set (map (\<lambda>m. f m c r) (order c r)) \<inter> set (concat (map (\<lambda>r. map (\<lambda>m. f m c r) (order c r)) rs)) = {}"
      using assms(4) [OF c c] Cons.prems by fastforce
    ultimately show ?case using Cons assms(3) by (simp add: distinct_map)
  qed simp
  have "distinct (concat (map (\<lambda>c. concat (map (\<lambda>r. map (\<lambda>m. f m c r) (order c r)) rs)) ds))"
    if "set ds \<subseteq> set cs" "distinct ds" for ds
    using that
  proof (induction ds)
    case (Cons d ds)
    have "set (concat (map (\<lambda>r. map (\<lambda>m. f m d r) (order d r)) rs))
        \<inter> set (concat (map (\<lambda>c. concat (map (\<lambda>r. map (\<lambda>m. f m c r) (order c r)) rs)) ds)) = {}"
    proof (rule equals0I)
      fix x assume x: "x \<in> set (concat (map (\<lambda>r. map (\<lambda>m. f m d r) (order d r)) rs))
        \<inter> set (concat (map (\<lambda>c. concat (map (\<lambda>r. map (\<lambda>m. f m c r) (order c r)) rs)) ds))"
      obtain m r where 1: "x = f m d r" using x by auto
      obtain m' c r' where 2: "x = f m' c r'" "c \<in> set ds" using x by auto
      have "d = c" using assms(4) [of d c m r m' r'] Cons.prems(1) 1 2 by auto
      then show False using 2(2) Cons.prems(2) by simp
    qed
    then show ?case using Cons one by simp
  qed simp
  then show ?thesis using assms(1) by (simp add: grid_def)
qed

end
