(* ===== verification/Campaign_Base.thy ===== *)
theory Campaign_Base
  imports Run_Dir Stats Grid
begin

text \<open>
  What the two campaigns and their detached verifiers share: the parameters that stand for the
  outside world, the writing of a line, the selection of a cell, the verifiers' readings of a row
  and of the summary, and the facts on lists that may fail.
\<close>

section \<open>The world of a campaign\<close>

text \<open>
  The parts of the outside world: the digest, the SQLite images, Ed25519, floating point, the
  measurements of the run of a mechanism in a case and repetition, and the shuffle.
\<close>

record world =
  w_sha :: "bytes \<Rightarrow> bytes"
  w_iml :: "ledger_db \<Rightarrow> bytes"
  w_imc :: "jobs \<Rightarrow> bytes"
  w_sign :: "bytes \<Rightarrow> bytes \<Rightarrow> bytes"
  w_verify :: "bytes \<Rightarrow> bytes \<Rightarrow> bytes \<Rightarrow> bool"
  w_floats :: floats
  w_meters :: "string \<Rightarrow> string \<Rightarrow> int \<Rightarrow> meters"
  w_shuffle :: "string \<Rightarrow> string list \<Rightarrow> string list"

definition world_ok :: "world \<Rightarrow> bool" where
  "world_ok W \<longleftrightarrow> fixture (w_sha W) (w_iml W) (w_imc W) (w_sign W) (w_verify W) \<and> shuffles (w_shuffle W)"

section \<open>Lines and cells\<close>

definition write_line :: "(string \<times> pyval) list \<Rightarrow> (campaign, unit) act" where
  "write_line record C = (case dump_line record of
     Inl e \<Rightarrow> (Inl e, C)
   | Inr line \<Rightarrow> (Inr (), C\<lparr>out := (out C)\<lparr>raw_partial := map_option (\<lambda>ls. ls @ [line]) (raw_partial (out C))\<rparr>\<rparr>))"

definition cell_rows :: "string \<Rightarrow> string \<Rightarrow> row list \<Rightarrow> exn + row list" where
  "cell_rows mechanism c = res_filter
     (\<lambda>r. res_and (index_eq ''mechanism'' (VStr mechanism) r) (index_eq ''case'' (VStr c) r))"

text \<open>Rows that hold what a run records: numbers where numbers are read, and the given flags.\<close>

definition number_fields :: "string set" where
  "number_fields = {''wall_ns'', ''cpu_ns'', ''python_heap_peak_bytes'', ''rss_delta_bytes'', ''artifact_bytes''}"
definition well_typed :: "string set \<Rightarrow> row \<Rightarrow> bool" where
  "well_typed flags r \<longleftrightarrow> (\<forall>k \<in> number_fields. \<exists>n. index_int k r = Inr n)
     \<and> (\<forall>k \<in> flags. \<exists>b. row_index r k = Inr (VBool b))"

definition count_true :: "string \<Rightarrow> row list \<Rightarrow> int" where
  "count_true k rows = int (length (filter (\<lambda>r. row_index r k = Inr (VBool True)) rows))"

lemma well_typed_ints:
  assumes "\<And>r. r \<in> set rows \<Longrightarrow> well_typed flags r"
    and "k \<in> number_fields"
  shows "\<exists>ns. res_map_list (index_int k) rows = Inr ns \<and> length ns = length rows"
proof -
  have "\<exists>n. index_int k r = Inr n" if "r \<in> set rows" for r
    using assms(1) [OF that] assms(2) unfolding well_typed_def by blast
  then have "res_map_list (index_int k) rows = Inr (map (\<lambda>r. SOME n. index_int k r = Inr n) rows)"
    by (intro res_map_list_ok) (rule someI_ex, blast)
  then show ?thesis by simp
qed

lemma well_typed_count:
  assumes "\<And>r. r \<in> set rows \<Longrightarrow> well_typed flags r"
    and "k \<in> flags"
  shows "res_count (index_true k) rows = Inr (count_true k rows)"
proof -
  have "index_true k r = Inr (row_index r k = Inr (VBool True))" if "r \<in> set rows" for r
    using assms(1) [OF that] assms(2) unfolding well_typed_def index_true_def by force
  then show ?thesis unfolding count_true_def by (rule res_count_ok)
qed

definition cell_name :: "string \<times> string \<Rightarrow> string" where
  "cell_name mc = fst mc @ ''|'' @ snd mc"

lemma res_map_list_choice:
  assumes "\<And>x. x \<in> set xs \<Longrightarrow> \<exists>y. f x = Inr y \<and> P x y"
  shows "\<exists>g. res_map_list f xs = Inr (map g xs) \<and> (\<forall>x \<in> set xs. P x (g x))"
proof -
  obtain g where g: "\<And>x. x \<in> set xs \<Longrightarrow> f x = Inr (g x) \<and> P x (g x)" using assms by metis
  then have "res_map_list f xs = Inr (map g xs)" by (intro res_map_list_ok) blast
  then show ?thesis using g by blast
qed

section \<open>Reading rows and summaries back\<close>

text \<open>The tuple of a run, as a member of a set: its parts must be hashable.\<close>

definition row_key :: "row \<Rightarrow> exn + (pyval \<times> pyval \<times> pyval)" where
  "row_key r =
     res_bind (row_index r ''mechanism'') (\<lambda>m.
     res_bind (row_index r ''case'') (\<lambda>c.
     res_bind (row_index r ''repetition'') (\<lambda>n.
       if hashable m \<and> hashable c \<and> hashable n then Inr (canon m, canon c, canon n)
       else Inl (TypeError ''unhashable type''))))"

definition get_ne :: "string \<Rightarrow> pyval \<Rightarrow> row \<Rightarrow> exn + bool" where
  "get_ne k v r = res_map (\<lambda>w. \<not> py_eq w v) (row_get r k)"

definition get_not_false :: "string \<Rightarrow> row \<Rightarrow> exn + bool" where
  "get_not_false k r = res_map (\<lambda>w. \<not> is_false w) (row_get r k)"

definition scope_violation :: "row \<Rightarrow> exn + bool" where
  "scope_violation r = res_or (get_ne ''network_calls'' (VInt 0) r) (get_not_false ''real_effect'' r)"

definition oasi_unsafe :: "row \<Rightarrow> exn + bool" where
  "oasi_unsafe r = res_or (index_true ''double_effect'' r) (res_or (index_true ''replay_accepted'' r)
     (res_or (index_true ''cross_generation_accepted'' r) (index_true ''altered_signature_accepted'' r)))"

fun summary_get :: "pyval \<Rightarrow> string \<Rightarrow> exn + pyval" where
  "summary_get (VDict kvs) k = Inr (dict_get (map_of kvs) k)"
| "summary_get v k = Inl (AttributeError ''get'')"

definition exit_if :: "exn + bool \<Rightarrow> string \<Rightarrow> (unit \<Rightarrow> exn + 'a) \<Rightarrow> exn + 'a" where
  "exit_if b message k = res_bind b (\<lambda>v. if v then Inl (SystemExit message) else k ())"

text \<open>The comparison of the summary's fields with the recomputed ones, in the order of the loop.\<close>

fun match_fields :: "pyval \<Rightarrow> (string \<times> pyval) list \<Rightarrow> string list \<Rightarrow> exn + unit" where
  "match_fields summary recomputed [] = Inr ()"
| "match_fields summary recomputed (f # fs) =
     res_bind (summary_get summary f) (\<lambda>v.
       if \<not> py_eq v (dict_get (map_of recomputed) f) then Inl (SystemExit (''aggregate mismatch '' @ f))
       else match_fields summary recomputed fs)"

lemma exit_if_Inr: "exit_if b msg k = Inr x \<longleftrightarrow> b = Inr False \<and> k () = Inr x"
  by (auto simp: exit_if_def res_bind_Inr_iff)

lemma match_fields_Inr:
  "match_fields s rec fs = Inr u \<longleftrightarrow> (\<forall>f \<in> set fs. \<exists>v. summary_get s f = Inr v \<and> py_eq v (dict_get (map_of rec) f))"
  by (induction fs) (auto simp: res_bind_Inr_iff)

lemma res_map_list_mem:
  "res_map_list f xs = Inr ys \<Longrightarrow> x \<in> set xs \<Longrightarrow> \<exists>y. f x = Inr y"
  by (metis in_set_conv_nth res_map_list_Inr)

lemma filter_enumerate: "map snd (filter (\<lambda>ic. Q (snd ic)) (enumerate n cs)) = filter Q cs"
proof -
  have "filter Q (map snd (enumerate n cs)) = map snd (filter (\<lambda>ic. Q (snd ic)) (enumerate n cs))"
    by (simp add: filter_map comp_def del: map_snd_enumerate)
  then show ?thesis by simp
qed

end
