(* ===== verification/Wilson_Roots.thy ===== *)
theory Wilson_Roots
  imports Stats
begin

text \<open>
  The Wilson interval does not depend on which square root is taken.  The campaign of S5 takes
  \<open>x ** 0.5\<close>, its detached verifier \<open>math.sqrt(x)\<close>, and the two may differ in the last bits.  Both are
  close to the root, \<open>round(x, 9)\<close> is the nearest multiple of 10 to the -9, and for no hit or thirty hits out
  of thirty the bounds of the interval are far from a tie.
\<close>

section \<open>What is assumed of the floats\<close>

text \<open>Square roots with a relative error far above that of the C library, between \<open>2 ^ -10\<close> and 1.\<close>

definition close_root :: "(rat \<Rightarrow> rat) \<Rightarrow> bool" where
  "close_root s \<longleftrightarrow> (\<forall>x. 1 / 2 ^ 10 \<le> x \<and> x \<le> 1 \<longrightarrow> 0 \<le> s x \<and> \<bar>s x * s x - x\<bar> \<le> x / 2 ^ 40)"

text \<open>\<open>round(x, 9)\<close> gives the double of the multiple of \<open>10 ^ -9\<close> that is closest.\<close>

definition rounds_nearest :: "floats \<Rightarrow> bool" where
  "rounds_nearest F \<longleftrightarrow> (\<forall>x k. \<bar>x - of_int k / 10 ^ 9\<bar> < 1 / (2 * 10 ^ 9) \<longrightarrow> rnd F 9 x = fl F (of_int k / 10 ^ 9))"

definition sound_floats :: "floats \<Rightarrow> bool" where
  "sound_floats F \<longleftrightarrow> ieee_rounding (fl F) \<and> close_root (pow_half F) \<and> close_root (fsqrt F) \<and> rounds_nearest F"

section \<open>Intervals\<close>

lemma ieee_near:
  assumes "ieee_rounding f" and "1 / 2000 \<le> x" and "x \<le> 100"
  shows "x - 1 / 10 ^ 13 \<le> f x \<and> f x \<le> x + 1 / 10 ^ 13"
proof -
  have b: "1 / 2 ^ 1000 \<le> (1 / 2000 :: rat)" "(100 :: rat) \<le> 2 ^ 1000" by simp_all
  have "\<bar>f x - x\<bar> \<le> x / 2 ^ 53"
    by (rule ieee_close [OF assms(1) order_trans [OF b(1) assms(2)] order_trans [OF assms(3) b(2)]])
  also have "\<dots> \<le> 100 / 2 ^ 53" using assms(3) by (simp add: divide_right_mono)
  also have "\<dots> \<le> 1 / 10 ^ 13" by simp
  finally show ?thesis by (simp add: abs_if split: if_splits)
qed

lemma ieee_in:
  assumes "ieee_rounding f" and "a \<le> x" and "x \<le> b" and "1 / 2000 \<le> a" and "b \<le> 100"
  shows "a - 1 / 10 ^ 13 \<le> f x" "f x \<le> b + 1 / 10 ^ 13"
  using ieee_near [OF assms(1), of x] assms(2-5) by linarith+

lemma ieee_zero_one: "ieee_rounding f \<Longrightarrow> f 0 = 0" "ieee_rounding f \<Longrightarrow> f 1 = 1"
  using ieee_exact [of f 0] ieee_exact [of f 1] by simp_all

text \<open>A difference below \<open>2 ^ -33\<close> stays below it.\<close>

lemma ieee_tiny:
  assumes "ieee_rounding f" and "- (1 / 2 ^ 33) \<le> x" and "x \<le> 1 / 2 ^ 33"
  shows "- (1 / 2 ^ 33) \<le> f x \<and> f x \<le> 1 / 2 ^ 33"
proof -
  have mono: "x \<le> y \<Longrightarrow> f x \<le> f y" for x y using assms(1) by (simp add: ieee_rounding_def)
  have dyadic: "f (of_int k / 2 ^ 33) = of_int k / 2 ^ 33" if "\<bar>k\<bar> < 2 ^ 53" for k
  proof -
    have "(33 :: nat) \<le> 1000" by simp
    then show ?thesis using assms(1) that unfolding ieee_rounding_def by blast
  qed
  from dyadic [of 1] dyadic [of "- 1"] mono [OF assms(2)] mono [OF assms(3)] show ?thesis by simp
qed

lemma root_near:
  assumes "close_root s" and "1 / 2 ^ 10 \<le> x" and "x \<le> 1"
    and "0 \<le> a" "a * a < x - x / 2 ^ 40" and "0 \<le> b" "x + x / 2 ^ 40 < b * b"
  shows "a \<le> s x \<and> s x \<le> b"
proof -
  have s: "0 \<le> s x" "x - x / 2 ^ 40 \<le> s x * s x" "s x * s x \<le> x + x / 2 ^ 40"
    using assms(1-3) unfolding close_root_def by (auto simp: abs_if split: if_splits)
  have "a \<le> s x" using s assms(4,5) mult_mono [of "s x" a "s x" a] by (rule_tac ccontr) simp
  moreover have "s x \<le> b" using s assms(6,7) mult_mono [of b "s x" b "s x"] by (rule_tac ccontr) simp
  ultimately show ?thesis ..
qed

section \<open>No hit and thirty hits\<close>

lemma wilson_pieces:
  fixes f s
  assumes i: "ieee_rounding f" and s: "close_root s"
  defines "z \<equiv> f (1959963984540054 / 10 ^ 15)"
  defines "zz \<equiv> f (z * z)"
  defines "den \<equiv> f (1 + f (zz / 30))" and "half \<equiv> f (zz / 60)"
  defines "margin \<equiv> f (f (z * s (f (0 + f (zz / 3600)))) / den)"
  shows "5675669 / 10 ^ 8 \<le> margin" "margin \<le> 5675670 / 10 ^ 8"
    "\<bar>margin - 56756696587 / 10 ^ 12\<bar> \<le> 1 / 10 ^ 10"
    "\<bar>f (f (0 + half) / den) - 56756696587 / 10 ^ 12\<bar> \<le> 1 / 10 ^ 11"
    "\<bar>f (f (1 + half) / den) - 943243303413 / 10 ^ 12\<bar> \<le> 1 / 10 ^ 11"
proof -
  note near = ieee_near [OF i]
  have z: "19599639845 / 10 ^ 10 \<le> z" "1959963984540054 / 10 ^ 15 - 1 / 10 ^ 13 \<le> z" "z \<le> 1959963984540054 / 10 ^ 15 + 1 / 10 ^ 13"
    using near [of "1959963984540054 / 10 ^ 15"] unfolding z_def by simp_all
  have "(1959963984540054 / 10 ^ 15 - 1 / 10 ^ 13) * (1959963984540054 / 10 ^ 15 - 1 / 10 ^ 13) \<le> z * z"
    using z by (intro mult_mono) simp_all
  moreover have "z * z \<le> (1959963984540054 / 10 ^ 15 + 1 / 10 ^ 13) * (1959963984540054 / 10 ^ 15 + 1 / 10 ^ 13)"
    using z by (intro mult_mono) simp_all
  ultimately have "3841458820694 / 10 ^ 12 - 1 / 10 ^ 12 \<le> z * z" "z * z \<le> 3841458820694 / 10 ^ 12 + 1 / 10 ^ 12" by simp_all
  then have zz: "3841458820694 / 10 ^ 12 - 2 / 10 ^ 12 \<le> zz" "zz \<le> 3841458820694 / 10 ^ 12 + 2 / 10 ^ 12"
    using near [of "z * z"] unfolding zz_def by simp_all
  have "128048627356 / 10 ^ 12 \<le> f (zz / 30)" "f (zz / 30) \<le> 128048627357 / 10 ^ 12"
    using near [of "zz / 30"] zz by simp_all
  then have den: "1128048627356 / 10 ^ 12 - 1 / 10 ^ 12 \<le> den" "den \<le> 1128048627357 / 10 ^ 12 + 1 / 10 ^ 12"
    using near [of "1 + f (zz / 30)"] unfolding den_def by simp_all
  have half: "64024313678 / 10 ^ 12 - 1 / 10 ^ 12 \<le> half" "half \<le> 64024313678 / 10 ^ 12 + 1 / 10 ^ 12"
    using near [of "zz / 60"] zz unfolding half_def by simp_all
  let ?r = "f (0 + f (zz / 3600))"
  have "1067071894 / 10 ^ 12 \<le> f (zz / 3600)" "f (zz / 3600) \<le> 1067071896 / 10 ^ 12"
    "10670718946 / 10 ^ 13 - 4 / 10 ^ 13 \<le> f (zz / 3600)" "f (zz / 3600) \<le> 10670718946 / 10 ^ 13 + 4 / 10 ^ 13"
    using near [of "zz / 3600"] zz by simp_all
  then have r: "10670718946 / 10 ^ 13 - 5 / 10 ^ 13 \<le> ?r" "?r \<le> 10670718946 / 10 ^ 13 + 5 / 10 ^ 13"
    using near [of "f (zz / 3600)"] by simp_all
  have y: "32666066400 / 10 ^ 12 \<le> s ?r" "s ?r \<le> 32666066418 / 10 ^ 12"
    using root_near [OF s, of ?r "32666066400 / 10 ^ 12" "32666066418 / 10 ^ 12"] r by simp_all
  have "19599639845 / 10 ^ 10 * (32666066400 / 10 ^ 12) \<le> z * s ?r"
    using z(1) y(1) by (intro mult_mono) simp_all
  moreover have "z * s ?r \<le> 19599639846 / 10 ^ 10 * (32666066418 / 10 ^ 12)"
    using z y by (intro mult_mono) simp_all
  ultimately have "64024313650 / 10 ^ 12 \<le> z * s ?r" "z * s ?r \<le> 64024313720 / 10 ^ 12" by simp_all
  then have zy: "64024313649 / 10 ^ 12 \<le> f (z * s ?r)" "f (z * s ?r) \<le> 64024313721 / 10 ^ 12"
    using near [of "z * s ?r"] by simp_all
  have pos: "0 < den" using den by simp
  have "56756696540 / 10 ^ 12 \<le> f (z * s ?r) / den" "f (z * s ?r) / den \<le> 56756696640 / 10 ^ 12"
    using zy den by (simp_all add: pos_le_divide_eq [OF pos] pos_divide_le_eq [OF pos])
  then have m: "56756696539 / 10 ^ 12 \<le> margin" "margin \<le> 56756696641 / 10 ^ 12"
    using ieee_in [OF i, of "56756696540 / 10 ^ 12" "f (z * s ?r) / den" "56756696640 / 10 ^ 12"] unfolding margin_def by simp_all
  then show "5675669 / 10 ^ 8 \<le> margin" "margin \<le> 5675670 / 10 ^ 8" "\<bar>margin - 56756696587 / 10 ^ 12\<bar> \<le> 1 / 10 ^ 10"
    by (simp_all add: abs_if)
  have "64024313676 / 10 ^ 12 \<le> f (0 + half)" "f (0 + half) \<le> 64024313680 / 10 ^ 12"
    using near [of half] half by simp_all
  then have "56756696584 / 10 ^ 12 \<le> f (0 + half) / den" "f (0 + half) / den \<le> 56756696590 / 10 ^ 12"
    using den by (simp_all add: pos_le_divide_eq [OF pos] pos_divide_le_eq [OF pos])
  then show "\<bar>f (f (0 + half) / den) - 56756696587 / 10 ^ 12\<bar> \<le> 1 / 10 ^ 11"
    using ieee_in [OF i, of "56756696584 / 10 ^ 12" "f (0 + half) / den" "56756696590 / 10 ^ 12"] by (simp add: abs_if)
  have "1064024313676 / 10 ^ 12 \<le> f (1 + half)" "f (1 + half) \<le> 1064024313680 / 10 ^ 12"
    using near [of "1 + half"] half by simp_all
  then have "943243303408 / 10 ^ 12 \<le> f (1 + half) / den" "f (1 + half) / den \<le> 943243303418 / 10 ^ 12"
    using den by (simp_all add: pos_le_divide_eq [OF pos] pos_divide_le_eq [OF pos])
  then show "\<bar>f (f (1 + half) / den) - 943243303413 / 10 ^ 12\<bar> \<le> 1 / 10 ^ 11"
    using ieee_in [OF i, of "943243303408 / 10 ^ 12" "f (1 + half) / den" "943243303418 / 10 ^ 12"] by (simp add: abs_if)
qed

theorem wilson_none:
  assumes i: "ieee_rounding (fl F)" and s: "close_root s" and r: "rounds_nearest F"
  shows "wilson F s 0 30 = Inr (VList [VFloat 0, VFloat (fl F (113513393 / 10 ^ 9))])"
proof -
  let ?f = "fl F"
  define zz where "zz = ?f (?f (1959963984540054 / 10 ^ 15) * ?f (1959963984540054 / 10 ^ 15))"
  define margin where "margin = ?f (?f (?f (1959963984540054 / 10 ^ 15) * s (?f (0 + ?f (zz / 3600)))) / ?f (1 + ?f (zz / 30)))"
  define center where "center = ?f (?f (0 + ?f (zz / 60)) / ?f (1 + ?f (zz / 30)))"
  have m: "\<bar>margin - 56756696587 / 10 ^ 12\<bar> \<le> 1 / 10 ^ 10" and c: "\<bar>center - 56756696587 / 10 ^ 12\<bar> \<le> 1 / 10 ^ 11"
    using wilson_pieces(3,4) [OF i s] unfolding margin_def center_def zz_def by blast+
  have w: "wilson F s 0 30 = Inr (VList [VFloat (rnd F 9 (max 0 (?f (center - margin)))), VFloat (rnd F 9 (min 1 (?f (center + margin))))])"
    unfolding wilson_def Let_def center_def margin_def zz_def by (simp add: ieee_zero_one [OF i])
  have "- (1 / 2 ^ 33) \<le> center - margin" "center - margin \<le> 1 / 2 ^ 33" using m c by (simp_all add: abs_if split: if_splits)
  from ieee_tiny [OF i this] have "\<bar>max 0 (?f (center - margin)) - of_int 0 / 10 ^ 9\<bar> < 1 / (2 * 10 ^ 9)" by (simp add: max_def)
  then have lo: "rnd F 9 (max 0 (?f (center - margin))) = ?f (of_int 0 / 10 ^ 9)" using r unfolding rounds_nearest_def by blast
  have "113513393063 / 10 ^ 12 \<le> center + margin" "center + margin \<le> 113513393285 / 10 ^ 12"
    using m c by (simp_all add: abs_if split: if_splits)
  from ieee_in [OF i this] have h: "113513393062 / 10 ^ 12 \<le> ?f (center + margin)" "?f (center + margin) \<le> 113513393286 / 10 ^ 12" by simp_all
  then have "min 1 (?f (center + margin)) = ?f (center + margin)" by simp
  moreover have "\<bar>?f (center + margin) - of_int 113513393 / 10 ^ 9\<bar> < 1 / (2 * 10 ^ 9)" using h by (simp add: abs_if)
  ultimately have hi: "rnd F 9 (min 1 (?f (center + margin))) = ?f (of_int 113513393 / 10 ^ 9)"
    using r unfolding rounds_nearest_def by metis
  show ?thesis unfolding w lo hi by (simp add: ieee_zero_one [OF i])
qed

theorem wilson_all:
  assumes i: "ieee_rounding (fl F)" and s: "close_root s" and r: "rounds_nearest F"
  shows "wilson F s 30 30 = Inr (VList [VFloat (fl F (886486607 / 10 ^ 9)), VFloat 1])"
proof -
  let ?f = "fl F"
  define zz where "zz = ?f (?f (1959963984540054 / 10 ^ 15) * ?f (1959963984540054 / 10 ^ 15))"
  define margin where "margin = ?f (?f (?f (1959963984540054 / 10 ^ 15) * s (?f (0 + ?f (zz / 3600)))) / ?f (1 + ?f (zz / 30)))"
  define center where "center = ?f (?f (1 + ?f (zz / 60)) / ?f (1 + ?f (zz / 30)))"
  have m: "\<bar>margin - 56756696587 / 10 ^ 12\<bar> \<le> 1 / 10 ^ 10" and c: "\<bar>center - 943243303413 / 10 ^ 12\<bar> \<le> 1 / 10 ^ 11"
    using wilson_pieces(3,5) [OF i s] unfolding margin_def center_def zz_def by blast+
  have w: "wilson F s 30 30 = Inr (VList [VFloat (rnd F 9 (max 0 (?f (center - margin)))), VFloat (rnd F 9 (min 1 (?f (center + margin))))])"
    unfolding wilson_def Let_def center_def margin_def zz_def by (simp add: ieee_zero_one [OF i])
  have "886486606715 / 10 ^ 12 \<le> center - margin" "center - margin \<le> 886486606937 / 10 ^ 12"
    using m c by (simp_all add: abs_if split: if_splits)
  from ieee_in [OF i this] have l: "886486606714 / 10 ^ 12 \<le> ?f (center - margin)" "?f (center - margin) \<le> 886486606938 / 10 ^ 12" by simp_all
  then have "max 0 (?f (center - margin)) = ?f (center - margin)" by simp
  moreover have "\<bar>?f (center - margin) - of_int 886486607 / 10 ^ 9\<bar> < 1 / (2 * 10 ^ 9)" using l by (simp add: abs_if)
  ultimately have lo: "rnd F 9 (max 0 (?f (center - margin))) = ?f (of_int 886486607 / 10 ^ 9)"
    using r unfolding rounds_nearest_def by metis
  have "999999999889 / 10 ^ 12 \<le> center + margin" "center + margin \<le> 1000000000111 / 10 ^ 12"
    using m c by (simp_all add: abs_if split: if_splits)
  from ieee_in [OF i this] have "999999999888 / 10 ^ 12 \<le> ?f (center + margin)" by simp
  then have "\<bar>min 1 (?f (center + margin)) - of_int (10 ^ 9) / 10 ^ 9\<bar> < 1 / (2 * 10 ^ 9)" by (simp add: abs_if min_def)
  then have hi: "rnd F 9 (min 1 (?f (center + margin))) = ?f (of_int (10 ^ 9) / 10 ^ 9)"
    using r unfolding rounds_nearest_def by blast
  show ?thesis unfolding w lo hi by (simp add: ieee_zero_one [OF i])
qed

text \<open>So the two files agree on the cells of the campaign, whose counts are none or all.\<close>

corollary wilson_roots_agree:
  assumes "sound_floats F" and "k \<in> {0, 30}"
  shows "wilson F (pow_half F) k 30 = wilson F (fsqrt F) k 30"
  using assms wilson_none wilson_all unfolding sound_floats_def by auto

end
