(* ===== verification/Sample_Roots.thy ===== *)
theory Sample_Roots
  imports Wilson_Roots
begin

text \<open>
  Square roots on the rationals: the integer root of a scaled argument.  Only the witnesses use them.
\<close>

fun nat_root :: "nat \<Rightarrow> nat" where
  "nat_root n = (if n = 0 then 0 else let r = 2 * nat_root (n div 4) in if (r + 1) * (r + 1) \<le> n then r + 1 else r)"

declare nat_root.simps [simp del]

lemma nat_root_bounds: "nat_root n * nat_root n \<le> n \<and> n < (nat_root n + 1) * (nat_root n + 1)"
proof (induction n rule: nat_root.induct)
  case (1 n)
  show ?case
  proof (cases "n = 0")
    case False
    define q where "q = nat_root (n div 4)"
    have q: "q * q \<le> n div 4" "n div 4 < (q + 1) * (q + 1)" using 1 [OF False] unfolding q_def by blast+
    have e: "nat_root n = (if (2 * q + 1) * (2 * q + 1) \<le> n then 2 * q + 1 else 2 * q)"
      using False by (subst nat_root.simps) (simp add: Let_def q_def)
    have lo: "2 * q * (2 * q) \<le> n" using q(1) by (simp add: algebra_simps)
    have "n div 4 + 1 \<le> (q + 1) * (q + 1)" using q(2) by simp
    then have "4 * (n div 4 + 1) \<le> 4 * ((q + 1) * (q + 1))" by (rule mult_le_mono2)
    moreover have "n < 4 * (n div 4 + 1)" by presburger
    moreover have "4 * ((q + 1) * (q + 1)) = (2 * q + 2) * (2 * q + 2)" by (simp add: algebra_simps)
    ultimately have "n < (2 * q + 2) * (2 * q + 2)" by linarith
    then show ?thesis using lo unfolding e by simp
  qed (simp add: nat_root.simps)
qed

definition scaled_root :: "nat \<Rightarrow> rat \<Rightarrow> rat" where
  "scaled_root e x = of_nat (nat_root (nat \<lfloor>x * 4 ^ e\<rfloor>)) / 2 ^ e"

lemma scaled_root_close:
  assumes e: "55 \<le> e"
  shows "close_root (scaled_root e)"
  unfolding close_root_def
proof (intro allI impI)
  fix x :: rat assume x: "1 / 2 ^ 10 \<le> x \<and> x \<le> 1"
  define m where "m = nat \<lfloor>x * 4 ^ e\<rfloor>"
  define r where "r = nat_root m"
  have p: "(0 :: rat) < 4 ^ e" by simp
  have xp: "0 \<le> x" using x by (simp add: order_trans [of 0 "1 / 2 ^ 10"])
  then have f: "0 \<le> \<lfloor>x * 4 ^ e\<rfloor>" by simp
  have m: "of_nat m \<le> x * 4 ^ e" "x * 4 ^ e < of_nat m + 1"
    using f floor_correct [of "x * 4 ^ e"] by (simp_all add: m_def of_nat_nat)
  have b: "r * r \<le> m" "m < (r + 1) * (r + 1)" using nat_root_bounds [of m] unfolding r_def by blast+
  have r: "(of_nat r * of_nat r :: rat) \<le> of_nat m" using b(1) by (metis of_nat_le_iff of_nat_mult)
  have "m + 1 \<le> r * r + 2 * r + 1" using b(2) by (simp add: algebra_simps)
  then have r': "(of_nat m + 1 :: rat) \<le> of_nat r * of_nat r + 2 * of_nat r + 1"
    by (metis (mono_tags, lifting) of_nat_1 of_nat_add of_nat_le_iff of_nat_mult of_nat_numeral)
  define y where "y = (of_nat r / 2 ^ e :: rat)"
  have four: "(4 :: rat) ^ e = 2 ^ e * 2 ^ e" by (simp add: power_mult_distrib [symmetric])
  have two: "(2 :: rat) ^ 55 \<le> 2 ^ e" using e by (intro power_increasing) simp_all
  have le: "(of_nat r :: rat) \<le> 2 ^ e"
  proof (rule ccontr)
    assume "\<not> ?thesis"
    then have "(2 :: rat) ^ e * 2 ^ e < of_nat r * of_nat r" by (intro mult_strict_mono) simp_all
    moreover have "x * 4 ^ e \<le> 4 ^ e" using x by simp
    ultimately show False using r m(1) unfolding four by linarith
  qed
  have yy: "y * y = of_nat r * of_nat r / 4 ^ e" by (simp add: y_def four)
  have "of_nat r * of_nat r / 4 ^ e \<le> x" using r m(1) by (simp add: pos_divide_le_eq)
  moreover have "x \<le> (of_nat r * of_nat r + 2 * of_nat r + 1) / 4 ^ e" using r' m(2) by (simp add: pos_le_divide_eq)
  then have "x \<le> of_nat r * of_nat r / 4 ^ e + (2 * of_nat r + 1) / 4 ^ e" by (simp add: add_divide_distrib)
  moreover have "(2 * of_nat r + 1) / 4 ^ e \<le> x / 2 ^ 40"
  proof -
    have "(1 :: rat) \<le> 2 ^ e" by simp
    then have "(2 * of_nat r + 1 :: rat) \<le> 3 * 2 ^ e" using le by linarith
    then have "(2 * of_nat r + 1 :: rat) / 4 ^ e \<le> 3 * 2 ^ e / 4 ^ e" by (rule divide_right_mono) simp
    also have "\<dots> = 3 / 2 ^ e" by (simp add: four)
    also have "\<dots> \<le> 3 / 2 ^ 55" using two by (intro divide_left_mono) simp_all
    also have "\<dots> \<le> x / 2 ^ 40" using x by simp
    finally show ?thesis .
  qed
  ultimately have "\<bar>y * y - x\<bar> \<le> x / 2 ^ 40" unfolding yy by linarith
  moreover have "scaled_root e x = y" by (simp add: scaled_root_def y_def r_def m_def)
  moreover have "0 \<le> y" by (simp add: y_def)
  ultimately show "0 \<le> scaled_root e x \<and> \<bar>scaled_root e x * scaled_root e x - x\<bar> \<le> x / 2 ^ 40" by simp
qed

definition round_to :: "nat \<Rightarrow> rat \<Rightarrow> rat" where
  "round_to n x = of_int \<lfloor>x * 10 ^ n + 1 / 2\<rfloor> / 10 ^ n"

lemma round_to_nearest: "\<bar>x - of_int k / 10 ^ n\<bar> < 1 / (2 * 10 ^ n) \<Longrightarrow> round_to n x = of_int k / 10 ^ n"
proof -
  assume a: "\<bar>x - of_int k / 10 ^ n\<bar> < 1 / (2 * 10 ^ n)"
  have p: "(0 :: rat) < 10 ^ n" by simp
  have "\<bar>x - of_int k / 10 ^ n\<bar> * 10 ^ n < 1 / (2 * 10 ^ n) * 10 ^ n" by (rule mult_strict_right_mono [OF a p])
  moreover have "x * 10 ^ n - of_int k = (x - of_int k / 10 ^ n) * 10 ^ n" by (simp add: left_diff_distrib)
  then have "\<bar>x * 10 ^ n - of_int k\<bar> = \<bar>x - of_int k / 10 ^ n\<bar> * 10 ^ n" by (simp add: abs_mult)
  ultimately have "\<bar>x * 10 ^ n - of_int k\<bar> < 1 / 2" by simp
  then have "\<lfloor>x * 10 ^ n + 1 / 2\<rfloor> = k" by (intro floor_unique) (simp_all add: abs_if split: if_splits)
  then show ?thesis by (simp add: round_to_def)
qed

end
