(* ===== verification/Sample_World.thy ===== *)
theory Sample_World
  imports Broker_Live Campaign_Base Sample_Roots
begin

text \<open>
  One concrete instance of the outside world (a digest that is the length, a signature that is a
  constant, floats on the rationals with two different square roots) on which the hypotheses of the theorems hold, and a
  concrete environment of a broker run.  Only the witnesses use it.
\<close>

definition sample_sha :: "bytes \<Rightarrow> bytes" where
  "sample_sha b = replicate 31 0 @ [word_of_nat (length b)]"

definition sample_sign :: "bytes \<Rightarrow> bytes \<Rightarrow> bytes" where
  "sample_sign seed m = replicate 64 0"

definition sample_verify :: "bytes \<Rightarrow> bytes \<Rightarrow> bytes \<Rightarrow> bool" where
  "sample_verify key sig m \<longleftrightarrow> sig = replicate 64 0"

definition sample_image :: "'d \<Rightarrow> bytes" where
  "sample_image d = []"

definition sample_floats :: floats where
  "sample_floats = \<lparr>fl = id, pow_half = scaled_root 55, fsqrt = scaled_root 60, rnd = round_to\<rparr>"

definition sample_meters :: meters where
  "sample_meters = \<lparr>wall_ns = 5, cpu_ns = 4, heap_peak = 3, rss_before = 1, rss_after = 2, artifact_bytes = 7\<rparr>"

definition sample_world :: world where
  "sample_world = \<lparr>w_sha = sample_sha, w_iml = sample_image, w_imc = sample_image, w_sign = sample_sign,
     w_verify = sample_verify, w_floats = sample_floats, w_meters = (\<lambda>m c r. sample_meters),
     w_shuffle = (\<lambda>s xs. xs)\<rparr>"

lemma sample_digest: "digest32 sample_sha"
  by (simp add: digest32_def sample_sha_def)

lemma sample_ed25519: "ed25519_pair sample_sign sample_verify"
  by (auto simp: ed25519_pair_def sample_sign_def sample_verify_def numeral_eq_Suc)

lemma sample_tear: "tear_shows sample_sha sample_image"
  by (simp add: tear_shows_def sample_sha_def sample_image_def)

lemma sample_fixture: "fixture sample_sha sample_image sample_image sample_sign sample_verify"
  by (simp add: fixture_def sample_digest sample_ed25519 sample_tear)

lemma sample_world_ok: "world_ok sample_world"
  by (simp add: world_ok_def sample_world_def sample_fixture shuffles_def)

lemma sample_sound_floats: "sound_floats sample_floats"
  by (simp add: sound_floats_def rounds_nearest_def sample_floats_def ieee_rounding_def scaled_root_close round_to_nearest)

lemma sample_world_floats: "w_floats sample_world = sample_floats"
  by (simp add: sample_world_def)

section \<open>A broker run\<close>

definition sample_tick :: tick where
  "sample_tick = \<lparr>now = 0, exited = None, accepted = True, log_data = Some (ready_marker @ concat terminal_markers)\<rparr>"

definition sample_env :: qemu_env where
  "sample_env = \<lparr>ledger_path = ''ledger'', socket_path = ''socket'', log_path = ''log'', socket_exists = False,
     log_exists = False, listen_ok = True, peer = No_peercred, process_pid = 1, own_uid = 1,
     accept_start = 0, accept_ticks = [sample_tick], ready_start = 0, ready_ticks = [sample_tick],
     terminal_start = 0, terminal_ticks = [sample_tick], terminal_log = [], integrity = True\<rparr>"

definition sample_signature :: bytes where
  "sample_signature = replicate 64 0"

definition sample_broker :: "bytes \<Rightarrow> broker" where
  "sample_broker pd = \<lparr>ledger = no_ledger,
     channel = [Silence, Arrive (receipt_wire STATUS_PREPARED pd sample_signature),
       Arrive (receipt_wire STATUS_EFFECT_RECEIPT pd sample_signature)], send_fates = [], sent = []\<rparr>"

lemma py_prefix_append: "py_prefix m (m @ xs)"
  by (induction m) auto

lemma py_in_prefix: "py_prefix m xs \<Longrightarrow> py_in m xs"
  by (cases xs; cases m) auto

lemma py_in_append: "py_in m xs \<Longrightarrow> py_in m (ys @ xs)"
  by (induction ys) auto

lemma py_in_parts: "m \<in> set ms \<Longrightarrow> py_in m (concat ms)"
  by (induction ms) (auto intro: py_in_append py_in_prefix py_prefix_append)

lemma sample_markers:
  "list_all (\<lambda>m. py_in m (log_bytes sample_tick)) terminal_markers" "py_in ready_marker (log_bytes sample_tick)"
  by (auto simp: list_all_iff sample_tick_def log_bytes_def intro: py_in_append py_in_parts py_in_prefix py_prefix_append)

lemma sample_cooperative:
  "cooperative sample_verify pd sample_env ''not_available'' (sample_broker pd)"
proof -
  have "connect_guest sample_env = Inr ''not_available''"
    using sample_markers(2)
    by (simp add: connect_guest_def sample_env_def check_peer_def) (simp add: sample_tick_def)
  moreover have "wait_for_terminal (terminal_start sample_env + 20000) (terminal_ticks sample_env)
      = Inr (log_bytes sample_tick)"
    using sample_markers(1) by (simp add: sample_env_def) (simp add: sample_tick_def)
  moreover have "\<exists>ch sig1 sig2 rest. channel (sample_broker pd) = Silence # ch \<and> all_data ch
      \<and> content ch = receipt_wire STATUS_PREPARED pd sig1 @ receipt_wire STATUS_EFFECT_RECEIPT pd sig2 @ rest
      \<and> signed_receipt sample_verify STATUS_PREPARED pd sig1
      \<and> signed_receipt sample_verify STATUS_EFFECT_RECEIPT pd sig2"
    by (rule exI [of _ "tl (channel (sample_broker pd))"], rule exI [of _ sample_signature],
        rule exI [of _ sample_signature], rule exI [of _ "[]"])
      (simp add: sample_broker_def receipt_wire_def signed_receipt_def sample_verify_def sample_signature_def)
  ultimately show ?thesis
    unfolding cooperative_def
    by (simp add: sample_broker_def sample_env_def)
qed

lemma signed_frame_ok:
  assumes "length payload \<le> 128" and "kind \<in> {KIND_PREPARE, KIND_EXECUTE}"
  shows "\<exists>wire d. signed_frame sample_sha sample_sign kind payload = Inr (wire, d) \<and> length d = 32"
  using assms by (simp add: signed_frame_def Let_def sample_sign_def sample_sha_def)

lemma sample_frames:
  "\<exists>pw pd ew ed. signed_frame sample_sha sample_sign KIND_PREPARE PREPARE_PAYLOAD = Inr (pw, pd)
     \<and> signed_frame sample_sha sample_sign KIND_EXECUTE pd = Inr (ew, ed)"
proof -
  obtain pw pd where 1: "signed_frame sample_sha sample_sign KIND_PREPARE PREPARE_PAYLOAD = Inr (pw, pd)" "length pd = 32"
    using signed_frame_ok [of PREPARE_PAYLOAD KIND_PREPARE] by (auto simp: PREPARE_PAYLOAD_def)
  then show ?thesis using signed_frame_ok [of pd KIND_EXECUTE] by auto
qed

text \<open>A run of the ledger up to the consumed attempt.\<close>

lemma sample_ledger_run:
  "ledger_run sha im no_ledger [Opened True, Called L_prepare True, Called L_consume True]
     (ledger_in sha im Consumed True)"
proof -
  note s = ledger_run.step [of sha im no_ledger]
  have "ledger_step sha im no_ledger (Opened (is_ok (Inr () :: exn + unit))) (ledger_in sha im Absent True)"
    by (rule ledger_step.reopen [OF _ ledger_open_new]) (simp add: no_ledger_def)
  then have 1: "ledger_run sha im no_ledger ([] @ [Opened True]) (ledger_in sha im Absent True)"
    using s [OF ledger_run.start] by simp
  have c: "ledger_step sha im (ledger_in sha im p True) (Called x True) (ledger_in sha im q True)"
    if "life_step p x = Some q" for p x q
    using ledger_step.call [OF transaction_in [OF that, of sha im]] by simp
  show ?thesis
    using s [OF s [OF 1 c [of Absent L_prepare Prepared]] c [of Prepared L_consume Consumed]] by simp
qed

end
