(* ===== verification/Broker_Theorems.thy ===== *)
theory Broker_Theorems
  imports Sample_World
begin

text \<open>
  The properties of the broker, its ledger and its wire protocol, each with a witness on the
  concrete world of \<open>Sample_World\<close>.
\<close>

section \<open>The broker run\<close>

text \<open>
  C1. Whatever the environment, the guest and the network do, and wherever \<open>run_qemu\<close> stops: the
  frames handed to \<open>sendall\<close> are none, the prepare frame, or the prepare and then the execute frame;
  the prepare frame leaves only while the committed tables say PREPARED, the execute frame only
  while they say CONSUMED; a run that returns has sent both and is TERMINAL.
\<close>

theorem broker_run_safe:
  assumes "digest32 sha" and "signed_frame sha sg KIND_PREPARE PREPARE_PAYLOAD = Inr (pw, pd)"
    and "signed_frame sha sg KIND_EXECUTE pd = Inr (ew, ed)"
    and "ledger_at sha Absent (ledger B)" and "sent B = []"
    and "run_qemu sha im sg ver env B = (r, B')"
  shows "(\<exists>p. ledger_at sha p (ledger B') \<and> sent_ok sha pw ew (sent B') \<and> length (sent B') \<le> rank p)
    \<and> (is_ok r \<longrightarrow> (\<exists>d. ledger_at sha (Terminal d) (ledger B')) \<and> length (sent B') = 2)"
proof -
  note t = run_qemu_triple [OF assms(1-3), of im ver env]
  have s: "stage sha pw ew Absent 0 B" using assms(4,5) by (simp add: stage_def)
  show ?thesis
  proof (cases r)
    case (Inl e)
    then show ?thesis using tripleD(1) [OF t s] assms(6) by (simp add: safe_stop_def)
  next
    case (Inr a)
    then obtain d where "stage sha pw ew (Terminal d) 2 B'" using tripleD(2) [OF t s] assms(6) by blast
    then show ?thesis by (auto simp: stage_def)
  qed
qed

theorem broker_run_safe_witness:
  "\<exists>p B'. ledger_at sample_sha p (ledger B') \<and> length (sent B') \<le> rank p \<and>
     (\<exists>pd r. run_qemu sample_sha sample_image sample_sign sample_verify sample_env (sample_broker pd) = (r, B'))"
proof -
  obtain pw pd ew ed where f: "signed_frame sample_sha sample_sign KIND_PREPARE PREPARE_PAYLOAD = Inr (pw, pd)"
    "signed_frame sample_sha sample_sign KIND_EXECUTE pd = Inr (ew, ed)" using sample_frames by blast
  obtain r B' where r: "run_qemu sample_sha sample_image sample_sign sample_verify sample_env (sample_broker pd) = (r, B')"
    by fastforce
  have "ledger_at sample_sha Absent (ledger (sample_broker pd))" "sent (sample_broker pd) = []"
    by (simp_all add: sample_broker_def ledger_at_none)
  from broker_run_safe [OF sample_digest f this r] show ?thesis using r by blast
qed

text \<open>
  C2. If the environment answers, SQLite's own check passes, every send succeeds and two receipts
  that bind the prepare frame arrive, cut into pieces in any way, after a silent startup, then
  \<open>run_qemu\<close> returns: it reports TERMINAL and COMPLETE_NO_REDISPATCH, it has sent the prepare frame
  from the PREPARED tables and the execute frame from the CONSUMED ones, and the ledger is closed.
\<close>

theorem cooperative_run_returns:
  assumes "digest32 sha" and "cooperative ver pd env status B"
    and "signed_frame sha sg KIND_PREPARE PREPARE_PAYLOAD = Inr (pw, pd)"
    and "signed_frame sha sg KIND_EXECUTE pd = Inr (ew, ed)"
  shows "\<exists>B' d. run_qemu sha im sg ver env B = (Inr (completed sha env pd status), B')
    \<and> sent B' = [(pw, Some (db_in sha Prepared)), (ew, Some (db_in sha Consumed))]
    \<and> ledger B' = ledger_in sha im (Terminal d) False"
  by (rule run_qemu_returns [OF assms])

theorem cooperative_run_returns_witness:
  "\<exists>pd B'. run_qemu sample_sha sample_image sample_sign sample_verify sample_env (sample_broker pd)
     = (Inr (completed sample_sha sample_env pd ''not_available''), B') \<and> length (sent B') = 2"
proof -
  obtain pw pd ew ed where f: "signed_frame sample_sha sample_sign KIND_PREPARE PREPARE_PAYLOAD = Inr (pw, pd)"
    "signed_frame sample_sha sample_sign KIND_EXECUTE pd = Inr (ew, ed)" using sample_frames by blast
  obtain B' where "run_qemu sample_sha sample_image sample_sign sample_verify sample_env (sample_broker pd)
      = (Inr (completed sample_sha sample_env pd ''not_available''), B')"
    "sent B' = [(pw, Some (db_in sample_sha Prepared)), (ew, Some (db_in sample_sha Consumed))]"
    using cooperative_run_returns [OF sample_digest sample_cooperative f, of sample_image] by blast
  then show ?thesis by (intro exI [of _ pd] exI [of _ B']) simp
qed

section \<open>The ledger\<close>

text \<open>
  C3. Over any sequence of method calls, constructor calls, closes, process deaths (also between a
  commit and its seal, and while the file is made), torn writes and permission changes, \<open>consume\<close>
  returns normally at most once.
\<close>

theorem consume_at_most_once:
  assumes "ledger_run sha im no_ledger ls L"
  shows "count_list ls (Called L_consume True) \<le> 1"
  using run_phase [OF assms ledger_at_none] by (auto split: if_splits)

theorem consume_at_most_once_witness:
  "\<exists>ls L. ledger_run sample_sha sample_image no_ledger ls L \<and> count_list ls (Called L_consume True) = 1"
  using consume_at_most_once [OF sample_ledger_run [of sample_sha sample_image]] sample_ledger_run
  by (intro exI [of _ "[Opened True, Called L_prepare True, Called L_consume True]"]
      exI [of _ "ledger_in sample_sha sample_image Consumed True"]) simp

text \<open>
  C4. The ledger refines the life cycle Absent, Prepared, Consumed, Result, Terminal: every step of
  a ledger in a phase leaves it in that phase or makes one move of the life cycle, and a call that
  returned normally made its own move.
\<close>

theorem ledger_refines_life_cycle:
  assumes "ledger_step sha im L l L'" and "ledger_at sha p L"
  shows "\<exists>q. ledger_at sha q L' \<and> (q = p \<or> (\<exists>x. life_step p x = Some q))
     \<and> (\<forall>x. l = Called x True \<longrightarrow> life_step p x = Some q)"
  by (rule step_refines [OF assms])

theorem ledger_refines_life_cycle_witness:
  "\<exists>q. ledger_at sample_sha q (ledger_in sample_sha sample_image Prepared True) \<and> life_step Absent L_prepare = Some q"
proof -
  have "ledger_step sample_sha sample_image (ledger_in sample_sha sample_image Absent True) (Called L_prepare True)
      (ledger_in sample_sha sample_image Prepared True)"
    using ledger_step.call [OF transaction_in [of Absent L_prepare Prepared sample_sha sample_image]] by simp
  moreover have "ledger_at sample_sha Absent (ledger_in sample_sha sample_image Absent True)"
    using db_in_at by (simp add: ledger_at_def ledger_in_def)
  ultimately show ?thesis using ledger_refines_life_cycle by blast
qed

text \<open>
  C5. In every state a ledger file can reach, the tables hold one attempt in one phase: \<open>verify()\<close>
  accepts them (if SQLite's own check does), the event log is the history of the phase, and
  \<open>recovery_action()\<close> answers with the action of the phase.
\<close>

theorem reachable_ledger_verifies:
  assumes "ledger_run sha im no_ledger ls L" and "stored (db_file L) = Some db"
  shows "\<exists>p. db_verify sha True db = Inr () \<and> map ev_event (events db) = history p
    \<and> attempts db (ledger_key sha) = row_of p
    \<and> recovery_of (db_state sha db) =
       (case p of Absent \<Rightarrow> ''NO_ACTION'' | Prepared \<Rightarrow> ''ABORT_WITHOUT_EFFECT''
        | Consumed \<Rightarrow> ''BLOCK_NO_REDISPATCH'' | Result _ \<Rightarrow> ''EMIT_TERMINAL_ONLY''
        | Terminal _ \<Rightarrow> ''COMPLETE_NO_REDISPATCH'')"
proof -
  obtain q where "ledger_at sha q L" using run_phase [OF assms(1) ledger_at_none] by blast
  then have "db_at sha q db" using assms(2) by (simp add: ledger_at_def)
  then show ?thesis using db_at_verify db_at_history db_at_lookup db_at_state by blast
qed

theorem reachable_ledger_verifies_witness:
  "db_verify sample_sha True (db_in sample_sha Consumed) = Inr ()"
  using reachable_ledger_verifies [OF sample_ledger_run [of sample_sha sample_image], of "db_in sample_sha Consumed"]
  by (simp add: ledger_in_def)

text \<open>
  C6. Tamper evidence: two event logs that pass the chain check and end in the same head hash are
  equal, unless two different hashed records have the same digest, or a record hashes to the genesis
  value.
\<close>

theorem chain_tamper_evident:
  assumes "chain_ok sha genesis_hash es" and "chain_ok sha genesis_hash es'"
    and "chain_head genesis_hash es = chain_head genesis_hash es'"
  shows "es = es' \<or> (\<exists>e \<in> set es. \<exists>e' \<in> set es'. hashed e \<noteq> hashed e' \<and> sha (hashed e) = sha (hashed e'))
     \<or> (\<exists>e \<in> set es \<union> set es'. sha_hex sha (hashed e) = genesis_hash)"
  by (rule chain_tamper [OF assms])

theorem chain_tamper_evident_witness:
  "\<exists>es. length es = 2 \<and> chain_ok sample_sha genesis_hash es
     \<and> (es = es \<or> (\<exists>e \<in> set es \<union> set es. sha_hex sample_sha (hashed e) = genesis_hash))"
proof -
  let ?es = "events (db_in sample_sha Consumed)"
  have c: "chain_ok sample_sha genesis_hash ?es" "map ev_event ?es = history Consumed"
    using db_in_at [of sample_sha Consumed] by (simp_all add: db_at_def)
  have "length ?es = length (history Consumed)" using arg_cong [OF c(2), of length] by simp
  then show ?thesis using chain_tamper_evident [OF c(1) c(1) refl] c(1) by (intro exI [of _ ?es]) auto
qed

text \<open>
  C7. A process that dies between a \<open>COMMIT\<close> and the replacement of the seal leaves a ledger that
  the constructor refuses (unless the digests of the two files are equal): the recovery table is not
  reached from there.
\<close>

theorem death_before_seal_fails_closed:
  assumes "sealed sha im db (db_file L)" and "life_body sha x db = Inr db'" and "sha (im db') \<noteq> sha (im db)"
    and "ledger_step sha im L (Killed x) K"
  shows "ledger_open sha im K = (Inl (ProtocolError ''ledger seal mismatch''), K)"
proof -
  have "stored (db_file L) = Some db" using assms(1) by (simp add: sealed_def)
  then have "K = L\<lparr>db_file := (db_file L)\<lparr>stored := Some db'\<rparr>, conn := False\<rparr>"
    using assms(2,4) by (auto elim: ledger_stepE)
  from killed_then_open [OF assms(1-3) this] show ?thesis .
qed

definition sample_length_image :: "ledger_db \<Rightarrow> bytes" where
  "sample_length_image db = replicate (length (events db)) 0"

theorem death_before_seal_fails_closed_witness:
  "\<exists>K. ledger_step sample_sha sample_length_image (ledger_in sample_sha sample_length_image Absent True)
        (Killed L_prepare) K
     \<and> ledger_open sample_sha sample_length_image K = (Inl (ProtocolError ''ledger seal mismatch''), K)"
proof -
  let ?L = "ledger_in sample_sha sample_length_image Absent True"
  let ?db = "db_in sample_sha Absent"
  have b: "life_body sample_sha L_prepare ?db = Inr (db_in sample_sha Prepared)" by (rule body_in) simp
  have s: "sealed sample_sha sample_length_image ?db (db_file ?L)" "conn ?L" "stored (db_file ?L) = Some ?db"
    by (simp_all add: ledger_in_def sealed_def)
  have "map ev_event (events (db_in sample_sha p)) = history p" for p
    using db_in_at [of sample_sha p] by (simp add: db_at_def)
  from arg_cong [OF this, of length]
  have "length (events (db_in sample_sha p)) = length (history p)" for p by simp
  then have d: "sample_sha (sample_length_image (db_in sample_sha Prepared)) \<noteq> sample_sha (sample_length_image ?db)"
    by (simp add: sample_sha_def sample_length_image_def)
  note k = ledger_step.kill [OF s(2,3) b]
  show ?thesis using death_before_seal_fails_closed [OF s(1) b d k] k by blast
qed

text \<open>
  C8. When the seal cannot be written after a commit, the method raises sqlite's complaint that no
  transaction is active to roll back, although its change is durable.
\<close>

theorem unwritable_seal_keeps_commit:
  assumes "conn L" and "stored (db_file L) = Some db" and "life_body sha x db = Inr db'"
    and "\<not> writable (db_file L)"
  shows "\<exists>L'. transaction sha im (life_body sha x) L =
      (Inl (OperationalError ''cannot rollback - no transaction is active''), L')
    \<and> stored (db_file L') = Some db' \<and> sidecar (db_file L') = sidecar (db_file L)"
  using assms by (simp add: transaction_eq committed_def no_transaction_def)

theorem unwritable_seal_keeps_commit_witness:
  "\<exists>L L'. transaction sample_sha sample_image (consume_body sample_sha) L =
      (Inl (OperationalError ''cannot rollback - no transaction is active''), L')
    \<and> stored (db_file L') = Some (db_in sample_sha Consumed)"
proof -
  let ?L = "(ledger_in sample_sha sample_image Prepared True)\<lparr>db_file :=
      (db_file (ledger_in sample_sha sample_image Prepared True))\<lparr>writable := False\<rparr>\<rparr>"
  have "conn ?L" "stored (db_file ?L) = Some (db_in sample_sha Prepared)" "\<not> writable (db_file ?L)"
    by (simp_all add: ledger_in_def)
  from unwritable_seal_keeps_commit [OF this(1,2) body_in this(3), of L_consume Consumed sample_image]
  show ?thesis by auto
qed

text \<open>
  C9. On an open ledger in a phase, a call that the life cycle does not allow raises its own error
  and changes nothing: a second prepare the uniqueness of the key, a consume that the attempt is not
  uniquely prepared, a result that nothing is consumed, a terminal that there is no durable result.
\<close>

theorem call_out_of_turn_refused:
  assumes "conn L" and "stored (db_file L) = Some db" and "db_at sha p db" and "life_step p x = None"
  shows "transaction sha im (life_body sha x) L = (Inl (refusal x), L)"
  using assms body_refused [OF assms(3,4)] by (simp add: transaction_eq)

theorem call_out_of_turn_refused_witness:
  "ledger_consume sample_sha sample_image (ledger_in sample_sha sample_image Consumed True)
     = (Inl (ProtocolError ''attempt is not uniquely prepared''), ledger_in sample_sha sample_image Consumed True)"
proof -
  let ?L = "ledger_in sample_sha sample_image Consumed True"
  have "conn ?L" "stored (db_file ?L) = Some (db_in sample_sha Consumed)" by (simp_all add: ledger_in_def)
  from call_out_of_turn_refused [OF this db_in_at, of L_consume sample_image]
  show ?thesis by (simp add: ledger_consume_def)
qed

text \<open>
  C10. While the directory takes the seal, any sequence of ledger method calls, with the errors they
  raise, leaves an open ledger whose file is exactly as sealed; the constructor would accept it.
\<close>

theorem ledger_calls_keep_seal:
  assumes "ledger_ok sha im L" and "writable (db_file L)"
    and "act_seq (map (\<lambda>x. transaction sha im (life_body sha x)) xs) L = (r, L')"
  shows "ledger_ok sha im L' \<and> ledger_open sha im L' = (Inr (), L')"
proof -
  have ok: "ledger_ok sha im L'" using ledger_service.seq_intact [OF assms] by blast
  then obtain db where "sealed sha im db (db_file L')" "conn L'" by (auto simp: ledger_ok_def)
  with sealed_then_open have "ledger_open sha im L' = (Inr (), L'\<lparr>conn := True\<rparr>)" by blast
  then show ?thesis using ok \<open>conn L'\<close> by simp
qed

theorem ledger_calls_keep_seal_witness:
  "\<exists>r L'. act_seq (map (\<lambda>x. transaction sample_sha sample_image (life_body sample_sha x)) [L_consume, L_prepare])
      (ledger_in sample_sha sample_image Absent True) = (r, L') \<and> ledger_ok sample_sha sample_image L'"
proof -
  let ?L = "ledger_in sample_sha sample_image Absent True"
  have "ledger_ok sample_sha sample_image ?L" "writable (db_file ?L)"
    by (auto simp: ledger_ok_def ledger_in_def sealed_def)
  then show ?thesis using ledger_calls_keep_seal [of sample_sha sample_image ?L] by (metis surj_pair)
qed

section \<open>The wire\<close>

text \<open>
  C11. What \<open>parse_receipt\<close> accepts, exactly: the one core that carries the magic, the version, the
  expected status, the generation, the attempt and the expected digest, followed by a 64-byte
  signature that verifies on that core.
\<close>

theorem parse_receipt_accepts:
  assumes "length digest = 32" and "status < 256"
  shows "parse_receipt ver raw status digest = Inr () \<longleftrightarrow>
    (\<exists>sig. raw = receipt_core status digest @ sig \<and> length sig = 64
       \<and> ver GUEST_RECEIPT_FIXTURE_PUBLIC_KEY sig (receipt_core status digest))"
  by (rule parse_receipt_iff [OF assms])

theorem parse_receipt_accepts_witness:
  "parse_receipt sample_verify (receipt_core STATUS_PREPARED (replicate 32 7) @ sample_signature)
     STATUS_PREPARED (replicate 32 7) = Inr ()"
proof -
  have h: "length (replicate 32 7 :: bytes) = 32" "STATUS_PREPARED < 256" by (simp_all add: STATUS_PREPARED_def)
  have "length sample_signature = 64" "sample_verify k sample_signature m" for k m
    by (simp_all add: sample_signature_def sample_verify_def)
  then show ?thesis unfolding parse_receipt_accepts [OF h] by blast
qed

text \<open>
  C12. What \<open>signed_frame\<close> puts on the wire decodes field by field: the big-endian prefix is the length of
  what follows, within the frame bound; the magic, version, kind, generation, attempt, lease epoch, context,
  key id and payload length stand at their offsets with the values the broker was given; then come the
  payload and, to the end of the frame, the 64-byte signature of exactly the header and the payload, which
  verifies with the broker's key.  The digest returned is that of the frame without the prefix.
\<close>

theorem signed_frame_layout:
  assumes "signed_frame sha sig kind payload = Inr (wire, d)"
    and "\<And>m. length (sig TEST_ONLY_PRIVATE_SEED m) = 64" and "\<And>m. ver key (sig TEST_ONLY_PRIVATE_SEED m) m"
  shows "un_be (take 2 wire) = length (drop 2 wire) \<and> length (drop 2 wire) = 144 + length payload
    \<and> length (drop 2 wire) \<le> MAX_FRAME \<and> length payload \<le> 128 \<and> kind \<in> {KIND_PREPARE, KIND_EXECUTE}
    \<and> slice 0 8 (drop 2 wire) = MAGIC \<and> un_be (slice 8 1 (drop 2 wire)) = VERSION \<and> un_be (slice 9 1 (drop 2 wire)) = kind
    \<and> int (un_be (slice 10 4 (drop 2 wire))) = GENERATION \<and> int (un_be (slice 14 8 (drop 2 wire))) = ATTEMPT
    \<and> un_be (slice 22 8 (drop 2 wire)) = LEASE_EPOCH \<and> slice 30 32 (drop 2 wire) = pack_s 32 (CONTEXT sha)
    \<and> slice 62 16 (drop 2 wire) = KEY_ID \<and> un_be (slice 78 2 (drop 2 wire)) = length payload
    \<and> slice 80 (length payload) (drop 2 wire) = payload
    \<and> drop (80 + length payload) (drop 2 wire) = sig TEST_ONLY_PRIVATE_SEED (take (80 + length payload) (drop 2 wire))
    \<and> ver key (drop (80 + length payload) (drop 2 wire)) (take (80 + length payload) (drop 2 wire))
    \<and> d = sha (drop 2 wire)"
proof -
  obtain body raw where r: "raw = body @ sig TEST_ONLY_PRIVATE_SEED body" "body = frame_header sha kind (length payload) @ payload"
      "wire = be 2 (length raw) @ raw" "un_be (take 2 wire) = length raw" "d = sha raw" "length raw = 144 + length payload"
      "length raw \<le> MAX_FRAME" "kind \<in> {KIND_PREPARE, KIND_EXECUTE}" "length payload \<le> 128"
    using signed_frame_wire [OF assms(1,2)] by blast
  have w: "drop 2 wire = raw" unfolding r(3) by simp
  have body: "length body = 80 + length payload" unfolding r(2) by simp
  have k: "kind < 256" "length payload < 65536" using r(8,9) by (auto simp: KIND_PREPARE_def KIND_EXECUTE_def)
  have raw: "raw = frame_header sha kind (length payload) @ payload @ sig TEST_ONLY_PRIVATE_SEED body" by (simp add: r(1,2))
  have f: "slice i n raw = slice i n (frame_header sha kind (length payload))" if "i + n \<le> 80" for i n
    unfolding raw by (rule slice_frame [OF that])
  have "slice 80 (length payload) raw = payload" unfolding raw by (simp add: slice_def)
  moreover have "drop (80 + length payload) raw = sig TEST_ONLY_PRIVATE_SEED body" "take (80 + length payload) raw = body"
    using body unfolding r(1) by simp_all
  ultimately show ?thesis
    unfolding w using r(4-9) assms(3) f frame_header_fields [OF k, of sha] by simp
qed

theorem signed_frame_layout_witness:
  "\<exists>wire d. signed_frame sample_sha sample_sign KIND_PREPARE PREPARE_PAYLOAD = Inr (wire, d)
     \<and> un_be (take 2 wire) = 159 \<and> slice 80 15 (drop 2 wire) = PREPARE_PAYLOAD
     \<and> sample_verify [] (drop 95 (drop 2 wire)) (take 95 (drop 2 wire))"
proof -
  obtain pw pd where f: "signed_frame sample_sha sample_sign KIND_PREPARE PREPARE_PAYLOAD = Inr (pw, pd)"
    using sample_frames by blast
  have l: "length PREPARE_PAYLOAD = 15" by (simp add: PREPARE_PAYLOAD_def)
  have "length (sample_sign TEST_ONLY_PRIVATE_SEED m) = 64" "sample_verify [] (sample_sign TEST_ONLY_PRIVATE_SEED m) m" for m
    by (simp_all add: sample_sign_def sample_verify_def)
  note layout = signed_frame_layout [where ver = sample_verify and key = "[]", OF f this, unfolded l]
  have "sample_verify [] (drop 95 (drop 2 pw)) (take 95 (drop 2 pw))"
    using layout by (simp add: sample_verify_def sample_sign_def)
  moreover have "un_be (take 2 pw) = 159" "slice 80 15 (drop 2 pw) = PREPARE_PAYLOAD" using layout by simp_all
  ultimately show ?thesis using f by blast
qed

text \<open>
  C13. \<open>recv_exact\<close> returns the next n bytes of the stream however the kernel cuts it into pieces,
  and raises the truncation error if the peer closes before.
\<close>

theorem recv_exact_any_chunking:
  assumes "all_data ch"
  shows "if n \<le> length (content ch)
    then \<exists>ch'. recv_exact n ch = (Inr (take n (content ch)), ch') \<and> content ch' = drop n (content ch)
    else \<exists>ch'. recv_exact n ch = (Inl (ProtocolError ''transport truncation''), ch')"
  using recv_exact_data [OF assms, of n] recv_exact_short [OF assms, of n] by (auto simp: not_le)

theorem recv_exact_any_chunking_witness:
  "\<exists>ch'. recv_exact 3 [Arrive [1, 2], Arrive [3, 4]] = (Inr [1, 2, 3], ch') \<and> content ch' = [4]"
  using recv_exact_any_chunking [of "[Arrive [1, 2], Arrive [3, 4]]" 3] by simp

text \<open>
  C14. \<open>json.loads(canonical_json(v))\<close> is \<open>v\<close> with the members of its objects in key order.
\<close>

theorem canonical_json_round_trip:
  assumes "wf_json v"
  shows "json_loads_bytes (canonical_json v) = Inr (sort_members v)"
  by (rule json_loads_canonical [OF assms])

theorem canonical_json_round_trip_witness:
  "json_loads_bytes (canonical_json (JObj [(''b'', JInt (- 7)), (''a'', JStr ''x'')]))
     = Inr (JObj [(''a'', JStr ''x''), (''b'', JInt (- 7))])"
  using canonical_json_round_trip [of "JObj [(''b'', JInt (- 7)), (''a'', JStr ''x'')]"] by simp

text \<open>
  The accept loop returns exactly when, before its deadline and before the process has exited,
  a turn accepts a connection; in every other case it ends with an error.
\<close>

theorem accept_loop_outcome:
  "accept_qemu_channel dl ts = Inr () \<longleftrightarrow>
     (\<exists>us t vs. ts = us @ t # vs \<and> accepted t \<and> now t < dl \<and> exited t = None
        \<and> list_all (\<lambda>u. now u < dl \<and> exited u = None) us)"
  unfolding list_all_iff by (rule accept_outcome)

end
