(* ===== verification/S6_Runs.thy ===== *)
theory S6_Runs
  imports Run_Dir
begin

text \<open>
  The mechanisms of \<open>experiments/s6/experiment.py\<close> over the append-only sink: as in the first
  campaign, but an effect can be neither deduplicated nor queried, and the fault cases separate what
  happens before the effect from what happens after it.
\<close>

definition MECHANISMS6 :: "string list" where
  "MECHANISMS6 = [''B0_DIRECT'', ''B1_AUTH_STATELESS'', ''B2_AT_LEAST_ONCE'',
     ''B3_IDEMPOTENT_UNAVAILABLE'', ''OASI'']"

definition CASES6 :: "string list" where
  "CASES6 = [''nominal'', ''replay'', ''cross_generation'', ''altered_signature'', ''crash_prepared'',
     ''crash_consumed_before_effect'', ''disconnect_before_effect'', ''disconnect_after_effect'',
     ''ack_lost_after_effect'', ''torn_write_after_effect'']"

definition PRIMARY_AMBIGUOUS_POST_EFFECT_CASES :: "string list" where
  "PRIMARY_AMBIGUOUS_POST_EFFECT_CASES = [''disconnect_after_effect'', ''ack_lost_after_effect'']"

definition PRE_EFFECT_UNCERTAINTY_CASES :: "string list" where
  "PRE_EFFECT_UNCERTAINTY_CASES =
     [''crash_prepared'', ''crash_consumed_before_effect'', ''disconnect_before_effect'']"

type_synonym s6_dir = "append_sink run_dir"

definition s6_apply :: "(s6_dir, unit) act" where
  "s6_apply = on_sink (append_sink_apply ''NOOP'')"

section \<open>B0 and B1\<close>

definition s6_dispatch ::
  "(bytes \<Rightarrow> bytes \<Rightarrow> bytes \<Rightarrow> bool) \<Rightarrow> bool \<Rightarrow> frame \<Rightarrow> int \<Rightarrow> string \<Rightarrow> (s6_dir, unit) act" where
  "s6_dispatch ver authenticated candidate expected_generation context =
     act_then (if authenticated then of_result (verify_frame ver candidate expected_generation context 1)
               else act_return ())
       s6_apply"

definition s6_run_stateless ::
  "(bytes \<Rightarrow> bytes \<Rightarrow> bytes \<Rightarrow> bool) \<Rightarrow> string \<Rightarrow> string \<Rightarrow> frame \<Rightarrow> int \<Rightarrow> string \<Rightarrow> (s6_dir, outcome) act" where
  "s6_run_stateless ver mechanism c frame generation context =
     (let dispatch = (\<lambda>f g. s6_dispatch ver (mechanism = ''B1_AUTH_STATELESS'') f g context);
          result = base_outcome
      in if c = ''nominal'' then act_then (dispatch frame generation) (act_return result)
         else if c = ''replay'' then
           act_then (dispatch frame generation) (act_then (dispatch frame generation)
             (act_return (result\<lparr>replay_accepted := True\<rparr>)))
         else if c = ''cross_generation'' then
           act_try (act_then (dispatch frame (generation + 1))
               (act_return (result\<lparr>cross_generation_accepted := True\<rparr>)))
             is_AuthReject (\<lambda>_. act_return (result\<lparr>disposition := ''REJECTED_BINDING''\<rparr>))
         else if c = ''altered_signature'' then
           act_try (act_bind (of_result (mutate_signature frame)) (\<lambda>f. act_then (dispatch f generation)
               (act_return (result\<lparr>altered_signature_accepted := True\<rparr>))))
             is_AuthReject (\<lambda>_. act_return (result\<lparr>disposition := ''REJECTED_SIGNATURE''\<rparr>))
         else if c \<in> set PRE_EFFECT_UNCERTAINTY_CASES then
           act_then (dispatch frame generation)
             (act_return (result\<lparr>disposition := ''RECOVERED_BY_REDISPATCH''\<rparr>))
         else if c \<in> {''disconnect_after_effect'', ''ack_lost_after_effect'', ''torn_write_after_effect''} then
           act_then (dispatch frame generation) (act_then (dispatch frame generation)
             (act_return (result\<lparr>disposition := ''AMBIGUOUS_RECOVERED_BY_REDISPATCH''\<rparr>)))
         else act_raise (ExperimentError ''unknown case''))"

section \<open>B2 and B3-unavailable\<close>

definition s6_run_coordinated ::
  "(bytes \<Rightarrow> bytes) \<Rightarrow> (jobs \<Rightarrow> bytes) \<Rightarrow> (bytes \<Rightarrow> bytes \<Rightarrow> bytes \<Rightarrow> bool) \<Rightarrow> string \<Rightarrow> frame
    \<Rightarrow> int \<Rightarrow> string \<Rightarrow> string \<Rightarrow> (s6_dir, outcome) act" where
  "s6_run_coordinated sha imc ver c frame generation context key =
     (let result = base_outcome;
          open_store = on_store (store_open sha imc);
          put = s6_apply;
          store_done = on_store (store_result sha imc key)
      in if c = ''cross_generation'' then reject_cross ver frame generation context
         else if c = ''altered_signature'' then reject_altered ver frame generation context
         else act_then (of_result (verify_frame ver frame generation context 1))
           (act_then open_store (act_then (on_store (store_prepare sha imc key))
           (if c \<in> set PRE_EFFECT_UNCERTAINTY_CASES then
              act_then open_store (act_then put (act_then store_done
                (act_return (result\<lparr>disposition := ''RECOVERED_FROM_READY''\<rparr>))))
            else if c \<in> set PRIMARY_AMBIGUOUS_POST_EFFECT_CASES then
              act_then put (act_then open_store (act_then put (act_then store_done
                (act_return (result\<lparr>disposition := ''AMBIGUOUS_RECOVERED_FROM_READY''\<rparr>)))))
            else if c = ''torn_write_after_effect'' then
              act_then put (act_then (on_store store_corrupt)
                (act_then (expect_torn open_store (ExperimentError ''torn coordinator accepted'')
                    is_ExperimentError)
                  (act_return (result\<lparr>disposition := ''BLOCKED_TORN_COORDINATOR''\<rparr>))))
            else
              act_then put (act_then store_done
                (if c = ''replay'' then
                   act_then open_store (act_bind (on_store (store_state sha imc key)) (\<lambda>s.
                     if s \<noteq> ''RESULT'' then act_raise (ExperimentError ''lost result'')
                     else act_return (result\<lparr>disposition := ''REPLAY_REJECTED_RESULT_EXISTS''\<rparr>)))
                 else act_return result))))))"

section \<open>OASI\<close>

definition s6_oasi_steps ::
  "(bytes \<Rightarrow> bytes) \<Rightarrow> (ledger_db \<Rightarrow> bytes) \<Rightarrow> string \<Rightarrow> (s6_dir, outcome) act" where
  "s6_oasi_steps sha iml c =
     (let result = base_outcome;
          reopen = act_then (in_ledger ledger_close) (in_ledger (ledger_open sha iml));
          consume = in_ledger (ledger_consume sha iml);
          put = s6_apply
      in act_then (in_ledger (ledger_prepare sha iml))
        (if c = ''crash_prepared'' then
           act_then reopen (act_then (expect_recovery sha ''ABORT_WITHOUT_EFFECT'' ''prepared recovery drift'')
             (act_return (result\<lparr>disposition := ''ABORT_WITHOUT_EFFECT''\<rparr>)))
         else if c \<in> {''crash_consumed_before_effect'', ''disconnect_before_effect''} then
           act_then consume (act_then reopen
             (act_then (expect_recovery sha ''BLOCK_NO_REDISPATCH'' ''pre-effect ambiguity recovery drift'')
               (act_return (result\<lparr>disposition := ''BLOCK_NO_REDISPATCH_DELIVERY_LOST''\<rparr>))))
         else if c \<in> set PRIMARY_AMBIGUOUS_POST_EFFECT_CASES then
           act_then consume (act_then put (act_then reopen
             (act_then (expect_recovery sha ''BLOCK_NO_REDISPATCH'' ''post-effect ambiguity recovery drift'')
               (act_return (result\<lparr>disposition := ''BLOCK_NO_REDISPATCH''\<rparr>)))))
         else if c = ''torn_write_after_effect'' then
           act_then consume (act_then put (act_then (in_ledger ledger_close) (act_then append_torn
             (act_then (expect_torn (in_ledger (ledger_open sha iml))
                 (ExperimentError ''torn OASI ledger accepted'') is_ProtocolError)
               (act_return (result\<lparr>disposition := ''BLOCKED_TORN_LEDGER''\<rparr>))))))
         else
           act_then consume (act_then put
             (act_then (in_ledger (ledger_record_result sha iml (sha_hex sha (ascii ''NOOP''))))
             (act_then (in_ledger (ledger_terminal sha iml))
               (if c = ''replay'' then
                  act_try (act_then consume (act_return (result\<lparr>replay_accepted := True\<rparr>)))
                    is_ProtocolError
                    (\<lambda>_. act_return (result\<lparr>disposition := ''REPLAY_REJECTED_TERMINAL''\<rparr>))
                else act_return result))))))"

definition s6_run_oasi ::
  "(bytes \<Rightarrow> bytes) \<Rightarrow> (ledger_db \<Rightarrow> bytes) \<Rightarrow> (bytes \<Rightarrow> bytes \<Rightarrow> bytes \<Rightarrow> bool) \<Rightarrow> string \<Rightarrow> frame
    \<Rightarrow> int \<Rightarrow> string \<Rightarrow> (s6_dir, outcome) act" where
  "s6_run_oasi sha iml ver c frame generation context =
     (if c = ''cross_generation'' then reject_cross ver frame generation context
      else if c = ''altered_signature'' then reject_altered ver frame generation context
      else act_then (of_result (verify_frame ver frame generation context 1))
        (act_then (in_ledger (ledger_open sha iml))
          (act_finally (s6_oasi_steps sha iml c) close_ledger)))"

definition s6_run ::
  "(bytes \<Rightarrow> bytes) \<Rightarrow> (ledger_db \<Rightarrow> bytes) \<Rightarrow> (jobs \<Rightarrow> bytes) \<Rightarrow> (bytes \<Rightarrow> bytes \<Rightarrow> bytes \<Rightarrow> bool)
    \<Rightarrow> string \<Rightarrow> string \<Rightarrow> frame \<Rightarrow> int \<Rightarrow> string \<Rightarrow> string \<Rightarrow> (s6_dir, outcome) act" where
  "s6_run sha iml imc ver mechanism c frame generation context key =
     (if mechanism \<in> {''B0_DIRECT'', ''B1_AUTH_STATELESS''}
      then s6_run_stateless ver mechanism c frame generation context
      else if mechanism \<in> {''B2_AT_LEAST_ONCE'', ''B3_IDEMPOTENT_UNAVAILABLE''}
      then s6_run_coordinated sha imc ver c frame generation context key
      else s6_run_oasi sha iml ver c frame generation context)"

section \<open>What every run does\<close>

definition s6_effects :: "string \<Rightarrow> string \<Rightarrow> nat" where
  "s6_effects m c =
     (let row = (if m = ''B0_DIRECT'' then [1, 2, 1, 1, 1, 1, 1, 2, 2, 2]
                 else if m = ''B1_AUTH_STATELESS'' then [1, 2, 0, 0, 1, 1, 1, 2, 2, 2]
                 else if m \<in> {''B2_AT_LEAST_ONCE'', ''B3_IDEMPOTENT_UNAVAILABLE''}
                 then [1, 1, 0, 0, 1, 1, 1, 2, 2, 1]
                 else [1, 1, 0, 0, 0, 0, 0, 1, 1, 1])
      in the (map_of (zip CASES6 row) c))"

definition s6_disposition :: "string \<Rightarrow> string \<Rightarrow> string" where
  "s6_disposition m c =
     (let redo = ''RECOVERED_BY_REDISPATCH''; again = ''AMBIGUOUS_RECOVERED_BY_REDISPATCH'';
          ready = ''RECOVERED_FROM_READY''; ambiguous = ''AMBIGUOUS_RECOVERED_FROM_READY'';
          block = ''BLOCK_NO_REDISPATCH''; lost = ''BLOCK_NO_REDISPATCH_DELIVERY_LOST'';
          bind = ''REJECTED_BINDING''; sign = ''REJECTED_SIGNATURE''; complete = ''COMPLETE'';
          row = (if m = ''B0_DIRECT''
                 then [complete, complete, complete, complete, redo, redo, redo, again, again, again]
                 else if m = ''B1_AUTH_STATELESS''
                 then [complete, complete, bind, sign, redo, redo, redo, again, again, again]
                 else if m \<in> {''B2_AT_LEAST_ONCE'', ''B3_IDEMPOTENT_UNAVAILABLE''}
                 then [complete, ''REPLAY_REJECTED_RESULT_EXISTS'', bind, sign, ready, ready, ready,
                       ambiguous, ambiguous, ''BLOCKED_TORN_COORDINATOR'']
                 else [complete, ''REPLAY_REJECTED_TERMINAL'', bind, sign, ''ABORT_WITHOUT_EFFECT'',
                       lost, lost, block, block, ''BLOCKED_TORN_LEDGER''])
      in the (map_of (zip CASES6 row) c))"

definition s6_outcome :: "string \<Rightarrow> string \<Rightarrow> outcome" where
  "s6_outcome m c = \<lparr>disposition = s6_disposition m c,
     replay_accepted = (m \<in> {''B0_DIRECT'', ''B1_AUTH_STATELESS''} \<and> c = ''replay''),
     cross_generation_accepted = (m = ''B0_DIRECT'' \<and> c = ''cross_generation''),
     altered_signature_accepted = (m = ''B0_DIRECT'' \<and> c = ''altered_signature'')\<rparr>"

lemma cases6E:
  assumes "c \<in> set CASES6"
  obtains "c = ''nominal''" | "c = ''replay''" | "c = ''cross_generation''" | "c = ''altered_signature''"
    | "c = ''crash_prepared''" | "c = ''crash_consumed_before_effect''" | "c = ''disconnect_before_effect''"
    | "c = ''disconnect_after_effect''" | "c = ''ack_lost_after_effect''" | "c = ''torn_write_after_effect''"
  using assms unfolding CASES6_def list.set insert_iff empty_iff by - (elim disjE FalseE; erule that)

lemma mechanisms6E:
  assumes "m \<in> set MECHANISMS6"
  obtains "m = ''B0_DIRECT''" | "m = ''B1_AUTH_STATELESS''" | "m = ''B2_AT_LEAST_ONCE''"
    | "m = ''B3_IDEMPOTENT_UNAVAILABLE''" | "m = ''OASI''"
  using assms unfolding MECHANISMS6_def list.set insert_iff empty_iff by - (elim disjE FalseE; erule that)

lemmas s6_tables = s6_effects_def s6_outcome_def s6_disposition_def CASES6_def base_outcome_def
  PRIMARY_AMBIGUOUS_POST_EFFECT_CASES_def PRE_EFFECT_UNCERTAINTY_CASES_def

lemmas s6_eval = run_defs new_run_dir_def s6_apply_def append_sink_apply_def new_append_sink_def
  count_for_observer_only_def

lemma s6_stateless_outcome:
  assumes "ed25519_pair sg ver" and "c \<in> set CASES6" and "m \<in> {''B0_DIRECT'', ''B1_AUTH_STATELESS''}"
  shows "\<exists>D. s6_run_stateless ver m c (make_frame sha sg g ctx 1 seed) g ctx (new_run_dir new_append_sink)
      = (Inr (s6_outcome m c), D) \<and> count_for_observer_only (dir_sink D) = s6_effects m c"
proof -
  obtain f where f: "mutate_signature (make_frame sha sg g ctx 1 seed) = Inr f"
      "verify_frame ver f g ctx 1 = Inl (AuthReject ''signature'')"
    using verify_mutated [OF assms(1)] by blast
  note e = s6_run_stateless_def Let_def s6_dispatch_def s6_eval s6_tables f verify_intact [OF assms(1)]
  have "m = ''B0_DIRECT'' \<or> m = ''B1_AUTH_STATELESS''" using assms(3) by (simp only: insert_iff empty_iff simp_thms)
  with assms(2) show ?thesis by (elim cases6E disjE) (simp_all add: e)
qed

lemma s6_coordinated_outcome:
  assumes "fixture sha iml imc sg ver" and "c \<in> set CASES6"
    and "m \<in> {''B2_AT_LEAST_ONCE'', ''B3_IDEMPOTENT_UNAVAILABLE''}"
  shows "\<exists>D. s6_run_coordinated sha imc ver c (make_frame sha sg g ctx 1 seed) g ctx key
        (new_run_dir new_append_sink)
      = (Inr (s6_outcome m c), D) \<and> count_for_observer_only (dir_sink D) = s6_effects m c"
proof -
  note fx = fixtureD(1,3) [OF assms(1)]
  note torn = store_open_corrupt [OF fx(2), unfolded store_corrupt_def snd_conv]
  note e = s6_run_coordinated_def Let_def s6_eval s6_tables verify_intact [OF fx(1)]
    reject_cross_eq [OF fx(1)] reject_altered_eq [OF fx(1)] undisturbed expect_torn_def store_corrupt_def torn
  have "m = ''B2_AT_LEAST_ONCE'' \<or> m = ''B3_IDEMPOTENT_UNAVAILABLE''"
    using assms(3) by (simp only: insert_iff empty_iff simp_thms)
  with assms(2) show ?thesis by (elim cases6E disjE) (simp_all add: e)
qed

lemma s6_oasi_outcome:
  assumes "fixture sha iml imc sg ver" and "c \<in> set CASES6"
  shows "\<exists>D. s6_run_oasi sha iml ver c (make_frame sha sg g ctx 1 seed) g ctx (new_run_dir new_append_sink)
      = (Inr (s6_outcome ''OASI'' c), D) \<and> count_for_observer_only (dir_sink D) = s6_effects ''OASI'' c"
proof -
  note fx = fixtureD(1,2) [OF assms(1)] and d = fixtureD(4) [OF assms(1)]
  note e = s6_run_oasi_def s6_oasi_steps_def Let_def s6_eval s6_tables verify_intact [OF fx(1)]
    reject_cross_eq [OF fx(1)] reject_altered_eq [OF fx(1)] undisturbed expect_torn_def expect_recovery_def
    append_torn_eq ledger_open_torn [OF fx(2)] close_ledger_def d
  from assms(2) show ?thesis by (elim cases6E) (simp_all add: e)
qed

lemma s6_run_outcome:
  assumes "fixture sha iml imc sg ver" and "c \<in> set CASES6" and "m \<in> set MECHANISMS6"
  shows "\<exists>D. s6_run sha iml imc ver m c (make_frame sha sg g ctx 1 seed) g ctx key
        (new_run_dir new_append_sink)
      = (Inr (s6_outcome m c), D) \<and> count_for_observer_only (dir_sink D) = s6_effects m c"
  using assms(3)
  by (elim mechanisms6E)
    (use s6_stateless_outcome [OF fixtureD(1) [OF assms(1)] assms(2), of m sha]
      s6_coordinated_outcome [OF assms(1,2), of m] s6_oasi_outcome [OF assms(1,2)]
     in \<open>simp_all add: s6_run_def\<close>)

lemma adds_s6_apply: "adds_at_most count_for_observer_only 1 s6_apply"
  by (simp add: adds_at_most_def s6_apply_def on_sink_def append_sink_apply_def count_for_observer_only_def)

lemma s6_oasi_adds:
  "adds_at_most count_for_observer_only 1 (s6_run_oasi sha iml ver c f g ctx)"
  unfolding s6_run_oasi_def s6_oasi_steps_def Let_def
  by (simp only: adds_rules adds_quiet_blocks adds_s6_apply)

end
