(* ===== verification/S6_Campaign.thy ===== *)
theory S6_Campaign
  imports S6_Runs Campaign_Base
begin

text \<open>
  The campaign of \<open>experiments/s6/experiment.py\<close>: the record of one run with its validation and the
  declared capabilities of the sink, the aggregate with its two comparisons, and \<open>run_campaign\<close> with the files it leaves in the output directory.
\<close>

definition ROOT_SEED6 :: int where "ROOT_SEED6 = 20260903"
definition WARMUPS6 :: int where "WARMUPS6 = 5"
definition REPETITIONS6 :: int where "REPETITIONS6 = 30"

section \<open>One run\<close>

text \<open>\<open>validate_record(record)\<close>: the list of violations; \<open>int()\<close> of the count may raise.\<close>

definition s6_validate_record :: "(string \<rightharpoonup> pyval) \<Rightarrow> exn + string list" where
  "s6_validate_record d =
     (let flag = (\<lambda>b name. if b then [name] else []);
          mechanism = dict_get d ''mechanism'';
          count = (case d ''effect_count'' of None \<Rightarrow> VInt (- 1) | Some v \<Rightarrow> v)
      in res_bind (py_int count) (\<lambda>n. Inr (
           flag (\<not> list_ex (\<lambda>m. py_eq mechanism (VStr m)) MECHANISMS6) ''mechanism''
           @ flag (\<not> list_ex (\<lambda>c. py_eq (dict_get d ''case'') (VStr c)) CASES6) ''case''
           @ flag (\<not> is_int_instance (dict_get d ''effect_count'')) ''effect_count''
           @ flag (\<not> py_eq (dict_get d ''double_effect'') (VBool (1 < n))) ''double_effect''
           @ flag (\<not> is_false (dict_get d ''real_effect'') \<or> \<not> py_eq (dict_get d ''network_calls'') (VInt 0)) ''scope''
           @ flag (list_ex (\<lambda>k. \<not> is_false (dict_get d k))
               [''sink_idempotency_supported'', ''sink_transaction_supported'', ''sink_query_supported''])
               ''sink-capability-drift''
           @ (if py_eq mechanism (VStr ''OASI'') then
                flag (is_true (dict_get d ''double_effect'')) ''OASI_DOUBLE_EFFECT''
                @ flag (is_true (dict_get d ''replay_accepted'')) ''OASI_REPLAY_ACCEPTED''
                @ flag (is_true (dict_get d ''cross_generation_accepted'')) ''OASI_CROSS_GENERATION_ACCEPTED''
                @ flag (is_true (dict_get d ''altered_signature_accepted'')) ''OASI_ALTERED_SIGNATURE_ACCEPTED''
              else []))))"

definition s6_terminal_dispositions :: "string list" where
  "s6_terminal_dispositions =
     [''COMPLETE'', ''REJECTED_BINDING'', ''REJECTED_SIGNATURE'', ''RECOVERED_BY_REDISPATCH'',
      ''AMBIGUOUS_RECOVERED_BY_REDISPATCH'', ''RECOVERED_FROM_READY'', ''AMBIGUOUS_RECOVERED_FROM_READY'',
      ''BLOCKED_TORN_COORDINATOR'', ''REPLAY_REJECTED_RESULT_EXISTS'', ''REPLAY_REJECTED_TERMINAL'',
      ''ABORT_WITHOUT_EFFECT'', ''BLOCK_NO_REDISPATCH'', ''BLOCK_NO_REDISPATCH_DELIVERY_LOST'',
      ''BLOCKED_TORN_LEDGER'']"

definition effect_expected :: "string \<Rightarrow> bool" where
  "effect_expected c \<longleftrightarrow> c \<notin> {''cross_generation'', ''altered_signature''}"

definition s6_record ::
  "string \<Rightarrow> string \<Rightarrow> int \<Rightarrow> int \<Rightarrow> meters \<Rightarrow> nat \<Rightarrow> outcome \<Rightarrow> (string \<times> pyval) list" where
  "s6_record mechanism c repetition seed mt effect_count oc =
     [(''schema'', VStr ''oasi.s6.run.v1''),
      (''mechanism'', VStr mechanism),
      (''case'', VStr c),
      (''repetition'', VInt repetition),
      (''seed'', VInt seed),
      (''sink_profile'', VStr ''NON_COOPERATIVE_APPEND_ONLY_V1''),
      (''sink_idempotency_supported'', VBool False),
      (''sink_transaction_supported'', VBool False),
      (''sink_query_supported'', VBool False),
      (''b3_idempotency_request_honored'', VBool False),
      (''effect_count'', VInt (int effect_count)),
      (''effect_expected'', VBool (effect_expected c)),
      (''double_effect'', VBool (1 < effect_count)),
      (''delivered_exactly_once'', VBool (effect_count = 1)),
      (''delivery_lost'', VBool (effect_expected c \<and> effect_count = 0)),
      (''ambiguous_post_effect'', VBool (c \<in> set PRIMARY_AMBIGUOUS_POST_EFFECT_CASES)),
      (''pre_effect_uncertainty'', VBool (c \<in> set PRE_EFFECT_UNCERTAINTY_CASES)),
      (''deterministic_terminal'', VBool (disposition oc \<in> set s6_terminal_dispositions)),
      (''wall_ns'', VInt (wall_ns mt)),
      (''cpu_ns'', VInt (cpu_ns mt)),
      (''python_heap_peak_bytes'', VInt (heap_peak mt)),
      (''rss_delta_bytes'', VInt (rss_after mt - rss_before mt)),
      (''artifact_bytes'', VInt (artifact_bytes mt)),
      (''network_calls'', VInt 0),
      (''real_effect'', VBool False),
      (''disposition'', VStr (disposition oc)),
      (''replay_accepted'', VBool (replay_accepted oc)),
      (''cross_generation_accepted'', VBool (cross_generation_accepted oc)),
      (''altered_signature_accepted'', VBool (altered_signature_accepted oc))]"

definition s6_context :: "(bytes \<Rightarrow> bytes) \<Rightarrow> string \<Rightarrow> int \<Rightarrow> string" where
  "s6_context sha c repetition = sha_hex sha (ascii (''OASI:S6:'' @ c @ '':'' @ str_int repetition))"

definition s6_run_one ::
  "(bytes \<Rightarrow> bytes) \<Rightarrow> (ledger_db \<Rightarrow> bytes) \<Rightarrow> (jobs \<Rightarrow> bytes) \<Rightarrow> (bytes \<Rightarrow> bytes \<Rightarrow> bytes)
    \<Rightarrow> (bytes \<Rightarrow> bytes \<Rightarrow> bytes \<Rightarrow> bool) \<Rightarrow> meters \<Rightarrow> string \<Rightarrow> string \<Rightarrow> int \<Rightarrow> int
    \<Rightarrow> exn + (string \<times> pyval) list" where
  "s6_run_one sha iml imc sg ver mt mechanism c repetition seed =
     (let generation = 200000 + seed;
          context = s6_context sha c repetition;
          key = str_int generation @ '':'' @ context @ '':1'';
          frame = make_frame sha sg generation context 1 seed
      in case s6_run sha iml imc ver mechanism c frame generation context key (new_run_dir new_append_sink) of
           (Inl e, D) \<Rightarrow> Inl e
         | (Inr oc, D) \<Rightarrow>
             let record = s6_record mechanism c repetition seed mt (count_for_observer_only (dir_sink D)) oc
             in res_bind (s6_validate_record (map_of record)) (\<lambda>errors.
                  if errors \<noteq> [] then Inl (ExperimentError (''record violation: '' @ py_join '','' errors))
                  else Inr record))"

section \<open>The aggregate\<close>

definition s6_cell ::
  "floats \<Rightarrow> (int list \<Rightarrow> rat \<Rightarrow> exn + int) \<Rightarrow> (rat \<Rightarrow> rat) \<Rightarrow> row list \<Rightarrow> exn + (string \<times> pyval) list" where
  "s6_cell F nearest_rank sqroot rows =
     res_bind (res_map_list (index_int ''wall_ns'') rows) (\<lambda>walls.
     res_bind (res_map_list (index_int ''cpu_ns'') rows) (\<lambda>cpus.
     res_bind (res_count (index_true ''double_effect'') rows) (\<lambda>doubles.
     res_bind (res_count (index_true ''delivered_exactly_once'') rows) (\<lambda>exact.
     res_bind (res_count (index_true ''delivery_lost'') rows) (\<lambda>lost.
     let n = int (length rows); accepted = (\<lambda>k. res_map VInt (res_count (index_true k) rows)) in
     res_members
      [(''runs'', Inr (VInt n)),
       (''double_effects'', Inr (VInt doubles)),
       (''double_effect_rate'', rate F doubles n),
       (''double_effect_wilson95'', wilson F sqroot doubles n),
       (''delivered_exactly_once'', Inr (VInt exact)),
       (''delivery_rate'', rate F exact n),
       (''delivery_wilson95'', wilson F sqroot exact n),
       (''delivery_lost'', Inr (VInt lost)),
       (''delivery_lost_rate'', rate F lost n),
       (''delivery_lost_wilson95'', wilson F sqroot lost n),
       (''replay_accepted'', accepted ''replay_accepted''),
       (''cross_generation_accepted'', accepted ''cross_generation_accepted''),
       (''altered_signature_accepted'', accepted ''altered_signature_accepted''),
       (''wall_ns_mean'', mean3 F walls),
       (''wall_ns_p50'', res_map VInt (nearest_rank walls (1 / 2))),
       (''wall_ns_p95'', res_map VInt (nearest_rank walls (95 / 100))),
       (''wall_ns_p99'', res_map VInt (nearest_rank walls (99 / 100))),
       (''cpu_ns_mean'', mean3 F cpus),
       (''heap_peak_bytes_max'',
          res_bind (res_map_list (index_int ''python_heap_peak_bytes'') rows) py_max),
       (''rss_delta_bytes_max'', res_bind (res_map_list (index_int ''rss_delta_bytes'') rows) py_max),
       (''artifact_bytes_mean'',
          res_bind (res_map_list (index_int ''artifact_bytes'') rows) (mean3 F))])))))"

text \<open>\<open>[r for r in records if r["mechanism"] == mechanism and r["case"] in cases]\<close>\<close>

definition rows_in :: "string \<Rightarrow> string list \<Rightarrow> row list \<Rightarrow> exn + row list" where
  "rows_in mechanism cases = res_filter
     (\<lambda>r. res_and (index_eq ''mechanism'' (VStr mechanism) r)
        (res_map (\<lambda>v. list_ex (\<lambda>c. py_eq v (VStr c)) cases) (row_index r ''case'')))"

definition s6_comparison :: "row list \<Rightarrow> exn + (string \<times> pyval) list" where
  "s6_comparison records =
     (let primary = PRIMARY_AMBIGUOUS_POST_EFFECT_CASES; pre = PRE_EFFECT_UNCERTAINTY_CASES in
     res_bind (rows_in ''B3_IDEMPOTENT_UNAVAILABLE'' primary records) (\<lambda>b3_primary.
     res_bind (rows_in ''OASI'' primary records) (\<lambda>oasi_primary.
     res_bind (rows_in ''B3_IDEMPOTENT_UNAVAILABLE'' pre records) (\<lambda>b3_pre.
     res_bind (rows_in ''OASI'' pre records) (\<lambda>oasi_pre.
     res_bind (res_count (index_true ''double_effect'') b3_primary) (\<lambda>b3_primary_double.
     res_bind (res_count (index_true ''double_effect'') oasi_primary) (\<lambda>oasi_primary_double.
     res_bind (res_count (index_true ''delivery_lost'') b3_pre) (\<lambda>b3_pre_loss.
     res_bind (res_count (index_true ''delivery_lost'') oasi_pre) (\<lambda>oasi_pre_loss.
     let safety_advantage = (oasi_primary_double = 0 \<and> 0 < b3_primary_double);
         availability_tradeoff = (b3_pre_loss < oasi_pre_loss) in
     Inr [(''primary_comparison_to_b3'', VDict
             [(''scope'', VList (map VStr primary)),
              (''b3_double_effects'', VInt b3_primary_double),
              (''oasi_double_effects'', VInt oasi_primary_double),
              (''b3_runs'', VInt (int (length b3_primary))),
              (''oasi_runs'', VInt (int (length oasi_primary))),
              (''bounded_safety_advantage_established'', VBool safety_advantage)]),
          (''availability_tradeoff'', VDict
             [(''scope'', VList (map VStr pre)),
              (''b3_delivery_losses'', VInt b3_pre_loss),
              (''oasi_delivery_losses'', VInt oasi_pre_loss),
              (''tradeoff_observed'', VBool availability_tradeoff)]),
          (''conclusion'', VStr (if safety_advantage \<and> availability_tradeoff
             then ''BOUNDED_SAFETY_ADVANTAGE_ESTABLISHED_NON_COOPERATIVE_FIXTURE_WITH_AVAILABILITY_TRADEOFF''
             else ''S6_HYPOTHESIS_NOT_ESTABLISHED''))])))))))))"

definition s6_aggregate :: "floats \<Rightarrow> row list \<Rightarrow> exn + (string \<times> pyval) list" where
  "s6_aggregate F records =
     res_bind (res_map_list (\<lambda>(m, c). res_bind (cell_rows m c records) (\<lambda>rows.
         res_map (\<lambda>cell. (m @ ''|'' @ c, VDict cell)) (s6_cell F (nearest_rank_ceil F) (fsqrt F) rows)))
       (List.product MECHANISMS6 CASES6)) (\<lambda>cells.
     res_map (\<lambda>comparison. (''cells'', VDict cells) # comparison) (s6_comparison records))"

section \<open>The campaign\<close>

definition s6_run_in :: "world \<Rightarrow> string \<Rightarrow> string \<Rightarrow> int \<Rightarrow> int \<Rightarrow> exn + (string \<times> pyval) list" where
  "s6_run_in W mechanism c repetition seed =
     s6_run_one (w_sha W) (w_iml W) (w_imc W) (w_sign W) (w_verify W) (w_meters W mechanism c repetition)
       mechanism c repetition seed"

definition s6_warmup :: "world \<Rightarrow> nat \<Rightarrow> string \<Rightarrow> string \<times> int \<Rightarrow> (campaign, unit) act" where
  "s6_warmup W i c x C = (case x of (mechanism, warmup) \<Rightarrow>
     (case s6_run_in W mechanism c (- warmup) (ROOT_SEED6 + int i * 1000 + 900 + warmup) of
        Inl e \<Rightarrow> (Inl e, C)
      | Inr _ \<Rightarrow> (Inr (), C\<lparr>warmups_done := warmups_done C + 1\<rparr>)))"

definition s6_measured :: "world \<Rightarrow> nat \<Rightarrow> string \<Rightarrow> int \<times> string \<Rightarrow> (campaign, unit) act" where
  "s6_measured W i c x C = (case x of (repetition, mechanism) \<Rightarrow>
     (case s6_run_in W mechanism c repetition (ROOT_SEED6 + int i * 1000 + repetition) of
        Inl e \<Rightarrow> (Inl e, C)
      | Inr record \<Rightarrow> write_line record (C\<lparr>recorded := recorded C @ [record]\<rparr>)))"

definition s6_order :: "world \<Rightarrow> string \<Rightarrow> int \<Rightarrow> string list" where
  "s6_order W c repetition =
     w_shuffle W (str_int ROOT_SEED6 @ '':'' @ c @ '':'' @ str_int repetition) MECHANISMS6"

definition s6_checkpoint :: "nat \<Rightarrow> (campaign, unit) act" where
  "s6_checkpoint i C = (Inr (), C\<lparr>out := (out C)\<lparr>checkpoint := Some (VDict
     [(''schema'', VStr ''oasi.s6.campaign-checkpoint.v1''),
      (''completed_cases'', VList (map VStr (take (i + 1) CASES6))),
      (''measured_runs'', VInt (int (length (recorded C)))),
      (''warmups_done'', VInt (warmups_done C))])\<rparr>\<rparr>)"

definition s6_case :: "world \<Rightarrow> nat \<times> string \<Rightarrow> (campaign, unit) act" where
  "s6_case W x = (case x of (i, c) \<Rightarrow>
     act_seq (map (s6_warmup W i c) (List.product MECHANISMS6 [1..WARMUPS6])
       @ map (s6_measured W i c) (concat (map (\<lambda>r. map (Pair r) (s6_order W c r)) [1..REPETITIONS6]))
       @ [s6_checkpoint i]))"

definition s6_summary :: "world \<Rightarrow> campaign \<Rightarrow> string list \<Rightarrow> exn + pyval" where
  "s6_summary W C lines = res_map (\<lambda>agg. VDict (
     [(''schema'', VStr ''oasi.s6.scientific-local-summary.v1''),
      (''mechanisms'', VList (map VStr MECHANISMS6)),
      (''cases'', VList (map VStr CASES6)),
      (''warmups_per_cell'', VInt WARMUPS6),
      (''repetitions_per_cell'', VInt REPETITIONS6),
      (''measured_runs'', VInt (int (length (recorded C)))),
      (''raw_sha256'', VStr (sha_hex (w_sha W) (raw_bytes lines))),
      (''local_only'', VBool True),
      (''fixture_only'', VBool True),
      (''network_calls'', VInt 0),
      (''real_effect'', VBool False),
      (''guest_or_qemu_measured'', VBool False),
      (''production_claim'', VBool False)] @ agg))
     (s6_aggregate (w_floats W) (map (\<lambda>m. Row (map_of m)) (recorded C)))"

definition s6_finish :: "world \<Rightarrow> (campaign, unit) act" where
  "s6_finish W C = (case raw_partial (out C) of
     None \<Rightarrow> (Inl (OSError ''no such file''), C)
   | Some lines \<Rightarrow>
       let C' = C\<lparr>out := (out C)\<lparr>raw_partial := None, raw_runs := Some lines\<rparr>\<rparr> in
       (case s6_summary W C' lines of
          Inl e \<Rightarrow> (Inl e, C')
        | Inr s \<Rightarrow> (Inr (), C'\<lparr>out := (out C')\<lparr>summary_file := Some s\<rparr>\<rparr>)))"

text \<open>\<open>run_campaign\<close>: an existing output or scratch directory is refused before anything is written.\<close>

definition s6_run_campaign :: "world \<Rightarrow> bool \<Rightarrow> string \<Rightarrow> results \<Rightarrow> (exn + unit) \<times> campaign" where
  "s6_run_campaign W scratch_exists preregistration R =
     (if output_exists R \<or> scratch_exists
      then (Inl (ExperimentError ''refusing replay or stale scratch''),
            \<lparr>out = R, recorded = [], warmups_done = 0\<rparr>)
      else act_seq (map (s6_case W) (enumerate 0 CASES6) @ [s6_finish W])
             \<lparr>out = no_results\<lparr>output_exists := True, locked := Some preregistration, raw_partial := Some []\<rparr>,
              recorded = [], warmups_done = 0\<rparr>)"

end
