(* ===== verification/S6_Campaign_Props.thy ===== *)
theory S6_Campaign_Props
  imports S6_Campaign
begin

text \<open>
  The second campaign computed: every run ends with the record that its table predicts, the
  campaign writes 1500 lines that read back as the recorded rows, and the aggregate of any such grid.
\<close>

section \<open>One run\<close>

definition s6_expected :: "world \<Rightarrow> string \<Rightarrow> string \<Rightarrow> int \<Rightarrow> int \<Rightarrow> (string \<times> pyval) list" where
  "s6_expected W m c repetition seed =
     s6_record m c repetition seed (w_meters W m c repetition) (s6_effects m c) (s6_outcome m c)"

lemma s6_oasi_effects: "c \<in> set CASES6 \<Longrightarrow> s6_effects ''OASI'' c \<le> 1"
  by (elim cases6E) (simp_all add: s6_effects_def CASES6_def)

lemma s6_valid:
  assumes "m \<in> set MECHANISMS6" and "c \<in> set CASES6"
  shows "s6_validate_record (map_of (s6_expected W m c rep seed)) = Inr []"
proof -
  have l: "list_ex (\<lambda>x. m = x) MECHANISMS6" "list_ex (\<lambda>x. c = x) CASES6"
    using assms by (auto simp: list_ex_iff)
  have o: "m = ''OASI'' \<Longrightarrow> \<not> 1 < s6_effects m c" using s6_oasi_effects [OF assms(2)] by simp
  show ?thesis
    using l o by (simp add: s6_validate_record_def s6_expected_def s6_record_def dict_get_def Let_def
        s6_outcome_def is_false_def is_true_def)
qed

lemma s6_run_in_eq:
  assumes "world_ok W" and "m \<in> set MECHANISMS6" and "c \<in> set CASES6"
  shows "s6_run_in W m c rep seed = Inr (s6_expected W m c rep seed)"
proof -
  have f: "fixture (w_sha W) (w_iml W) (w_imc W) (w_sign W) (w_verify W)" using assms(1) by (simp add: world_ok_def)
  let ?ctx = "s6_context (w_sha W) c rep" and ?g = "200000 + seed"
  obtain D where D: "s6_run (w_sha W) (w_iml W) (w_imc W) (w_verify W) m c
        (make_frame (w_sha W) (w_sign W) ?g ?ctx 1 seed) ?g ?ctx (str_int ?g @ '':'' @ ?ctx @ '':1'')
        (new_run_dir new_append_sink) = (Inr (s6_outcome m c), D)"
      "count_for_observer_only (dir_sink D) = s6_effects m c"
    using s6_run_outcome [OF f assms(3,2)] by blast
  note v = s6_valid [OF assms(2,3), of W rep seed, unfolded s6_expected_def]
  show ?thesis
    by (simp only: s6_run_in_def s6_run_one_def Let_def D prod.case sum.case v res_bind.simps s6_expected_def)
      simp
qed

section \<open>Lines\<close>

lemma s6_record_flat: "flat_row (s6_record m c rep seed mt n oc)"
  by (simp add: flat_row_def s6_record_def)

lemma s6_expected_flat: "flat_row (s6_expected W m c rep seed)"
  by (simp add: s6_expected_def s6_record_flat)

section \<open>The loops\<close>

definition s6_seed :: "nat \<Rightarrow> int \<Rightarrow> int" where
  "s6_seed i repetition = ROOT_SEED6 + int i * 1000 + repetition"

lemma s6_warmup_eq:
  assumes "world_ok W" and "c \<in> set CASES6" and "m \<in> set MECHANISMS6"
  shows "s6_warmup W i c (m, w) C = (Inr (), C\<lparr>warmups_done := warmups_done C + 1\<rparr>)"
  by (simp add: s6_warmup_def s6_run_in_eq [OF assms(1,3,2)])

lemma s6_warmups:
  assumes "world_ok W" and "c \<in> set CASES6" and "fst ` set xs \<subseteq> set MECHANISMS6"
  shows "act_seq (map (s6_warmup W i c) xs) C = (Inr (), C\<lparr>warmups_done := warmups_done C + int (length xs)\<rparr>)"
  using assms(3)
proof (induction xs arbitrary: C)
  case (Cons x xs)
  obtain m w where x: "x = (m, w)" by (cases x)
  have "m \<in> set MECHANISMS6" using Cons.prems x by auto
  from s6_warmup_eq [OF assms(1,2) this]
  have "s6_warmup W i c x C = (Inr (), C\<lparr>warmups_done := warmups_done C + 1\<rparr>)" by (simp add: x)
  moreover have "act_seq (map (s6_warmup W i c) xs) D = (Inr (), D\<lparr>warmups_done := warmups_done D + int (length xs)\<rparr>)" for D
    by (rule Cons.IH) (use Cons.prems in auto)
  ultimately show ?case by simp
qed simp

lemma s6_measured_eq:
  assumes "world_ok W" and "c \<in> set CASES6" and "m \<in> set MECHANISMS6" and "raw_partial (out C) = Some ls"
  shows "s6_measured W i c (r, m) C = (let new = s6_expected W m c r (s6_seed i r) in
    (Inr (), C\<lparr>recorded := recorded C @ [new], out := (out C)\<lparr>raw_partial := Some (ls @ [line_of new])\<rparr>\<rparr>))"
  by (simp add: s6_measured_def s6_run_in_eq [OF assms(1,3,2)] write_line_def
      flat_line(1) [OF s6_expected_flat] Let_def s6_seed_def assms(4))

lemma s6_measurements:
  assumes "world_ok W" and "c \<in> set CASES6" and "snd ` set xs \<subseteq> set MECHANISMS6"
    and "raw_partial (out C) = Some ls"
  shows "act_seq (map (s6_measured W i c) xs) C =
    (let new = map (\<lambda>(r, m). s6_expected W m c r (s6_seed i r)) xs in
     (Inr (), C\<lparr>recorded := recorded C @ new, out := (out C)\<lparr>raw_partial := Some (ls @ map line_of new)\<rparr>\<rparr>))"
  using assms(3,4)
proof (induction xs arbitrary: C ls)
  case (Cons x xs)
  obtain r m where x: "x = (r, m)" by (cases x)
  have m: "m \<in> set MECHANISMS6" using Cons.prems(1) x by auto
  have rest: "snd ` set xs \<subseteq> set MECHANISMS6" using Cons.prems(1) by auto
  let ?e = "s6_expected W m c r (s6_seed i r)"
  let ?C1 = "C\<lparr>recorded := recorded C @ [?e], out := (out C)\<lparr>raw_partial := Some (ls @ [line_of ?e])\<rparr>\<rparr>"
  have 1: "s6_measured W i c x C = (Inr (), ?C1)"
    using s6_measured_eq [OF assms(1,2) m Cons.prems(2)] by (simp add: x Let_def)
  have 2: "raw_partial (out ?C1) = Some (ls @ [line_of ?e])" by simp
  from Cons.IH [OF rest 2] 1 show ?case by (simp add: x Let_def)
qed (simp add: Let_def)

definition s6_case_records :: "world \<Rightarrow> nat \<times> string \<Rightarrow> (string \<times> pyval) list list" where
  "s6_case_records W ic = concat (map (\<lambda>r. map (\<lambda>m. s6_expected W m (snd ic) r (s6_seed (fst ic) r))
     (s6_order W (snd ic) r)) [1..REPETITIONS6])"

lemma s6_order_perm:
  assumes "world_ok W"
  shows "set (s6_order W c r) = set MECHANISMS6" "length (s6_order W c r) = 5" "distinct (s6_order W c r)"
proof -
  have d: "distinct MECHANISMS6" "length MECHANISMS6 = 5" by (simp_all add: MECHANISMS6_def)
  show "set (s6_order W c r) = set MECHANISMS6" "length (s6_order W c r) = 5" "distinct (s6_order W c r)"
    using assms d by (simp_all add: world_ok_def s6_order_def shufflesD)
qed

lemma s6_case_eq:
  assumes "world_ok W" and "c \<in> set CASES6" and "raw_partial (out C) = Some (map line_of (recorded C))"
  shows "\<exists>cp. s6_case W (i, c) C = (Inr (),
    \<lparr>out = (out C)\<lparr>raw_partial := Some (map line_of (recorded C @ s6_case_records W (i, c))), checkpoint := cp\<rparr>,
     recorded = recorded C @ s6_case_records W (i, c), warmups_done = warmups_done C + 25\<rparr>)"
proof -
  let ?ws = "List.product MECHANISMS6 [1..WARMUPS6]"
  let ?xs = "concat (map (\<lambda>r. map (Pair r) (s6_order W c r)) [1..REPETITIONS6])"
  have w: "fst ` set ?ws \<subseteq> set MECHANISMS6" by auto
  have x: "snd ` set ?xs \<subseteq> set MECHANISMS6" using s6_order_perm(1) [OF assms(1)] by auto
  have n: "map (\<lambda>(r, m). s6_expected W m c r (s6_seed i r)) ?xs = s6_case_records W (i, c)"
    by (simp add: s6_case_records_def map_concat comp_def)
  have len: "length ?ws = 25" by (simp add: WARMUPS6_def MECHANISMS6_def)
  let ?C1 = "C\<lparr>warmups_done := warmups_done C + 25\<rparr>"
  have 1: "act_seq (map (s6_warmup W i c) ?ws) C = (Inr (), ?C1)"
    using s6_warmups [OF assms(1,2) w, where i = i and C = C] unfolding len by simp
  have 2: "act_seq (map (s6_measured W i c) ?xs) ?C1 = (Inr (), ?C1\<lparr>recorded := recorded C @ s6_case_records W (i, c),
      out := (out C)\<lparr>raw_partial := Some (map line_of (recorded C) @ map line_of (s6_case_records W (i, c)))\<rparr>\<rparr>)"
    using s6_measurements [OF assms(1,2) x, where C = ?C1 and i = i] assms(3) n by (simp add: Let_def)
  show ?thesis
    unfolding s6_case_def prod.case act_seq_append 1 sum.case 2
    by (cases C) (auto simp: s6_checkpoint_def)
qed

definition s6_records :: "world \<Rightarrow> (nat \<times> string) list \<Rightarrow> (string \<times> pyval) list list" where
  "s6_records W ics = concat (map (s6_case_records W) ics)"

lemma s6_cases_eq:
  assumes "world_ok W" and "snd ` set ics \<subseteq> set CASES6" and "raw_partial (out C) = Some (map line_of (recorded C))"
  shows "\<exists>cp. act_seq (map (s6_case W) ics) C = (Inr (),
    \<lparr>out = (out C)\<lparr>raw_partial := Some (map line_of (recorded C @ s6_records W ics)), checkpoint := cp\<rparr>,
     recorded = recorded C @ s6_records W ics, warmups_done = warmups_done C + 25 * int (length ics)\<rparr>)"
  using assms(2,3)
proof (induction ics arbitrary: C)
  case Nil
  have "C = \<lparr>out = (out C)\<lparr>raw_partial := Some (map line_of (recorded C)), checkpoint := checkpoint (out C)\<rparr>,
     recorded = recorded C, warmups_done = warmups_done C\<rparr>" using Nil.prems(2) by simp
  then show ?case by (intro exI [of _ "checkpoint (out C)"]) (simp add: s6_records_def)
next
  case (Cons ic ics)
  obtain i c where ic: "ic = (i, c)" by (cases ic)
  have c: "c \<in> set CASES6" using Cons.prems(1) ic by auto
  obtain cp where 1: "s6_case W (i, c) C = (Inr (),
    \<lparr>out = (out C)\<lparr>raw_partial := Some (map line_of (recorded C @ s6_case_records W (i, c))), checkpoint := cp\<rparr>,
     recorded = recorded C @ s6_case_records W (i, c), warmups_done = warmups_done C + 25\<rparr>)" (is "_ = (_, ?C1)")
    using s6_case_eq [OF assms(1) c Cons.prems(2)] by blast
  have r: "snd ` set ics \<subseteq> set CASES6" using Cons.prems(1) by auto
  have "raw_partial (out ?C1) = Some (map line_of (recorded ?C1))" by simp
  then obtain cp' where 2: "act_seq (map (s6_case W) ics) ?C1 = (Inr (),
    \<lparr>out = (out ?C1)\<lparr>raw_partial := Some (map line_of (recorded ?C1 @ s6_records W ics)), checkpoint := cp'\<rparr>,
     recorded = recorded ?C1 @ s6_records W ics, warmups_done = warmups_done ?C1 + 25 * int (length ics)\<rparr>)"
    using Cons.IH [OF r, of ?C1] by blast
  have "s6_records W (ic # ics) = s6_case_records W (i, c) @ s6_records W ics" by (simp add: s6_records_def ic)
  then show ?case using 1 2 by (intro exI [of _ cp']) (simp add: ic)
qed

definition s6_all :: "world \<Rightarrow> (string \<times> pyval) list list" where
  "s6_all W = s6_records W (enumerate 0 CASES6)"

section \<open>The rows as a grid\<close>

definition s6_row :: "world \<Rightarrow> string \<Rightarrow> nat \<times> string \<Rightarrow> int \<Rightarrow> row" where
  "s6_row W m ic r = Row (map_of (s6_expected W m (snd ic) r (s6_seed (fst ic) r)))"

definition s6_rows :: "world \<Rightarrow> row list" where
  "s6_rows W = map (\<lambda>m. Row (map_of m)) (s6_all W)"

lemma s6_rows_grid:
  "s6_rows W = grid (\<lambda>ic r. s6_order W (snd ic) r) (s6_row W) (enumerate 0 CASES6) [1..REPETITIONS6]"
  by (simp add: s6_rows_def s6_all_def s6_records_def s6_case_records_def grid_def s6_row_def map_concat comp_def)

lemma s6_row_fields:
  "row_index (s6_row W m ic r) ''mechanism'' = Inr (VStr m)"
  "row_index (s6_row W m ic r) ''case'' = Inr (VStr (snd ic))"
  "row_index (s6_row W m ic r) ''repetition'' = Inr (VInt r)"
  "row_index (s6_row W m ic r) ''double_effect'' = Inr (VBool (1 < s6_effects m (snd ic)))"
  "row_index (s6_row W m ic r) ''delivered_exactly_once'' = Inr (VBool (s6_effects m (snd ic) = 1))"
  "row_index (s6_row W m ic r) ''replay_accepted'' = Inr (VBool (replay_accepted (s6_outcome m (snd ic))))"
  "row_index (s6_row W m ic r) ''cross_generation_accepted'' =
     Inr (VBool (cross_generation_accepted (s6_outcome m (snd ic))))"
  "row_index (s6_row W m ic r) ''altered_signature_accepted'' =
     Inr (VBool (altered_signature_accepted (s6_outcome m (snd ic))))"
  "row_index (s6_row W m ic r) ''delivery_lost'' =
     Inr (VBool (effect_expected (snd ic) \<and> s6_effects m (snd ic) = 0))"
  by (simp_all add: s6_row_def s6_expected_def s6_record_def)

lemma s6_row_numbers:
  "k \<in> {''wall_ns'', ''cpu_ns'', ''python_heap_peak_bytes'', ''rss_delta_bytes'', ''artifact_bytes''} \<Longrightarrow>
     \<exists>n. index_int k (s6_row W m ic r) = Inr n"
  by (auto simp: s6_row_def s6_expected_def s6_record_def index_int_def)

lemma s6_enumerate_case: "c \<in> set CASES6 \<Longrightarrow> \<exists>i. filter (\<lambda>ic. snd ic = c) (enumerate 0 CASES6) = [(i, c)]"
  by (elim cases6E) (simp_all add: CASES6_def enumerate_eq_zip)

lemma s6_grid_select:
  assumes "world_ok W" and "m0 \<in> set MECHANISMS6"
    and "\<And>m ic r. m \<in> set MECHANISMS6 \<Longrightarrow> P (s6_row W m ic r) \<longleftrightarrow> m = m0 \<and> Q (snd ic)"
  shows "filter P (s6_rows W) =
    concat (map (\<lambda>ic. map (s6_row W m0 ic) [1..REPETITIONS6]) (filter (\<lambda>ic. Q (snd ic)) (enumerate 0 CASES6)))"
  unfolding s6_rows_grid
  by (rule filter_grid) (use assms s6_order_perm [OF assms(1)] in auto)

lemma s6_cell_rows:
  assumes "world_ok W" and "m \<in> set MECHANISMS6" and "c \<in> set CASES6"
  shows "\<exists>i. cell_rows m c (s6_rows W) = Inr (map (s6_row W m (i, c)) [1..REPETITIONS6])"
proof -
  have p: "res_and (index_eq ''mechanism'' (VStr m) (s6_row W m' ic r)) (index_eq ''case'' (VStr c) (s6_row W m' ic r))
      = Inr (m' = m \<and> snd ic = c)" for m' ic r
    by (simp add: res_and_def index_eq_def s6_row_fields)
  let ?q = "\<lambda>x. res_and (index_eq ''mechanism'' (VStr m) x) (index_eq ''case'' (VStr c) x) = Inr True"
  have "\<exists>b. res_and (index_eq ''mechanism'' (VStr m) x) (index_eq ''case'' (VStr c) x) = Inr b"
    if "x \<in> set (s6_rows W)" for x
    using that p s6_order_perm(1) [OF assms(1)] unfolding s6_rows_grid grid_def by fastforce
  then have "cell_rows m c (s6_rows W) = Inr (filter ?q (s6_rows W))"
    by (simp add: cell_rows_def res_filter_Inr)
  moreover obtain i where "filter (\<lambda>ic. snd ic = c) (enumerate 0 CASES6) = [(i, c)]"
    using s6_enumerate_case [OF assms(3)] by blast
  ultimately show ?thesis
    using s6_grid_select [OF assms(1,2), of ?q "\<lambda>c'. c' = c"] p by auto
qed

section \<open>The aggregate\<close>

lemma s6_rows_mem: "world_ok W \<Longrightarrow> x \<in> set (s6_rows W) \<Longrightarrow>
   \<exists>m ic r. x = s6_row W m ic r \<and> m \<in> set MECHANISMS6 \<and> snd ic \<in> set CASES6 \<and> r \<in> {1..30}"
  using s6_order_perm(1) [of W]
  by (fastforce simp: s6_rows_grid grid_def REPETITIONS6_def in_set_enumerate_eq)

lemma s6_rows_in:
  assumes "world_ok W" and "m0 \<in> set MECHANISMS6"
  shows "rows_in m0 cs (s6_rows W) = Inr (concat (map (\<lambda>ic. map (s6_row W m0 ic) [1..REPETITIONS6])
    (filter (\<lambda>ic. snd ic \<in> set cs) (enumerate 0 CASES6))))"
proof -
  let ?p = "\<lambda>r. res_and (index_eq ''mechanism'' (VStr m0) r)
        (res_map (\<lambda>v. list_ex (\<lambda>c. py_eq v (VStr c)) cs) (row_index r ''case''))"
  have p: "?p (s6_row W m ic r) = Inr (m = m0 \<and> snd ic \<in> set cs)" for m ic r
    by (auto simp: res_and_def index_eq_def s6_row_fields list_ex_iff)
  have "\<exists>b. ?p x = Inr b" if "x \<in> set (s6_rows W)" for x
    using s6_rows_mem [OF assms(1) that] p by blast
  then have "rows_in m0 cs (s6_rows W) = Inr (filter (\<lambda>x. ?p x = Inr True) (s6_rows W))"
    unfolding rows_in_def by (simp only: res_filter_Inr) blast
  also have "filter (\<lambda>x. ?p x = Inr True) (s6_rows W) = concat (map (\<lambda>ic. map (s6_row W m0 ic) [1..REPETITIONS6])
    (filter (\<lambda>ic. snd ic \<in> set cs) (enumerate 0 CASES6)))"
    by (rule s6_grid_select [OF assms]) (simp only: p, simp)
  finally show ?thesis .
qed

lemma s6_selection_count:
  assumes "\<And>m ic r. row_index (s6_row W m ic r) field = Inr (VBool (g m (snd ic)))"
  shows "res_count (index_true field) (concat (map (\<lambda>ic. map (s6_row W m0 ic) [1..REPETITIONS6]) ics))
    = Inr (30 * int (length (filter (g m0) (map snd ics))))"
proof -
  let ?rows = "concat (map (\<lambda>ic. map (s6_row W m0 ic) [1..REPETITIONS6]) ics)"
  have t: "index_true field (s6_row W m0 ic r) = Inr (g m0 (snd ic))" for ic r
    by (simp add: index_true_def assms)
  have "res_count (index_true field) ?rows = Inr (int (length (filter (\<lambda>x. index_true field x = Inr True) ?rows)))"
    by (rule res_count_ok) (auto simp: t)
  also have "length (filter (\<lambda>x. index_true field x = Inr True) ?rows) = 30 * length (filter (\<lambda>ic. g m0 (snd ic)) ics)"
    using count_cases [of ics "[1..REPETITIONS6]" "\<lambda>x. index_true field x = Inr True" "s6_row W m0" "\<lambda>ic. g m0 (snd ic)"] t
    by (simp add: REPETITIONS6_def)
  also have "length (filter (\<lambda>ic. g m0 (snd ic)) ics) = length (filter (g m0) (map snd ics))"
    by (simp add: filter_map comp_def)
  finally show ?thesis by simp
qed

definition s6_verdict :: "(string \<times> pyval) list" where
  "s6_verdict =
    [(''primary_comparison_to_b3'', VDict
        [(''scope'', VList (map VStr PRIMARY_AMBIGUOUS_POST_EFFECT_CASES)),
         (''b3_double_effects'', VInt 60), (''oasi_double_effects'', VInt 0),
         (''b3_runs'', VInt 60), (''oasi_runs'', VInt 60),
         (''bounded_safety_advantage_established'', VBool True)]),
     (''availability_tradeoff'', VDict
        [(''scope'', VList (map VStr PRE_EFFECT_UNCERTAINTY_CASES)),
         (''b3_delivery_losses'', VInt 0), (''oasi_delivery_losses'', VInt 90),
         (''tradeoff_observed'', VBool True)]),
     (''conclusion'', VStr
        ''BOUNDED_SAFETY_ADVANTAGE_ESTABLISHED_NON_COOPERATIVE_FIXTURE_WITH_AVAILABILITY_TRADEOFF'')]"

lemma s6_comparison_eq:
  assumes "world_ok W"
  shows "s6_comparison (s6_rows W) = Inr s6_verdict"
proof -
  let ?pri = "PRIMARY_AMBIGUOUS_POST_EFFECT_CASES" and ?pre = "PRE_EFFECT_UNCERTAINTY_CASES"
  let ?sel = "\<lambda>cs. filter (\<lambda>ic. snd ic \<in> set cs) (enumerate 0 CASES6)"
  have m: "''B3_IDEMPOTENT_UNAVAILABLE'' \<in> set MECHANISMS6" "''OASI'' \<in> set MECHANISMS6"
    by (simp_all add: MECHANISMS6_def)
  have sel: "map snd (?sel ?pri) = ?pri" "map snd (?sel ?pre) = ?pre"
    unfolding filter_enumerate
    by (simp_all add: CASES6_def PRIMARY_AMBIGUOUS_POST_EFFECT_CASES_def PRE_EFFECT_UNCERTAINTY_CASES_def)
  note rows = s6_rows_in [OF assms m(1)] s6_rows_in [OF assms m(2)]
  have n: "length (filter (\<lambda>c. 1 < s6_effects ''B3_IDEMPOTENT_UNAVAILABLE'' c) ?pri) = 2"
    "length (filter (\<lambda>c. 1 < s6_effects ''OASI'' c) ?pri) = 0"
    "length (filter (\<lambda>c. effect_expected c \<and> s6_effects ''B3_IDEMPOTENT_UNAVAILABLE'' c = 0) ?pre) = 0"
    "length (filter (\<lambda>c. effect_expected c \<and> s6_effects ''OASI'' c = 0) ?pre) = 3"
    by (simp_all add: s6_effects_def CASES6_def effect_expected_def
        PRIMARY_AMBIGUOUS_POST_EFFECT_CASES_def PRE_EFFECT_UNCERTAINTY_CASES_def)
  have len: "length (concat (map (\<lambda>ic. map (s6_row W m0 ic) [1..REPETITIONS6]) (?sel ?pri))) = 60" for m0
  proof -
    have "length (concat (map (\<lambda>ic. map (s6_row W m0 ic) [1..REPETITIONS6]) ics)) = 30 * length (map snd ics)" for ics
      by (induction ics) (simp_all add: REPETITIONS6_def)
    from this [of "?sel ?pri"] have "length (concat (map (\<lambda>ic. map (s6_row W m0 ic) [1..REPETITIONS6]) (?sel ?pri)))
        = 30 * length ?pri" unfolding sel .
    moreover have "length ?pri = 2" by (simp add: PRIMARY_AMBIGUOUS_POST_EFFECT_CASES_def)
    ultimately show ?thesis by (simp only:)
  qed
  note d = s6_selection_count [OF s6_row_fields(4)] and l = s6_selection_count [OF s6_row_fields(9)]
  show ?thesis
    unfolding s6_comparison_def Let_def rows res_bind.simps d l sel n len
    by (simp add: s6_verdict_def)
qed

text \<open>A cell of rows that hold what a run records: it is total, and these are its counts.\<close>

definition s6_flags :: "string set" where
  "s6_flags = {''double_effect'', ''delivered_exactly_once'', ''delivery_lost'', ''replay_accepted'',
     ''cross_generation_accepted'', ''altered_signature_accepted''}"

lemma s6_cell_ok:
  assumes "\<And>r. r \<in> set rows \<Longrightarrow> well_typed s6_flags r" and "rows \<noteq> []"
    and "\<And>xs p. xs \<noteq> [] \<Longrightarrow> \<exists>n. nr xs p = Inr n"
  shows "\<exists>cell. s6_cell F nr sqroot rows = Inr cell
    \<and> map_of cell ''runs'' = Some (VInt (int (length rows)))
    \<and> map_of cell ''double_effects'' = Some (VInt (count_true ''double_effect'' rows))
    \<and> map_of cell ''delivered_exactly_once'' = Some (VInt (count_true ''delivered_exactly_once'' rows))
    \<and> map_of cell ''delivery_lost'' = Some (VInt (count_true ''delivery_lost'' rows))
    \<and> map_of cell ''replay_accepted'' = Some (VInt (count_true ''replay_accepted'' rows))
    \<and> map_of cell ''cross_generation_accepted'' = Some (VInt (count_true ''cross_generation_accepted'' rows))
    \<and> map_of cell ''altered_signature_accepted'' = Some (VInt (count_true ''altered_signature_accepted'' rows))"
proof -
  note i = well_typed_ints [OF assms(1)]
  obtain ws cs hs rs as where n: "res_map_list (index_int ''wall_ns'') rows = Inr ws" "length ws = length rows"
      "res_map_list (index_int ''cpu_ns'') rows = Inr cs" "length cs = length rows"
      "res_map_list (index_int ''python_heap_peak_bytes'') rows = Inr hs" "length hs = length rows"
      "res_map_list (index_int ''rss_delta_bytes'') rows = Inr rs" "length rs = length rows"
      "res_map_list (index_int ''artifact_bytes'') rows = Inr as" "length as = length rows"
    using i [of rows "''wall_ns''"] i [of rows "''cpu_ns''"] i [of rows "''python_heap_peak_bytes''"]
      i [of rows "''rss_delta_bytes''"] i [of rows "''artifact_bytes''"] by (auto simp: number_fields_def)
  have ne: "ws \<noteq> []" "cs \<noteq> []" "hs \<noteq> []" "rs \<noteq> []" "as \<noteq> []" using n(2,4,6,8,10) assms(2) by auto
  obtain p50 p95 p99 where p: "nr ws (1 / 2) = Inr p50" "nr ws (19 / 20) = Inr p95" "nr ws (99 / 100) = Inr p99"
    using assms(3) [OF ne(1)] by metis
  have l: "length rows \<noteq> 0" using assms(2) by simp
  note c = well_typed_count [OF assms(1)]
  have cs: "res_count (index_true ''double_effect'') rows = Inr (count_true ''double_effect'' rows)"
    "res_count (index_true ''delivered_exactly_once'') rows = Inr (count_true ''delivered_exactly_once'' rows)"
    "res_count (index_true ''delivery_lost'') rows = Inr (count_true ''delivery_lost'' rows)"
    "res_count (index_true ''replay_accepted'') rows = Inr (count_true ''replay_accepted'' rows)"
    "res_count (index_true ''cross_generation_accepted'') rows = Inr (count_true ''cross_generation_accepted'' rows)"
    "res_count (index_true ''altered_signature_accepted'') rows = Inr (count_true ''altered_signature_accepted'' rows)"
    by (rule c; simp add: s6_flags_def)+
  have w: "\<exists>v. wilson F sqroot k (int (length rows)) = Inr v" "\<exists>v. rate F k (int (length rows)) = Inr v" for k
    using l by (simp_all add: wilson_def rate_def Let_def)
  obtain w1 w2 w3 r1 r2 r3 where wr: "wilson F sqroot (count_true ''double_effect'' rows) (int (length rows)) = Inr w1"
      "wilson F sqroot (count_true ''delivered_exactly_once'' rows) (int (length rows)) = Inr w2"
      "wilson F sqroot (count_true ''delivery_lost'' rows) (int (length rows)) = Inr w3"
      "rate F (count_true ''delivery_lost'' rows) (int (length rows)) = Inr r3"
      "rate F (count_true ''double_effect'' rows) (int (length rows)) = Inr r1"
      "rate F (count_true ''delivered_exactly_once'' rows) (int (length rows)) = Inr r2"
    using w by metis
  have m: "xs \<noteq> [] \<Longrightarrow> mean3 F xs = Inr (VFloat (rnd F 3 (fl F (fl F (sum_list (map (\<lambda>x. fl F (of_int x)) xs))
      / of_int (int (length xs))))))" "xs \<noteq> [] \<Longrightarrow> py_max xs = Inr (VInt (foldr max (tl xs) (hd xs)))" for xs
    by (simp_all add: mean3_def fmean_def py_max_def)
  show ?thesis
    by (simp add: s6_cell_def Let_def n cs wr p m ne)
qed

lemma s6_row_typed: "well_typed s6_flags (s6_row W m ic r)"
  by (auto simp: well_typed_def number_fields_def s6_flags_def s6_row_def s6_expected_def s6_record_def
      index_int_def)

lemma s6_count_true:
  assumes "\<And>m ic r. row_index (s6_row W m ic r) k = Inr (VBool (g m (snd ic)))"
  shows "count_true k (map (s6_row W m (i, c)) [1..REPETITIONS6]) = (if g m c then 30 else 0)"
  by (simp add: count_true_def assms filter_map comp_def REPETITIONS6_def)

text \<open>The counts that the summary of a cell holds.\<close>

definition s6_cell_counts :: "string \<Rightarrow> string \<Rightarrow> (string \<times> int) list" where
  "s6_cell_counts m c = (let n = s6_effects m c; oc = s6_outcome m c; all = (\<lambda>b. if b then 30 else 0) in
     [(''runs'', 30), (''double_effects'', all (1 < n)), (''delivered_exactly_once'', all (n = 1)),
      (''delivery_lost'', all (effect_expected c \<and> n = 0)),
      (''replay_accepted'', all (replay_accepted oc)),
      (''cross_generation_accepted'', all (cross_generation_accepted oc)),
      (''altered_signature_accepted'', all (altered_signature_accepted oc))])"

lemma s6_cell_eq:
  assumes "\<And>xs p. xs \<noteq> [] \<Longrightarrow> \<exists>n. nr xs p = Inr n"
  shows "\<exists>cell. s6_cell F nr sqroot (map (s6_row W m (i, c)) [1..REPETITIONS6]) = Inr cell
    \<and> (\<forall>(k, n) \<in> set (s6_cell_counts m c). map_of cell k = Some (VInt n))"
proof -
  let ?rows = "map (s6_row W m (i, c)) [1..REPETITIONS6]"
  have ne: "?rows \<noteq> []" and len: "int (length ?rows) = 30" by (simp_all add: REPETITIONS6_def)
  have t: "\<And>r. r \<in> set ?rows \<Longrightarrow> well_typed s6_flags r" using s6_row_typed by auto
  note k = s6_count_true [OF s6_row_fields(4)] s6_count_true [OF s6_row_fields(5)]
    s6_count_true [OF s6_row_fields(6)] s6_count_true [OF s6_row_fields(7)] s6_count_true [OF s6_row_fields(8)]
    s6_count_true [OF s6_row_fields(9)]
  from s6_cell_ok [where F = F and sqroot = sqroot and nr = nr, OF t ne assms] len k show ?thesis
    by (simp add: s6_cell_counts_def Let_def)
qed

definition s6_grid_names :: "(string \<times> string) list" where
  "s6_grid_names = List.product MECHANISMS6 CASES6"

lemma s6_names_distinct: "distinct (map cell_name s6_grid_names)"
  by (simp add: s6_grid_names_def cell_name_def MECHANISMS6_def CASES6_def)

definition s6_cells_ok :: "(string \<times> pyval) list \<Rightarrow> bool" where
  "s6_cells_ok cells \<longleftrightarrow> map fst cells = map cell_name s6_grid_names
     \<and> (\<forall>mc \<in> set s6_grid_names. \<exists>cell. map_of cells (cell_name mc) = Some (VDict cell)
          \<and> (\<forall>(k, n) \<in> set (s6_cell_counts (fst mc) (snd mc)). map_of cell k = Some (VInt n)))"

lemma s6_aggregate_eq:
  assumes "world_ok W"
  shows "\<exists>cells. s6_aggregate F (s6_rows W) = Inr ((''cells'', VDict cells) # s6_verdict) \<and> s6_cells_ok cells"
proof -
  let ?f = "\<lambda>(m, c). res_bind (cell_rows m c (s6_rows W)) (\<lambda>rows.
         res_map (\<lambda>cell. (m @ ''|'' @ c, VDict cell)) (s6_cell F (nearest_rank_ceil F) (fsqrt F) rows))"
  let ?P = "\<lambda>mc y. fst y = cell_name mc \<and> (\<exists>cell. snd y = VDict cell
      \<and> (\<forall>(k, n) \<in> set (s6_cell_counts (fst mc) (snd mc)). map_of cell k = Some (VInt n)))"
  have nr: "xs \<noteq> [] \<Longrightarrow> \<exists>n. nearest_rank_ceil F xs p = Inr n" for xs p
    using nearest_rank_member(2) [of xs F p] by blast
  have cell: "\<exists>y. ?f mc = Inr y \<and> ?P mc y" if mc: "mc \<in> set s6_grid_names" for mc
  proof -
    obtain m c where p: "mc = (m, c)" by (cases mc)
    have "m \<in> set MECHANISMS6" "c \<in> set CASES6" using mc p by (auto simp: s6_grid_names_def)
    then obtain i where i: "cell_rows m c (s6_rows W) = Inr (map (s6_row W m (i, c)) [1..REPETITIONS6])"
      using s6_cell_rows [OF assms] by blast
    obtain cell where "s6_cell F (nearest_rank_ceil F) (fsqrt F) (map (s6_row W m (i, c)) [1..REPETITIONS6]) = Inr cell"
      "\<forall>(k, n) \<in> set (s6_cell_counts m c). map_of cell k = Some (VInt n)"
      using s6_cell_eq [where F = F and nr = "nearest_rank_ceil F" and sqroot = "fsqrt F" and W = W
          and m = m and i = i and c = c, OF nr] by blast
    then show ?thesis using i p by (simp add: cell_name_def)
  qed
  obtain g where g: "res_map_list ?f s6_grid_names = Inr (map g s6_grid_names)" "\<forall>mc \<in> set s6_grid_names. ?P mc (g mc)"
    using res_map_list_choice [of s6_grid_names ?f ?P] cell by blast
  let ?cells = "map g s6_grid_names"
  have names: "map fst ?cells = map cell_name s6_grid_names" using g(2) by simp
  have look: "map_of ?cells (cell_name mc) = Some (snd (g mc))" if "mc \<in> set s6_grid_names" for mc
  proof -
    have "(cell_name mc, snd (g mc)) \<in> set ?cells" using that g(2) by (metis image_eqI list.set_map prod.collapse)
    then show ?thesis using names s6_names_distinct by (simp add: map_of_eq_Some_iff del: map_map)
  qed
  have "s6_cells_ok ?cells"
    unfolding s6_cells_ok_def
  proof (intro conjI ballI)
    show "map fst ?cells = map cell_name s6_grid_names" by (rule names)
    fix mc assume mc: "mc \<in> set s6_grid_names"
    then obtain cell where "snd (g mc) = VDict cell"
      "\<forall>(k, n) \<in> set (s6_cell_counts (fst mc) (snd mc)). map_of cell k = Some (VInt n)"
      using g(2) by blast
    then show "\<exists>cell. map_of ?cells (cell_name mc) = Some (VDict cell)
        \<and> (\<forall>(k, n) \<in> set (s6_cell_counts (fst mc) (snd mc)). map_of cell k = Some (VInt n))"
      using look [OF mc] by simp
  qed
  moreover have "s6_aggregate F (s6_rows W) = Inr ((''cells'', VDict ?cells) # s6_verdict)"
    using g(1) s6_comparison_eq [OF assms] by (simp add: s6_aggregate_def s6_grid_names_def)
  ultimately show ?thesis by blast
qed

section \<open>The campaign\<close>

lemma s6_all_length: "world_ok W \<Longrightarrow> length (s6_all W) = 1500"
proof -
  assume w: "world_ok W"
  have "length (s6_rows W) = 10 * 30 * 5"
    unfolding s6_rows_grid by (subst length_grid [of _ 5]) (simp_all add: s6_order_perm [OF w] CASES6_def REPETITIONS6_def)
  then show ?thesis by (simp add: s6_rows_def)
qed

definition s6_lines :: "world \<Rightarrow> string list" where
  "s6_lines W = map line_of (s6_all W)"

definition s6_summary_of :: "world \<Rightarrow> (string \<times> pyval) list \<Rightarrow> pyval" where
  "s6_summary_of W cells = VDict (
        [(''schema'', VStr ''oasi.s6.scientific-local-summary.v1''),
         (''mechanisms'', VList (map VStr MECHANISMS6)), (''cases'', VList (map VStr CASES6)),
         (''warmups_per_cell'', VInt 5), (''repetitions_per_cell'', VInt 30), (''measured_runs'', VInt 1500),
         (''raw_sha256'', VStr (sha_hex (w_sha W) (raw_bytes (s6_lines W)))),
         (''local_only'', VBool True), (''fixture_only'', VBool True), (''network_calls'', VInt 0),
         (''real_effect'', VBool False), (''guest_or_qemu_measured'', VBool False),
         (''production_claim'', VBool False), (''cells'', VDict cells)] @ s6_verdict)"

lemma s6_campaign_eq:
  assumes "world_ok W" and "\<not> output_exists R"
  shows "\<exists>C cells. s6_run_campaign W False prereg R = (Inr (), C)
    \<and> recorded C = s6_all W \<and> warmups_done C = 250
    \<and> output_exists (out C) \<and> locked (out C) = Some prereg
    \<and> raw_partial (out C) = None \<and> raw_runs (out C) = Some (s6_lines W)
    \<and> s6_aggregate (w_floats W) (s6_rows W) = Inr ((''cells'', VDict cells) # s6_verdict)
    \<and> s6_cells_ok cells \<and> summary_file (out C) = Some (s6_summary_of W cells)"
proof -
  let ?R = "no_results\<lparr>output_exists := True, locked := Some prereg, raw_partial := Some []\<rparr>"
  let ?C0 = "\<lparr>out = ?R, recorded = [], warmups_done = 0\<rparr>"
  have c: "snd ` set (enumerate 0 CASES6) \<subseteq> set CASES6" by (auto simp: in_set_enumerate_eq)
  have p: "raw_partial (out ?C0) = Some (map line_of (recorded ?C0))" by simp
  obtain cp where loop: "act_seq (map (s6_case W) (enumerate 0 CASES6)) ?C0 = (Inr (),
      \<lparr>out = ?R\<lparr>raw_partial := Some (s6_lines W), checkpoint := cp\<rparr>, recorded = s6_all W, warmups_done = 250\<rparr>)"
    using s6_cases_eq [OF assms(1) c p] by (auto simp: s6_all_def s6_lines_def CASES6_def)
  obtain cells where cells: "s6_aggregate (w_floats W) (s6_rows W) = Inr ((''cells'', VDict cells) # s6_verdict)"
      "s6_cells_ok cells"
    using s6_aggregate_eq [OF assms(1)] by blast
  have rows: "map (\<lambda>m. Row (map_of m)) (s6_all W) = s6_rows W" by (simp add: s6_rows_def)
  have n: "length (s6_all W) = 1500" by (rule s6_all_length [OF assms(1)])
  show ?thesis
    unfolding s6_run_campaign_def
    using assms(2) cells(2)
    by (simp add: act_seq_append loop s6_finish_def s6_summary_def s6_summary_of_def rows cells(1) n
        WARMUPS6_def REPETITIONS6_def)
qed

lemma s6_all_flat: "m \<in> set (s6_all W) \<Longrightarrow> flat_row m"
  using s6_expected_flat by (auto simp: s6_all_def s6_records_def s6_case_records_def)

end
