(* ===== verification/S6_Verify.thy ===== *)
theory S6_Verify
  imports S6_Campaign_Props
begin

text \<open>
  The detached verifier \<open>experiments/s6/verify_results.py\<close>: its own aggregate, with the count of
  thirty rows per cell, and the checks of \<open>main\<close> in their order.  It agrees with the experiment's
  aggregate, accepts what the campaign writes, and what it accepts has the properties it checks.
\<close>

section \<open>The verifier\<close>

definition s6v_aggregate :: "floats \<Rightarrow> row list \<Rightarrow> exn + (string \<times> pyval) list" where
  "s6v_aggregate F records =
     res_bind (res_map_list (\<lambda>(m, c). res_bind (cell_rows m c records) (\<lambda>rows.
         if length rows \<noteq> 30
         then Inl (ValueError (''cell count '' @ m @ ''|'' @ c @ ''='' @ str_nat (length rows)))
         else res_map (\<lambda>cell. (m @ ''|'' @ c, VDict cell)) (s6_cell F (nearest_rank_ceil F) (fsqrt F) rows)))
       (List.product MECHANISMS6 CASES6)) (\<lambda>cells.
     res_map (\<lambda>comparison. (''cells'', VDict cells) # comparison) (s6_comparison records))"

definition profile_drift :: "row \<Rightarrow> exn + bool" where
  "profile_drift = get_ne ''sink_profile'' (VStr ''NON_COOPERATIVE_APPEND_ONLY_V1'')"

text \<open>\<open>any(... for r in records for name in (...))\<close>: the first violation ends the search.\<close>

definition capability_present :: "row \<Rightarrow> exn + bool" where
  "capability_present r = res_any (\<lambda>name. get_not_false name r)
     [''sink_idempotency_supported'', ''sink_transaction_supported'', ''sink_query_supported'',
      ''b3_idempotency_request_honored'']"

definition s6v_main :: "floats \<Rightarrow> (bytes \<Rightarrow> bytes) \<Rightarrow> bytes option \<Rightarrow> pyval option \<Rightarrow> exn + pyval" where
  "s6v_main F sha raw_file summary_path =
     (case (raw_file, summary_path) of
        (Some raw, Some summary) \<Rightarrow>
          res_bind (read_rows raw) (\<lambda>records.
          exit_if (Inr (length records \<noteq> 1500)) (''run count '' @ str_nat (length records)) (\<lambda>_.
          res_bind (res_map_list row_key records) (\<lambda>keys.
          exit_if (Inr (length (remdups keys) \<noteq> 1500)) ''duplicate run tuple'' (\<lambda>_.
          exit_if (res_any scope_violation records) ''scope violation'' (\<lambda>_.
          exit_if (res_any profile_drift records) ''sink profile drift'' (\<lambda>_.
          exit_if (res_any capability_present records) ''cooperative sink capability present'' (\<lambda>_.
          res_bind (res_filter (index_eq ''mechanism'' (VStr ''OASI'')) records) (\<lambda>oasi.
          exit_if (res_any oasi_unsafe oasi) ''OASI safety violation'' (\<lambda>_.
          res_bind (summary_get summary ''raw_sha256'') (\<lambda>h.
          exit_if (Inr (\<not> py_eq h (VStr (sha_hex sha raw)))) ''raw hash mismatch'' (\<lambda>_.
          res_bind (s6v_aggregate F records) (\<lambda>recomputed.
          res_bind (match_fields summary recomputed [''cells'', ''primary_comparison_to_b3'', ''availability_tradeoff'', ''conclusion'']) (\<lambda>_.
          Inr (VDict
            [(''schema'', VStr ''oasi.s6.independent-verification.v1''), (''status'', VStr ''PASS''),
             (''runs'', VInt 1500), (''cells'', VInt 50), (''oasi_safety_violations'', VInt 0),
             (''network_calls'', VInt 0), (''conclusion'', dict_get (map_of recomputed) ''conclusion''),
             (''raw_sha256'', VStr (sha_hex sha raw))]))))))))))))))
      | _ \<Rightarrow> Inl (SystemExit ''missing results''))"

section \<open>Equivalence of the two aggregates\<close>

lemma s6_aggregates_agree:
  assumes "\<And>m c. m \<in> set MECHANISMS6 \<Longrightarrow> c \<in> set CASES6 \<Longrightarrow> \<exists>rows. cell_rows m c rs = Inr rows \<and> length rows = 30"
  shows "s6v_aggregate F rs = s6_aggregate F rs"
proof -
  have "res_bind (cell_rows m c rs) (\<lambda>rows. if length rows \<noteq> 30
          then Inl (ValueError (''cell count '' @ m @ ''|'' @ c @ ''='' @ str_nat (length rows)))
          else res_map (\<lambda>cell. (m @ ''|'' @ c, VDict cell)) (s6_cell F (nearest_rank_ceil F) (fsqrt F) rows))
      = res_bind (cell_rows m c rs) (\<lambda>rows.
          res_map (\<lambda>cell. (m @ ''|'' @ c, VDict cell)) (s6_cell F (nearest_rank_ceil F) (fsqrt F) rows))"
    if "m \<in> set MECHANISMS6" "c \<in> set CASES6" for m c
    using assms [OF that] by auto
  then have "res_map_list (\<lambda>(m, c). res_bind (cell_rows m c rs) (\<lambda>rows. if length rows \<noteq> 30
          then Inl (ValueError (''cell count '' @ m @ ''|'' @ c @ ''='' @ str_nat (length rows)))
          else res_map (\<lambda>cell. (m @ ''|'' @ c, VDict cell)) (s6_cell F (nearest_rank_ceil F) (fsqrt F) rows)))
        (List.product MECHANISMS6 CASES6)
      = res_map_list (\<lambda>(m, c). res_bind (cell_rows m c rs) (\<lambda>rows.
          res_map (\<lambda>cell. (m @ ''|'' @ c, VDict cell)) (s6_cell F (nearest_rank_ceil F) (fsqrt F) rows)))
        (List.product MECHANISMS6 CASES6)"
    by (intro res_map_list_cong) auto
  then show ?thesis unfolding s6v_aggregate_def s6_aggregate_def by (simp only:)
qed

section \<open>What an accepted results directory satisfies\<close>

lemma s6v_cells_thirty:
  assumes "s6v_aggregate F rs = Inr agg" and "m \<in> set MECHANISMS6" and "c \<in> set CASES6"
  shows "\<exists>rows. cell_rows m c rs = Inr rows \<and> length rows = 30"
proof -
  have "(m, c) \<in> set (List.product MECHANISMS6 CASES6)" using assms(2,3) by simp
  then show ?thesis
    using assms(1) res_map_list_mem [where x = "(m, c)" and xs = "List.product MECHANISMS6 CASES6"]
    by (fastforce simp: s6v_aggregate_def res_bind_Inr_iff split: if_splits)
qed

theorem s6v_main_sound:
  assumes "s6v_main F sha raw summary = Inr result"
  shows "\<exists>bytes s records keys agg. raw = Some bytes \<and> summary = Some s \<and> read_rows bytes = Inr records
    \<and> length records = 1500 \<and> res_map_list row_key records = Inr keys \<and> distinct keys
    \<and> (\<forall>r \<in> set records. scope_violation r = Inr False)
    \<and> (\<forall>r \<in> set records. profile_drift r = Inr False \<and> capability_present r = Inr False)
    \<and> (\<forall>r \<in> set records. index_eq ''mechanism'' (VStr ''OASI'') r = Inr True \<longrightarrow> oasi_unsafe r = Inr False)
    \<and> s6v_aggregate F records = Inr agg
    \<and> (\<forall>f \<in> {''cells'', ''primary_comparison_to_b3'', ''availability_tradeoff'', ''conclusion''}. \<exists>v. summary_get s f = Inr v
         \<and> py_eq v (dict_get (map_of agg) f))
    \<and> summary_get s ''raw_sha256'' = Inr (VStr (sha_hex sha bytes))"
proof -
  obtain bytes s where rs: "raw = Some bytes" "summary = Some s"
    using assms by (cases raw; cases summary) (auto simp: s6v_main_def)
  obtain records keys oasi h agg where f: "read_rows bytes = Inr records" "length records = 1500"
      "res_map_list row_key records = Inr keys" "length (remdups keys) = 1500"
      "res_any scope_violation records = Inr False"
      "res_any profile_drift records = Inr False" "res_any capability_present records = Inr False"
      "res_filter (index_eq ''mechanism'' (VStr ''OASI'')) records = Inr oasi"
      "res_any oasi_unsafe oasi = Inr False"
      "summary_get s ''raw_sha256'' = Inr h" "py_eq h (VStr (sha_hex sha bytes))"
      "s6v_aggregate F records = Inr agg"
      "match_fields s agg [''cells'', ''primary_comparison_to_b3'', ''availability_tradeoff'', ''conclusion''] = Inr ()"
    using assms unfolding rs s6v_main_def prod.case option.case res_bind_Inr_iff exit_if_Inr by auto
  have k: "length keys = 1500" using f(2,3) by (simp add: res_map_list_Inr)
  then have "distinct keys" using f(4) by (metis length_remdups_eq remdups_id_iff_distinct)
  moreover have "h = VStr (sha_hex sha bytes)" using f(11) by (cases h) (auto simp: py_eq_def)
  moreover have "oasi_unsafe r = Inr False"
    if "r \<in> set records" "index_eq ''mechanism'' (VStr ''OASI'') r = Inr True" for r
    using f(8,9) that by (simp add: res_filter_Inr res_any_False)
  moreover have "\<forall>f \<in> {''cells'', ''primary_comparison_to_b3'', ''availability_tradeoff'', ''conclusion''}. \<exists>v. summary_get s f = Inr v
         \<and> py_eq v (dict_get (map_of agg) f)"
    using f(13) unfolding match_fields_Inr list.set .
  moreover have "\<forall>r \<in> set records. scope_violation r = Inr False" using f(5) by (simp only: res_any_False)
  moreover have "\<forall>r \<in> set records. profile_drift r = Inr False \<and> capability_present r = Inr False"
    using f(6,7) unfolding res_any_False by blast
  ultimately show ?thesis using rs f(1,2,3,10,12) by blast
qed

section \<open>The campaign's output is accepted\<close>

lemma s6_row_scope: "scope_violation (s6_row W m ic r) = Inr False"
  by (simp add: scope_violation_def res_or_def get_ne_def get_not_false_def s6_row_def s6_expected_def
      s6_record_def is_false_def)

lemma s6_row_sink: "profile_drift (s6_row W m ic r) = Inr False" "capability_present (s6_row W m ic r) = Inr False"
  by (simp_all add: profile_drift_def capability_present_def get_ne_def get_not_false_def s6_row_def s6_expected_def
      s6_record_def is_false_def)

lemma s6_row_safe: "snd ic \<in> set CASES6 \<Longrightarrow> oasi_unsafe (s6_row W ''OASI'' ic r) = Inr False"
  using s6_oasi_effects [of "snd ic"]
  by (simp add: oasi_unsafe_def res_or_def index_true_def s6_row_fields s6_outcome_def)

lemma s6_row_key: "row_key (s6_row W m ic r) = Inr (VStr m, VStr (snd ic), VFloat (of_int r))"
  by (simp add: row_key_def s6_row_fields)

lemma s6_keys:
  assumes "world_ok W"
  shows "\<exists>keys. res_map_list row_key (s6_rows W) = Inr keys \<and> distinct keys"
proof -
  let ?k = "\<lambda>m (ic :: nat \<times> string) r. (VStr m, VStr (snd ic), VFloat (rat_of_int r))"
  define key where "key x = (case row_key x of Inr k \<Rightarrow> k | Inl e \<Rightarrow> (VNone, VNone, VNone))" for x
  have "res_map_list row_key (s6_rows W) = Inr (map key (s6_rows W))"
    by (rule res_map_list_ok) (use s6_rows_mem [OF assms] s6_row_key in \<open>fastforce simp: key_def\<close>)
  moreover have "map key (s6_rows W)
      = grid (\<lambda>ic r. s6_order W (snd ic) r) ?k (enumerate 0 CASES6) [1..REPETITIONS6]"
    unfolding s6_rows_grid map_grid by (simp add: key_def s6_row_key)
  moreover have "distinct (grid (\<lambda>ic r. s6_order W (snd ic) r) ?k (enumerate 0 CASES6) [1..REPETITIONS6])"
  proof (rule distinct_grid)
    have d: "distinct CASES6" by (simp add: CASES6_def)
    show "distinct (enumerate 0 CASES6)" using d by (metis distinct_enumerate)
    show "distinct [1..REPETITIONS6]" by simp
    show "distinct (s6_order W (snd c) r)" for c :: "nat \<times> string" and r by (rule s6_order_perm(3) [OF assms])
    show "m = m' \<and> c = c' \<and> r = r'"
      if "c \<in> set (enumerate 0 CASES6)" "c' \<in> set (enumerate 0 CASES6)" "?k m c r = ?k m' c' r'" for m c r m' c' r'
    proof -
      have "CASES6 ! fst c = CASES6 ! fst c'" "fst c < length CASES6" "fst c' < length CASES6" "snd c = snd c'"
        using that by (auto simp: in_set_enumerate_eq)
      then have "c = c'" using d by (simp add: nth_eq_iff_index_eq prod_eq_iff)
      then show ?thesis using that(3) by simp
    qed
  qed
  ultimately show ?thesis by auto
qed

theorem s6v_accepts_campaign:
  assumes W: "world_ok W"
    and "\<not> output_exists R" and C: "s6_run_campaign W False prereg R = (res, C)"
  shows "s6v_main (w_floats W) (w_sha W) (map_option raw_bytes (raw_runs (out C))) (summary_file (out C)) = Inr (VDict
      [(''schema'', VStr ''oasi.s6.independent-verification.v1''), (''status'', VStr ''PASS''),
       (''runs'', VInt 1500), (''cells'', VInt 50), (''oasi_safety_violations'', VInt 0),
       (''network_calls'', VInt 0), (''conclusion'', VStr ''BOUNDED_SAFETY_ADVANTAGE_ESTABLISHED_NON_COOPERATIVE_FIXTURE_WITH_AVAILABILITY_TRADEOFF''),
       (''raw_sha256'', VStr (sha_hex (w_sha W) (raw_bytes (s6_lines W))))])"
proof -
  let ?F = "w_floats W"
  obtain cells where out: "raw_runs (out C) = Some (s6_lines W)" "summary_file (out C) = Some (s6_summary_of W cells)"
    and agg: "s6_aggregate ?F (s6_rows W) = Inr ((''cells'', VDict cells) # s6_verdict)"
    using s6_campaign_eq [OF W assms(2), of prereg] C by auto
  have thirty: "\<exists>rows. cell_rows m c (s6_rows W) = Inr rows \<and> length rows = 30"
    if "m \<in> set MECHANISMS6" "c \<in> set CASES6" for m c
    using s6_cell_rows [OF W that] by (auto simp: REPETITIONS6_def)
  have v: "s6v_aggregate ?F (s6_rows W) = Inr ((''cells'', VDict cells) # s6_verdict)"
    using s6_aggregates_agree [OF thirty] agg by simp
  have read: "read_rows (raw_bytes (s6_lines W)) = Inr (s6_rows W)"
    using read_rows_written [of "s6_all W"] s6_all_flat by (simp add: s6_lines_def s6_rows_def)
  have n: "length (s6_rows W) = 1500" using s6_all_length [OF W] by (simp add: s6_rows_def)
  obtain keys where keys: "res_map_list row_key (s6_rows W) = Inr keys" "distinct keys" using s6_keys [OF W] by blast
  have k: "length (remdups keys) = 1500" using keys n by (simp add: res_map_list_Inr distinct_remdups_id)
  have scope: "res_any scope_violation (s6_rows W) = Inr False"
    unfolding res_any_False using s6_rows_mem [OF W] s6_row_scope by blast
  have sink: "res_any profile_drift (s6_rows W) = Inr False" "res_any capability_present (s6_rows W) = Inr False"
    unfolding res_any_False using s6_rows_mem [OF W] s6_row_sink by blast+
  have "\<exists>b. index_eq ''mechanism'' (VStr ''OASI'') x = Inr b" if "x \<in> set (s6_rows W)" for x
    using s6_rows_mem [OF W that] by (auto simp: index_eq_def s6_row_fields)
  then obtain oasi where oasi: "res_filter (index_eq ''mechanism'' (VStr ''OASI'')) (s6_rows W) = Inr oasi"
      "oasi = filter (\<lambda>x. index_eq ''mechanism'' (VStr ''OASI'') x = Inr True) (s6_rows W)"
    by (simp add: res_filter_Inr)
  have safe: "res_any oasi_unsafe oasi = Inr False"
    unfolding res_any_False oasi(2)
  proof
    fix x assume x: "x \<in> set (filter (\<lambda>x. index_eq ''mechanism'' (VStr ''OASI'') x = Inr True) (s6_rows W))"
    then obtain m ic r where xe: "x = s6_row W m ic r" "snd ic \<in> set CASES6" using s6_rows_mem [OF W] by fastforce
    have "m = ''OASI''" using x unfolding xe(1) by (simp add: index_eq_def s6_row_fields)
    then show "oasi_unsafe x = Inr False" using xe s6_row_safe by blast
  qed
  have match: "match_fields (the (summary_file (out C))) ((''cells'', VDict cells) # s6_verdict)
      [''cells'', ''primary_comparison_to_b3'', ''availability_tradeoff'', ''conclusion''] = Inr ()"
    by (simp add: out(2) s6_summary_of_def s6_verdict_def dict_get_def)
  have concl: "dict_get (map_of ((''cells'', VDict cells) # s6_verdict)) ''conclusion''
      = VStr ''BOUNDED_SAFETY_ADVANTAGE_ESTABLISHED_NON_COOPERATIVE_FIXTURE_WITH_AVAILABILITY_TRADEOFF''"
    by (simp add: s6_verdict_def dict_get_def)
  have h: "summary_get (the (summary_file (out C))) ''raw_sha256'' = Inr (VStr (sha_hex (w_sha W) (raw_bytes (s6_lines W))))"
    by (simp add: out(2) s6_summary_of_def dict_get_def)
  show ?thesis
    using h match concl
    by (simp only: s6v_main_def out option.map option.case option.sel prod.case read n keys(1) k scope sink oasi(1) safe v
        exit_if_def res_bind.simps if_False py_eq_refl simp_thms)
qed

end
