(* ===== verification/S5_Runs.thy ===== *)
theory S5_Runs
  imports Run_Dir
begin

text \<open>
  The three mechanisms of \<open>experiments/s5/experiment.py\<close> (stateless, coordinated, OASI) over the
  cooperative sink, branch by branch, and the table of what each does in each fault case.
\<close>

definition MECHANISMS5 :: "string list" where
  "MECHANISMS5 = [''B0_DIRECT'', ''B1_AUTH_STATELESS'', ''B2_AT_LEAST_ONCE'', ''B3_IDEMPOTENT'', ''OASI'']"

definition CASES5 :: "string list" where
  "CASES5 = [''nominal'', ''replay'', ''cross_generation'', ''altered_signature'', ''crash_prepared'',
     ''crash_consumed'', ''crash_after_effect_before_result'', ''torn_write'']"

type_synonym s5_dir = "effect_sink run_dir"

definition s5_apply :: "string \<Rightarrow> bool \<Rightarrow> (s5_dir, unit) act" where
  "s5_apply key idempotent = on_sink (\<lambda>s. snd (effect_sink_apply key ''NOOP'' idempotent s))"

section \<open>B0 and B1: no state\<close>

definition s5_dispatch ::
  "(bytes \<Rightarrow> bytes \<Rightarrow> bytes \<Rightarrow> bool) \<Rightarrow> bool \<Rightarrow> frame \<Rightarrow> int \<Rightarrow> string \<Rightarrow> string \<Rightarrow> (s5_dir, unit) act" where
  "s5_dispatch ver authenticated candidate expected_generation context key =
     act_then (if authenticated then of_result (verify_frame ver candidate expected_generation context 1)
               else act_return ())
       (s5_apply key False)"

definition s5_run_stateless ::
  "(bytes \<Rightarrow> bytes \<Rightarrow> bytes \<Rightarrow> bool) \<Rightarrow> string \<Rightarrow> string \<Rightarrow> frame \<Rightarrow> int \<Rightarrow> string \<Rightarrow> string
    \<Rightarrow> (s5_dir, outcome) act" where
  "s5_run_stateless ver mechanism c frame generation context key =
     (let dispatch = (\<lambda>f g. s5_dispatch ver (mechanism = ''B1_AUTH_STATELESS'') f g context key);
          result = base_outcome
      in if c = ''nominal'' then act_then (dispatch frame generation) (act_return result)
         else if c = ''replay'' then
           act_then (dispatch frame generation) (act_then (dispatch frame generation)
             (act_return (result\<lparr>replay_accepted := True\<rparr>)))
         else if c = ''cross_generation'' then
           act_try (act_then (dispatch frame (generation + 1))
               (act_return (result\<lparr>cross_generation_accepted := True\<rparr>)))
             is_AuthReject (\<lambda>_. act_return (result\<lparr>disposition := ''REJECTED_BINDING''\<rparr>))
         else if c = ''altered_signature'' then
           act_try (act_bind (of_result (mutate_signature frame)) (\<lambda>f. act_then (dispatch f generation)
               (act_return (result\<lparr>altered_signature_accepted := True\<rparr>))))
             is_AuthReject (\<lambda>_. act_return (result\<lparr>disposition := ''REJECTED_SIGNATURE''\<rparr>))
         else if c \<in> {''crash_prepared'', ''crash_consumed''} then
           act_then (dispatch frame generation)
             (act_return (result\<lparr>disposition := ''RECOVERED_BY_REDISPATCH''\<rparr>))
         else if c \<in> {''crash_after_effect_before_result'', ''torn_write''} then
           act_then (dispatch frame generation) (act_then (dispatch frame generation)
             (act_return (result\<lparr>disposition := ''RECOVERED_BY_REDISPATCH''\<rparr>)))
         else act_raise (ExperimentError ''unknown case''))"

section \<open>B2 and B3: a coordinator\<close>

definition s5_run_coordinated ::
  "(bytes \<Rightarrow> bytes) \<Rightarrow> (jobs \<Rightarrow> bytes) \<Rightarrow> (bytes \<Rightarrow> bytes \<Rightarrow> bytes \<Rightarrow> bool) \<Rightarrow> string \<Rightarrow> string \<Rightarrow> frame
    \<Rightarrow> int \<Rightarrow> string \<Rightarrow> string \<Rightarrow> (s5_dir, outcome) act" where
  "s5_run_coordinated sha imc ver mechanism c frame generation context key =
     (let idempotent = (mechanism = ''B3_IDEMPOTENT''); result = base_outcome;
          open_store = on_store (store_open sha imc);
          put = s5_apply key idempotent;
          store_done = on_store (store_result sha imc key)
      in if c = ''cross_generation'' then reject_cross ver frame generation context
         else if c = ''altered_signature'' then reject_altered ver frame generation context
         else act_then (of_result (verify_frame ver frame generation context 1))
           (act_then open_store (act_then (on_store (store_prepare sha imc key))
           (if c = ''crash_prepared'' then
              act_then open_store (act_then put (act_then store_done
                (act_return (result\<lparr>disposition := ''RECOVERED_FROM_READY''\<rparr>))))
            else if c = ''crash_consumed'' then
              act_then open_store (act_then put (act_then store_done
                (act_return (result\<lparr>disposition := ''RECOVERED_FROM_READY_NO_CONSUMED_PHASE''\<rparr>))))
            else if c = ''crash_after_effect_before_result'' then
              act_then put (act_then open_store (act_then put (act_then store_done
                (act_return (result\<lparr>disposition := ''RECOVERED_FROM_READY''\<rparr>)))))
            else if c = ''torn_write'' then
              act_then put (act_then (on_store store_corrupt)
                (act_then (expect_torn open_store (ExperimentError ''torn coordinator accepted'')
                    is_ExperimentError)
                  (act_return (result\<lparr>disposition := ''BLOCKED_TORN_LEDGER''\<rparr>))))
            else
              act_then put (act_then store_done
                (if c = ''replay'' then
                   act_then open_store (act_bind (on_store (store_state sha imc key)) (\<lambda>s.
                     if s \<noteq> ''RESULT'' then act_raise (ExperimentError ''lost result'')
                     else act_return (result\<lparr>disposition := ''REPLAY_REJECTED_RESULT_EXISTS''\<rparr>)))
                 else act_return result))))))"

section \<open>OASI: the ledger\<close>

definition s5_oasi_steps ::
  "(bytes \<Rightarrow> bytes) \<Rightarrow> (ledger_db \<Rightarrow> bytes) \<Rightarrow> string \<Rightarrow> string \<Rightarrow> (s5_dir, outcome) act" where
  "s5_oasi_steps sha iml c key =
     (let result = base_outcome;
          reopen = act_then (in_ledger ledger_close) (in_ledger (ledger_open sha iml));
          consume = in_ledger (ledger_consume sha iml);
          put = s5_apply key False
      in act_then (in_ledger (ledger_prepare sha iml))
        (if c = ''crash_prepared'' then
           act_then reopen (act_then (expect_recovery sha ''ABORT_WITHOUT_EFFECT'' ''prepared recovery drift'')
             (act_return (result\<lparr>disposition := ''ABORT_WITHOUT_EFFECT''\<rparr>)))
         else if c = ''crash_consumed'' then
           act_then consume (act_then reopen
             (act_then (expect_recovery sha ''BLOCK_NO_REDISPATCH'' ''consumed recovery drift'')
               (act_return (result\<lparr>disposition := ''BLOCK_NO_REDISPATCH''\<rparr>))))
         else if c = ''crash_after_effect_before_result'' then
           act_then consume (act_then put (act_then reopen
             (act_then (expect_recovery sha ''BLOCK_NO_REDISPATCH'' ''post-effect recovery drift'')
               (act_return (result\<lparr>disposition := ''BLOCK_NO_REDISPATCH''\<rparr>)))))
         else if c = ''torn_write'' then
           act_then consume (act_then put (act_then (in_ledger ledger_close) (act_then append_torn
             (act_then (expect_torn (in_ledger (ledger_open sha iml))
                 (ExperimentError ''torn OASI ledger accepted'') is_ProtocolError)
               (act_return (result\<lparr>disposition := ''BLOCKED_TORN_LEDGER''\<rparr>))))))
         else
           act_then consume (act_then put
             (act_then (in_ledger (ledger_record_result sha iml (sha_hex sha (ascii key))))
             (act_then (in_ledger (ledger_terminal sha iml))
               (if c = ''replay'' then
                  act_try (act_then consume (act_return (result\<lparr>replay_accepted := True\<rparr>)))
                    is_ProtocolError
                    (\<lambda>_. act_return (result\<lparr>disposition := ''REPLAY_REJECTED_TERMINAL''\<rparr>))
                else act_return result))))))"

definition s5_run_oasi ::
  "(bytes \<Rightarrow> bytes) \<Rightarrow> (ledger_db \<Rightarrow> bytes) \<Rightarrow> (bytes \<Rightarrow> bytes \<Rightarrow> bytes \<Rightarrow> bool) \<Rightarrow> string \<Rightarrow> frame
    \<Rightarrow> int \<Rightarrow> string \<Rightarrow> string \<Rightarrow> (s5_dir, outcome) act" where
  "s5_run_oasi sha iml ver c frame generation context key =
     (if c = ''cross_generation'' then reject_cross ver frame generation context
      else if c = ''altered_signature'' then reject_altered ver frame generation context
      else act_then (of_result (verify_frame ver frame generation context 1))
        (act_then (in_ledger (ledger_open sha iml))
          (act_finally (s5_oasi_steps sha iml c key) close_ledger)))"

text \<open>The dispatch on the mechanism, inside \<open>run_one\<close>.\<close>

definition s5_run ::
  "(bytes \<Rightarrow> bytes) \<Rightarrow> (ledger_db \<Rightarrow> bytes) \<Rightarrow> (jobs \<Rightarrow> bytes) \<Rightarrow> (bytes \<Rightarrow> bytes \<Rightarrow> bytes \<Rightarrow> bool)
    \<Rightarrow> string \<Rightarrow> string \<Rightarrow> frame \<Rightarrow> int \<Rightarrow> string \<Rightarrow> string \<Rightarrow> (s5_dir, outcome) act" where
  "s5_run sha iml imc ver mechanism c frame generation context key =
     (if mechanism \<in> {''B0_DIRECT'', ''B1_AUTH_STATELESS''}
      then s5_run_stateless ver mechanism c frame generation context key
      else if mechanism \<in> {''B2_AT_LEAST_ONCE'', ''B3_IDEMPOTENT''}
      then s5_run_coordinated sha imc ver mechanism c frame generation context key
      else s5_run_oasi sha iml ver c frame generation context key)"

section \<open>What every run does\<close>

text \<open>The number of effects, per mechanism in the order of \<open>CASES5\<close>.\<close>

definition s5_effects :: "string \<Rightarrow> string \<Rightarrow> nat" where
  "s5_effects m c =
     (let row = (if m = ''B0_DIRECT'' then [1, 2, 1, 1, 1, 1, 2, 2]
                 else if m = ''B1_AUTH_STATELESS'' then [1, 2, 0, 0, 1, 1, 2, 2]
                 else if m = ''B2_AT_LEAST_ONCE'' then [1, 1, 0, 0, 1, 1, 2, 1]
                 else if m = ''B3_IDEMPOTENT'' then [1, 1, 0, 0, 1, 1, 1, 1]
                 else [1, 1, 0, 0, 0, 0, 1, 1])
      in the (map_of (zip CASES5 row) c))"

definition s5_disposition :: "string \<Rightarrow> string \<Rightarrow> string" where
  "s5_disposition m c =
     (let redo = ''RECOVERED_BY_REDISPATCH''; ready = ''RECOVERED_FROM_READY'';
          torn = ''BLOCKED_TORN_LEDGER''; block = ''BLOCK_NO_REDISPATCH'';
          bind = ''REJECTED_BINDING''; sign = ''REJECTED_SIGNATURE''; complete = ''COMPLETE'';
          coordinated = [complete, ''REPLAY_REJECTED_RESULT_EXISTS'', bind, sign, ready,
             ''RECOVERED_FROM_READY_NO_CONSUMED_PHASE'', ready, torn];
          row = (if m = ''B0_DIRECT'' then [complete, complete, complete, complete, redo, redo, redo, redo]
                 else if m = ''B1_AUTH_STATELESS'' then [complete, complete, bind, sign, redo, redo, redo, redo]
                 else if m \<in> {''B2_AT_LEAST_ONCE'', ''B3_IDEMPOTENT''} then coordinated
                 else [complete, ''REPLAY_REJECTED_TERMINAL'', bind, sign, ''ABORT_WITHOUT_EFFECT'',
                       block, block, torn])
      in the (map_of (zip CASES5 row) c))"

definition s5_outcome :: "string \<Rightarrow> string \<Rightarrow> outcome" where
  "s5_outcome m c = \<lparr>disposition = s5_disposition m c,
     replay_accepted = (m \<in> {''B0_DIRECT'', ''B1_AUTH_STATELESS''} \<and> c = ''replay''),
     cross_generation_accepted = (m = ''B0_DIRECT'' \<and> c = ''cross_generation''),
     altered_signature_accepted = (m = ''B0_DIRECT'' \<and> c = ''altered_signature'')\<rparr>"

lemma cases5E:
  assumes "c \<in> set CASES5"
  obtains "c = ''nominal''" | "c = ''replay''" | "c = ''cross_generation''" | "c = ''altered_signature''"
    | "c = ''crash_prepared''" | "c = ''crash_consumed''" | "c = ''crash_after_effect_before_result''"
    | "c = ''torn_write''"
  using assms unfolding CASES5_def list.set insert_iff empty_iff by - (elim disjE FalseE; erule that)

lemma mechanisms5E:
  assumes "m \<in> set MECHANISMS5"
  obtains "m = ''B0_DIRECT''" | "m = ''B1_AUTH_STATELESS''" | "m = ''B2_AT_LEAST_ONCE''"
    | "m = ''B3_IDEMPOTENT''" | "m = ''OASI''"
  using assms unfolding MECHANISMS5_def list.set insert_iff empty_iff by - (elim disjE FalseE; erule that)

lemmas s5_tables = s5_effects_def s5_outcome_def s5_disposition_def CASES5_def base_outcome_def

lemmas s5_eval = run_defs new_run_dir_def s5_apply_def effect_sink_apply_def new_effect_sink_def
  effect_sink_count_def

lemma s5_stateless_outcome:
  assumes "ed25519_pair sg ver" and "c \<in> set CASES5" and "m \<in> {''B0_DIRECT'', ''B1_AUTH_STATELESS''}"
  shows "\<exists>D. s5_run_stateless ver m c (make_frame sha sg g ctx 1 seed) g ctx key (new_run_dir new_effect_sink)
      = (Inr (s5_outcome m c), D) \<and> effect_sink_count (dir_sink D) = s5_effects m c"
proof -
  obtain f where f: "mutate_signature (make_frame sha sg g ctx 1 seed) = Inr f"
      "verify_frame ver f g ctx 1 = Inl (AuthReject ''signature'')"
    using verify_mutated [OF assms(1)] by blast
  note e = s5_run_stateless_def Let_def s5_dispatch_def s5_eval s5_tables f verify_intact [OF assms(1)]
  have "m = ''B0_DIRECT'' \<or> m = ''B1_AUTH_STATELESS''" using assms(3) by (simp only: insert_iff empty_iff simp_thms)
  with assms(2) show ?thesis by (elim cases5E disjE) (simp_all add: e)
qed

lemma s5_coordinated_outcome:
  assumes "fixture sha iml imc sg ver" and "c \<in> set CASES5" and "m \<in> {''B2_AT_LEAST_ONCE'', ''B3_IDEMPOTENT''}"
  shows "\<exists>D. s5_run_coordinated sha imc ver m c (make_frame sha sg g ctx 1 seed) g ctx key
        (new_run_dir new_effect_sink)
      = (Inr (s5_outcome m c), D) \<and> effect_sink_count (dir_sink D) = s5_effects m c"
proof -
  note fx = fixtureD(1,3) [OF assms(1)]
  note torn = store_open_corrupt [OF fx(2), unfolded store_corrupt_def snd_conv]
  note e = s5_run_coordinated_def Let_def s5_eval s5_tables verify_intact [OF fx(1)]
    reject_cross_eq [OF fx(1)] reject_altered_eq [OF fx(1)] undisturbed expect_torn_def store_corrupt_def torn
  have "m = ''B2_AT_LEAST_ONCE'' \<or> m = ''B3_IDEMPOTENT''" using assms(3) by (simp only: insert_iff empty_iff simp_thms)
  with assms(2) show ?thesis by (elim cases5E disjE) (simp_all add: e)
qed

lemma s5_oasi_outcome:
  assumes "fixture sha iml imc sg ver" and "c \<in> set CASES5"
  shows "\<exists>D. s5_run_oasi sha iml ver c (make_frame sha sg g ctx 1 seed) g ctx key
        (new_run_dir new_effect_sink)
      = (Inr (s5_outcome ''OASI'' c), D) \<and> effect_sink_count (dir_sink D) = s5_effects ''OASI'' c"
proof -
  note fx = fixtureD(1,2) [OF assms(1)] and d = fixtureD(4) [OF assms(1)]
  note e = s5_run_oasi_def s5_oasi_steps_def Let_def s5_eval s5_tables verify_intact [OF fx(1)]
    reject_cross_eq [OF fx(1)] reject_altered_eq [OF fx(1)] undisturbed expect_torn_def expect_recovery_def
    append_torn_eq ledger_open_torn [OF fx(2)] close_ledger_def d
  from assms(2) show ?thesis by (elim cases5E) (simp_all add: e)
qed
lemma s5_run_outcome:
  assumes "fixture sha iml imc sg ver" and "c \<in> set CASES5" and "m \<in> set MECHANISMS5"
  shows "\<exists>D. s5_run sha iml imc ver m c (make_frame sha sg g ctx 1 seed) g ctx key
        (new_run_dir new_effect_sink)
      = (Inr (s5_outcome m c), D) \<and> effect_sink_count (dir_sink D) = s5_effects m c"
proof -
  have ed: "ed25519_pair sg ver" using assms(1) by (simp add: fixture_def)
  from assms(3) show ?thesis
    by (elim mechanisms5E)
      (use s5_stateless_outcome [OF ed assms(2), of m sha] s5_coordinated_outcome [OF assms(1,2), of m]
        s5_oasi_outcome [OF assms(1,2)] in \<open>simp_all add: s5_run_def\<close>)
qed

text \<open>
  Whatever the case name, the state of the directory and the answers of the seal are: one OASI run
  adds at most one effect.
\<close>

lemma adds_s5_apply: "adds_at_most effect_sink_count 1 (s5_apply key False)"
  by (simp add: adds_at_most_def s5_apply_def on_sink_def effect_sink_apply_def effect_sink_count_def)

lemma s5_oasi_adds:
  "adds_at_most effect_sink_count 1 (s5_run_oasi sha iml ver c f g ctx key)"
  unfolding s5_run_oasi_def s5_oasi_steps_def Let_def
  by (simp only: adds_rules adds_quiet_blocks adds_s5_apply)

end
