(* ===== verification/S5_Campaign.thy ===== *)
theory S5_Campaign
  imports S5_Runs Campaign_Base
begin

text \<open>
  The campaign of \<open>experiments/s5/experiment.py\<close>: the record of one run with its validation, the
  aggregate, and \<open>run_campaign\<close> with the files it leaves in the output directory.
\<close>

definition ROOT_SEED5 :: int where "ROOT_SEED5 = 20260902"
definition WARMUPS5 :: int where "WARMUPS5 = 5"
definition REPETITIONS5 :: int where "REPETITIONS5 = 30"

section \<open>One run\<close>

text \<open>\<open>validate_record(record)\<close>: the list of violations; \<open>int()\<close> of the count may raise.\<close>

definition s5_validate_record :: "(string \<rightharpoonup> pyval) \<Rightarrow> exn + string list" where
  "s5_validate_record d =
     (let flag = (\<lambda>b name. if b then [name] else []);
          mechanism = dict_get d ''mechanism'';
          count = (case d ''effect_count'' of None \<Rightarrow> VInt (- 1) | Some v \<Rightarrow> v)
      in res_bind (py_int count) (\<lambda>n. Inr (
           flag (\<not> list_ex (\<lambda>m. py_eq mechanism (VStr m)) MECHANISMS5) ''mechanism''
           @ flag (\<not> list_ex (\<lambda>c. py_eq (dict_get d ''case'') (VStr c)) CASES5) ''case''
           @ flag (\<not> is_int_instance (dict_get d ''effect_count'')) ''effect_count''
           @ flag (\<not> py_eq (dict_get d ''double_effect'') (VBool (1 < n))) ''double_effect''
           @ flag (\<not> is_false (dict_get d ''real_effect'') \<or> \<not> py_eq (dict_get d ''network_calls'') (VInt 0)) ''scope''
           @ (if py_eq mechanism (VStr ''OASI'') then
                flag (is_true (dict_get d ''double_effect'')) ''OASI_DOUBLE_EFFECT''
                @ flag (is_true (dict_get d ''replay_accepted'')) ''OASI_REPLAY_ACCEPTED''
                @ flag (is_true (dict_get d ''cross_generation_accepted'')) ''OASI_CROSS_GENERATION_ACCEPTED''
                @ flag (is_true (dict_get d ''altered_signature_accepted'')) ''OASI_ALTERED_SIGNATURE_ACCEPTED''
              else []))))"

definition s5_terminal_dispositions :: "string list" where
  "s5_terminal_dispositions =
     [''COMPLETE'', ''REJECTED_BINDING'', ''REJECTED_SIGNATURE'', ''RECOVERED_BY_REDISPATCH'',
      ''RECOVERED_FROM_READY'', ''RECOVERED_FROM_READY_NO_CONSUMED_PHASE'', ''BLOCKED_TORN_LEDGER'',
      ''REPLAY_REJECTED_RESULT_EXISTS'', ''REPLAY_REJECTED_TERMINAL'', ''ABORT_WITHOUT_EFFECT'',
      ''BLOCK_NO_REDISPATCH'']"

definition s5_record ::
  "string \<Rightarrow> string \<Rightarrow> int \<Rightarrow> int \<Rightarrow> meters \<Rightarrow> nat \<Rightarrow> outcome \<Rightarrow> (string \<times> pyval) list" where
  "s5_record mechanism c repetition seed mt effect_count oc =
     [(''schema'', VStr ''oasi.s5.run.v1''),
      (''mechanism'', VStr mechanism),
      (''case'', VStr c),
      (''repetition'', VInt repetition),
      (''seed'', VInt seed),
      (''effect_count'', VInt (int effect_count)),
      (''double_effect'', VBool (1 < effect_count)),
      (''delivered_exactly_once'', VBool (effect_count = 1)),
      (''deterministic_terminal'', VBool (disposition oc \<in> set s5_terminal_dispositions)),
      (''wall_ns'', VInt (wall_ns mt)),
      (''cpu_ns'', VInt (cpu_ns mt)),
      (''python_heap_peak_bytes'', VInt (heap_peak mt)),
      (''rss_delta_bytes'', VInt (rss_after mt - rss_before mt)),
      (''artifact_bytes'', VInt (artifact_bytes mt)),
      (''network_calls'', VInt 0),
      (''real_effect'', VBool False),
      (''disposition'', VStr (disposition oc)),
      (''replay_accepted'', VBool (replay_accepted oc)),
      (''cross_generation_accepted'', VBool (cross_generation_accepted oc)),
      (''altered_signature_accepted'', VBool (altered_signature_accepted oc))]"

definition s5_context :: "(bytes \<Rightarrow> bytes) \<Rightarrow> string \<Rightarrow> int \<Rightarrow> string" where
  "s5_context sha c repetition = sha_hex sha (ascii (''OASI:S5:'' @ c @ '':'' @ str_int repetition))"

definition s5_run_one ::
  "(bytes \<Rightarrow> bytes) \<Rightarrow> (ledger_db \<Rightarrow> bytes) \<Rightarrow> (jobs \<Rightarrow> bytes) \<Rightarrow> (bytes \<Rightarrow> bytes \<Rightarrow> bytes)
    \<Rightarrow> (bytes \<Rightarrow> bytes \<Rightarrow> bytes \<Rightarrow> bool) \<Rightarrow> meters \<Rightarrow> string \<Rightarrow> string \<Rightarrow> int \<Rightarrow> int
    \<Rightarrow> exn + (string \<times> pyval) list" where
  "s5_run_one sha iml imc sg ver mt mechanism c repetition seed =
     (let generation = 100000 + seed;
          context = s5_context sha c repetition;
          key = str_int generation @ '':'' @ context @ '':1'';
          frame = make_frame sha sg generation context 1 seed
      in case s5_run sha iml imc ver mechanism c frame generation context key (new_run_dir new_effect_sink) of
           (Inl e, D) \<Rightarrow> Inl e
         | (Inr oc, D) \<Rightarrow>
             let record = s5_record mechanism c repetition seed mt (effect_sink_count (dir_sink D)) oc
             in res_bind (s5_validate_record (map_of record)) (\<lambda>errors.
                  if errors \<noteq> [] then Inl (ExperimentError (''record violation: '' @ py_join '','' errors))
                  else Inr record))"

section \<open>The aggregate\<close>

definition s5_cell ::
  "floats \<Rightarrow> (int list \<Rightarrow> rat \<Rightarrow> exn + int) \<Rightarrow> (rat \<Rightarrow> rat) \<Rightarrow> row list \<Rightarrow> exn + (string \<times> pyval) list" where
  "s5_cell F nearest_rank sqroot rows =
     res_bind (res_map_list (index_int ''wall_ns'') rows) (\<lambda>walls.
     res_bind (res_map_list (index_int ''cpu_ns'') rows) (\<lambda>cpus.
     res_bind (res_count (index_true ''double_effect'') rows) (\<lambda>doubles.
     res_bind (res_count (index_true ''delivered_exactly_once'') rows) (\<lambda>exact.
     let n = int (length rows); accepted = (\<lambda>k. res_map VInt (res_count (index_true k) rows)) in
     res_members
      [(''runs'', Inr (VInt n)),
       (''double_effects'', Inr (VInt doubles)),
       (''double_effect_rate'', rate F doubles n),
       (''double_effect_wilson95'', wilson F sqroot doubles n),
       (''delivered_exactly_once'', Inr (VInt exact)),
       (''delivery_rate'', rate F exact n),
       (''delivery_wilson95'', wilson F sqroot exact n),
       (''replay_accepted'', accepted ''replay_accepted''),
       (''cross_generation_accepted'', accepted ''cross_generation_accepted''),
       (''altered_signature_accepted'', accepted ''altered_signature_accepted''),
       (''wall_ns_mean'', mean3 F walls),
       (''wall_ns_p50'', res_map VInt (nearest_rank walls (1 / 2))),
       (''wall_ns_p95'', res_map VInt (nearest_rank walls (95 / 100))),
       (''wall_ns_p99'', res_map VInt (nearest_rank walls (99 / 100))),
       (''cpu_ns_mean'', mean3 F cpus),
       (''heap_peak_bytes_max'',
          res_bind (res_map_list (index_int ''python_heap_peak_bytes'') rows) py_max),
       (''rss_delta_bytes_max'', res_bind (res_map_list (index_int ''rss_delta_bytes'') rows) py_max),
       (''artifact_bytes_mean'',
          res_bind (res_map_list (index_int ''artifact_bytes'') rows) (mean3 F))]))))"

text \<open>\<open>sum(bool(r[field]) for r in records if r["mechanism"] == mechanism)\<close>\<close>

definition sum_where :: "string \<Rightarrow> string \<Rightarrow> row list \<Rightarrow> exn + int" where
  "sum_where field mechanism records = res_bind (res_filter (index_eq ''mechanism'' (VStr mechanism)) records)
     (res_count (index_true field))"

definition s5_comparison :: "row list \<Rightarrow> exn + (string \<times> pyval) list" where
  "s5_comparison records =
     res_bind (sum_where ''double_effect'' ''B3_IDEMPOTENT'' records) (\<lambda>b3_double.
     res_bind (sum_where ''double_effect'' ''OASI'' records) (\<lambda>oasi_double.
     res_bind (sum_where ''delivered_exactly_once'' ''B3_IDEMPOTENT'' records) (\<lambda>b3_delivery.
     res_bind (sum_where ''delivered_exactly_once'' ''OASI'' records) (\<lambda>oasi_delivery.
     let advantage = (oasi_double < b3_double \<and> b3_delivery \<le> oasi_delivery) in
     Inr [(''comparison_to_b3'', VDict
             [(''b3_double_effects'', VInt b3_double),
              (''oasi_double_effects'', VInt oasi_double),
              (''b3_exact_deliveries'', VInt b3_delivery),
              (''oasi_exact_deliveries'', VInt oasi_delivery),
              (''global_advantage_established'', VBool advantage)]),
          (''conclusion'', VStr (if advantage then ''OASI_ADVANTAGE_ESTABLISHED_IN_THIS_LOCAL_MODEL''
             else ''MECHANISM_ADVANTAGE_NOT_ESTABLISHED_AGAINST_B3''))]))))"

definition s5_aggregate :: "floats \<Rightarrow> row list \<Rightarrow> exn + (string \<times> pyval) list" where
  "s5_aggregate F records =
     res_bind (res_map_list (\<lambda>(m, c). res_bind (cell_rows m c records) (\<lambda>rows.
         res_map (\<lambda>cell. (m @ ''|'' @ c, VDict cell)) (s5_cell F (nearest_rank_int F) (pow_half F) rows)))
       (List.product MECHANISMS5 CASES5)) (\<lambda>cells.
     res_map (\<lambda>comparison. (''cells'', VDict cells) # comparison) (s5_comparison records))"

section \<open>The campaign\<close>

definition s5_run_in :: "world \<Rightarrow> string \<Rightarrow> string \<Rightarrow> int \<Rightarrow> int \<Rightarrow> exn + (string \<times> pyval) list" where
  "s5_run_in W mechanism c repetition seed =
     s5_run_one (w_sha W) (w_iml W) (w_imc W) (w_sign W) (w_verify W) (w_meters W mechanism c repetition)
       mechanism c repetition seed"

definition s5_warmup :: "world \<Rightarrow> nat \<Rightarrow> string \<Rightarrow> string \<times> int \<Rightarrow> (campaign, unit) act" where
  "s5_warmup W i c x C = (case x of (mechanism, warmup) \<Rightarrow>
     (case s5_run_in W mechanism c (- warmup) (ROOT_SEED5 + int i * 1000 + 900 + warmup) of
        Inl e \<Rightarrow> (Inl e, C)
      | Inr _ \<Rightarrow> (Inr (), C\<lparr>warmups_done := warmups_done C + 1\<rparr>)))"

definition s5_measured :: "world \<Rightarrow> nat \<Rightarrow> string \<Rightarrow> int \<times> string \<Rightarrow> (campaign, unit) act" where
  "s5_measured W i c x C = (case x of (repetition, mechanism) \<Rightarrow>
     (case s5_run_in W mechanism c repetition (ROOT_SEED5 + int i * 1000 + repetition) of
        Inl e \<Rightarrow> (Inl e, C)
      | Inr record \<Rightarrow> write_line record (C\<lparr>recorded := recorded C @ [record]\<rparr>)))"

definition s5_order :: "world \<Rightarrow> string \<Rightarrow> int \<Rightarrow> string list" where
  "s5_order W c repetition =
     w_shuffle W (str_int ROOT_SEED5 @ '':'' @ c @ '':'' @ str_int repetition) MECHANISMS5"

definition s5_checkpoint :: "nat \<Rightarrow> (campaign, unit) act" where
  "s5_checkpoint i C = (Inr (), C\<lparr>out := (out C)\<lparr>checkpoint := Some (VDict
     [(''schema'', VStr ''oasi.s5.campaign-checkpoint.v1''),
      (''completed_cases'', VList (map VStr (take (i + 1) CASES5))),
      (''measured_runs'', VInt (int (length (recorded C)))),
      (''warmups_done'', VInt (warmups_done C))])\<rparr>\<rparr>)"

definition s5_case :: "world \<Rightarrow> nat \<times> string \<Rightarrow> (campaign, unit) act" where
  "s5_case W x = (case x of (i, c) \<Rightarrow>
     act_seq (map (s5_warmup W i c) (List.product MECHANISMS5 [1..WARMUPS5])
       @ map (s5_measured W i c) (concat (map (\<lambda>r. map (Pair r) (s5_order W c r)) [1..REPETITIONS5]))
       @ [s5_checkpoint i]))"

definition s5_summary :: "world \<Rightarrow> campaign \<Rightarrow> string list \<Rightarrow> exn + pyval" where
  "s5_summary W C lines = res_map (\<lambda>agg. VDict (
     [(''schema'', VStr ''oasi.s5.scientific-local-summary.v1''),
      (''mechanisms'', VList (map VStr MECHANISMS5)),
      (''cases'', VList (map VStr CASES5)),
      (''warmups_per_cell'', VInt WARMUPS5),
      (''repetitions_per_cell'', VInt REPETITIONS5),
      (''measured_runs'', VInt (int (length (recorded C)))),
      (''raw_sha256'', VStr (sha_hex (w_sha W) (raw_bytes lines))),
      (''local_only'', VBool True),
      (''fixture_only'', VBool True),
      (''network_calls'', VInt 0),
      (''real_effect'', VBool False),
      (''guest_or_qemu_measured'', VBool False),
      (''production_claim'', VBool False)] @ agg))
     (s5_aggregate (w_floats W) (map (\<lambda>m. Row (map_of m)) (recorded C)))"

definition s5_finish :: "world \<Rightarrow> (campaign, unit) act" where
  "s5_finish W C = (case raw_partial (out C) of
     None \<Rightarrow> (Inl (OSError ''no such file''), C)
   | Some lines \<Rightarrow>
       let C' = C\<lparr>out := (out C)\<lparr>raw_partial := None, raw_runs := Some lines\<rparr>\<rparr> in
       (case s5_summary W C' lines of
          Inl e \<Rightarrow> (Inl e, C')
        | Inr s \<Rightarrow> (Inr (), C'\<lparr>out := (out C')\<lparr>summary_file := Some s\<rparr>\<rparr>)))"

text \<open>
  \<open>run_campaign\<close>: on an existing output nothing is written; an existing scratch directory fails
  after the output directory has been made.
\<close>

definition s5_run_campaign :: "world \<Rightarrow> bool \<Rightarrow> string \<Rightarrow> results \<Rightarrow> (exn + unit) \<times> campaign" where
  "s5_run_campaign W scratch_exists preregistration R =
     (let start = (\<lambda>R. \<lparr>out = R, recorded = [], warmups_done = 0\<rparr>) in
      if output_exists R then (Inl (ExperimentError ''refusing replay: output''), start R)
      else let R1 = no_results\<lparr>output_exists := True\<rparr> in
        if scratch_exists then (Inl (OSError ''File exists''), start R1)
        else act_seq (map (s5_case W) (enumerate 0 CASES5) @ [s5_finish W])
               (start (R1\<lparr>locked := Some preregistration, raw_partial := Some []\<rparr>)))"

end
