(* ===== verification/S5_Verify.thy ===== *)
theory S5_Verify
  imports S5_Campaign_Props Wilson_Roots
begin

text \<open>
  The detached verifier \<open>experiments/s5/verify_results.py\<close>: its own aggregate, with the count of
  thirty rows per cell, and the checks of \<open>main\<close> in their order.  It agrees with the experiment's
  aggregate, accepts what the campaign writes, and what it accepts has the properties it checks.
\<close>

section \<open>The verifier\<close>

definition s5v_aggregate :: "floats \<Rightarrow> row list \<Rightarrow> exn + (string \<times> pyval) list" where
  "s5v_aggregate F records =
     res_bind (res_map_list (\<lambda>(m, c). res_bind (cell_rows m c records) (\<lambda>rows.
         if length rows \<noteq> 30
         then Inl (ValueError (''cell count '' @ m @ ''|'' @ c @ ''='' @ str_nat (length rows)))
         else res_map (\<lambda>cell. (m @ ''|'' @ c, VDict cell)) (s5_cell F (nearest_rank_ceil F) (fsqrt F) rows)))
       (List.product MECHANISMS5 CASES5)) (\<lambda>cells.
     res_map (\<lambda>comparison. (''cells'', VDict cells) # comparison) (s5_comparison records))"

definition s5v_main :: "floats \<Rightarrow> (bytes \<Rightarrow> bytes) \<Rightarrow> bytes option \<Rightarrow> pyval option \<Rightarrow> exn + pyval" where
  "s5v_main F sha raw_file summary_path =
     (case (raw_file, summary_path) of
        (Some raw, Some summary) \<Rightarrow>
          res_bind (read_rows raw) (\<lambda>records.
          exit_if (Inr (length records \<noteq> 1200)) (''run count '' @ str_nat (length records)) (\<lambda>_.
          res_bind (res_map_list row_key records) (\<lambda>keys.
          exit_if (Inr (length (remdups keys) \<noteq> 1200)) ''duplicate run tuple'' (\<lambda>_.
          exit_if (res_any scope_violation records) ''scope violation'' (\<lambda>_.
          res_bind (res_filter (index_eq ''mechanism'' (VStr ''OASI'')) records) (\<lambda>oasi.
          exit_if (res_any oasi_unsafe oasi) ''OASI safety violation'' (\<lambda>_.
          res_bind (summary_get summary ''raw_sha256'') (\<lambda>h.
          exit_if (Inr (\<not> py_eq h (VStr (sha_hex sha raw)))) ''raw hash mismatch'' (\<lambda>_.
          res_bind (s5v_aggregate F records) (\<lambda>recomputed.
          res_bind (match_fields summary recomputed [''cells'', ''comparison_to_b3'', ''conclusion'']) (\<lambda>_.
          Inr (VDict
            [(''schema'', VStr ''oasi.s5.independent-verification.v1''), (''status'', VStr ''PASS''),
             (''runs'', VInt 1200), (''cells'', VInt 40), (''oasi_safety_violations'', VInt 0),
             (''network_calls'', VInt 0), (''conclusion'', dict_get (map_of recomputed) ''conclusion''),
             (''raw_sha256'', VStr (sha_hex sha raw))]))))))))))))
      | _ \<Rightarrow> Inl (SystemExit ''missing results''))"

section \<open>Equivalence of the two aggregates\<close>

text \<open>A cell of thirty rows in which a flag is set nowhere or everywhere.\<close>

definition uniform_cell :: "row list \<Rightarrow> bool" where
  "uniform_cell rows \<longleftrightarrow> length rows = 30
     \<and> (\<forall>f \<in> {''double_effect'', ''delivered_exactly_once''}. res_count (index_true f) rows \<in> {Inr 0, Inr 30})"

lemma s5_cell_nearest:
  assumes F: "sound_floats F" and u: "uniform_cell rows"
  shows "s5_cell F (nearest_rank_int F) (pow_half F) rows = s5_cell F (nearest_rank_ceil F) (fsqrt F) rows"
proof -
  have len: "length rows = 30" using u by (simp add: uniform_cell_def)
  have ieee: "ieee_rounding (fl F)" using F by (simp add: sound_floats_def)
  obtain d e where k: "res_count (index_true ''double_effect'') rows = Inr d" "res_count (index_true ''delivered_exactly_once'') rows = Inr e"
      "d \<in> {0, 30}" "e \<in> {0, 30}"
    using u unfolding uniform_cell_def by fastforce
  note w = wilson_roots_agree [OF F k(3)] wilson_roots_agree [OF F k(4)]
  show ?thesis
  proof (cases "res_map_list (index_int ''wall_ns'') rows")
    case (Inl err)
    then show ?thesis by (simp add: s5_cell_def)
  next
    case (Inr walls)
    then have "length walls = 30" using len by (simp add: res_map_list_Inr)
    note n = nearest_rank_30 [OF ieee this]
    have "nearest_rank_int F walls (1 / 2) = nearest_rank_ceil F walls (1 / 2)"
      "nearest_rank_int F walls (95 / 100) = nearest_rank_ceil F walls (95 / 100)"
      "nearest_rank_int F walls (99 / 100) = nearest_rank_ceil F walls (99 / 100)"
      by (rule n, simp)+
    then show ?thesis unfolding s5_cell_def Inr k(1,2) res_bind.simps Let_def len of_nat_numeral w by (simp only:)
  qed
qed

lemma s5_aggregates_agree:
  assumes "sound_floats F"
    and "\<And>m c. m \<in> set MECHANISMS5 \<Longrightarrow> c \<in> set CASES5 \<Longrightarrow> \<exists>rows. cell_rows m c rs = Inr rows \<and> uniform_cell rows"
  shows "s5v_aggregate F rs = s5_aggregate F rs"
proof -
  have "res_bind (cell_rows m c rs) (\<lambda>rows. if length rows \<noteq> 30
          then Inl (ValueError (''cell count '' @ m @ ''|'' @ c @ ''='' @ str_nat (length rows)))
          else res_map (\<lambda>cell. (m @ ''|'' @ c, VDict cell)) (s5_cell F (nearest_rank_ceil F) (fsqrt F) rows))
      = res_bind (cell_rows m c rs) (\<lambda>rows.
          res_map (\<lambda>cell. (m @ ''|'' @ c, VDict cell)) (s5_cell F (nearest_rank_int F) (pow_half F) rows))"
    if "m \<in> set MECHANISMS5" "c \<in> set CASES5" for m c
    using assms(2) [OF that] s5_cell_nearest [OF assms(1)] by (auto simp: uniform_cell_def)
  then have "res_map_list (\<lambda>(m, c). res_bind (cell_rows m c rs) (\<lambda>rows. if length rows \<noteq> 30
          then Inl (ValueError (''cell count '' @ m @ ''|'' @ c @ ''='' @ str_nat (length rows)))
          else res_map (\<lambda>cell. (m @ ''|'' @ c, VDict cell)) (s5_cell F (nearest_rank_ceil F) (fsqrt F) rows)))
        (List.product MECHANISMS5 CASES5)
      = res_map_list (\<lambda>(m, c). res_bind (cell_rows m c rs) (\<lambda>rows.
          res_map (\<lambda>cell. (m @ ''|'' @ c, VDict cell)) (s5_cell F (nearest_rank_int F) (pow_half F) rows)))
        (List.product MECHANISMS5 CASES5)"
    by (intro res_map_list_cong) auto
  then show ?thesis unfolding s5v_aggregate_def s5_aggregate_def by (simp only:)
qed

lemma s5_cells_uniform:
  assumes "world_ok W" and "m \<in> set MECHANISMS5" and "c \<in> set CASES5"
  shows "\<exists>rows. cell_rows m c (s5_rows W) = Inr rows \<and> uniform_cell rows"
proof -
  obtain i where r: "cell_rows m c (s5_rows W) = Inr (map (s5_row W m (i, c)) [1..REPETITIONS5])" (is "_ = Inr ?rows")
    using s5_cell_rows [OF assms] by blast
  have "well_typed s5_flags x" if "x \<in> set ?rows" for x using that s5_row_typed by auto
  note t = well_typed_count [OF this]
  have "res_count (index_true ''double_effect'') ?rows \<in> {Inr 0, Inr 30}"
    by (subst t) (simp_all add: s5_flags_def s5_count_true [OF s5_row_fields(4)])
  moreover have "res_count (index_true ''delivered_exactly_once'') ?rows \<in> {Inr 0, Inr 30}"
    by (subst t) (simp_all add: s5_flags_def s5_count_true [OF s5_row_fields(5)])
  ultimately have "uniform_cell ?rows" by (simp add: uniform_cell_def REPETITIONS5_def)
  then show ?thesis using r by blast
qed

section \<open>What an accepted results directory satisfies\<close>

lemma s5v_cells_thirty:
  assumes "s5v_aggregate F rs = Inr agg" and "m \<in> set MECHANISMS5" and "c \<in> set CASES5"
  shows "\<exists>rows. cell_rows m c rs = Inr rows \<and> length rows = 30"
proof -
  have "(m, c) \<in> set (List.product MECHANISMS5 CASES5)" using assms(2,3) by simp
  then show ?thesis
    using assms(1) res_map_list_mem [where x = "(m, c)" and xs = "List.product MECHANISMS5 CASES5"]
    by (fastforce simp: s5v_aggregate_def res_bind_Inr_iff split: if_splits)
qed

theorem s5v_main_sound:
  assumes "s5v_main F sha raw summary = Inr result"
  shows "\<exists>bytes s records keys agg. raw = Some bytes \<and> summary = Some s \<and> read_rows bytes = Inr records
    \<and> length records = 1200 \<and> res_map_list row_key records = Inr keys \<and> distinct keys
    \<and> (\<forall>r \<in> set records. scope_violation r = Inr False)
    \<and> (\<forall>r \<in> set records. index_eq ''mechanism'' (VStr ''OASI'') r = Inr True \<longrightarrow> oasi_unsafe r = Inr False)
    \<and> s5v_aggregate F records = Inr agg
    \<and> (\<forall>f \<in> {''cells'', ''comparison_to_b3'', ''conclusion''}. \<exists>v. summary_get s f = Inr v
         \<and> py_eq v (dict_get (map_of agg) f))
    \<and> summary_get s ''raw_sha256'' = Inr (VStr (sha_hex sha bytes))"
proof -
  obtain bytes s where rs: "raw = Some bytes" "summary = Some s"
    using assms by (cases raw; cases summary) (auto simp: s5v_main_def)
  obtain records keys oasi h agg where f: "read_rows bytes = Inr records" "length records = 1200"
      "res_map_list row_key records = Inr keys" "length (remdups keys) = 1200"
      "res_any scope_violation records = Inr False"
      "res_filter (index_eq ''mechanism'' (VStr ''OASI'')) records = Inr oasi"
      "res_any oasi_unsafe oasi = Inr False"
      "summary_get s ''raw_sha256'' = Inr h" "py_eq h (VStr (sha_hex sha bytes))"
      "s5v_aggregate F records = Inr agg"
      "match_fields s agg [''cells'', ''comparison_to_b3'', ''conclusion''] = Inr ()"
    using assms unfolding rs s5v_main_def prod.case option.case res_bind_Inr_iff exit_if_Inr by auto
  have k: "length keys = 1200" using f(2,3) by (simp add: res_map_list_Inr)
  then have "distinct keys" using f(4) by (metis length_remdups_eq remdups_id_iff_distinct)
  moreover have "h = VStr (sha_hex sha bytes)" using f(9) by (cases h) (auto simp: py_eq_def)
  moreover have "oasi_unsafe r = Inr False"
    if "r \<in> set records" "index_eq ''mechanism'' (VStr ''OASI'') r = Inr True" for r
    using f(6,7) that by (simp add: res_filter_Inr res_any_False)
  moreover have "\<forall>f \<in> {''cells'', ''comparison_to_b3'', ''conclusion''}. \<exists>v. summary_get s f = Inr v
         \<and> py_eq v (dict_get (map_of agg) f)"
    using f(11) unfolding match_fields_Inr list.set .
  moreover have "\<forall>r \<in> set records. scope_violation r = Inr False" using f(5) by (simp only: res_any_False)
  ultimately show ?thesis using rs f(1,2,3,8,10) by blast
qed

section \<open>The campaign's output is accepted\<close>

lemma s5_row_scope: "scope_violation (s5_row W m ic r) = Inr False"
  by (simp add: scope_violation_def res_or_def get_ne_def get_not_false_def s5_row_def s5_expected_def
      s5_record_def is_false_def)

lemma s5_row_safe: "snd ic \<in> set CASES5 \<Longrightarrow> oasi_unsafe (s5_row W ''OASI'' ic r) = Inr False"
  using s5_oasi_effects [of "snd ic"]
  by (simp add: oasi_unsafe_def res_or_def index_true_def s5_row_fields s5_outcome_def)

lemma s5_row_key: "row_key (s5_row W m ic r) = Inr (VStr m, VStr (snd ic), VFloat (of_int r))"
  by (simp add: row_key_def s5_row_fields)

lemma s5_keys:
  assumes "world_ok W"
  shows "\<exists>keys. res_map_list row_key (s5_rows W) = Inr keys \<and> distinct keys"
proof -
  let ?k = "\<lambda>m (ic :: nat \<times> string) r. (VStr m, VStr (snd ic), VFloat (rat_of_int r))"
  define key where "key x = (case row_key x of Inr k \<Rightarrow> k | Inl e \<Rightarrow> (VNone, VNone, VNone))" for x
  have "res_map_list row_key (s5_rows W) = Inr (map key (s5_rows W))"
    by (rule res_map_list_ok) (use s5_rows_mem [OF assms] s5_row_key in \<open>fastforce simp: key_def\<close>)
  moreover have "map key (s5_rows W)
      = grid (\<lambda>ic r. s5_order W (snd ic) r) ?k (enumerate 0 CASES5) [1..REPETITIONS5]"
    unfolding s5_rows_grid map_grid by (simp add: key_def s5_row_key)
  moreover have "distinct (grid (\<lambda>ic r. s5_order W (snd ic) r) ?k (enumerate 0 CASES5) [1..REPETITIONS5])"
  proof (rule distinct_grid)
    have d: "distinct CASES5" by (simp add: CASES5_def)
    show "distinct (enumerate 0 CASES5)" using d by (metis distinct_enumerate)
    show "distinct [1..REPETITIONS5]" by simp
    show "distinct (s5_order W (snd c) r)" for c :: "nat \<times> string" and r by (rule s5_order_perm(3) [OF assms])
    show "m = m' \<and> c = c' \<and> r = r'"
      if "c \<in> set (enumerate 0 CASES5)" "c' \<in> set (enumerate 0 CASES5)" "?k m c r = ?k m' c' r'" for m c r m' c' r'
    proof -
      have "CASES5 ! fst c = CASES5 ! fst c'" "fst c < length CASES5" "fst c' < length CASES5" "snd c = snd c'"
        using that by (auto simp: in_set_enumerate_eq)
      then have "c = c'" using d by (simp add: nth_eq_iff_index_eq prod_eq_iff)
      then show ?thesis using that(3) by simp
    qed
  qed
  ultimately show ?thesis by auto
qed

theorem s5v_accepts_campaign:
  assumes W: "world_ok W" and F: "sound_floats (w_floats W)"
    and "\<not> output_exists R" and C: "s5_run_campaign W False prereg R = (res, C)"
  shows "s5v_main (w_floats W) (w_sha W) (map_option raw_bytes (raw_runs (out C))) (summary_file (out C)) = Inr (VDict
      [(''schema'', VStr ''oasi.s5.independent-verification.v1''), (''status'', VStr ''PASS''),
       (''runs'', VInt 1200), (''cells'', VInt 40), (''oasi_safety_violations'', VInt 0),
       (''network_calls'', VInt 0), (''conclusion'', VStr ''MECHANISM_ADVANTAGE_NOT_ESTABLISHED_AGAINST_B3''),
       (''raw_sha256'', VStr (sha_hex (w_sha W) (raw_bytes (s5_lines W))))])"
proof -
  let ?F = "w_floats W"
  obtain cells where out: "raw_runs (out C) = Some (s5_lines W)" "summary_file (out C) = Some (s5_summary_of W cells)"
    and agg: "s5_aggregate ?F (s5_rows W) = Inr ((''cells'', VDict cells) # s5_verdict)"
    using s5_campaign_eq [OF W assms(3), of prereg] C by auto
  have v: "s5v_aggregate ?F (s5_rows W) = Inr ((''cells'', VDict cells) # s5_verdict)"
    using s5_aggregates_agree [OF F s5_cells_uniform [OF W]] agg by simp
  have read: "read_rows (raw_bytes (s5_lines W)) = Inr (s5_rows W)"
    using read_rows_written [of "s5_all W"] s5_all_flat by (simp add: s5_lines_def s5_rows_def)
  have n: "length (s5_rows W) = 1200" using s5_all_length [OF W] by (simp add: s5_rows_def)
  obtain keys where keys: "res_map_list row_key (s5_rows W) = Inr keys" "distinct keys" using s5_keys [OF W] by blast
  have k: "length (remdups keys) = 1200" using keys n by (simp add: res_map_list_Inr distinct_remdups_id)
  have scope: "res_any scope_violation (s5_rows W) = Inr False"
    unfolding res_any_False using s5_rows_mem [OF W] s5_row_scope by blast
  have "\<exists>b. index_eq ''mechanism'' (VStr ''OASI'') x = Inr b" if "x \<in> set (s5_rows W)" for x
    using s5_rows_mem [OF W that] by (auto simp: index_eq_def s5_row_fields)
  then obtain oasi where oasi: "res_filter (index_eq ''mechanism'' (VStr ''OASI'')) (s5_rows W) = Inr oasi"
      "oasi = filter (\<lambda>x. index_eq ''mechanism'' (VStr ''OASI'') x = Inr True) (s5_rows W)"
    by (simp add: res_filter_Inr)
  have safe: "res_any oasi_unsafe oasi = Inr False"
    unfolding res_any_False oasi(2)
  proof
    fix x assume x: "x \<in> set (filter (\<lambda>x. index_eq ''mechanism'' (VStr ''OASI'') x = Inr True) (s5_rows W))"
    then obtain m ic r where xe: "x = s5_row W m ic r" "snd ic \<in> set CASES5" using s5_rows_mem [OF W] by fastforce
    have "m = ''OASI''" using x unfolding xe(1) by (simp add: index_eq_def s5_row_fields)
    then show "oasi_unsafe x = Inr False" using xe s5_row_safe by blast
  qed
  have match: "match_fields (the (summary_file (out C))) ((''cells'', VDict cells) # s5_verdict)
      [''cells'', ''comparison_to_b3'', ''conclusion''] = Inr ()"
    by (simp add: out(2) s5_summary_of_def s5_verdict_def dict_get_def)
  have concl: "dict_get (map_of ((''cells'', VDict cells) # s5_verdict)) ''conclusion''
      = VStr ''MECHANISM_ADVANTAGE_NOT_ESTABLISHED_AGAINST_B3''"
    by (simp add: s5_verdict_def dict_get_def)
  have h: "summary_get (the (summary_file (out C))) ''raw_sha256'' = Inr (VStr (sha_hex (w_sha W) (raw_bytes (s5_lines W))))"
    by (simp add: out(2) s5_summary_of_def dict_get_def)
  show ?thesis
    using h match concl
    by (simp only: s5v_main_def out option.map option.case option.sel prod.case read n keys(1) k scope oasi(1) safe v
        exit_if_def res_bind.simps if_False py_eq_refl simp_thms)
qed

end
