(* ===== verification/Verify_Experiments.thy ===== *)
theory Verify_Experiments
  imports Campaign_Base
begin

text \<open>
  The published-evidence verifier \<open>tools/verify_experiments.py\<close>: JSON with unique keys, the line
  reader that stops at the first bad line, the digest manifest of a directory, the checks of one
  campaign with its summary, and the pinned totals.  Errors are collected as texts (shortened to
  their fixed part where the source adds a Python repr); exceptions that end the script are \<open>Inl\<close>.
\<close>

section \<open>Strict JSON\<close>

fun unique_object :: "(string \<times> json) list \<Rightarrow> (string \<times> json) list \<Rightarrow> exn + (string \<times> json) list" where
  "unique_object result [] = Inr result"
| "unique_object result ((key, value) # pairs) =
     (if key \<in> fst ` set result then Inl (ValueError (''duplicate JSON key: '' @ key))
      else unique_object (result @ [(key, value)]) pairs)"

definition unique_hook :: hook where
  "unique_hook pairs = (case unique_object [] pairs of Inl e \<Rightarrow> None | Inr kvs \<Rightarrow> Some (JObj kvs))"

type_synonym dict = "string \<rightharpoonup> pyval"

definition json_dict :: "(string \<times> json) list \<Rightarrow> dict" where
  "json_dict kjs = map_of (map (map_prod id of_json) kjs)"

text \<open>
  The rows before the first line that is no object with unique keys, and the number of that line.
\<close>

fun load_lines :: "nat \<Rightarrow> string list \<Rightarrow> dict list \<times> nat option" where
  "load_lines n [] = ([], None)"
| "load_lines n (l # ls) = (case json_loads_with unique_hook l of
     Inl e \<Rightarrow> ([], Some n)
   | Inr (JObj kjs) \<Rightarrow> (case load_lines (n + 1) ls of (rows, e) \<Rightarrow> (json_dict kjs # rows, e))
   | Inr v \<Rightarrow> ([], Some n))"

definition load_jsonl :: "string \<Rightarrow> bytes \<Rightarrow> dict list \<times> string list" where
  "load_jsonl path raw = (case utf8_text raw of
     None \<Rightarrow> ([], [''invalid JSONL '' @ path @ '':0''])
   | Some s \<Rightarrow> (case load_lines 1 (splitlines s) of
       (rows, None) \<Rightarrow> (rows, [])
     | (rows, Some n) \<Rightarrow> (rows, [''invalid JSONL '' @ path @ '':'' @ str_nat n])))"

section \<open>The digest manifest of a directory\<close>

text \<open>
  A directory is the list of its regular files, by relative path in posix form.  The parts of a
  path are its components without empty ones and dots.
\<close>

type_synonym tree = "(string \<times> bytes) list"

fun split_slash :: "string \<Rightarrow> string \<Rightarrow> string list" where
  "split_slash acc [] = [rev acc]"
| "split_slash acc (c # cs) = (if c = CHR ''/'' then rev acc # split_slash [] cs else split_slash (c # acc) cs)"

definition path_parts :: "string \<Rightarrow> string list" where
  "path_parts p = filter (\<lambda>s. s \<noteq> [] \<and> s \<noteq> ''.'') (split_slash [] p)"

definition path_file :: "tree \<Rightarrow> string \<Rightarrow> bytes option" where
  "path_file t p = map_of t (py_join ''/'' (path_parts p))"

definition is_lower_hex :: "char \<Rightarrow> bool" where
  "is_lower_hex c \<longleftrightarrow> c \<in> set ''0123456789abcdef''"

text \<open>\<open>re.fullmatch(r"([0-9a-f]{64})  ([^\\]+)", line)\<close>\<close>

definition manifest_line :: "string \<Rightarrow> (string \<times> string) option" where
  "manifest_line l =
     (let h = take 64 l; sep = take 2 (drop 64 l); p = drop 66 l in
      if length h = 64 \<and> list_all is_lower_hex h \<and> sep = ''  '' \<and> p \<noteq> [] \<and> CHR 0x5C \<notin> set p
      then Some (h, p) else None)"

definition unsafe_path :: "string \<Rightarrow> bool" where
  "unsafe_path p \<longleftrightarrow> hd p = CHR ''/'' \<or> ''..'' \<in> set (path_parts p)"

text \<open>The loop over the lines: paths seen so far in order, and the errors.\<close>

fun manifest_loop ::
  "(bytes \<Rightarrow> bytes) \<Rightarrow> tree \<Rightarrow> string list \<Rightarrow> string list \<Rightarrow> string list \<times> string list" where
  "manifest_loop sha t seen [] = (seen, [])"
| "manifest_loop sha t seen (l # ls) = (case manifest_line l of
     None \<Rightarrow> (case manifest_loop sha t seen ls of (s, es) \<Rightarrow> (s, ''bad manifest grammar'' # es))
   | Some (expected, relative) \<Rightarrow>
       if relative \<in> set seen \<or> unsafe_path relative
       then (case manifest_loop sha t seen ls of (s, es) \<Rightarrow>
               (s, (''unsafe or duplicate manifest path: '' @ relative) # es))
       else (case manifest_loop sha t (seen @ [relative]) ls of (s, es) \<Rightarrow>
               (s, (if path_file t relative = None \<or> sha_hex sha (the (path_file t relative)) \<noteq> expected
                    then [''manifest mismatch: '' @ relative] else []) @ es)))"

definition py_suffix :: "string \<Rightarrow> string" where
  "py_suffix p = (let name = last (path_parts p); stem = rev (dropWhile (\<lambda>c. c \<noteq> CHR ''.'') (rev name)) in
     if path_parts p = [] \<or> length stem \<le> 1 \<or> stem = name then [] else CHR ''.'' # rev (takeWhile (\<lambda>c. c \<noteq> CHR ''.'') (rev name)))"

definition observed_files :: "tree \<Rightarrow> string \<Rightarrow> string list" where
  "observed_files t manifest = filter (\<lambda>p. p \<noteq> manifest \<and> ''__pycache__'' \<notin> set (path_parts p)
     \<and> py_suffix p \<notin> {''.pyc'', ''.pyo''}) (map fst t)"

definition verify_manifest :: "(bytes \<Rightarrow> bytes) \<Rightarrow> tree \<Rightarrow> string \<Rightarrow> exn + string list" where
  "verify_manifest sha t name = (case map_of t name of
     None \<Rightarrow> Inr [''missing manifest: '' @ name]
   | Some raw \<Rightarrow>
       if \<not> list_all (\<lambda>b. unat b < 128) raw then Inl (ValueError ''UnicodeDecodeError'')
       else case manifest_loop sha t [] (splitlines (map (\<lambda>b. char_of (unat b)) raw)) of (ordered, errors) \<Rightarrow>
         Inr (errors
           @ (if ordered \<noteq> sort ordered then [''manifest is not in ordinal path order''] else [])
           @ (if set ordered \<noteq> set (observed_files t name) then [''manifest coverage mismatch''] else [])))"

section \<open>Totals\<close>

definition totals :: "dict list \<Rightarrow> string \<Rightarrow> exn + (string \<times> int) list" where
  "totals rows mechanism =
     (let selected = filter (\<lambda>d. py_eq (dict_get d ''mechanism'') (VStr mechanism)) rows;
          hits = (\<lambda>k. int (length (filter (\<lambda>d. is_true (dict_get d k)) selected)))
      in res_bind (res_map_list (\<lambda>d. py_int (case d ''effect_count'' of None \<Rightarrow> VInt (- 1) | Some v \<Rightarrow> v)) selected)
        (\<lambda>es. Inr [(''rows'', int (length selected)), (''effects'', sum_list es),
           (''doubles'', hits ''double_effect''), (''exact'', hits ''delivered_exactly_once''),
           (''lost'', hits ''delivery_lost''), (''replay'', hits ''replay_accepted'')]))"

definition pinned :: "int \<Rightarrow> int \<Rightarrow> int \<Rightarrow> int \<Rightarrow> int \<Rightarrow> int \<Rightarrow> (string \<times> int) list" where
  "pinned n e d x l r =
     [(''rows'', n), (''effects'', e), (''doubles'', d), (''exact'', x), (''lost'', l), (''replay'', r)]"

definition expected_s5 :: "(string \<times> (string \<times> int) list) list" where
  "expected_s5 =
     [(''B0_DIRECT'', pinned 240 330 90 150 0 30),
      (''B1_AUTH_STATELESS'', pinned 240 270 90 90 0 30),
      (''B2_AT_LEAST_ONCE'', pinned 240 210 30 150 0 0),
      (''B3_IDEMPOTENT'', pinned 240 180 0 180 0 0),
      (''OASI'', pinned 240 120 0 120 0 0)]"

definition expected_s6 :: "(string \<times> (string \<times> int) list) list" where
  "expected_s6 =
     [(''B0_DIRECT'', pinned 300 420 120 180 0 30),
      (''B1_AUTH_STATELESS'', pinned 300 360 120 120 0 30),
      (''B2_AT_LEAST_ONCE'', pinned 300 300 60 180 0 0),
      (''B3_IDEMPOTENT_UNAVAILABLE'', pinned 300 300 60 180 0 0),
      (''OASI'', pinned 300 150 0 150 90 0)]"

text \<open>The two loops over the pinned tables.\<close>

fun totals_drift :: "string \<Rightarrow> dict list \<Rightarrow> (string \<times> (string \<times> int) list) list \<Rightarrow> exn + string list" where
  "totals_drift label rows [] = Inr []"
| "totals_drift label rows ((mechanism, expected) # rest) =
     res_bind (totals rows mechanism) (\<lambda>t.
     res_bind (totals_drift label rows rest) (\<lambda>es.
       Inr ((if t \<noteq> expected then [label @ '' totals drift: '' @ mechanism] else []) @ es)))"

section \<open>One campaign\<close>

definition common_fields :: "string list" where
  "common_fields =
     [''altered_signature_accepted'', ''artifact_bytes'', ''case'', ''cpu_ns'',
      ''cross_generation_accepted'', ''delivered_exactly_once'',
      ''deterministic_terminal'', ''disposition'', ''double_effect'', ''effect_count'',
      ''mechanism'', ''network_calls'', ''python_heap_peak_bytes'', ''real_effect'',
      ''repetition'', ''replay_accepted'', ''rss_delta_bytes'', ''schema'', ''seed'', ''wall_ns'']"

definition s6_fields :: "string list" where
  "s6_fields =
     [''ambiguous_post_effect'', ''b3_idempotency_request_honored'', ''delivery_lost'',
      ''effect_expected'', ''pre_effect_uncertainty'', ''sink_idempotency_supported'',
      ''sink_profile'', ''sink_query_supported'', ''sink_transaction_supported'']"

definition required_fields :: "string \<Rightarrow> string list" where
  "required_fields name = common_fields @ (if name = ''s6'' then s6_fields else [])"

definition categorical :: "string list" where
  "categorical = [''effect_count'', ''double_effect'', ''delivered_exactly_once'', ''delivery_lost'',
     ''replay_accepted'', ''cross_generation_accepted'', ''altered_signature_accepted'', ''disposition'']"

definition cell_key :: "dict \<Rightarrow> pyval \<times> pyval" where
  "cell_key d = (canon (dict_get d ''mechanism''), canon (dict_get d ''case''))"

definition identity :: "dict \<Rightarrow> pyval \<times> pyval \<times> pyval" where
  "identity d = (canon (dict_get d ''mechanism''), canon (dict_get d ''case''), canon (dict_get d ''repetition''))"

text \<open>The first row of every cell, in the order of a dict filled row by row.\<close>

fun firsts :: "('a \<Rightarrow> 'b) \<Rightarrow> 'b list \<Rightarrow> 'a list \<Rightarrow> 'a list" where
  "firsts f seen [] = []"
| "firsts f seen (x # xs) = (if f x \<in> set seen then firsts f seen xs else x # firsts f (f x # seen) xs)"

definition group_of :: "dict list \<Rightarrow> dict \<Rightarrow> dict list" where
  "group_of rows d = filter (\<lambda>e. cell_key e = cell_key d) rows"

text \<open>\<open>f"{v}"\<close>; \<open>frepr\<close> is the text of a float.\<close>

fun py_format :: "(rat \<Rightarrow> string) \<Rightarrow> pyval \<Rightarrow> string" where
  "py_format frepr (VStr s) = s"
| "py_format frepr (VInt i) = str_int i"
| "py_format frepr (VBool b) = (if b then ''True'' else ''False'')"
| "py_format frepr (VFloat q) = frepr q"
| "py_format frepr _ = ''None''"

definition cell_label :: "(rat \<Rightarrow> string) \<Rightarrow> dict \<Rightarrow> string" where
  "cell_label frepr d = py_format frepr (dict_get d ''mechanism'') @ ''|'' @ py_format frepr (dict_get d ''case'')"

definition sink_drift :: "dict \<Rightarrow> bool" where
  "sink_drift d \<longleftrightarrow> \<not> py_eq (dict_get d ''sink_profile'') (VStr ''NON_COOPERATIVE_APPEND_ONLY_V1'')
     \<or> \<not> is_false (dict_get d ''sink_idempotency_supported'') \<or> \<not> is_false (dict_get d ''sink_query_supported'')
     \<or> \<not> is_false (dict_get d ''sink_transaction_supported'')
     \<or> \<not> is_false (dict_get d ''b3_idempotency_request_honored'')"

definition scope_drift :: "dict \<Rightarrow> bool" where
  "scope_drift d \<longleftrightarrow> \<not> is_false (dict_get d ''real_effect'') \<or> \<not> py_eq (dict_get d ''network_calls'') (VInt 0)
     \<or> \<not> is_true (dict_get d ''deterministic_terminal'')"

definition row_errors :: "string \<Rightarrow> int \<Rightarrow> int \<Rightarrow> dict list \<Rightarrow> string list" where
  "row_errors name expected_rows expected_cells rows =
     (let say = (\<lambda>b m. if b then [name @ m] else []) in
      say (int (length rows) \<noteq> expected_rows) '' row count''
      @ say (\<not> distinct (map identity rows)) '' duplicate cell/repetition identity''
      @ say (int (length (remdups (map cell_key rows))) \<noteq> expected_cells) '' cell count''
      @ say (list_ex (\<lambda>d. dom d \<noteq> set (required_fields name)) rows) '' raw row property set drift''
      @ say (list_ex (\<lambda>d. \<not> py_eq (dict_get d ''schema'') (VStr (''oasi.'' @ name @ ''.run.v1''))) rows)
          '' raw row schema drift''
      @ say (list_ex scope_drift rows) '' scope sentinel violation''
      @ say (name = ''s6'' \<and> list_ex sink_drift rows) '' non-cooperative sink sentinel drift''
      @ concat (map (\<lambda>d. say (set (map (\<lambda>e. canon (dict_get e ''repetition'')) (group_of rows d))
            \<noteq> set (map (\<lambda>i. canon (VInt i)) [1..30])) '' repetition grid drift'') (firsts cell_key [] rows)))"

text \<open>\<open>set(v)\<close> of a summary member: a list, the keys of a dict or the characters of a text.\<close>

fun set_of :: "pyval \<Rightarrow> exn + pyval set" where
  "set_of (VList vs) = (if list_all hashable vs then Inr (canon ` set vs) else Inl (TypeError ''unhashable type''))"
| "set_of (VDict kvs) = Inr ((\<lambda>kv. VStr (fst kv)) ` set kvs)"
| "set_of (VStr s) = Inr ((\<lambda>c. VStr [c]) ` set s)"
| "set_of _ = Inl (TypeError ''object is not iterable'')"

definition summary_scope :: "int \<Rightarrow> (string \<times> pyval) list" where
  "summary_scope expected_rows =
     [(''fixture_only'', VBool True), (''guest_or_qemu_measured'', VBool False), (''local_only'', VBool True),
      (''measured_runs'', VInt expected_rows), (''network_calls'', VInt 0), (''production_claim'', VBool False),
      (''real_effect'', VBool False), (''repetitions_per_cell'', VInt 30)]"

definition group_counts :: "string \<Rightarrow> dict list \<Rightarrow> (string \<times> int) list" where
  "group_counts name rs =
     (let hits = (\<lambda>k. int (length (filter (\<lambda>d. is_true (dict_get d k)) rs))) in
      [(''runs'', int (length rs)), (''double_effects'', hits ''double_effect''),
       (''delivered_exactly_once'', hits ''delivered_exactly_once''), (''replay_accepted'', hits ''replay_accepted''),
       (''cross_generation_accepted'', hits ''cross_generation_accepted''),
       (''altered_signature_accepted'', hits ''altered_signature_accepted'')]
      @ (if name = ''s6'' then [(''delivery_lost'', hits ''delivery_lost'')] else []))"

definition cell_errors :: "(rat \<Rightarrow> string) \<Rightarrow> string \<Rightarrow> dict list \<Rightarrow> pyval \<Rightarrow> string list" where
  "cell_errors frepr name rows summary_cells = (case summary_cells of
     VDict cells \<Rightarrow>
       if fst ` set cells \<noteq> cell_label frepr ` set (firsts cell_key [] rows) then [name @ '' summary cell set drift'']
       else concat (map (\<lambda>d. (case map_of cells (cell_label frepr d) of
           Some (VDict cell) \<Rightarrow>
             if list_ex (\<lambda>(k, n). \<not> py_eq (dict_get (map_of cell) k) (VInt n)) (group_counts name (group_of rows d))
             then [name @ '' summary categorical aggregate drift: '' @ cell_label frepr d] else []
         | _ \<Rightarrow> [name @ '' summary categorical aggregate drift: '' @ cell_label frepr d])) (firsts cell_key [] rows))
   | _ \<Rightarrow> [name @ '' summary cell set drift''])"

text \<open>
  The checks that need the summary: categorical outcomes, scope, grid and cells.  \<open>summary.get(k, default)\<close> is
  \<open>member\<close>.
\<close>

definition summary_errors ::
  "(rat \<Rightarrow> string) \<Rightarrow> string \<Rightarrow> int \<Rightarrow> dict list \<Rightarrow> dict \<Rightarrow> exn + string list" where
  "summary_errors frepr name expected_rows rows summary =
     (let say = (\<lambda>b m. if b then [name @ m] else []);
          member = (\<lambda>k. case summary k of None \<Rightarrow> VList [] | Some v \<Rightarrow> v)
      in res_bind (set_of (member ''mechanisms'')) (\<lambda>ms.
         res_bind (if ms \<noteq> fst ` cell_key ` set rows then Inr True
                   else res_map (\<lambda>cs. cs \<noteq> snd ` cell_key ` set rows) (set_of (member ''cases''))) (\<lambda>grid_drift.
         Inr (say (list_ex (\<lambda>d. length (remdups (map (\<lambda>e. map (\<lambda>k. canon (dict_get e k)) categorical)
                  (group_of rows d))) \<noteq> 1) (firsts cell_key [] rows)) '' categorical outcomes are not invariant as documented''
           @ say (list_ex (\<lambda>(k, v). \<not> py_eq (dict_get summary k) v) (summary_scope expected_rows))
                  '' summary scope or count drift''
           @ say grid_drift '' summary mechanism/case grid drift''
           @ cell_errors frepr name rows (case summary ''cells'' of None \<Rightarrow> VDict [] | Some v \<Rightarrow> v)))))"

text \<open>
  The document of a file: \<open>parse\<close> is \<open>json.loads\<close> with unique keys on its text, floats included, or none if it
  raises.  \<open>load_json\<close> turns every failure into an empty object and an error.
\<close>

definition document :: "(bytes \<Rightarrow> pyval option) \<Rightarrow> tree \<Rightarrow> string \<Rightarrow> pyval option" where
  "document parse t path = (case map_of t path of None \<Rightarrow> None | Some raw \<Rightarrow> parse raw)"

definition load_json :: "(bytes \<Rightarrow> pyval option) \<Rightarrow> tree \<Rightarrow> string \<Rightarrow> pyval \<times> string list" where
  "load_json parse t path = (case document parse t path of None \<Rightarrow> (VDict [], [''invalid JSON '' @ path]) | Some v \<Rightarrow> (v, []))"

definition load_rows :: "tree \<Rightarrow> string \<Rightarrow> dict list \<times> string list" where
  "load_rows t path = (case map_of t path of
     None \<Rightarrow> ([], [''invalid JSONL '' @ path @ '':0'']) | Some raw \<Rightarrow> load_jsonl path raw)"

definition some_unhashable :: "dict list \<Rightarrow> string list \<Rightarrow> bool" where
  "some_unhashable rows ks \<longleftrightarrow> list_ex (\<lambda>d. list_ex (\<lambda>k. \<not> hashable (dict_get d k)) ks) rows"

text \<open>
  One campaign: \<open>t\<close> is its results directory.  The manifest comes first, then the rows, the summary and the
  result of the detached verifier; the rows are returned with the errors.
\<close>

definition verify_campaign ::
  "(bytes \<Rightarrow> bytes) \<Rightarrow> (rat \<Rightarrow> string) \<Rightarrow> (bytes \<Rightarrow> pyval option) \<Rightarrow> string \<Rightarrow> int \<Rightarrow> int \<Rightarrow> tree \<Rightarrow> exn + dict list \<times> string list" where
  "verify_campaign sha frepr parse name expected_rows expected_cells t =
     res_bind (verify_manifest sha t ''RESULT_MANIFEST.sha256'') (\<lambda>in_manifest.
     case load_rows t ''RAW_RUNS.jsonl'' of (rows, in_rows) \<Rightarrow>
     if some_unhashable rows [''mechanism'', ''case'', ''repetition''] then Inl (TypeError ''unhashable type'')
     else case load_json parse t ''SUMMARY.json'' of
       (VDict summary, in_summary) \<Rightarrow>
         (case map_of t ''RAW_RUNS.jsonl'' of
            None \<Rightarrow> Inl (OSError ''no such file'')
          | Some raw \<Rightarrow>
              (case load_json parse t ''INDEPENDENT_VERIFY_RESULT.json'' of
                 (VDict checker, in_checker) \<Rightarrow>
                   if some_unhashable rows categorical then Inl (TypeError ''unhashable type'')
                   else res_map (\<lambda>in_campaign. (rows, in_manifest @ in_rows
                       @ row_errors name expected_rows expected_cells rows
                       @ in_summary
                       @ (if \<not> py_eq (dict_get (map_of summary) ''raw_sha256'') (VStr (sha_hex sha raw))
                          then [name @ '' summary raw hash mismatch''] else [])
                       @ in_checker
                       @ (if \<not> py_eq (dict_get (map_of checker) ''status'') (VStr ''PASS'')
                             \<or> \<not> py_eq (dict_get (map_of checker) ''runs'') (VInt expected_rows)
                          then [name @ '' sealed aggregate checker result mismatch''] else [])
                       @ in_campaign))
                     (summary_errors frepr name expected_rows rows (map_of summary))
               | _ \<Rightarrow> Inl (AttributeError ''get'')))
     | _ \<Rightarrow> Inl (AttributeError ''get''))"

section \<open>The equivalence of B2 and B3-unavailable\<close>

definition compared_fields :: "string list" where
  "compared_fields = [''effect_count'', ''double_effect'', ''delivered_exactly_once'', ''delivery_lost'',
     ''replay_accepted'', ''cross_generation_accepted'', ''altered_signature_accepted'', ''disposition'']"

text \<open>The dict by case and repetition: a later row replaces an earlier one.\<close>

definition indexed :: "dict list \<Rightarrow> string \<Rightarrow> (pyval \<times> pyval) \<rightharpoonup> pyval list" where
  "indexed rows mechanism = map_of (rev (map (\<lambda>d.
     ((canon (dict_get d ''case''), canon (dict_get d ''repetition'')), map (\<lambda>k. canon (dict_get d k)) compared_fields))
     (filter (\<lambda>d. py_eq (dict_get d ''mechanism'') (VStr mechanism)) rows)))"

definition equivalence_drift :: "dict list \<Rightarrow> string list" where
  "equivalence_drift s6 =
     (if indexed s6 ''B2_AT_LEAST_ONCE'' \<noteq> indexed s6 ''B3_IDEMPOTENT_UNAVAILABLE''
      then [''S6 B2/B3-U equivalence drift requires new review''] else [])"

end
