(* ===== verification/Evidence.thy ===== *)
theory Evidence
  imports Verify_Experiments
begin

text \<open>
  The evidence chain: what \<open>verify_experiments.py\<close> accepts, and that the results of both campaigns,
  computed by the model, pass it and have exactly the pinned totals.
\<close>

section \<open>Reading the lines with unique keys\<close>

lemma unique_object_distinct:
  "distinct (map fst (result @ pairs)) \<Longrightarrow> unique_object result pairs = Inr (result @ pairs)"
proof (induction pairs arbitrary: result)
  case (Cons kv pairs)
  obtain k v where kv: "kv = (k, v)" by (cases kv)
  then have "k \<notin> fst ` set result" using Cons.prems by auto
  then show ?case using Cons kv by simp
qed simp

lemma plain_unique_hook: "plain_hook unique_hook"
  using unique_object_distinct [of "[]"] by (simp add: plain_hook_def unique_hook_def)

lemma load_lines_flat:
  assumes "\<And>m. m \<in> set ms \<Longrightarrow> flat_row m"
  shows "load_lines n (map line_of ms) = (map map_of ms, None)"
  using assms
proof (induction ms arbitrary: n)
  case (Cons m ms)
  have f: "flat_row m" using Cons.prems by simp
  obtain s kjs where s: "dump_line m = Inr s" "json_loads_with unique_hook s = Inr (JObj kjs)"
      "map_of (map (map_prod id of_json) kjs) = map_of m"
    using dump_line_members [OF f] plain_unique_hook by blast
  then show ?case using Cons by (simp add: line_of_def json_dict_def)
qed simp

lemma load_jsonl_flat:
  assumes "\<And>m. m \<in> set ms \<Longrightarrow> flat_row m"
  shows "load_jsonl path (raw_bytes (map line_of ms)) = (map map_of ms, [])"
  using written_text [OF assms] raw_lines_read_back(1) [OF assms] load_lines_flat [OF assms]
  by (simp add: load_jsonl_def)

section \<open>Groups\<close>

lemma firsts_set: "f ` set (firsts f seen xs) = f ` set xs - set seen" "set (firsts f seen xs) \<subseteq> set xs"
  by (induction xs arbitrary: seen) auto

lemma firsts_mem: "x \<in> set (firsts f seen xs) \<Longrightarrow> x \<in> set xs"
  by (rule subsetD [OF firsts_set(2)])

text \<open>
  A clean campaign: rows in a full grid whose categorical fields depend on the cell only.
\<close>

definition clean_row ::
  "string \<Rightarrow> string list \<Rightarrow> string list \<Rightarrow> (string \<Rightarrow> string \<Rightarrow> string \<Rightarrow> pyval) \<Rightarrow> dict \<Rightarrow> bool" where
  "clean_row name ms cs cat d \<longleftrightarrow>
     (\<exists>m \<in> set ms. \<exists>c \<in> set cs. \<exists>r \<in> {1..30}.
           dict_get d ''mechanism'' = VStr m \<and> dict_get d ''case'' = VStr c \<and> dict_get d ''repetition'' = VInt r
           \<and> (\<forall>k \<in> set categorical. dict_get d k = cat m c k \<and> hashable (cat m c k)))
     \<and> dom d = set (required_fields name)
     \<and> dict_get d ''schema'' = VStr (''oasi.'' @ name @ ''.run.v1'')
     \<and> \<not> scope_drift d \<and> (name = ''s6'' \<longrightarrow> \<not> sink_drift d)"

definition clean_cell ::
  "(string \<Rightarrow> string \<Rightarrow> string \<Rightarrow> pyval) \<Rightarrow> dict list \<Rightarrow> string \<Rightarrow> string \<Rightarrow> bool" where
  "clean_cell cat rows m c \<longleftrightarrow> (\<exists>g. filter (\<lambda>d. cell_key d = (VStr m, VStr c)) rows = map g [1..30]
           \<and> (\<forall>r \<in> {1..30}. dict_get (g r) ''repetition'' = VInt r
               \<and> (\<forall>k \<in> set categorical. dict_get (g r) k = cat m c k)))"

definition clean_rows ::
  "string \<Rightarrow> string list \<Rightarrow> string list \<Rightarrow> (string \<Rightarrow> string \<Rightarrow> string \<Rightarrow> pyval) \<Rightarrow> dict list \<Rightarrow> bool" where
  "clean_rows name ms cs cat rows \<longleftrightarrow>
     distinct ms \<and> distinct cs \<and> distinct (map identity rows)
     \<and> int (length rows) = 30 * int (length ms * length cs)
     \<and> (\<forall>d \<in> set rows. clean_row name ms cs cat d)
     \<and> (\<forall>m \<in> set ms. \<forall>c \<in> set cs. clean_cell cat rows m c)"

lemma clean_rowsD:
  assumes "clean_rows name ms cs cat rows"
  shows "distinct ms" "distinct cs" "distinct (map identity rows)"
    and "int (length rows) = 30 * int (length ms * length cs)"
    and "d \<in> set rows \<Longrightarrow> \<exists>m \<in> set ms. \<exists>c \<in> set cs. \<exists>r \<in> {1..30}.
           dict_get d ''mechanism'' = VStr m \<and> dict_get d ''case'' = VStr c \<and> dict_get d ''repetition'' = VInt r
           \<and> (\<forall>k \<in> set categorical. dict_get d k = cat m c k \<and> hashable (cat m c k))"
    and "d \<in> set rows \<Longrightarrow> dom d = set (required_fields name)"
    and "d \<in> set rows \<Longrightarrow> dict_get d ''schema'' = VStr (''oasi.'' @ name @ ''.run.v1'')"
    and "d \<in> set rows \<Longrightarrow> \<not> scope_drift d" and "d \<in> set rows \<Longrightarrow> name = ''s6'' \<Longrightarrow> \<not> sink_drift d"
    and "m \<in> set ms \<Longrightarrow> c \<in> set cs \<Longrightarrow> \<exists>g. filter (\<lambda>d. cell_key d = (VStr m, VStr c)) rows = map g [1..30]
           \<and> (\<forall>r \<in> {1..30}. dict_get (g r) ''repetition'' = VInt r
               \<and> (\<forall>k \<in> set categorical. dict_get (g r) k = cat m c k))"
proof -
  have r: "d \<in> set rows \<Longrightarrow> clean_row name ms cs cat d"
    and g: "m \<in> set ms \<Longrightarrow> c \<in> set cs \<Longrightarrow> clean_cell cat rows m c" for d m c
    using assms unfolding clean_rows_def by blast+
  show "distinct ms" "distinct cs" "distinct (map identity rows)" "int (length rows) = 30 * int (length ms * length cs)"
    using assms unfolding clean_rows_def by blast+
  note row = r [unfolded clean_row_def]
  show "d \<in> set rows \<Longrightarrow> \<exists>m \<in> set ms. \<exists>c \<in> set cs. \<exists>r \<in> {1..30}.
           dict_get d ''mechanism'' = VStr m \<and> dict_get d ''case'' = VStr c \<and> dict_get d ''repetition'' = VInt r
           \<and> (\<forall>k \<in> set categorical. dict_get d k = cat m c k \<and> hashable (cat m c k))"
    by (drule row, elim conjE) assumption
  show "d \<in> set rows \<Longrightarrow> dom d = set (required_fields name)"
    "d \<in> set rows \<Longrightarrow> dict_get d ''schema'' = VStr (''oasi.'' @ name @ ''.run.v1'')"
    "d \<in> set rows \<Longrightarrow> \<not> scope_drift d" "d \<in> set rows \<Longrightarrow> name = ''s6'' \<Longrightarrow> \<not> sink_drift d"
    by (drule row, simp)+
  show "m \<in> set ms \<Longrightarrow> c \<in> set cs \<Longrightarrow> \<exists>g. filter (\<lambda>d. cell_key d = (VStr m, VStr c)) rows = map g [1..30]
           \<and> (\<forall>r \<in> {1..30}. dict_get (g r) ''repetition'' = VInt r
               \<and> (\<forall>k \<in> set categorical. dict_get (g r) k = cat m c k))"
    by (drule (1) g) (simp only: clean_cell_def)
qed

lemma clean_group:
  assumes "clean_rows name ms cs cat rows" and "d \<in> set rows"
  shows "\<exists>m \<in> set ms. \<exists>c \<in> set cs. \<exists>g. dict_get d ''mechanism'' = VStr m \<and> dict_get d ''case'' = VStr c
    \<and> group_of rows d = map g [1..30] \<and> (\<forall>r \<in> {1..30}. dict_get (g r) ''repetition'' = VInt r
               \<and> (\<forall>k \<in> set categorical. dict_get (g r) k = cat m c k))"
proof -
  obtain m c where mc: "m \<in> set ms" "c \<in> set cs" "dict_get d ''mechanism'' = VStr m" "dict_get d ''case'' = VStr c"
    using clean_rowsD(5) [OF assms] by blast
  then have "group_of rows d = filter (\<lambda>d. cell_key d = (VStr m, VStr c)) rows"
    by (simp add: group_of_def cell_key_def)
  then show ?thesis using clean_rowsD(10) [OF assms(1) mc(1,2)] mc by auto
qed

lemma clean_keys:
  assumes "clean_rows name ms cs cat rows"
  shows "set (map cell_key rows) = (\<lambda>(m, c). (VStr m, VStr c)) ` (set ms \<times> set cs)"
proof (intro equalityI subsetI)
  fix x assume "x \<in> set (map cell_key rows)"
  then obtain d where d: "d \<in> set rows" "x = cell_key d" by auto
  obtain m c where "m \<in> set ms" "c \<in> set cs" "dict_get d ''mechanism'' = VStr m" "dict_get d ''case'' = VStr c"
    using clean_group [OF assms d(1)] by blast
  then show "x \<in> (\<lambda>(m, c). (VStr m, VStr c)) ` (set ms \<times> set cs)" using d(2) by (auto simp: cell_key_def)
next
  fix x assume "x \<in> (\<lambda>(m, c). (VStr m, VStr c)) ` (set ms \<times> set cs)"
  then obtain m c where x: "m \<in> set ms" "c \<in> set cs" "x = (VStr m, VStr c)" by auto
  then obtain g where g: "filter (\<lambda>d. cell_key d = x) rows = map g [1..30]"
    using clean_rowsD(10) [OF assms x(1,2)] by blast
  have "(1 :: int) \<in> set [1..30]" by simp
  then have "g 1 \<in> set (filter (\<lambda>d. cell_key d = x) rows)" unfolding g by (simp only: list.set_map) (rule imageI)
  then show "x \<in> set (map cell_key rows)" by auto
qed

lemma clean_cell_count:
  assumes "clean_rows name ms cs cat rows"
  shows "length (remdups (map cell_key rows)) = length ms * length cs"
proof -
  have "length (remdups (map cell_key rows)) = card (set (map cell_key rows))" by (rule length_remdups_card_conv)
  also have "\<dots> = card (set ms \<times> set cs)"
    unfolding clean_keys [OF assms] by (rule card_image) (auto simp: inj_on_def)
  also have "\<dots> = length ms * length cs"
    using clean_rowsD(1,2) [OF assms] by (simp add: card_cartesian_product distinct_card)
  finally show ?thesis .
qed

lemma clean_row_errors:
  assumes "clean_rows name ms cs cat rows"
  shows "row_errors name (30 * int (length ms * length cs)) (int (length ms * length cs)) rows = []"
proof -
  have rep: "set (map (\<lambda>e. canon (dict_get e ''repetition'')) (group_of rows d)) = set (map (\<lambda>i. canon (VInt i)) [1..30])"
    if d: "d \<in> set rows" for d
  proof -
    obtain g where g: "group_of rows d = map g [1..30]" "\<forall>r \<in> {1..30}. dict_get (g r) ''repetition'' = VInt r"
      using clean_group [OF assms d] by blast
    have "set (map (\<lambda>e. canon (dict_get e ''repetition'')) (group_of rows d)) = (\<lambda>r. canon (dict_get (g r) ''repetition'')) ` {1..30}"
      unfolding g(1) by (simp add: image_image del: upto_rec_numeral)
    also have "\<dots> = (\<lambda>r. canon (VInt r)) ` {1..30}" using g(2) by (intro image_cong) simp_all
    finally show ?thesis by (simp del: upto_rec_numeral canon.simps)
  qed
  have f: "set (firsts cell_key [] rows) \<subseteq> set rows" by (rule firsts_set(2))
  have "distinct (map identity rows)" "int (length rows) = 30 * int (length ms * length cs)"
    by (rule clean_rowsD(3,4) [OF assms])+
  moreover have "\<not> list_ex (\<lambda>d. dom d \<noteq> set (required_fields name)) rows"
    "\<not> list_ex (\<lambda>d. \<not> py_eq (dict_get d ''schema'') (VStr (''oasi.'' @ name @ ''.run.v1''))) rows"
    "\<not> list_ex scope_drift rows" "\<not> (name = ''s6'' \<and> list_ex sink_drift rows)"
    using clean_rowsD(6,7,8,9) [OF assms] unfolding list_ex_iff by auto
  ultimately show ?thesis
    using rep f clean_cell_count [OF assms] unfolding row_errors_def Let_def by (simp del: upto_rec_numeral) blast
qed

section \<open>A clean campaign with a faithful summary has no errors\<close>

definition cat_counts ::
  "string \<Rightarrow> (string \<Rightarrow> string \<Rightarrow> string \<Rightarrow> pyval) \<Rightarrow> string \<Rightarrow> string \<Rightarrow> (string \<times> int) list" where
  "cat_counts name cat m c =
     (let all = (\<lambda>k. if is_true (cat m c k) then 30 else 0) in
      [(''runs'', 30), (''double_effects'', all ''double_effect''),
       (''delivered_exactly_once'', all ''delivered_exactly_once''), (''replay_accepted'', all ''replay_accepted''),
       (''cross_generation_accepted'', all ''cross_generation_accepted''),
       (''altered_signature_accepted'', all ''altered_signature_accepted'')]
      @ (if name = ''s6'' then [(''delivery_lost'', all ''delivery_lost'')] else []))"

lemma group_counts_clean:
  assumes "\<forall>r \<in> {1..30}. \<forall>k \<in> set categorical. dict_get (g r) k = cat m c k"
  shows "group_counts name (map g [1..30]) = cat_counts name cat m c"
proof -
  have h: "int (length (filter (\<lambda>d. is_true (dict_get d k)) (map g [1..30]))) = (if is_true (cat m c k) then 30 else 0)"
    if k: "k \<in> set categorical" for k
  proof -
    have "filter (\<lambda>d. is_true (dict_get d k)) (map g [1..30]) = filter (\<lambda>d. is_true (cat m c k)) (map g [1..30])"
      by (rule filter_cong [OF refl]) (use assms k in \<open>auto simp del: upto_rec_numeral\<close>)
    then show ?thesis by (simp del: upto_rec_numeral)
  qed
  have n: "int (length (map g [1..30])) = 30" by simp
  have mem: "''double_effect'' \<in> set categorical" "''delivered_exactly_once'' \<in> set categorical"
    "''replay_accepted'' \<in> set categorical" "''cross_generation_accepted'' \<in> set categorical"
    "''altered_signature_accepted'' \<in> set categorical" "''delivery_lost'' \<in> set categorical"
    by (simp_all add: categorical_def)
  show ?thesis
    unfolding group_counts_def cat_counts_def Let_def n h [OF mem(1)] h [OF mem(2)] h [OF mem(3)] h [OF mem(4)]
      h [OF mem(5)] h [OF mem(6)] by (rule refl)
qed

definition faithful_summary ::
  "string \<Rightarrow> string list \<Rightarrow> string list \<Rightarrow> (string \<Rightarrow> string \<Rightarrow> string \<Rightarrow> pyval) \<Rightarrow> string \<Rightarrow> dict \<Rightarrow> bool" where
  "faithful_summary name ms cs cat digest s \<longleftrightarrow>
     s ''mechanisms'' = Some (VList (map VStr ms)) \<and> s ''cases'' = Some (VList (map VStr cs))
     \<and> dict_get s ''raw_sha256'' = VStr digest
     \<and> (\<forall>(k, v) \<in> set (summary_scope (30 * int (length ms * length cs))). dict_get s k = v)
     \<and> (\<exists>cells. s ''cells'' = Some (VDict cells) \<and> fst ` set cells = cell_name ` (set ms \<times> set cs)
          \<and> (\<forall>m \<in> set ms. \<forall>c \<in> set cs. \<exists>cell. map_of cells (cell_name (m, c)) = Some (VDict cell)
               \<and> (\<forall>(k, n) \<in> set (cat_counts name cat m c). dict_get (map_of cell) k = VInt n)))"

lemma clean_key_sets:
  assumes "clean_rows name ms cs cat rows" and "ms \<noteq> []" and "cs \<noteq> []"
  shows "fst ` cell_key ` set rows = VStr ` set ms" "snd ` cell_key ` set rows = VStr ` set cs"
proof -
  have k: "cell_key ` set rows = (\<lambda>(m, c). (VStr m, VStr c)) ` (set ms \<times> set cs)"
    using clean_keys [OF assms(1)] by simp
  have "fst ` cell_key ` set rows = VStr ` fst ` (set ms \<times> set cs)"
    "snd ` cell_key ` set rows = VStr ` snd ` (set ms \<times> set cs)"
    unfolding k by (simp_all only: image_image case_prod_unfold fst_conv snd_conv)
  then show "fst ` cell_key ` set rows = VStr ` set ms" "snd ` cell_key ` set rows = VStr ` set cs"
    using assms(2,3) by (simp_all add: fst_image_times snd_image_times)
qed

lemma clean_labels:
  assumes "clean_rows name ms cs cat rows"
  shows "cell_label frepr ` set (firsts cell_key [] rows) = cell_name ` (set ms \<times> set cs)"
proof -
  have lab: "\<exists>m c. m \<in> set ms \<and> c \<in> set cs \<and> cell_key d = (VStr m, VStr c) \<and> cell_label frepr d = cell_name (m, c)"
    if d: "d \<in> set rows" for d
  proof -
    obtain m c where "m \<in> set ms" "c \<in> set cs" "dict_get d ''mechanism'' = VStr m" "dict_get d ''case'' = VStr c"
      using clean_group [OF assms d] by blast
    then show ?thesis by (intro exI [of _ m] exI [of _ c]) (simp add: cell_label_def cell_name_def cell_key_def)
  qed
  have keys: "cell_key ` set (firsts cell_key [] rows) = (\<lambda>(m, c). (VStr m, VStr c)) ` (set ms \<times> set cs)"
    using firsts_set(1) [of cell_key "[]" rows] clean_keys [OF assms] by simp
  show ?thesis
  proof (intro equalityI subsetI)
    fix x assume "x \<in> cell_label frepr ` set (firsts cell_key [] rows)"
    then obtain d where "d \<in> set rows" "x = cell_label frepr d" using firsts_mem by fast
    then show "x \<in> cell_name ` (set ms \<times> set cs)" using lab by blast
  next
    fix x assume "x \<in> cell_name ` (set ms \<times> set cs)"
    then obtain m c where mc: "m \<in> set ms" "c \<in> set cs" "x = cell_name (m, c)" by auto
    then have "(VStr m, VStr c) \<in> cell_key ` set (firsts cell_key [] rows)" unfolding keys by auto
    then obtain d where d: "d \<in> set (firsts cell_key [] rows)" "cell_key d = (VStr m, VStr c)" by auto
    have "d \<in> set rows" using d(1) by (rule firsts_mem)
    from lab [OF this] have "cell_label frepr d = x" using d(2) mc(3) by auto
    then show "x \<in> cell_label frepr ` set (firsts cell_key [] rows)" using d(1) by blast
  qed
qed

lemma clean_cell_errors:
  assumes rows: "clean_rows name ms cs cat rows"
    and cells: "fst ` set cells = cell_name ` (set ms \<times> set cs)"
    and counts: "\<And>m c. m \<in> set ms \<Longrightarrow> c \<in> set cs \<Longrightarrow> \<exists>cell. map_of cells (cell_name (m, c)) = Some (VDict cell)
               \<and> (\<forall>(k, n) \<in> set (cat_counts name cat m c). dict_get (map_of cell) k = VInt n)"
  shows "cell_errors frepr name rows (VDict cells) = []"
proof -
  have one: "(case map_of cells (cell_label frepr d) of
           Some (VDict cell) \<Rightarrow>
             if list_ex (\<lambda>(k, n). \<not> py_eq (dict_get (map_of cell) k) (VInt n)) (group_counts name (group_of rows d))
             then [name @ '' summary categorical aggregate drift: '' @ cell_label frepr d] else []
         | _ \<Rightarrow> [name @ '' summary categorical aggregate drift: '' @ cell_label frepr d]) = []"
    if d: "d \<in> set (firsts cell_key [] rows)" for d
  proof -
    have "d \<in> set rows" using d by (rule firsts_mem)
    from clean_group [OF rows this] obtain m c g where mc: "m \<in> set ms" "c \<in> set cs"
        "dict_get d ''mechanism'' = VStr m" "dict_get d ''case'' = VStr c" "group_of rows d = map g [1..30]"
        "\<forall>r \<in> {1..30}. \<forall>k \<in> set categorical. dict_get (g r) k = cat m c k" by blast
    have l: "cell_label frepr d = cell_name (m, c)" using mc by (simp add: cell_label_def cell_name_def)
    have n: "group_counts name (group_of rows d) = cat_counts name cat m c"
      unfolding mc(5) by (rule group_counts_clean [where g = g and cat = cat and m = m and c = c, OF mc(6)])
    obtain cell where cell: "map_of cells (cell_name (m, c)) = Some (VDict cell)"
        "\<forall>(k, n) \<in> set (cat_counts name cat m c). dict_get (map_of cell) k = VInt n"
      using counts [OF mc(1,2)] by blast
    have "\<not> list_ex (\<lambda>(k, n). \<not> py_eq (dict_get (map_of cell) k) (VInt n)) (cat_counts name cat m c)"
      unfolding list_ex_iff using cell(2) py_eq_refl by fastforce
    then show ?thesis unfolding l n cell(1) by simp
  qed
  then show ?thesis using cells clean_labels [OF rows] by (simp add: cell_errors_def)
qed

theorem clean_campaign:
  assumes rows: "clean_rows name ms cs cat rows" and ne: "ms \<noteq> []" "cs \<noteq> []"
    and summary: "faithful_summary name ms cs cat digest s"
  shows "summary_errors frepr name (30 * int (length ms * length cs)) rows s = Inr []"
    "\<not> some_unhashable rows ([''mechanism'', ''case'', ''repetition''] @ categorical)"
    "dict_get s ''raw_sha256'' = VStr digest"
proof -
  have ms: "s ''mechanisms'' = Some (VList (map VStr ms))" "s ''cases'' = Some (VList (map VStr cs))"
    and dig: "dict_get s ''raw_sha256'' = VStr digest"
    and scope: "\<not> list_ex (\<lambda>(k, v). \<not> py_eq (dict_get s k) v) (summary_scope (30 * int (length ms * length cs)))"
    using summary py_eq_refl unfolding faithful_summary_def list_ex_iff by fastforce+
  have "\<exists>cells. s ''cells'' = Some (VDict cells) \<and> fst ` set cells = cell_name ` (set ms \<times> set cs)
          \<and> (\<forall>m \<in> set ms. \<forall>c \<in> set cs. \<exists>cell. map_of cells (cell_name (m, c)) = Some (VDict cell)
               \<and> (\<forall>(k, n) \<in> set (cat_counts name cat m c). dict_get (map_of cell) k = VInt n))"
    using summary unfolding faithful_summary_def by (elim conjE)
  then obtain cells where cells: "s ''cells'' = Some (VDict cells)" "fst ` set cells = cell_name ` (set ms \<times> set cs)"
      "\<forall>m \<in> set ms. \<forall>c \<in> set cs. \<exists>cell. map_of cells (cell_name (m, c)) = Some (VDict cell)
               \<and> (\<forall>(k, n) \<in> set (cat_counts name cat m c). dict_get (map_of cell) k = VInt n)"
    by (elim exE conjE)
  have hash: "\<not> list_ex (\<lambda>d. list_ex (\<lambda>k. \<not> hashable (dict_get d k)) ([''mechanism'', ''case'', ''repetition''] @ categorical)) rows"
  proof -
    have "hashable (dict_get d k)"
      if dr: "d \<in> set rows" and kk: "k \<in> set ([''mechanism'', ''case'', ''repetition''] @ categorical)" for d k
    proof -
      obtain m c r where d: "dict_get d ''mechanism'' = VStr m" "dict_get d ''case'' = VStr c"
          "dict_get d ''repetition'' = VInt r" "\<forall>k \<in> set categorical. dict_get d k = cat m c k \<and> hashable (cat m c k)"
        using clean_rowsD(5) [OF rows dr] by blast
      have "k = ''mechanism'' \<or> k = ''case'' \<or> k = ''repetition'' \<or> k \<in> set categorical" using kk by simp
      then show ?thesis by (elim disjE) (simp_all add: d)
    qed
    then show ?thesis unfolding list_ex_iff by blast
  qed
  have cat: "length (remdups (map (\<lambda>e. map (\<lambda>k. canon (dict_get e k)) categorical) (group_of rows d))) = 1"
    if d: "d \<in> set (firsts cell_key [] rows)" for d
  proof -
    have "d \<in> set rows" using d by (rule firsts_mem)
    from clean_group [OF rows this] obtain m c g where g: "group_of rows d = map g [1..30]"
        "\<forall>r \<in> {1..30}. \<forall>k \<in> set categorical. dict_get (g r) k = cat m c k" by blast
    let ?t = "map (\<lambda>k. canon (cat m c k)) categorical"
    have t: "map (\<lambda>k. canon (dict_get (g r) k)) categorical = ?t" if "r \<in> {1..30}" for r
      using g(2) that by (intro map_cong) auto
    have "set (map (\<lambda>e. map (\<lambda>k. canon (dict_get e k)) categorical) (group_of rows d))
        = (\<lambda>r. map (\<lambda>k. canon (dict_get (g r) k)) categorical) ` {1..30}"
      unfolding g(1) by (simp only: list.set_map image_image set_upto)
    also have "\<dots> = (\<lambda>r. ?t) ` {1 :: int..30}" by (rule image_cong [OF refl t])
    also have "\<dots> = {?t}" by (simp only: image_constant_conv) simp
    finally show ?thesis by (simp add: length_remdups_card_conv)
  qed
  have sets: "set_of (VList (map VStr xs)) = Inr (VStr ` set xs)" for xs
    by (simp add: list_all_iff image_image)
  show "\<not> some_unhashable rows ([''mechanism'', ''case'', ''repetition''] @ categorical)" unfolding some_unhashable_def by (rule hash)
  show "dict_get s ''raw_sha256'' = VStr digest" by (rule dig)
  show "summary_errors frepr name (30 * int (length ms * length cs)) rows s = Inr []"
    using cat clean_cell_errors [OF rows cells(2) bspec [OF bspec [OF cells(3)]], of frepr]
      clean_key_sets [OF rows ne] scope
    unfolding summary_errors_def Let_def ms option.case sets res_bind.simps cells(1)
    by (simp add: list_ex_iff)
qed

text \<open>The results directory as a whole.\<close>

theorem clean_results:
  assumes rows: "clean_rows name ms cs cat rows" and ne: "ms \<noteq> []" "cs \<noteq> []"
    and summary: "faithful_summary name ms cs cat (sha_hex sha raw) (map_of summary)"
    and t: "verify_manifest sha t ''RESULT_MANIFEST.sha256'' = Inr []" "map_of t ''RAW_RUNS.jsonl'' = Some raw"
      "load_jsonl ''RAW_RUNS.jsonl'' raw = (rows, [])"
    and docs: "document parse t ''SUMMARY.json'' = Some (VDict summary)" "document parse t ''INDEPENDENT_VERIFY_RESULT.json'' = Some (VDict checker)"
    and checker: "dict_get (map_of checker) ''status'' = VStr ''PASS''"
      "dict_get (map_of checker) ''runs'' = VInt (30 * int (length ms * length cs))"
  shows "verify_campaign sha frepr parse name (30 * int (length ms * length cs)) (int (length ms * length cs)) t = Inr (rows, [])"
proof -
  note c = clean_campaign [OF rows ne summary]
  have u: "\<not> some_unhashable rows [''mechanism'', ''case'', ''repetition'']" "\<not> some_unhashable rows categorical"
    using c(2) unfolding some_unhashable_def list_ex_iff by auto
  show ?thesis
    unfolding verify_campaign_def load_rows_def load_json_def t docs res_bind.simps option.case prod.case pyval.case c(1,3)
      clean_row_errors [OF rows] checker
    using u by (simp add: py_eq_def)
qed

lemma totals_drift_none:
  assumes "\<And>x. x \<in> set xs \<Longrightarrow> totals rows (fst x) = Inr (snd x)"
  shows "totals_drift label rows xs = Inr []"
  using assms
proof (induction xs)
  case (Cons x xs)
  obtain m t where x: "x = (m, t)" by (cases x)
  have "totals rows m = Inr t" using Cons.prems [of x] x by simp
  moreover have "totals_drift label rows xs = Inr []" by (rule Cons.IH) (simp add: Cons.prems)
  ultimately show ?case unfolding x by simp
qed simp

end
