(* ===== verification/Evidence_S5.thy ===== *)
theory Evidence_S5
  imports S5_Verify Evidence
begin

text \<open>
  The results of the first campaign against \<open>verify_experiments.py\<close>: no error, and the pinned totals.
\<close>

section \<open>The rows of the first campaign\<close>

fun unrow :: "row \<Rightarrow> dict" where
  "unrow (Row d) = d"
| "unrow Not_object = Map.empty"

definition no_meters :: meters where
  "no_meters = \<lparr>wall_ns = 0, cpu_ns = 0, heap_peak = 0, rss_before = 0, rss_after = 0, artifact_bytes = 0\<rparr>"

definition s5_dicts :: "world \<Rightarrow> dict list" where
  "s5_dicts W = map map_of (s5_all W)"

definition s5_dict :: "world \<Rightarrow> string \<Rightarrow> nat \<times> string \<Rightarrow> int \<Rightarrow> dict" where
  "s5_dict W m ic r = map_of (s5_expected W m (snd ic) r (s5_seed (fst ic) r))"

text \<open>The fields that a cell determines.\<close>

definition s5_cat :: "string \<Rightarrow> string \<Rightarrow> string \<Rightarrow> pyval" where
  "s5_cat m c k = dict_get (map_of (s5_record m c 0 0 no_meters (s5_effects m c) (s5_outcome m c))) k"

lemma s5_dicts_rows: "s5_dicts W = map unrow (s5_rows W)"
  by (simp add: s5_dicts_def s5_rows_def)

lemma unrow_s5: "unrow (s5_row W m ic r) = s5_dict W m ic r"
  by (simp add: s5_row_def s5_dict_def)

lemma s5_dict_fields:
  "dict_get (s5_dict W m ic r) ''mechanism'' = VStr m" "dict_get (s5_dict W m ic r) ''case'' = VStr (snd ic)"
  "dict_get (s5_dict W m ic r) ''repetition'' = VInt r" "dict_get (s5_dict W m ic r) ''schema'' = VStr ''oasi.s5.run.v1''"
  "dict_get (s5_dict W m ic r) ''effect_count'' = VInt (int (s5_effects m (snd ic)))"
  by (simp_all add: s5_dict_def s5_expected_def s5_record_def dict_get_def)

lemma s5_dict_effects: "s5_dict W m ic r ''effect_count'' = Some (VInt (int (s5_effects m (snd ic))))"
  by (simp add: s5_dict_def s5_expected_def s5_record_def)

lemma s5_dict_cat: "k \<in> set categorical \<Longrightarrow> dict_get (s5_dict W m ic r) k = s5_cat m (snd ic) k \<and> hashable (s5_cat m (snd ic) k)"
  unfolding categorical_def list.set insert_iff empty_iff
  by (elim disjE) (simp_all add: s5_dict_def s5_cat_def s5_expected_def s5_record_def dict_get_def)

lemma s5_dict_dom: "dom (s5_dict W m ic r) = set (required_fields ''s5'')"
proof -
  have "dom (s5_dict W m ic r) = set (map fst (s5_record m (snd ic) r (s5_seed (fst ic) r) (w_meters W m (snd ic) r)
      (s5_effects m (snd ic)) (s5_outcome m (snd ic))))"
    by (simp add: s5_dict_def s5_expected_def dom_map_of_conv_image_fst)
  also have "\<dots> = set (required_fields ''s5'')"
  proof (rule subset_antisym)
    show "set (map fst (s5_record m (snd ic) r (s5_seed (fst ic) r) (w_meters W m (snd ic) r)
      (s5_effects m (snd ic)) (s5_outcome m (snd ic)))) \<subseteq> set (required_fields ''s5'')"
      by (simp add: s5_record_def required_fields_def common_fields_def s6_fields_def)
    show "set (required_fields ''s5'') \<subseteq> set (map fst (s5_record m (snd ic) r (s5_seed (fst ic) r) (w_meters W m (snd ic) r)
      (s5_effects m (snd ic)) (s5_outcome m (snd ic))))"
      by (simp add: s5_record_def required_fields_def common_fields_def s6_fields_def)
  qed
  finally show ?thesis .
qed

lemma s5_terminal:
  "m \<in> set MECHANISMS5 \<Longrightarrow> c \<in> set CASES5 \<Longrightarrow> s5_disposition m c \<in> set s5_terminal_dispositions"
  by (elim mechanisms5E cases5E) (simp_all add: s5_disposition_def s5_terminal_dispositions_def CASES5_def)

lemma s5_dict_scope:
  "m \<in> set MECHANISMS5 \<Longrightarrow> snd ic \<in> set CASES5 \<Longrightarrow> \<not> scope_drift (s5_dict W m ic r)"
  using s5_terminal [of m "snd ic"]
  by (simp add: scope_drift_def s5_dict_def s5_expected_def s5_record_def dict_get_def is_false_def is_true_def
      s5_outcome_def)

lemma s5_dicts_mem:
  assumes "world_ok W" and "d \<in> set (s5_dicts W)"
  shows "\<exists>m ic r. d = s5_dict W m ic r \<and> m \<in> set MECHANISMS5 \<and> snd ic \<in> set CASES5 \<and> r \<in> {1..30}"
proof -
  obtain x where x: "x \<in> set (s5_rows W)" "d = unrow x" using assms(2) by (auto simp: s5_dicts_rows)
  then show ?thesis using s5_rows_mem [OF assms(1) x(1)] unrow_s5 by metis
qed

lemma s5_dicts_select:
  assumes "world_ok W" and "m0 \<in> set MECHANISMS5"
    and "\<And>m ic r. m \<in> set MECHANISMS5 \<Longrightarrow> P (s5_dict W m ic r) \<longleftrightarrow> m = m0 \<and> Q (snd ic)"
  shows "filter P (s5_dicts W) =
    concat (map (\<lambda>ic. map (s5_dict W m0 ic) [1..REPETITIONS5]) (filter (\<lambda>ic. Q (snd ic)) (enumerate 0 CASES5)))"
proof -
  have "filter P (s5_dicts W) = map unrow (filter (\<lambda>x. P (unrow x)) (s5_rows W))"
    by (simp add: s5_dicts_rows filter_map comp_def)
  also have "filter (\<lambda>x. P (unrow x)) (s5_rows W) = concat (map (\<lambda>ic. map (s5_row W m0 ic) [1..REPETITIONS5])
      (filter (\<lambda>ic. Q (snd ic)) (enumerate 0 CASES5)))"
    by (rule s5_grid_select [OF assms(1,2)]) (simp add: unrow_s5 assms(3))
  finally show ?thesis by (simp only: map_concat map_map comp_def unrow_s5)
qed

lemma s5_identities:
  assumes "world_ok W"
  shows "distinct (map identity (s5_dicts W))"
proof -
  obtain keys where keys: "res_map_list row_key (s5_rows W) = Inr keys" "distinct keys" using s5_keys [OF assms] by blast
  have "row_key x = Inr (identity (unrow x))" if x: "x \<in> set (s5_rows W)" for x
  proof -
    obtain m ic r where e: "x = s5_row W m ic r" using s5_rows_mem [OF assms x] by blast
    show ?thesis unfolding e unrow_s5 s5_row_key by (simp add: identity_def s5_dict_fields)
  qed
  then have "res_map_list row_key (s5_rows W) = Inr (map (\<lambda>x. identity (unrow x)) (s5_rows W))"
    by (rule res_map_list_ok)
  then show ?thesis using keys by (simp add: s5_dicts_rows comp_def)
qed

lemma s5_clean:
  assumes W: "world_ok W"
  shows "clean_rows ''s5'' MECHANISMS5 CASES5 s5_cat (s5_dicts W)"
  unfolding clean_rows_def
proof (intro conjI ballI)
  show "distinct MECHANISMS5" "distinct CASES5" by (simp_all add: MECHANISMS5_def CASES5_def)
  show "distinct (map identity (s5_dicts W))" by (rule s5_identities [OF W])
  show "int (length (s5_dicts W)) = 30 * int (length MECHANISMS5 * length CASES5)"
    using s5_all_length [OF W] by (simp add: s5_dicts_def MECHANISMS5_def CASES5_def)
next
  fix d assume "d \<in> set (s5_dicts W)"
  then obtain m ic r where d: "d = s5_dict W m ic r" "m \<in> set MECHANISMS5" "snd ic \<in> set CASES5" "r \<in> {1..30}"
    using s5_dicts_mem [OF W] by blast
  show "clean_row ''s5'' MECHANISMS5 CASES5 s5_cat d"
    unfolding clean_row_def d(1)
  proof (intro conjI bexI [OF _ d(2)] bexI [OF _ d(3)] bexI [OF _ d(4)] ballI impI)
    show "dict_get (s5_dict W m ic r) ''mechanism'' = VStr m" "dict_get (s5_dict W m ic r) ''case'' = VStr (snd ic)"
      "dict_get (s5_dict W m ic r) ''repetition'' = VInt r" by (rule s5_dict_fields)+
    show "dict_get (s5_dict W m ic r) ''schema'' = VStr (''oasi.'' @ ''s5'' @ ''.run.v1'')" by (simp add: s5_dict_fields)
    show "dict_get (s5_dict W m ic r) k = s5_cat m (snd ic) k" "hashable (s5_cat m (snd ic) k)"
      if "k \<in> set categorical" for k using s5_dict_cat [OF that] by blast+
    show "dom (s5_dict W m ic r) = set (required_fields ''s5'')" by (rule s5_dict_dom)
    show "\<not> scope_drift (s5_dict W m ic r)" by (rule s5_dict_scope [OF d(2,3)])
    show "\<not> sink_drift (s5_dict W m ic r)" if "''s5'' = ''s6''" using that by simp
  qed
next
  fix m c assume mc: "m \<in> set MECHANISMS5" "c \<in> set CASES5"
  obtain i where i: "filter (\<lambda>ic. snd ic = c) (enumerate 0 CASES5) = [(i, c)]" using s5_enumerate_case [OF mc(2)] by blast
  have "filter (\<lambda>d. cell_key d = (VStr m, VStr c)) (s5_dicts W)
      = concat (map (\<lambda>ic. map (s5_dict W m ic) [1..REPETITIONS5]) (filter (\<lambda>ic. snd ic = c) (enumerate 0 CASES5)))"
    by (rule s5_dicts_select [OF W mc(1)]) (auto simp: cell_key_def s5_dict_fields)
  then have "filter (\<lambda>d. cell_key d = (VStr m, VStr c)) (s5_dicts W) = map (s5_dict W m (i, c)) [1..30]"
    unfolding i by (simp add: REPETITIONS5_def)
  then show "clean_cell s5_cat (s5_dicts W) m c"
    unfolding clean_cell_def using s5_dict_fields(3) s5_dict_cat by (intro exI [of _ "s5_dict W m (i, c)"]) auto
qed

lemma s5_flags_cat:
  "is_true (s5_cat m c ''double_effect'') \<longleftrightarrow> 1 < s5_effects m c"
  "is_true (s5_cat m c ''delivered_exactly_once'') \<longleftrightarrow> s5_effects m c = 1"
  "is_true (s5_cat m c ''replay_accepted'') \<longleftrightarrow> replay_accepted (s5_outcome m c)"
  "is_true (s5_cat m c ''cross_generation_accepted'') \<longleftrightarrow> cross_generation_accepted (s5_outcome m c)"
  "is_true (s5_cat m c ''altered_signature_accepted'') \<longleftrightarrow> altered_signature_accepted (s5_outcome m c)"
  "is_true (s5_cat m c ''delivery_lost'') \<longleftrightarrow> False"
  by (simp_all add: s5_cat_def s5_record_def dict_get_def is_true_def)

lemma s5_counts_cat: "set (cat_counts ''s5'' s5_cat m c) = set (s5_cell_counts m c)"
  by (simp add: cat_counts_def s5_cell_counts_def Let_def s5_flags_cat)

lemma s5_faithful:
  assumes "s5_cells_ok cells" and "s5_summary_of W cells = VDict kvs"
  shows "faithful_summary ''s5'' MECHANISMS5 CASES5 s5_cat (sha_hex (w_sha W) (raw_bytes (s5_lines W))) (map_of kvs)"
proof -
  have cells: "map_of kvs ''cells'' = Some (VDict cells)"
    using assms(2) by (auto simp: s5_summary_of_def)
  have names: "fst ` set cells = cell_name ` (set MECHANISMS5 \<times> set CASES5)"
  proof -
    have "set (map fst cells) = set (map cell_name s5_grid_names)" using assms(1) unfolding s5_cells_ok_def by simp
    then show ?thesis by (simp add: s5_grid_names_def set_product)
  qed
  have counts: "\<exists>cell. map_of cells (cell_name (m, c)) = Some (VDict cell)
      \<and> (\<forall>(k, n) \<in> set (cat_counts ''s5'' s5_cat m c). dict_get (map_of cell) k = VInt n)"
    if mc: "m \<in> set MECHANISMS5" "c \<in> set CASES5" for m c
  proof -
    have "(m, c) \<in> set s5_grid_names" using mc by (simp add: s5_grid_names_def)
    then obtain cell where "map_of cells (cell_name (m, c)) = Some (VDict cell)"
        "\<forall>(k, n) \<in> set (s5_cell_counts m c). map_of cell k = Some (VInt n)"
      using assms(1) unfolding s5_cells_ok_def by fastforce
    then show ?thesis unfolding s5_counts_cat by (auto simp: dict_get_def)
  qed
  have "map_of kvs ''mechanisms'' = Some (VList (map VStr MECHANISMS5))" "map_of kvs ''cases'' = Some (VList (map VStr CASES5))"
    "dict_get (map_of kvs) ''raw_sha256'' = VStr (sha_hex (w_sha W) (raw_bytes (s5_lines W)))"
    "\<forall>(k, v) \<in> set (summary_scope (30 * int (length MECHANISMS5 * length CASES5))). dict_get (map_of kvs) k = v"
    using assms(2) by (auto simp: s5_summary_of_def dict_get_def summary_scope_def MECHANISMS5_def CASES5_def)
  then show ?thesis
    unfolding faithful_summary_def using cells names counts by blast
qed

text \<open>The totals of a mechanism, from the table.\<close>

lemma s5_totals:
  assumes W: "world_ok W" and m: "m0 \<in> set MECHANISMS5"
  shows "totals (s5_dicts W) m0 = Inr (pinned 240
    (30 * int (sum_list (map (s5_effects m0) CASES5)))
    (30 * int (length (filter (\<lambda>c. 1 < s5_effects m0 c) CASES5)))
    (30 * int (length (filter (\<lambda>c. s5_effects m0 c = 1) CASES5)))
    (30 * int (length (filter (\<lambda>c. False) CASES5)))
    (30 * int (length (filter (\<lambda>c. replay_accepted (s5_outcome m0 c)) CASES5))))"
proof -
  let ?ics = "enumerate 0 CASES5"
  let ?sel = "concat (map (\<lambda>ic. map (s5_dict W m0 ic) [1..REPETITIONS5]) ?ics)"
  have sel: "filter (\<lambda>d. py_eq (dict_get d ''mechanism'') (VStr m0)) (s5_dicts W) = ?sel"
    using s5_dicts_select [OF W m, of "\<lambda>d. py_eq (dict_get d ''mechanism'') (VStr m0)" "\<lambda>_. True"]
    by (simp add: s5_dict_fields)
  have hits: "length (filter (\<lambda>d. is_true (dict_get d k)) ?sel) = 30 * length (filter (\<lambda>c. is_true (s5_cat m0 c k)) CASES5)"
    if "k \<in> set categorical" for k
  proof -
    have "length (filter (\<lambda>d. is_true (dict_get d k)) ?sel) = length [1..REPETITIONS5] * length (filter (\<lambda>ic. is_true (s5_cat m0 (snd ic) k)) ?ics)"
      by (rule count_cases) (simp add: s5_dict_cat [OF that])
    also have "length (filter (\<lambda>ic. is_true (s5_cat m0 (snd ic) k)) ?ics) = length (filter (\<lambda>c. is_true (s5_cat m0 c k)) CASES5)"
      using arg_cong [where f = length, OF filter_enumerate [of "\<lambda>c. is_true (s5_cat m0 c k)" 0 CASES5]] by simp
    finally show ?thesis by (simp add: REPETITIONS5_def)
  qed
  have mem: "''double_effect'' \<in> set categorical" "''delivered_exactly_once'' \<in> set categorical"
    "''replay_accepted'' \<in> set categorical" "''delivery_lost'' \<in> set categorical"
    by (simp_all add: categorical_def)
  have eff: "res_map_list (\<lambda>d. py_int (case d ''effect_count'' of None \<Rightarrow> VInt (- 1) | Some v \<Rightarrow> v)) ?sel
      = Inr (map (\<lambda>d. case dict_get d ''effect_count'' of VInt n \<Rightarrow> n | _ \<Rightarrow> 0) ?sel)"
    by (rule res_map_list_ok) (auto simp: s5_dict_effects s5_dict_fields)
  have sum: "sum_list (map (\<lambda>d. case dict_get d ''effect_count'' of VInt n \<Rightarrow> n | _ \<Rightarrow> 0) ?sel)
      = 30 * int (sum_list (map (s5_effects m0) CASES5))"
  proof -
    have row: "sum_list (map (\<lambda>d. case dict_get d ''effect_count'' of VInt n \<Rightarrow> n | _ \<Rightarrow> 0)
        (map (s5_dict W m0 ic) [1..REPETITIONS5])) = 30 * int (s5_effects m0 (snd ic))" for ic
      by (simp add: comp_def s5_dict_fields(5) sum_list_triv REPETITIONS5_def)
    have "sum_list (map (\<lambda>d. case dict_get d ''effect_count'' of VInt n \<Rightarrow> n | _ \<Rightarrow> 0)
        (concat (map (\<lambda>ic. map (s5_dict W m0 ic) [1..REPETITIONS5]) ics)))
        = 30 * int (sum_list (map (s5_effects m0) (map snd ics)))" for ics
      by (induction ics) (simp_all only: list.map concat.simps map_append sum_list_append row, simp_all)
    from this [of ?ics] show ?thesis by simp
  qed
  have len: "length ?sel = 240"
  proof -
    have "length (concat (map (\<lambda>ic. map (s5_dict W m0 ic) [1..REPETITIONS5]) ics)) = 30 * length ics" for ics
      by (induction ics) (simp_all add: REPETITIONS5_def)
    from this [of ?ics] show ?thesis by (simp add: CASES5_def)
  qed
  show ?thesis
    unfolding totals_def Let_def sel eff res_bind.simps sum len hits [OF mem(1)] hits [OF mem(2)] hits [OF mem(3)]
      hits [OF mem(4)] s5_flags_cat
    by (simp add: pinned_def)
qed

lemma s5_totals_pinned:
  assumes "world_ok W"
  shows "totals_drift ''S5'' (s5_dicts W) expected_s5 = Inr []"
proof -
  have "totals (s5_dicts W) (fst x) = Inr (snd x)" if "x \<in> set expected_s5" for x
  proof -
    have "fst x \<in> set MECHANISMS5" using that by (auto simp: expected_s5_def MECHANISMS5_def)
    from s5_totals [OF assms this] show ?thesis
      using that unfolding expected_s5_def list.set insert_iff empty_iff
      by (elim disjE FalseE) (simp_all add: s5_tables)
  qed
  then show ?thesis by (rule totals_drift_none)
qed

theorem s5_evidence:
  assumes W: "world_ok W"
    and F: "sound_floats (w_floats W)" and fresh: "\<not> output_exists R" and C: "s5_run_campaign W False prereg R = (res, C)"
    and checker: "s5v_main (w_floats W) (w_sha W) (map_option raw_bytes (raw_runs (out C))) (summary_file (out C)) = Inr checker"
    and t: "verify_manifest (w_sha W) t ''RESULT_MANIFEST.sha256'' = Inr []" "map_of t ''RAW_RUNS.jsonl'' = map_option raw_bytes (raw_runs (out C))"
    and docs: "document parse t ''SUMMARY.json'' = summary_file (out C)" "document parse t ''INDEPENDENT_VERIFY_RESULT.json'' = Some checker"
  shows "\<exists>rows. verify_campaign (w_sha W) frepr parse ''s5'' 1200 40 t = Inr (rows, [])
    \<and> totals_drift ''S5'' rows expected_s5 = Inr []"
proof -
  obtain cells where o: "raw_runs (out C) = Some (s5_lines W)" "s5_cells_ok cells"
      "summary_file (out C) = Some (s5_summary_of W cells)"
    using s5_campaign_eq [OF W fresh, of prereg] C by auto
  obtain kvs where k: "s5_summary_of W cells = VDict kvs" by (simp add: s5_summary_of_def)
  obtain v where v: "checker = VDict v" "dict_get (map_of v) ''status'' = VStr ''PASS''" "dict_get (map_of v) ''runs'' = VInt 1200"
    using checker unfolding s5v_accepts_campaign [OF W F fresh C] by (auto simp: dict_get_def)
  have load: "load_jsonl ''RAW_RUNS.jsonl'' (raw_bytes (s5_lines W)) = (s5_dicts W, [])"
    unfolding s5_lines_def s5_dicts_def by (rule load_jsonl_flat) (rule s5_all_flat)
  have n: "30 * (40 :: int) = 1200" "int (length MECHANISMS5 * length CASES5) = 40"
    and ne: "MECHANISMS5 \<noteq> []" "CASES5 \<noteq> []"
    by (simp_all add: MECHANISMS5_def CASES5_def)
  have raw: "map_of t ''RAW_RUNS.jsonl'' = Some (raw_bytes (s5_lines W))" using t(2) o(1) by simp
  have d: "document parse t ''SUMMARY.json'' = Some (VDict kvs)" "document parse t ''INDEPENDENT_VERIFY_RESULT.json'' = Some (VDict v)"
    using docs o(3) k v(1) by simp_all
  have "verify_campaign (w_sha W) frepr parse ''s5'' 1200 40 t = Inr (s5_dicts W, [])"
    using clean_results [OF s5_clean [OF W] ne s5_faithful [OF o(2) k] t(1) raw load d v(2), unfolded n, OF v(3), of frepr] by simp
  then show ?thesis using s5_totals_pinned [OF W] by blast
qed

end
