(* ===== verification/Evidence_S6.thy ===== *)
theory Evidence_S6
  imports S6_Verify Evidence_S5
begin

text \<open>
  The results of the second campaign against \<open>verify_experiments.py\<close>: no error, the pinned totals,
  and the equivalence of its two coordinated baselines.
\<close>

section \<open>The rows of the second campaign\<close>

definition s6_dicts :: "world \<Rightarrow> dict list" where
  "s6_dicts W = map map_of (s6_all W)"

definition s6_dict :: "world \<Rightarrow> string \<Rightarrow> nat \<times> string \<Rightarrow> int \<Rightarrow> dict" where
  "s6_dict W m ic r = map_of (s6_expected W m (snd ic) r (s6_seed (fst ic) r))"

text \<open>The fields that a cell determines.\<close>

definition s6_cat :: "string \<Rightarrow> string \<Rightarrow> string \<Rightarrow> pyval" where
  "s6_cat m c k = dict_get (map_of (s6_record m c 0 0 no_meters (s6_effects m c) (s6_outcome m c))) k"

lemma s6_dicts_rows: "s6_dicts W = map unrow (s6_rows W)"
  by (simp add: s6_dicts_def s6_rows_def)

lemma unrow_s6: "unrow (s6_row W m ic r) = s6_dict W m ic r"
  by (simp add: s6_row_def s6_dict_def)

lemma s6_dict_fields:
  "dict_get (s6_dict W m ic r) ''mechanism'' = VStr m" "dict_get (s6_dict W m ic r) ''case'' = VStr (snd ic)"
  "dict_get (s6_dict W m ic r) ''repetition'' = VInt r" "dict_get (s6_dict W m ic r) ''schema'' = VStr ''oasi.s6.run.v1''"
  "dict_get (s6_dict W m ic r) ''effect_count'' = VInt (int (s6_effects m (snd ic)))"
  by (simp_all add: s6_dict_def s6_expected_def s6_record_def dict_get_def)

lemma s6_dict_effects: "s6_dict W m ic r ''effect_count'' = Some (VInt (int (s6_effects m (snd ic))))"
  by (simp add: s6_dict_def s6_expected_def s6_record_def)

lemma s6_dict_cat: "k \<in> set categorical \<Longrightarrow> dict_get (s6_dict W m ic r) k = s6_cat m (snd ic) k \<and> hashable (s6_cat m (snd ic) k)"
  unfolding categorical_def list.set insert_iff empty_iff
  by (elim disjE) (simp_all add: s6_dict_def s6_cat_def s6_expected_def s6_record_def dict_get_def)

lemma s6_dict_dom: "dom (s6_dict W m ic r) = set (required_fields ''s6'')"
proof -
  have "dom (s6_dict W m ic r) = set (map fst (s6_record m (snd ic) r (s6_seed (fst ic) r) (w_meters W m (snd ic) r)
      (s6_effects m (snd ic)) (s6_outcome m (snd ic))))"
    by (simp add: s6_dict_def s6_expected_def dom_map_of_conv_image_fst)
  also have "\<dots> = set (required_fields ''s6'')"
  proof (rule subset_antisym)
    show "set (map fst (s6_record m (snd ic) r (s6_seed (fst ic) r) (w_meters W m (snd ic) r)
      (s6_effects m (snd ic)) (s6_outcome m (snd ic)))) \<subseteq> set (required_fields ''s6'')"
      by (simp add: s6_record_def required_fields_def common_fields_def s6_fields_def)
    show "set (required_fields ''s6'') \<subseteq> set (map fst (s6_record m (snd ic) r (s6_seed (fst ic) r) (w_meters W m (snd ic) r)
      (s6_effects m (snd ic)) (s6_outcome m (snd ic))))"
      by (simp add: s6_record_def required_fields_def common_fields_def s6_fields_def)
  qed
  finally show ?thesis .
qed

lemma s6_terminal:
  "m \<in> set MECHANISMS6 \<Longrightarrow> c \<in> set CASES6 \<Longrightarrow> s6_disposition m c \<in> set s6_terminal_dispositions"
  by (elim mechanisms6E cases6E) (simp_all add: s6_disposition_def s6_terminal_dispositions_def CASES6_def)

lemma s6_dict_scope:
  "m \<in> set MECHANISMS6 \<Longrightarrow> snd ic \<in> set CASES6 \<Longrightarrow> \<not> scope_drift (s6_dict W m ic r)"
  using s6_terminal [of m "snd ic"]
  by (simp add: scope_drift_def s6_dict_def s6_expected_def s6_record_def dict_get_def is_false_def is_true_def
      s6_outcome_def)

lemma s6_dict_sink: "\<not> sink_drift (s6_dict W m ic r)"
  by (simp add: sink_drift_def s6_dict_def s6_expected_def s6_record_def dict_get_def is_false_def)

lemma s6_dicts_mem:
  assumes "world_ok W" and "d \<in> set (s6_dicts W)"
  shows "\<exists>m ic r. d = s6_dict W m ic r \<and> m \<in> set MECHANISMS6 \<and> snd ic \<in> set CASES6 \<and> r \<in> {1..30}"
proof -
  obtain x where x: "x \<in> set (s6_rows W)" "d = unrow x" using assms(2) by (auto simp: s6_dicts_rows)
  then show ?thesis using s6_rows_mem [OF assms(1) x(1)] unrow_s6 by metis
qed

lemma s6_dicts_select:
  assumes "world_ok W" and "m0 \<in> set MECHANISMS6"
    and "\<And>m ic r. m \<in> set MECHANISMS6 \<Longrightarrow> P (s6_dict W m ic r) \<longleftrightarrow> m = m0 \<and> Q (snd ic)"
  shows "filter P (s6_dicts W) =
    concat (map (\<lambda>ic. map (s6_dict W m0 ic) [1..REPETITIONS6]) (filter (\<lambda>ic. Q (snd ic)) (enumerate 0 CASES6)))"
proof -
  have "filter P (s6_dicts W) = map unrow (filter (\<lambda>x. P (unrow x)) (s6_rows W))"
    by (simp add: s6_dicts_rows filter_map comp_def)
  also have "filter (\<lambda>x. P (unrow x)) (s6_rows W) = concat (map (\<lambda>ic. map (s6_row W m0 ic) [1..REPETITIONS6])
      (filter (\<lambda>ic. Q (snd ic)) (enumerate 0 CASES6)))"
    by (rule s6_grid_select [OF assms(1,2)]) (simp add: unrow_s6 assms(3))
  finally show ?thesis by (simp only: map_concat map_map comp_def unrow_s6)
qed

lemma s6_identities:
  assumes "world_ok W"
  shows "distinct (map identity (s6_dicts W))"
proof -
  obtain keys where keys: "res_map_list row_key (s6_rows W) = Inr keys" "distinct keys" using s6_keys [OF assms] by blast
  have "row_key x = Inr (identity (unrow x))" if x: "x \<in> set (s6_rows W)" for x
  proof -
    obtain m ic r where e: "x = s6_row W m ic r" using s6_rows_mem [OF assms x] by blast
    show ?thesis unfolding e unrow_s6 s6_row_key by (simp add: identity_def s6_dict_fields)
  qed
  then have "res_map_list row_key (s6_rows W) = Inr (map (\<lambda>x. identity (unrow x)) (s6_rows W))"
    by (rule res_map_list_ok)
  then show ?thesis using keys by (simp add: s6_dicts_rows comp_def)
qed

lemma s6_clean:
  assumes W: "world_ok W"
  shows "clean_rows ''s6'' MECHANISMS6 CASES6 s6_cat (s6_dicts W)"
  unfolding clean_rows_def
proof (intro conjI ballI)
  show "distinct MECHANISMS6" "distinct CASES6" by (simp_all add: MECHANISMS6_def CASES6_def)
  show "distinct (map identity (s6_dicts W))" by (rule s6_identities [OF W])
  show "int (length (s6_dicts W)) = 30 * int (length MECHANISMS6 * length CASES6)"
    using s6_all_length [OF W] by (simp add: s6_dicts_def MECHANISMS6_def CASES6_def)
next
  fix d assume "d \<in> set (s6_dicts W)"
  then obtain m ic r where d: "d = s6_dict W m ic r" "m \<in> set MECHANISMS6" "snd ic \<in> set CASES6" "r \<in> {1..30}"
    using s6_dicts_mem [OF W] by blast
  show "clean_row ''s6'' MECHANISMS6 CASES6 s6_cat d"
    unfolding clean_row_def d(1)
  proof (intro conjI bexI [OF _ d(2)] bexI [OF _ d(3)] bexI [OF _ d(4)] ballI impI)
    show "dict_get (s6_dict W m ic r) ''mechanism'' = VStr m" "dict_get (s6_dict W m ic r) ''case'' = VStr (snd ic)"
      "dict_get (s6_dict W m ic r) ''repetition'' = VInt r" by (rule s6_dict_fields)+
    show "dict_get (s6_dict W m ic r) ''schema'' = VStr (''oasi.'' @ ''s6'' @ ''.run.v1'')" by (simp add: s6_dict_fields)
    show "dict_get (s6_dict W m ic r) k = s6_cat m (snd ic) k" "hashable (s6_cat m (snd ic) k)"
      if "k \<in> set categorical" for k using s6_dict_cat [OF that] by blast+
    show "dom (s6_dict W m ic r) = set (required_fields ''s6'')" by (rule s6_dict_dom)
    show "\<not> scope_drift (s6_dict W m ic r)" by (rule s6_dict_scope [OF d(2,3)])
    show "\<not> sink_drift (s6_dict W m ic r)" by (rule s6_dict_sink)
  qed
next
  fix m c assume mc: "m \<in> set MECHANISMS6" "c \<in> set CASES6"
  obtain i where i: "filter (\<lambda>ic. snd ic = c) (enumerate 0 CASES6) = [(i, c)]" using s6_enumerate_case [OF mc(2)] by blast
  have "filter (\<lambda>d. cell_key d = (VStr m, VStr c)) (s6_dicts W)
      = concat (map (\<lambda>ic. map (s6_dict W m ic) [1..REPETITIONS6]) (filter (\<lambda>ic. snd ic = c) (enumerate 0 CASES6)))"
    by (rule s6_dicts_select [OF W mc(1)]) (auto simp: cell_key_def s6_dict_fields)
  then have "filter (\<lambda>d. cell_key d = (VStr m, VStr c)) (s6_dicts W) = map (s6_dict W m (i, c)) [1..30]"
    unfolding i by (simp add: REPETITIONS6_def)
  then show "clean_cell s6_cat (s6_dicts W) m c"
    unfolding clean_cell_def using s6_dict_fields(3) s6_dict_cat by (intro exI [of _ "s6_dict W m (i, c)"]) auto
qed

lemma s6_flags_cat:
  "is_true (s6_cat m c ''double_effect'') \<longleftrightarrow> 1 < s6_effects m c"
  "is_true (s6_cat m c ''delivered_exactly_once'') \<longleftrightarrow> s6_effects m c = 1"
  "is_true (s6_cat m c ''replay_accepted'') \<longleftrightarrow> replay_accepted (s6_outcome m c)"
  "is_true (s6_cat m c ''cross_generation_accepted'') \<longleftrightarrow> cross_generation_accepted (s6_outcome m c)"
  "is_true (s6_cat m c ''altered_signature_accepted'') \<longleftrightarrow> altered_signature_accepted (s6_outcome m c)"
  "is_true (s6_cat m c ''delivery_lost'') \<longleftrightarrow> effect_expected c \<and> s6_effects m c = 0"
  by (simp_all add: s6_cat_def s6_record_def dict_get_def is_true_def)

lemma s6_counts_cat: "set (cat_counts ''s6'' s6_cat m c) = set (s6_cell_counts m c)"
  by (simp add: cat_counts_def s6_cell_counts_def Let_def s6_flags_cat insert_commute)

lemma s6_faithful:
  assumes "s6_cells_ok cells" and "s6_summary_of W cells = VDict kvs"
  shows "faithful_summary ''s6'' MECHANISMS6 CASES6 s6_cat (sha_hex (w_sha W) (raw_bytes (s6_lines W))) (map_of kvs)"
proof -
  have cells: "map_of kvs ''cells'' = Some (VDict cells)"
    using assms(2) by (auto simp: s6_summary_of_def)
  have names: "fst ` set cells = cell_name ` (set MECHANISMS6 \<times> set CASES6)"
  proof -
    have "set (map fst cells) = set (map cell_name s6_grid_names)" using assms(1) unfolding s6_cells_ok_def by simp
    then show ?thesis by (simp add: s6_grid_names_def set_product)
  qed
  have counts: "\<exists>cell. map_of cells (cell_name (m, c)) = Some (VDict cell)
      \<and> (\<forall>(k, n) \<in> set (cat_counts ''s6'' s6_cat m c). dict_get (map_of cell) k = VInt n)"
    if mc: "m \<in> set MECHANISMS6" "c \<in> set CASES6" for m c
  proof -
    have "(m, c) \<in> set s6_grid_names" using mc by (simp add: s6_grid_names_def)
    then obtain cell where "map_of cells (cell_name (m, c)) = Some (VDict cell)"
        "\<forall>(k, n) \<in> set (s6_cell_counts m c). map_of cell k = Some (VInt n)"
      using assms(1) unfolding s6_cells_ok_def by fastforce
    then show ?thesis unfolding s6_counts_cat by (auto simp: dict_get_def)
  qed
  have "map_of kvs ''mechanisms'' = Some (VList (map VStr MECHANISMS6))" "map_of kvs ''cases'' = Some (VList (map VStr CASES6))"
    "dict_get (map_of kvs) ''raw_sha256'' = VStr (sha_hex (w_sha W) (raw_bytes (s6_lines W)))"
    "\<forall>(k, v) \<in> set (summary_scope (30 * int (length MECHANISMS6 * length CASES6))). dict_get (map_of kvs) k = v"
    using assms(2) by (auto simp: s6_summary_of_def dict_get_def summary_scope_def MECHANISMS6_def CASES6_def)
  then show ?thesis
    unfolding faithful_summary_def using cells names counts by blast
qed

text \<open>The totals of a mechanism, from the table.\<close>

lemma s6_totals:
  assumes W: "world_ok W" and m: "m0 \<in> set MECHANISMS6"
  shows "totals (s6_dicts W) m0 = Inr (pinned 300
    (30 * int (sum_list (map (s6_effects m0) CASES6)))
    (30 * int (length (filter (\<lambda>c. 1 < s6_effects m0 c) CASES6)))
    (30 * int (length (filter (\<lambda>c. s6_effects m0 c = 1) CASES6)))
    (30 * int (length (filter (\<lambda>c. effect_expected c \<and> s6_effects m0 c = 0) CASES6)))
    (30 * int (length (filter (\<lambda>c. replay_accepted (s6_outcome m0 c)) CASES6))))"
proof -
  let ?ics = "enumerate 0 CASES6"
  let ?sel = "concat (map (\<lambda>ic. map (s6_dict W m0 ic) [1..REPETITIONS6]) ?ics)"
  have sel: "filter (\<lambda>d. py_eq (dict_get d ''mechanism'') (VStr m0)) (s6_dicts W) = ?sel"
    using s6_dicts_select [OF W m, of "\<lambda>d. py_eq (dict_get d ''mechanism'') (VStr m0)" "\<lambda>_. True"]
    by (simp add: s6_dict_fields)
  have hits: "length (filter (\<lambda>d. is_true (dict_get d k)) ?sel) = 30 * length (filter (\<lambda>c. is_true (s6_cat m0 c k)) CASES6)"
    if "k \<in> set categorical" for k
  proof -
    have "length (filter (\<lambda>d. is_true (dict_get d k)) ?sel) = length [1..REPETITIONS6] * length (filter (\<lambda>ic. is_true (s6_cat m0 (snd ic) k)) ?ics)"
      by (rule count_cases) (simp add: s6_dict_cat [OF that])
    also have "length (filter (\<lambda>ic. is_true (s6_cat m0 (snd ic) k)) ?ics) = length (filter (\<lambda>c. is_true (s6_cat m0 c k)) CASES6)"
      using arg_cong [where f = length, OF filter_enumerate [of "\<lambda>c. is_true (s6_cat m0 c k)" 0 CASES6]] by simp
    finally show ?thesis by (simp add: REPETITIONS6_def)
  qed
  have mem: "''double_effect'' \<in> set categorical" "''delivered_exactly_once'' \<in> set categorical"
    "''replay_accepted'' \<in> set categorical" "''delivery_lost'' \<in> set categorical"
    by (simp_all add: categorical_def)
  have eff: "res_map_list (\<lambda>d. py_int (case d ''effect_count'' of None \<Rightarrow> VInt (- 1) | Some v \<Rightarrow> v)) ?sel
      = Inr (map (\<lambda>d. case dict_get d ''effect_count'' of VInt n \<Rightarrow> n | _ \<Rightarrow> 0) ?sel)"
    by (rule res_map_list_ok) (auto simp: s6_dict_effects s6_dict_fields)
  have sum: "sum_list (map (\<lambda>d. case dict_get d ''effect_count'' of VInt n \<Rightarrow> n | _ \<Rightarrow> 0) ?sel)
      = 30 * int (sum_list (map (s6_effects m0) CASES6))"
  proof -
    have row: "sum_list (map (\<lambda>d. case dict_get d ''effect_count'' of VInt n \<Rightarrow> n | _ \<Rightarrow> 0)
        (map (s6_dict W m0 ic) [1..REPETITIONS6])) = 30 * int (s6_effects m0 (snd ic))" for ic
      by (simp add: comp_def s6_dict_fields(5) sum_list_triv REPETITIONS6_def)
    have "sum_list (map (\<lambda>d. case dict_get d ''effect_count'' of VInt n \<Rightarrow> n | _ \<Rightarrow> 0)
        (concat (map (\<lambda>ic. map (s6_dict W m0 ic) [1..REPETITIONS6]) ics)))
        = 30 * int (sum_list (map (s6_effects m0) (map snd ics)))" for ics
      by (induction ics) (simp_all only: list.map concat.simps map_append sum_list_append row, simp_all)
    from this [of ?ics] show ?thesis by simp
  qed
  have len: "length ?sel = 300"
  proof -
    have "length (concat (map (\<lambda>ic. map (s6_dict W m0 ic) [1..REPETITIONS6]) ics)) = 30 * length ics" for ics
      by (induction ics) (simp_all add: REPETITIONS6_def)
    from this [of ?ics] show ?thesis by (simp add: CASES6_def)
  qed
  show ?thesis
    unfolding totals_def Let_def sel eff res_bind.simps sum len hits [OF mem(1)] hits [OF mem(2)] hits [OF mem(3)]
      hits [OF mem(4)] s6_flags_cat
    by (simp add: pinned_def)
qed

lemma s6_totals_pinned:
  assumes "world_ok W"
  shows "totals_drift ''S6'' (s6_dicts W) expected_s6 = Inr []"
proof -
  have "totals (s6_dicts W) (fst x) = Inr (snd x)" if "x \<in> set expected_s6" for x
  proof -
    have "fst x \<in> set MECHANISMS6" using that by (auto simp: expected_s6_def MECHANISMS6_def)
    from s6_totals [OF assms this] show ?thesis
      using that unfolding expected_s6_def list.set insert_iff empty_iff
      by (elim disjE FalseE) (simp_all add: s6_tables effect_expected_def)
  qed
  then show ?thesis by (rule totals_drift_none)
qed

text \<open>
  Without deduplication at the sink, the idempotent coordinator does what the at-least-once one does.
\<close>

lemma s6_equal_tables:
  "s6_effects ''B2_AT_LEAST_ONCE'' c = s6_effects ''B3_IDEMPOTENT_UNAVAILABLE'' c"
  "s6_outcome ''B2_AT_LEAST_ONCE'' c = s6_outcome ''B3_IDEMPOTENT_UNAVAILABLE'' c"
  by (simp_all add: s6_effects_def s6_outcome_def s6_disposition_def)

lemma s6_record_mechanism:
  "k \<noteq> ''mechanism'' \<Longrightarrow> map_of (s6_record m c r seed mt n oc) k = map_of (s6_record m' c r seed mt n oc) k"
  by (simp add: s6_record_def)

lemma s6_equal_policies:
  "k \<in> set compared_fields \<Longrightarrow> s6_cat ''B2_AT_LEAST_ONCE'' c k = s6_cat ''B3_IDEMPOTENT_UNAVAILABLE'' c k"
proof -
  assume "k \<in> set compared_fields"
  then have k: "k \<noteq> ''mechanism''" by (auto simp: compared_fields_def)
  show ?thesis
    unfolding s6_cat_def s6_equal_tables dict_get_def
    by (simp only: s6_record_mechanism [OF k, of "''B2_AT_LEAST_ONCE''" c 0 0 no_meters _ _ "''B3_IDEMPOTENT_UNAVAILABLE''"])
qed

lemma s6_indexed:
  assumes "world_ok W" and "m0 \<in> set MECHANISMS6"
  shows "indexed (s6_dicts W) m0 = map_of (rev (concat (map (\<lambda>ic. map (\<lambda>r.
     ((VStr (snd ic), VFloat (of_int r)), map (\<lambda>k. canon (s6_cat m0 (snd ic) k)) compared_fields)) [1..REPETITIONS6])
     (enumerate 0 CASES6))))"
proof -
  have sel: "filter (\<lambda>d. py_eq (dict_get d ''mechanism'') (VStr m0)) (s6_dicts W)
      = concat (map (\<lambda>ic. map (s6_dict W m0 ic) [1..REPETITIONS6]) (enumerate 0 CASES6))"
    using s6_dicts_select [OF assms, of "\<lambda>d. py_eq (dict_get d ''mechanism'') (VStr m0)" "\<lambda>_. True"]
    by (simp add: s6_dict_fields)
  have sub: "set compared_fields \<subseteq> set categorical" by (simp add: compared_fields_def categorical_def)
  have f: "map (\<lambda>k. canon (dict_get (s6_dict W m0 ic r) k)) compared_fields
      = map (\<lambda>k. canon (s6_cat m0 (snd ic) k)) compared_fields" for ic r
    by (rule map_cong [OF refl]) (simp only: s6_dict_cat [OF subsetD [OF sub]])
  show ?thesis
    unfolding indexed_def sel by (simp add: map_concat comp_def s6_dict_fields f del: upto_rec_numeral)
qed

lemma s6_equivalence:
  assumes "world_ok W"
  shows "equivalence_drift (s6_dicts W) = []"
proof -
  have m: "''B2_AT_LEAST_ONCE'' \<in> set MECHANISMS6" "''B3_IDEMPOTENT_UNAVAILABLE'' \<in> set MECHANISMS6"
    by (simp_all add: MECHANISMS6_def)
  have e: "map (\<lambda>k. canon (s6_cat ''B2_AT_LEAST_ONCE'' c k)) compared_fields
      = map (\<lambda>k. canon (s6_cat ''B3_IDEMPOTENT_UNAVAILABLE'' c k)) compared_fields" for c
    by (rule map_cong [OF refl]) (simp only: s6_equal_policies)
  have "concat (map (\<lambda>ic. map (\<lambda>r. ((VStr (snd ic), VFloat (of_int r)),
        map (\<lambda>k. canon (s6_cat ''B2_AT_LEAST_ONCE'' (snd ic) k)) compared_fields)) [1..REPETITIONS6]) (enumerate 0 CASES6))
      = concat (map (\<lambda>ic. map (\<lambda>r. ((VStr (snd ic), VFloat (of_int r)),
        map (\<lambda>k. canon (s6_cat ''B3_IDEMPOTENT_UNAVAILABLE'' (snd ic) k)) compared_fields)) [1..REPETITIONS6])
        (enumerate 0 CASES6))"
    by (intro arg_cong [where f = concat] map_cong [OF refl]) (simp only: e)
  then show ?thesis unfolding equivalence_drift_def s6_indexed [OF assms m(1)] s6_indexed [OF assms m(2)] by simp
qed

theorem s6_evidence:
  assumes W: "world_ok W" and fresh: "\<not> output_exists R" and C: "s6_run_campaign W False prereg R = (res, C)"
    and checker: "s6v_main (w_floats W) (w_sha W) (map_option raw_bytes (raw_runs (out C))) (summary_file (out C)) = Inr checker"
    and t: "verify_manifest (w_sha W) t ''RESULT_MANIFEST.sha256'' = Inr []" "map_of t ''RAW_RUNS.jsonl'' = map_option raw_bytes (raw_runs (out C))"
    and docs: "document parse t ''SUMMARY.json'' = summary_file (out C)" "document parse t ''INDEPENDENT_VERIFY_RESULT.json'' = Some checker"
  shows "\<exists>rows. verify_campaign (w_sha W) frepr parse ''s6'' 1500 50 t = Inr (rows, [])
    \<and> totals_drift ''S6'' rows expected_s6 = Inr []
    \<and> equivalence_drift rows = []"
proof -
  obtain cells where o: "raw_runs (out C) = Some (s6_lines W)" "s6_cells_ok cells"
      "summary_file (out C) = Some (s6_summary_of W cells)"
    using s6_campaign_eq [OF W fresh, of prereg] C by auto
  obtain kvs where k: "s6_summary_of W cells = VDict kvs" by (simp add: s6_summary_of_def)
  obtain v where v: "checker = VDict v" "dict_get (map_of v) ''status'' = VStr ''PASS''" "dict_get (map_of v) ''runs'' = VInt 1500"
    using checker unfolding s6v_accepts_campaign [OF W fresh C] by (auto simp: dict_get_def)
  have load: "load_jsonl ''RAW_RUNS.jsonl'' (raw_bytes (s6_lines W)) = (s6_dicts W, [])"
    unfolding s6_lines_def s6_dicts_def by (rule load_jsonl_flat) (rule s6_all_flat)
  have n: "30 * (50 :: int) = 1500" "int (length MECHANISMS6 * length CASES6) = 50"
    and ne: "MECHANISMS6 \<noteq> []" "CASES6 \<noteq> []"
    by (simp_all add: MECHANISMS6_def CASES6_def)
  have raw: "map_of t ''RAW_RUNS.jsonl'' = Some (raw_bytes (s6_lines W))" using t(2) o(1) by simp
  have d: "document parse t ''SUMMARY.json'' = Some (VDict kvs)" "document parse t ''INDEPENDENT_VERIFY_RESULT.json'' = Some (VDict v)"
    using docs o(3) k v(1) by simp_all
  have "verify_campaign (w_sha W) frepr parse ''s6'' 1500 50 t = Inr (s6_dicts W, [])"
    using clean_results [OF s6_clean [OF W] ne s6_faithful [OF o(2) k] t(1) raw load d v(2), unfolded n, OF v(3), of frepr] by simp
  then show ?thesis using s6_totals_pinned [OF W] s6_equivalence [OF W] by blast
qed

end
