(* ===== verification/Evidence_Sound.thy ===== *)
theory Evidence_Sound
  imports Evidence
begin

text \<open>
  What acceptance by \<open>verify_experiments.py\<close> means: a manifest without errors is exactly the sorted
  listing of the observed files with their digests, and rows without errors fill the grid, each cell
  with its thirty repetitions.
\<close>

section \<open>The manifest\<close>

definition manifest_entry :: "(bytes \<Rightarrow> bytes) \<Rightarrow> tree \<Rightarrow> string \<Rightarrow> string" where
  "manifest_entry sha t p = sha_hex sha (the (path_file t p)) @ ''  '' @ p"

lemma manifest_line_text:
  assumes "manifest_line l = Some (h, p)"
  shows "l = h @ ''  '' @ p"
proof -
  have "h = take 64 l" "p = drop 66 l" "take 2 (drop 64 l) = ''  ''"
    using assms by (auto simp: manifest_line_def Let_def split: if_splits)
  moreover have "l = take 64 l @ take 2 (drop 64 l) @ drop 66 l"
    using append_take_drop_id [of 2 "drop 64 l"] by (simp add: drop_drop)
  ultimately show ?thesis by simp
qed

lemma manifest_loop_clean:
  "manifest_loop sha t seen ls = (ordered, []) \<Longrightarrow> distinct seen \<Longrightarrow>
     \<exists>ps. ordered = seen @ ps \<and> distinct ordered \<and> ls = map (manifest_entry sha t) ps
       \<and> (\<forall>p \<in> set ps. path_file t p \<noteq> None \<and> \<not> unsafe_path p)"
proof (induction sha t seen ls arbitrary: ordered rule: manifest_loop.induct)
  case (2 sha t seen l ls)
  obtain h p where hp: "manifest_line l = Some (h, p)" "p \<notin> set seen" "\<not> unsafe_path p"
    using "2.prems"(1) by (cases "manifest_line l") (auto split: prod.splits if_splits)
  obtain s es where r: "manifest_loop sha t (seen @ [p]) ls = (s, es)" by fastforce
  have f: "path_file t p \<noteq> None" "sha_hex sha (the (path_file t p)) = h" and rest: "s = ordered" "es = []"
    using "2.prems"(1) hp r by (auto split: if_splits)
  have "p \<notin> set seen \<longrightarrow> distinct (seen @ [p])" using "2.prems"(2) by simp
  then obtain ps where ps: "ordered = (seen @ [p]) @ ps" "distinct ordered" "ls = map (manifest_entry sha t) ps"
      "\<forall>q \<in> set ps. path_file t q \<noteq> None \<and> \<not> unsafe_path q"
    using "2.IH"(3) [OF hp(1) refl _ ] hp r rest by blast
  have "l = manifest_entry sha t p" using manifest_line_text [OF hp(1)] f(2) by (simp add: manifest_entry_def)
  then show ?case using ps f(1) hp(3) by (intro exI [of _ "p # ps"]) simp
qed simp

text \<open>What a manifest has to be, and that it is enough.\<close>

definition listing_of :: "(bytes \<Rightarrow> bytes) \<Rightarrow> tree \<Rightarrow> string \<Rightarrow> bytes \<Rightarrow> string list \<Rightarrow> bool" where
  "listing_of sha t name raw ps \<longleftrightarrow> list_all (\<lambda>b. unat b < 128) raw
     \<and> splitlines (map (\<lambda>b. char_of (unat b)) raw) = map (manifest_entry sha t) ps
     \<and> sorted ps \<and> distinct ps \<and> set ps = set (observed_files t name)
     \<and> (\<forall>p \<in> set ps. path_file t p \<noteq> None \<and> \<not> unsafe_path p \<and> p \<noteq> [] \<and> CHR 0x5C \<notin> set p)"

lemma manifest_line_path: "manifest_line l = Some (h, p) \<Longrightarrow> p \<noteq> [] \<and> CHR 0x5C \<notin> set p"
  by (auto simp: manifest_line_def Let_def split: if_splits)

lemma manifest_line_entry:
  assumes "digest32 sha" and "p \<noteq> []" and "CHR 0x5C \<notin> set p"
  shows "manifest_line (manifest_entry sha t p) = Some (sha_hex sha (the (path_file t p)), p)"
proof -
  have "length (sha_hex sha (the (path_file t p))) = 64" using assms(1) by (simp add: sha_hex_def digest32_def)
  moreover have "list_all is_lower_hex (sha_hex sha (the (path_file t p)))"
    unfolding list_all_iff is_lower_hex_def sha_hex_def using set_hex_of by blast
  ultimately show ?thesis using assms(2,3) by (simp add: manifest_line_def manifest_entry_def Let_def)
qed

lemma manifest_loop_entries:
  assumes "digest32 sha"
  shows "distinct (seen @ ps) \<Longrightarrow> \<forall>p \<in> set ps. path_file t p \<noteq> None \<and> \<not> unsafe_path p \<and> p \<noteq> [] \<and> CHR 0x5C \<notin> set p \<Longrightarrow>
     manifest_loop sha t seen (map (manifest_entry sha t) ps) = (seen @ ps, [])"
proof (induction ps arbitrary: seen)
  case (Cons p ps)
  have p: "path_file t p \<noteq> None" "\<not> unsafe_path p" "p \<noteq> []" "CHR 0x5C \<notin> set p" "p \<notin> set seen" using Cons.prems by simp_all
  have "manifest_loop sha t (seen @ [p]) (map (manifest_entry sha t) ps) = ((seen @ [p]) @ ps, [])"
    by (rule Cons.IH) (use Cons.prems in auto)
  then show ?case using p(1,2,5) manifest_line_entry [OF assms p(3,4)] by simp
qed simp

lemma manifest_loop_paths:
  "manifest_loop sha t seen ls = (ordered, es) \<Longrightarrow> \<forall>p \<in> set seen. p \<noteq> [] \<and> CHR 0x5C \<notin> set p \<Longrightarrow>
     \<forall>p \<in> set ordered. p \<noteq> [] \<and> CHR 0x5C \<notin> set p"
proof (induction sha t seen ls arbitrary: ordered es rule: manifest_loop.induct)
  case (2 sha t seen l ls)
  show ?case
  proof (cases "manifest_line l")
    case None
    then show ?thesis using "2.prems" "2.IH"(1) [OF None] by (auto split: prod.splits)
  next
    case (Some hp)
    obtain h p where hp: "hp = (h, p)" by (cases hp)
    show ?thesis
    proof (cases "p \<in> set seen \<or> unsafe_path p")
      case True
      then show ?thesis using "2.prems" "2.IH"(2) [OF Some hp [symmetric] True] Some hp by (auto split: prod.splits)
    next
      case False
      obtain s es' where r: "manifest_loop sha t (seen @ [p]) ls = (s, es')" by fastforce
      have "s = ordered" using "2.prems"(1) Some hp False r by (auto split: if_splits)
      moreover have "\<forall>q \<in> set (seen @ [p]). q \<noteq> [] \<and> CHR 0x5C \<notin> set q"
        using "2.prems"(2) manifest_line_path Some hp by auto
      ultimately show ?thesis using "2.IH"(3) [OF Some hp [symmetric] False r] by blast
    qed
  qed
qed simp

theorem verify_manifest_exact:
  assumes "digest32 sha"
  shows "verify_manifest sha t name = Inr [] \<longleftrightarrow> (\<exists>raw ps. map_of t name = Some raw \<and> listing_of sha t name raw ps)"
proof
  assume v: "verify_manifest sha t name = Inr []"
  obtain raw where raw: "map_of t name = Some raw" "list_all (\<lambda>b. unat b < 128) raw"
    using v by (auto simp: verify_manifest_def split: option.splits if_splits)
  obtain ordered es where l: "manifest_loop sha t [] (splitlines (map (\<lambda>b. char_of (unat b)) raw)) = (ordered, es)"
    by fastforce
  then have e: "es = []" "ordered = sort ordered" "set ordered = set (observed_files t name)"
    using v raw by (auto simp: verify_manifest_def split: if_splits)
  then have "sorted ordered" by (metis sorted_sort)
  moreover have "distinct ordered \<and> splitlines (map (\<lambda>b. char_of (unat b)) raw) = map (manifest_entry sha t) ordered
      \<and> (\<forall>p \<in> set ordered. path_file t p \<noteq> None \<and> \<not> unsafe_path p)"
    using manifest_loop_clean [OF l [unfolded e(1)]] by auto
  moreover have "\<forall>p \<in> set ordered. p \<noteq> [] \<and> CHR 0x5C \<notin> set p" using manifest_loop_paths [OF l] by simp
  ultimately have "listing_of sha t name raw ordered" using e(3) raw(2) by (simp add: listing_of_def)
  then show "\<exists>raw ps. map_of t name = Some raw \<and> listing_of sha t name raw ps" using raw(1) by blast
next
  assume "\<exists>raw ps. map_of t name = Some raw \<and> listing_of sha t name raw ps"
  then obtain raw ps where raw: "map_of t name = Some raw" "list_all (\<lambda>b. unat b < 128) raw"
    and ps: "splitlines (map (\<lambda>b. char_of (unat b)) raw) = map (manifest_entry sha t) ps" "sorted ps" "distinct ps"
      "set ps = set (observed_files t name)" "\<forall>p \<in> set ps. path_file t p \<noteq> None \<and> \<not> unsafe_path p \<and> p \<noteq> [] \<and> CHR 0x5C \<notin> set p"
    by (auto simp: listing_of_def)
  have "manifest_loop sha t [] (splitlines (map (\<lambda>b. char_of (unat b)) raw)) = (ps, [])"
    unfolding ps(1) using manifest_loop_entries [OF assms, of "[]" ps t] ps(3,5) by simp
  then show "verify_manifest sha t name = Inr []"
    using raw ps(2,4) sorted_sort_id [of ps] by (simp add: verify_manifest_def)
qed

section \<open>The grid\<close>

lemma group_of_firsts:
  assumes "d \<in> set rows"
  shows "\<exists>e \<in> set (firsts cell_key [] rows). group_of rows d = group_of rows e"
proof -
  have "cell_key d \<in> cell_key ` set (firsts cell_key [] rows)"
    using assms unfolding firsts_set(1) by simp
  then show ?thesis by (auto simp: group_of_def)
qed

lemma identity_split: "identity d = (fst (cell_key d), snd (cell_key d), canon (dict_get d ''repetition''))"
  by (simp add: identity_def cell_key_def)

lemma say_nothing: "(if b then [x] else []) = [] \<longleftrightarrow> \<not> b" "concat (map f xs) = [] \<longleftrightarrow> (\<forall>x \<in> set xs. f x = [])"
  by auto

lemma row_errors_sound:
  assumes "row_errors name n c rows = []"
  shows "int (length rows) = n" "int (length (remdups (map cell_key rows))) = c"
    and "d \<in> set rows \<Longrightarrow> length (group_of rows d) = 30"
    and "d \<in> set rows \<Longrightarrow> set (map (\<lambda>e. canon (dict_get e ''repetition'')) (group_of rows d))
           = set (map (\<lambda>i. canon (VInt i)) [1..30])"
    and "d \<in> set rows \<Longrightarrow> dom d = set (required_fields name) \<and> \<not> scope_drift d"
proof -
  let ?rep = "\<lambda>e. canon (dict_get e ''repetition'')"
  have all: "int (length rows) = n" "distinct (map identity rows)"
    "int (length (remdups (map cell_key rows))) = c"
    "\<not> list_ex (\<lambda>d. dom d \<noteq> set (required_fields name)) rows" "\<not> list_ex scope_drift rows"
    "\<forall>d \<in> set (firsts cell_key [] rows). set (map ?rep (group_of rows d)) = set (map (\<lambda>i. canon (VInt i)) [1..30])"
    using assms unfolding row_errors_def Let_def append_is_Nil_conv say_nothing not_not by simp_all
  show "int (length rows) = n" "int (length (remdups (map cell_key rows))) = c" by (fact all(1), fact all(3))
  show "dom d = set (required_fields name) \<and> \<not> scope_drift d" if "d \<in> set rows"
    using all(4,5) that by (auto simp: list_ex_iff)
  show reps: "set (map ?rep (group_of rows d)) = set (map (\<lambda>i. canon (VInt i)) [1..30])" if "d \<in> set rows" for d
    using group_of_firsts [OF that] all(6) by metis
  show "length (group_of rows d) = 30" if d: "d \<in> set rows"
  proof -
    have i: "inj_on identity (set rows)" "distinct rows" using all(2) by (simp_all add: distinct_map)
    have "inj_on ?rep (set (group_of rows d))"
    proof (rule inj_onI)
      fix x y assume xy: "x \<in> set (group_of rows d)" "y \<in> set (group_of rows d)" "?rep x = ?rep y"
      then have m: "x \<in> set rows" "y \<in> set rows" "cell_key x = cell_key y" by (simp_all add: group_of_def)
      have "identity x = identity y" unfolding identity_split m(3) xy(3) ..
      then show "x = y" by (rule inj_onD [OF i(1) _ m(1,2)])
    qed
    moreover have "distinct (group_of rows d)" using i(2) by (simp add: group_of_def)
    ultimately have "distinct (map ?rep (group_of rows d))" unfolding distinct_map by (rule conjI [rotated])
    from distinct_card [OF this, symmetric]
    have "length (group_of rows d) = card (set (map ?rep (group_of rows d)))" unfolding length_map .
    also have "\<dots> = card ((\<lambda>i. canon (VInt i)) ` {1..30})" unfolding reps [OF d] by (simp del: upto_rec_numeral canon.simps)
    also have "\<dots> = card {1..30 :: int}" by (rule card_image) (simp add: inj_on_def)
    finally show ?thesis by simp
  qed
qed

text \<open>
  An accepted campaign: its manifest is clean, its raw file holds the returned rows, which have no errors, and the
  summary document has the digest of the raw file and the scope.
\<close>

lemma verify_campaign_sound:
  assumes "verify_campaign sha frepr parse name n c t = Inr (rows, [])"
  shows "verify_manifest sha t ''RESULT_MANIFEST.sha256'' = Inr []"
    and "\<exists>raw summary checker. map_of t ''RAW_RUNS.jsonl'' = Some raw \<and> load_jsonl ''RAW_RUNS.jsonl'' raw = (rows, [])
      \<and> row_errors name n c rows = []
      \<and> document parse t ''SUMMARY.json'' = Some (VDict summary) \<and> py_eq (dict_get (map_of summary) ''raw_sha256'') (VStr (sha_hex sha raw))
      \<and> (\<forall>(k, v) \<in> set (summary_scope n). py_eq (dict_get (map_of summary) k) v)
      \<and> document parse t ''INDEPENDENT_VERIFY_RESULT.json'' = Some (VDict checker) \<and> py_eq (dict_get (map_of checker) ''status'') (VStr ''PASS'')
      \<and> py_eq (dict_get (map_of checker) ''runs'') (VInt n)"
proof -
  obtain in_manifest where m: "verify_manifest sha t ''RESULT_MANIFEST.sha256'' = Inr in_manifest"
    using assms by (auto simp: verify_campaign_def res_bind_Inr_iff)
  obtain rs in_rows where r: "load_rows t ''RAW_RUNS.jsonl'' = (rs, in_rows)" by fastforce
  obtain summary in_summary where s: "load_json parse t ''SUMMARY.json'' = (VDict summary, in_summary)"
    using assms m r by (auto simp: verify_campaign_def split: if_splits prod.splits pyval.splits)
  obtain raw where raw: "map_of t ''RAW_RUNS.jsonl'' = Some raw"
    using assms m r s by (auto simp: verify_campaign_def split: if_splits option.splits)
  obtain checker in_checker where k: "load_json parse t ''INDEPENDENT_VERIFY_RESULT.json'' = (VDict checker, in_checker)"
    using assms m r s raw by (auto simp: verify_campaign_def split: if_splits prod.splits pyval.splits)
  obtain es where es: "summary_errors frepr name n rs (map_of summary) = Inr es"
    using assms m r s raw k by (cases "summary_errors frepr name n rs (map_of summary)") (auto simp: verify_campaign_def split: if_splits)
  have all: "rs = rows" "in_manifest = []" "in_rows = []" "row_errors name n c rows = []" "in_summary = []" "in_checker = []" "es = []"
    "py_eq (dict_get (map_of summary) ''raw_sha256'') (VStr (sha_hex sha raw))"
    "py_eq (dict_get (map_of checker) ''status'') (VStr ''PASS'')" "py_eq (dict_get (map_of checker) ''runs'') (VInt n)"
    using assms unfolding verify_campaign_def m r s raw k es res_bind.simps prod.case pyval.case option.case res_map.simps
    by (auto split: if_splits)
  show "verify_manifest sha t ''RESULT_MANIFEST.sha256'' = Inr []" using m all(2) by simp
  have scope: "\<forall>(k, v) \<in> set (summary_scope n). py_eq (dict_get (map_of summary) k) v"
  proof -
    have "\<not> list_ex (\<lambda>(k, v). \<not> py_eq (dict_get (map_of summary) k) v) (summary_scope n)"
      using es unfolding all(7) summary_errors_def Let_def
      by (simp only: res_bind_Inr_iff sum.simps append_is_Nil_conv say_nothing not_not) blast
    then show ?thesis by (auto simp: list_ex_iff)
  qed
  have "load_jsonl ''RAW_RUNS.jsonl'' raw = (rows, [])" using r all(1,3) raw by (simp add: load_rows_def)
  moreover have "document parse t ''SUMMARY.json'' = Some (VDict summary)" "document parse t ''INDEPENDENT_VERIFY_RESULT.json'' = Some (VDict checker)"
    using s k all(5,6) by (auto simp: load_json_def split: option.splits)
  ultimately show "\<exists>raw summary checker. map_of t ''RAW_RUNS.jsonl'' = Some raw \<and> load_jsonl ''RAW_RUNS.jsonl'' raw = (rows, [])
      \<and> row_errors name n c rows = []
      \<and> document parse t ''SUMMARY.json'' = Some (VDict summary) \<and> py_eq (dict_get (map_of summary) ''raw_sha256'') (VStr (sha_hex sha raw))
      \<and> (\<forall>(k, v) \<in> set (summary_scope n). py_eq (dict_get (map_of summary) k) v)
      \<and> document parse t ''INDEPENDENT_VERIFY_RESULT.json'' = Some (VDict checker) \<and> py_eq (dict_get (map_of checker) ''status'') (VStr ''PASS'')
      \<and> py_eq (dict_get (map_of checker) ''runs'') (VInt n)"
    using raw all(4,8-10) scope by blast
qed

end
