(* ===== verification/Campaign_Theorems.thy ===== *)
theory Campaign_Theorems
  imports Sample_World Evidence_S6 Evidence_Sound
begin

text \<open>
  The properties of the two campaigns: frames, sinks, coordinator, the runs of every mechanism, the
  results directory, the detached verifiers and the published-evidence verifier.
\<close>

section \<open>Frames, sinks and the coordinator\<close>

text \<open>
  C15. A made frame whose signature verifies is accepted by \<open>verify_frame\<close> for its own generation,
  context and attempt only; every other binding is rejected with the message of the first field that
  differs.
\<close>

theorem frame_binds_attempt:
  assumes "ed_verify FIXTURE_PUBLIC_KEY (signature (make_frame sha sg g c a seed))
    (body (make_frame sha sg g c a seed))"
  shows "verify_frame ed_verify (make_frame sha sg g c a seed) g' c' a' =
    (if g \<noteq> g' then Inl (AuthReject ''generation'')
     else if c \<noteq> c' \<or> a \<noteq> a' then Inl (AuthReject ''context_attempt'') else Inr ())"
  using assms by (rule verify_made_frame)

theorem frame_binds_attempt_witness:
  "verify_frame sample_verify (make_frame sample_sha sample_sign 7 ''ctx'' 1 3) 8 ''ctx'' 1
     = Inl (AuthReject ''generation'')"
  by (subst frame_binds_attempt) (simp_all add: made_frame_signed sample_ed25519)

text \<open>
  C16. \<open>mutate_signature\<close> changes the signature and nothing else, applied twice gives the frame back,
  and a frame mutated once is rejected for every binding with the signature's error.
\<close>

theorem mutated_frame_rejected:
  assumes "ed25519_pair sg ver" and "f = make_frame sha sg g c a seed"
  shows "\<exists>f'. mutate_signature f = Inr f' \<and> f' \<noteq> f \<and> body f' = body f \<and> mutate_signature f' = Inr f
    \<and> verify_frame ver f' g' c' a' = Inl (AuthReject ''signature'')"
  using verify_mutated [OF assms(1)] mutate_twice unfolding assms(2) by blast

theorem mutated_frame_rejected_witness:
  "\<exists>f'. mutate_signature (make_frame sample_sha sample_sign 7 ''ctx'' 1 3) = Inr f'
     \<and> verify_frame sample_verify f' 7 ''ctx'' 1 = Inl (AuthReject ''signature'')"
  using mutated_frame_rejected [OF sample_ed25519 refl, of sample_sha 7 "''ctx''" 1 3 7 "''ctx''" 1] by blast

text \<open>
  Delivering n times with one key: the cooperative sink of the first campaign, asked for
  deduplication, has one effect; without it, and on the sink of the second campaign, there are n.
\<close>

theorem redelivery_counts:
  assumes "0 < n"
  shows "effect_sink_count (((\<lambda>s. snd (effect_sink_apply key payload True s)) ^^ n) new_effect_sink) = 1
    \<and> effect_sink_count (((\<lambda>s. snd (effect_sink_apply key payload False s)) ^^ n) new_effect_sink) = n
    \<and> count_for_observer_only ((append_sink_apply payload ^^ n) new_append_sink) = n"
  using dedup_sink.retry_exactly_once [where k = key and s = new_effect_sink and payload = payload, OF _ assms]
    plain_sink.repeat_adds [where k = key and s = new_effect_sink and payload = payload and n = n]
    non_cooperative.repeat_adds [where k = payload and s = new_append_sink and n = n]
  by (simp add: new_effect_sink_def new_append_sink_def effect_sink_count_def count_for_observer_only_def)

theorem redelivery_counts_witness:
  "count_for_observer_only ((append_sink_apply ''NOOP'' ^^ 3) new_append_sink) = 3"
  using redelivery_counts [of 3 _ "''NOOP''"] by simp

text \<open>
  While its directory is writable, any sequence of coordinator operations leaves the file as
  sealed, so that \<open>StateStore(path)\<close> opens it again.
\<close>

theorem store_calls_keep_seal:
  assumes "store_ok sha im d" and "writable d"
    and "act_seq (map (\<lambda>x. store_update sha im (store_statements x)) xs) d = (r, d')"
  shows "store_ok sha im d' \<and> store_open sha im d' = (Inr (), d')"
proof -
  have ok: "store_ok sha im d'" using store_service.seq_intact [OF assms] by blast
  then obtain t where t: "sealed sha im t d'" by (auto simp: store_ok_def)
  then have "stored d' \<noteq> None" by (simp add: sealed_def)
  then show ?thesis using ok verify_sealed [OF t] by (simp add: store_open_def)
qed

theorem store_calls_keep_seal_witness:
  "\<exists>r d'. act_seq (map (\<lambda>x. store_update sample_sha sample_image (store_statements x))
        [S_prepare ''k'', S_result ''k'', S_result ''k'']) (store_in sample_sha sample_image Map.empty) = (r, d')
     \<and> store_open sample_sha sample_image d' = (Inr (), d')"
proof -
  let ?d = "store_in sample_sha sample_image Map.empty"
  have "store_ok sample_sha sample_image ?d" "writable ?d" by (auto simp: store_ok_def store_in_def sealed_def)
  then show ?thesis using store_calls_keep_seal [of sample_sha sample_image ?d] by (metis surj_pair)
qed

section \<open>The runs\<close>

text \<open>
  C19. Every mechanism of the first campaign in every fault case, run in a new directory, ends
  normally with the outcome and the number of effects of the tables \<open>s5_outcome\<close> and \<open>s5_effects\<close>.
\<close>

theorem s5_every_run:
  assumes "fixture sha iml imc sg ver" and "c \<in> set CASES5" and "m \<in> set MECHANISMS5"
  shows "\<exists>D. s5_run sha iml imc ver m c (make_frame sha sg g ctx 1 seed) g ctx key (new_run_dir new_effect_sink)
      = (Inr (s5_outcome m c), D) \<and> effect_sink_count (dir_sink D) = s5_effects m c"
  by (rule s5_run_outcome [OF assms])

theorem s5_every_run_witness:
  "\<exists>D. s5_run sample_sha sample_image sample_image sample_verify ''B2_AT_LEAST_ONCE''
      ''crash_after_effect_before_result'' (make_frame sample_sha sample_sign 7 ''ctx'' 1 3) 7 ''ctx'' ''k''
      (new_run_dir new_effect_sink)
    = (Inr (s5_outcome ''B2_AT_LEAST_ONCE'' ''crash_after_effect_before_result''), D)
    \<and> effect_sink_count (dir_sink D) = 2"
proof -
  have m: "''crash_after_effect_before_result'' \<in> set CASES5" "''B2_AT_LEAST_ONCE'' \<in> set MECHANISMS5"
    by (simp_all add: CASES5_def MECHANISMS5_def)
  have "s5_effects ''B2_AT_LEAST_ONCE'' ''crash_after_effect_before_result'' = 2"
    by (simp add: s5_effects_def CASES5_def)
  then show ?thesis using s5_every_run [OF sample_fixture m, of 7 "''ctx''" 3 "''k''"] by simp
qed

text \<open>
  C20. The same for the second campaign with its non-cooperative sink.
\<close>

theorem s6_every_run:
  assumes "fixture sha iml imc sg ver" and "c \<in> set CASES6" and "m \<in> set MECHANISMS6"
  shows "\<exists>D. s6_run sha iml imc ver m c (make_frame sha sg g ctx 1 seed) g ctx key (new_run_dir new_append_sink)
      = (Inr (s6_outcome m c), D) \<and> count_for_observer_only (dir_sink D) = s6_effects m c"
  by (rule s6_run_outcome [OF assms])

theorem s6_every_run_witness:
  "\<exists>D. s6_run sample_sha sample_image sample_image sample_verify ''OASI'' ''ack_lost_after_effect''
      (make_frame sample_sha sample_sign 7 ''ctx'' 1 3) 7 ''ctx'' ''k'' (new_run_dir new_append_sink)
    = (Inr (s6_outcome ''OASI'' ''ack_lost_after_effect''), D) \<and> count_for_observer_only (dir_sink D) = 1"
proof -
  have m: "''ack_lost_after_effect'' \<in> set CASES6" "''OASI'' \<in> set MECHANISMS6"
    by (simp_all add: CASES6_def MECHANISMS6_def)
  have "s6_effects ''OASI'' ''ack_lost_after_effect'' = 1" by (simp add: s6_effects_def CASES6_def)
  then show ?thesis using s6_every_run [OF sample_fixture m, of 7 "''ctx''" 3 "''k''"] by simp
qed

text \<open>
  C21. From any state of the run directory, with any frame, case name and signature scheme: one OASI
  run of the first campaign adds at most one effect.
\<close>

theorem s5_oasi_at_most_one_effect:
  "effect_sink_count (dir_sink (snd (s5_run_oasi sha iml ver c f g ctx key D))) \<le> effect_sink_count (dir_sink D) + 1"
  using s5_oasi_adds [of sha iml ver c f g ctx key] by (simp add: adds_at_most_def)

text \<open>
  The same for the second campaign, whose sink cannot deduplicate.
\<close>

theorem s6_oasi_at_most_one_effect:
  "count_for_observer_only (dir_sink (snd (s6_run_oasi sha iml ver c f g ctx D)))
     \<le> count_for_observer_only (dir_sink D) + 1"
  using s6_oasi_adds [of sha iml ver c f g ctx] by (simp add: adds_at_most_def)

section \<open>The campaigns\<close>

text \<open>
  C23. The first campaign on a new output directory ends normally: 200 warm-ups, 1200 measured runs
  recorded line by line, the partial file moved to its final name, and a summary whose forty cells
  have the counts of the tables and whose verdict is that no advantage over B3 is established.
\<close>

theorem s5_campaign_results:
  assumes "world_ok W" and "\<not> output_exists R"
  shows "\<exists>C cells. s5_run_campaign W False prereg R = (Inr (), C)
    \<and> warmups_done C = 200 \<and> length (recorded C) = 1200 \<and> locked (out C) = Some prereg
    \<and> raw_partial (out C) = None \<and> raw_runs (out C) = Some (map line_of (recorded C))
    \<and> s5_cells_ok cells \<and> summary_file (out C) = Some (s5_summary_of W cells)"
  using s5_campaign_eq [OF assms] s5_all_length [OF assms(1)] unfolding s5_lines_def by force

theorem s5_campaign_results_witness:
  "\<exists>C. s5_run_campaign sample_world False ''lock'' no_results = (Inr (), C) \<and> length (recorded C) = 1200"
  using s5_campaign_results [OF sample_world_ok, of no_results "''lock''"] by (auto simp: no_results_def)

text \<open>
  C24. The second campaign likewise: 250 warm-ups, 1500 runs, fifty cells, and the verdict of a
  bounded safety advantage (B3 60 double effects, OASI none, of 60 runs each) with its availability
  price (90 deliveries lost against none).
\<close>

theorem s6_campaign_results:
  assumes "world_ok W" and "\<not> output_exists R"
  shows "\<exists>C cells. s6_run_campaign W False prereg R = (Inr (), C)
    \<and> warmups_done C = 250 \<and> length (recorded C) = 1500 \<and> locked (out C) = Some prereg
    \<and> raw_partial (out C) = None \<and> raw_runs (out C) = Some (map line_of (recorded C))
    \<and> s6_cells_ok cells \<and> summary_file (out C) = Some (s6_summary_of W cells)"
  using s6_campaign_eq [OF assms] s6_all_length [OF assms(1)] unfolding s6_lines_def by force

theorem s6_campaign_results_witness:
  "\<exists>C. s6_run_campaign sample_world False ''lock'' no_results = (Inr (), C) \<and> length (recorded C) = 1500"
  using s6_campaign_results [OF sample_world_ok, of no_results "''lock''"] by (auto simp: no_results_def)

section \<open>The detached verifiers\<close>

text \<open>
  With IEEE rounding, two square roots that are close to the true one and \<open>round\<close> to the nearest
  multiple, the aggregate that the first campaign's detached verifier recomputes, with its own
  percentile formula and its own root, equals the aggregate of the campaign on every list of rows whose cells
  have thirty rows with no or thirty hits.
\<close>

theorem s5_aggregates_equal:
  assumes "sound_floats F"
    and "\<And>m c. m \<in> set MECHANISMS5 \<Longrightarrow> c \<in> set CASES5 \<Longrightarrow> \<exists>rows. cell_rows m c rs = Inr rows \<and> uniform_cell rows"
  shows "s5v_aggregate F rs = s5_aggregate F rs"
  using assms by (rule s5_aggregates_agree)

theorem s5_aggregates_equal_witness:
  "s5v_aggregate sample_floats (s5_rows sample_world) = s5_aggregate sample_floats (s5_rows sample_world)"
  by (rule s5_aggregates_equal [OF sample_sound_floats s5_cells_uniform [OF sample_world_ok]])

text \<open>
  C26. The detached verifier of the first campaign accepts the files the campaign leaves, although it
  takes \<open>math.sqrt(x)\<close> where the campaign takes \<open>x ** 0.5\<close> and has another percentile formula: it is enough
  that both roots are within a relative error of \<open>2 ^ -40\<close>, that operations round as IEEE 754 says, and that
  \<open>round(x, 9)\<close> gives the nearest multiple.
\<close>

theorem s5_verifier_accepts:
  assumes "world_ok W" and "sound_floats (w_floats W)"
    and "\<not> output_exists R" and "s5_run_campaign W False prereg R = (res, C)"
  shows "\<exists>v. s5v_main (w_floats W) (w_sha W) (map_option raw_bytes (raw_runs (out C))) (summary_file (out C)) = Inr (VDict v)
    \<and> map_of v ''status'' = Some (VStr ''PASS'') \<and> map_of v ''runs'' = Some (VInt 1200)"
  unfolding s5v_accepts_campaign [OF assms] by simp

theorem s5_verifier_accepts_witness:
  "\<exists>(C :: campaign) v. s5v_main sample_floats sample_sha (map_option raw_bytes (raw_runs (out C))) (summary_file (out C)) = Inr (VDict v)
     \<and> map_of v ''status'' = Some (VStr ''PASS'')"
proof -
  obtain C where C: "s5_run_campaign sample_world False [] no_results = (Inr (), C)"
    using s5_campaign_eq [OF sample_world_ok, of no_results "[]"] by (auto simp: no_results_def)
  have "\<not> output_exists no_results" by (simp add: no_results_def)
  from s5_verifier_accepts [OF sample_world_ok _ this C, unfolded sample_world_floats, OF sample_sound_floats]
  obtain v where "s5v_main sample_floats (w_sha sample_world) (map_option raw_bytes (raw_runs (out C))) (summary_file (out C))
      = Inr (VDict v)" "map_of v ''status'' = Some (VStr ''PASS'')" by blast
  moreover have "w_sha sample_world = sample_sha" by (simp add: sample_world_def)
  ultimately show ?thesis by (intro exI [of _ C] exI [of _ v]) (simp only: simp_thms)
qed

text \<open>
  C27. What the detached verifier of the first campaign accepts has 1200 rows with distinct
  identities, no scope violation, no unsafe OASI row, the digest of its summary, and a summary whose
  cells, comparison and conclusion are those recomputed from the rows.
\<close>

theorem s5_verifier_sound:
  assumes "s5v_main F sha raw summary = Inr result"
  shows "\<exists>bytes s records keys agg. raw = Some bytes \<and> summary = Some s \<and> read_rows bytes = Inr records
    \<and> length records = 1200 \<and> res_map_list row_key records = Inr keys \<and> distinct keys
    \<and> (\<forall>r \<in> set records. scope_violation r = Inr False)
    \<and> (\<forall>r \<in> set records. index_eq ''mechanism'' (VStr ''OASI'') r = Inr True \<longrightarrow> oasi_unsafe r = Inr False)
    \<and> s5v_aggregate F records = Inr agg
    \<and> (\<forall>f \<in> {''cells'', ''comparison_to_b3'', ''conclusion''}. \<exists>v. summary_get s f = Inr v
         \<and> py_eq v (dict_get (map_of agg) f))
    \<and> summary_get s ''raw_sha256'' = Inr (VStr (sha_hex sha bytes))"
  by (rule s5v_main_sound [OF assms])

theorem s5_verifier_sound_witness:
  "\<exists>(C :: campaign) bytes records. raw_runs (out C) \<noteq> None \<and> bytes = raw_bytes (the (raw_runs (out C)))
     \<and> read_rows bytes = Inr records \<and> length records = 1200"
proof -
  obtain C where C: "s5_run_campaign sample_world False [] no_results = (Inr (), C)"
    using s5_campaign_eq [OF sample_world_ok, of no_results "[]"] by (auto simp: no_results_def)
  have n: "\<not> output_exists no_results" by (simp add: no_results_def)
  have i: "sound_floats (w_floats sample_world)" using sample_sound_floats by (simp add: sample_world_floats)
  obtain bytes records where "map_option raw_bytes (raw_runs (out C)) = Some bytes" "read_rows bytes = Inr records"
      "length records = 1200"
    using s5_verifier_sound [OF s5v_accepts_campaign [OF sample_world_ok i n C]] by blast
  then show ?thesis by (intro exI [of _ C] exI [of _ bytes] exI [of _ records]) auto
qed

text \<open>
  The detached verifier of the second campaign accepts the files the campaign leaves.
\<close>

theorem s6_verifier_accepts:
  assumes "world_ok W" and "\<not> output_exists R" and "s6_run_campaign W False prereg R = (res, C)"
  shows "\<exists>v. s6v_main (w_floats W) (w_sha W) (map_option raw_bytes (raw_runs (out C))) (summary_file (out C)) = Inr (VDict v)
    \<and> map_of v ''status'' = Some (VStr ''PASS'') \<and> map_of v ''runs'' = Some (VInt 1500)"
  unfolding s6v_accepts_campaign [OF assms] by simp

theorem s6_verifier_accepts_witness:
  "\<exists>(C :: campaign) v. s6v_main (w_floats sample_world) (w_sha sample_world) (map_option raw_bytes (raw_runs (out C)))
       (summary_file (out C)) = Inr (VDict v) \<and> map_of v ''runs'' = Some (VInt 1500)"
proof -
  obtain C where C: "s6_run_campaign sample_world False [] no_results = (Inr (), C)"
    using s6_campaign_eq [OF sample_world_ok, of no_results "[]"] by (auto simp: no_results_def)
  have "\<not> output_exists no_results" by (simp add: no_results_def)
  from s6_verifier_accepts [OF sample_world_ok this C] show ?thesis by blast
qed

text \<open>
  What the detached verifier of the second campaign accepts: as for the first, and every row
  has the non-cooperative sink profile without any capability.
\<close>

theorem s6_verifier_sound:
  assumes "s6v_main F sha raw summary = Inr result"
  shows "\<exists>bytes s records keys agg. raw = Some bytes \<and> summary = Some s \<and> read_rows bytes = Inr records
    \<and> length records = 1500 \<and> res_map_list row_key records = Inr keys \<and> distinct keys
    \<and> (\<forall>r \<in> set records. scope_violation r = Inr False)
    \<and> (\<forall>r \<in> set records. profile_drift r = Inr False \<and> capability_present r = Inr False)
    \<and> (\<forall>r \<in> set records. index_eq ''mechanism'' (VStr ''OASI'') r = Inr True \<longrightarrow> oasi_unsafe r = Inr False)
    \<and> s6v_aggregate F records = Inr agg
    \<and> (\<forall>f \<in> {''cells'', ''primary_comparison_to_b3'', ''availability_tradeoff'', ''conclusion''}. \<exists>v. summary_get s f = Inr v
         \<and> py_eq v (dict_get (map_of agg) f))
    \<and> summary_get s ''raw_sha256'' = Inr (VStr (sha_hex sha bytes))"
  by (rule s6v_main_sound [OF assms])

theorem s6_verifier_sound_witness:
  "\<exists>(C :: campaign) bytes records. bytes = raw_bytes (the (raw_runs (out C))) \<and> read_rows bytes = Inr records \<and> length records = 1500"
proof -
  obtain C where C: "s6_run_campaign sample_world False [] no_results = (Inr (), C)"
    using s6_campaign_eq [OF sample_world_ok, of no_results "[]"] by (auto simp: no_results_def)
  have n: "\<not> output_exists no_results" by (simp add: no_results_def)
  obtain bytes records where "map_option raw_bytes (raw_runs (out C)) = Some bytes" "read_rows bytes = Inr records"
      "length records = 1500"
    using s6_verifier_sound [OF s6v_accepts_campaign [OF sample_world_ok n C]] by blast
  then show ?thesis by (intro exI [of _ C] exI [of _ bytes] exI [of _ records]) auto
qed

end
