(* ===== verification/Portable.thy ===== *)
theory Portable
  imports Prelude "HOL-Library.List_Lexorder"
begin

text \<open>
  Archive names and the allowlist of \<open>tools/build_deterministic_zip.py\<close>.  Text is a list of Unicode
  code points; the Unicode tables (NFC, case folding, case mapping) are a parameter, UTF-8 is modelled.
  A failed check is the value of an error type with one constructor per message of the source.
\<close>

section \<open>Text\<close>

type_synonym ustr = "nat list"

definition lit :: "string \<Rightarrow> ustr" where
  "lit s = map of_char s"

record unicode =
  nfc :: "ustr \<Rightarrow> ustr"
  casefold :: "ustr \<Rightarrow> ustr"
  lower :: "ustr \<Rightarrow> ustr"
  upper :: "ustr \<Rightarrow> ustr"

text \<open>\<open>bytes.decode("utf-8", errors="strict")\<close>: no overlong forms, no surrogates, at most U+10FFFF.\<close>

definition tail_byte :: "byte \<Rightarrow> bool" where
  "tail_byte b \<longleftrightarrow> 128 \<le> unat b \<and> unat b < 192"

fun tail_value :: "nat \<Rightarrow> bytes \<Rightarrow> nat" where
  "tail_value acc [] = acc"
| "tail_value acc (b # bs) = tail_value (64 * acc + (unat b - 128)) bs"

text \<open>Length and leading bits of the sequence a first byte starts.\<close>

definition lead :: "byte \<Rightarrow> (nat \<times> nat) option" where
  "lead b = (let n = unat b in
     if n < 128 then Some (0, n)
     else if 194 \<le> n \<and> n < 224 then Some (1, n - 192)
     else if 224 \<le> n \<and> n < 240 then Some (2, n - 224)
     else if 240 \<le> n \<and> n < 245 then Some (3, n - 240)
     else None)"

definition code_ok :: "nat \<Rightarrow> nat \<Rightarrow> bool" where
  "code_ok n v \<longleftrightarrow> (n = 2 \<longrightarrow> 2048 \<le> v \<and> \<not> (55296 \<le> v \<and> v < 57344)) \<and> (n = 3 \<longrightarrow> 65536 \<le> v \<and> v < 1114112)"

function utf8_decode :: "bytes \<Rightarrow> ustr option" where
  "utf8_decode [] = Some []"
| "utf8_decode (b # bs) = (case lead b of
     None \<Rightarrow> None
   | Some (n, v0) \<Rightarrow>
       let v = tail_value v0 (take n bs) in
       if length bs < n \<or> \<not> list_all tail_byte (take n bs) \<or> \<not> code_ok n v then None
       else map_option ((#) v) (utf8_decode (drop n bs)))"
  by pat_completeness auto
termination
  by (relation "measure length") (auto split: if_splits)

definition utf8_char :: "nat \<Rightarrow> bytes" where
  "utf8_char v =
     (if v < 128 then [word_of_nat v]
      else if v < 2048 then [word_of_nat (192 + v div 64), word_of_nat (128 + v mod 64)]
      else if v < 65536 then
        [word_of_nat (224 + v div 4096), word_of_nat (128 + v div 64 mod 64), word_of_nat (128 + v mod 64)]
      else [word_of_nat (240 + v div 262144), word_of_nat (128 + v div 4096 mod 64),
            word_of_nat (128 + v div 64 mod 64), word_of_nat (128 + v mod 64)])"

definition utf8_encode :: "ustr \<Rightarrow> bytes" where
  "utf8_encode s = concat (map utf8_char s)"

text \<open>\<open>s.split(sep)\<close> for one separator character, and \<open>text.splitlines()\<close>.\<close>

fun split_on :: "nat \<Rightarrow> ustr \<Rightarrow> ustr \<Rightarrow> ustr list" where
  "split_on sep acc [] = [rev acc]"
| "split_on sep acc (c # cs) = (if c = sep then rev acc # split_on sep [] cs else split_on sep (c # acc) cs)"

fun join_on :: "nat \<Rightarrow> ustr list \<Rightarrow> ustr" where
  "join_on sep [] = []"
| "join_on sep [x] = x"
| "join_on sep (x # y # ys) = x @ sep # join_on sep (y # ys)"

definition line_end :: "nat \<Rightarrow> bool" where
  "line_end c \<longleftrightarrow> c \<in> {10, 11, 12, 13, 28, 29, 30, 133, 8232, 8233}"

fun ulines :: "ustr \<Rightarrow> ustr \<Rightarrow> ustr list" where
  "ulines acc [] = (if acc = [] then [] else [rev acc])"
| "ulines acc (c # cs) =
     (if c = 13 \<and> cs \<noteq> [] \<and> hd cs = 10 then rev acc # ulines [] (tl cs)
      else if line_end c then rev acc # ulines [] cs
      else ulines (c # acc) cs)"

definition ends_with :: "ustr \<Rightarrow> ustr \<Rightarrow> bool" where
  "ends_with s e \<longleftrightarrow> length e \<le> length s \<and> drop (length s - length e) s = e"

section \<open>Portable names\<close>

datatype boundary =
    Non_canonical_path ustr
  | Unsafe_path ustr
  | Forbidden_component ustr
  | Non_portable_component ustr
  | Reserved_component ustr
  | Forbidden_suffix ustr
  | Invalid_utf8_allowlist
  | Not_canonical_lf
  | Bad_allowlist_line nat
  | Duplicate_path ustr
  | Not_ordinal_order
  | Name_collision
  | Not_readable string
  | Link_or_reparse string
  | Not_a_regular_file string
  | Not_a_directory string
  | Cannot_enumerate
  | Cannot_stat ustr
  | Link_entry ustr
  | Special_entry ustr
  | Source_collision
  | Identity_changed_before_read ustr
  | Identity_changed_during_read ustr
  | Metadata_changed_during_read ustr
  | Cannot_read ustr
  | Content_mismatch ustr
  | Output_inside_source
  | Allowlist_inside_source
  | Output_not_zip
  | Partial_exists
  | Output_exists
  | Source_mismatch "ustr list" "ustr list"
  | Verification_failed
  | Verifier_invalid_json
  | Verifier_not_passed
  | Output_appeared
  | Archive_hash_changed
  | Int_conversion_limit  \<comment> \<open>the ValueError of \<open>int()\<close> on more than 4300 digits, which no clause catches\<close>

definition WINDOWS_FORBIDDEN_CHARS :: "nat list" where
  "WINDOWS_FORBIDDEN_CHARS = lit ''<>:'' @ [34] @ lit ''|?*''"

definition WINDOWS_RESERVED_STEMS :: "ustr list" where
  "WINDOWS_RESERVED_STEMS = map lit [''CON'', ''PRN'', ''AUX'', ''NUL'']
     @ map (\<lambda>n. lit ''COM'' @ [48 + n]) [1..<10] @ map (\<lambda>n. lit ''LPT'' @ [48 + n]) [1..<10]"

definition FORBIDDEN_COMPONENTS :: "ustr list" where
  "FORBIDDEN_COMPONENTS = map lit [''.git'', ''target'', ''__pycache__'', ''.pytest_cache'', ''.mypy_cache'', ''.ruff_cache'']"

definition FORBIDDEN_SUFFIXES :: "ustr list" where
  "FORBIDDEN_SUFFIXES = map lit [''.pyc'', ''.pyo'']"

text \<open>\<open>re.match(r"^[A-Za-z]:", name)\<close>\<close>

definition drive_letter :: "ustr \<Rightarrow> bool" where
  "drive_letter s = (case s of a # b # _ \<Rightarrow> (65 \<le> a \<and> a \<le> 90 \<or> 97 \<le> a \<and> a \<le> 122) \<and> b = 58 | _ \<Rightarrow> False)"

definition dots :: "ustr list" where
  "dots = [[], [46], [46, 46]]"

definition absolute_posix :: "ustr \<Rightarrow> bool" where
  "absolute_posix s = (case s of c # _ \<Rightarrow> c = 47 | [] \<Rightarrow> False)"

fun component_error :: "unicode \<Rightarrow> ustr list \<Rightarrow> boundary option" where
  "component_error U [] = None"
| "component_error U (c # cs) =
     (if c \<in> set FORBIDDEN_COMPONENTS then Some (Forbidden_component c)
      else if ends_with c [32] \<or> ends_with c [46] then Some (Non_portable_component c)
      else if list_ex (\<lambda>x. x < 32 \<or> x \<in> set WINDOWS_FORBIDDEN_CHARS) c then Some (Non_portable_component c)
      else if upper U (takeWhile (\<lambda>x. x \<noteq> 46) c) \<in> set WINDOWS_RESERVED_STEMS then Some (Reserved_component c)
      else component_error U cs)"

definition validate_portable_name :: "unicode \<Rightarrow> ustr \<Rightarrow> boundary + unit" where
  "validate_portable_name U name =
     (if name = [] \<or> name \<noteq> nfc U name then Inl (Non_canonical_path name)
      else if absolute_posix name \<or> 92 \<in> set name \<or> drive_letter name then Inl (Unsafe_path name)
      else let components = split_on 47 [] name in
        if list_ex (\<lambda>c. c \<in> set dots) components \<or> absolute_posix name then Inl (Unsafe_path name)
        else case component_error U components of
          Some e \<Rightarrow> Inl e
        | None \<Rightarrow> if list_ex (ends_with (lower U name)) FORBIDDEN_SUFFIXES then Inl (Forbidden_suffix name)
                  else Inr ())"

section \<open>The allowlist\<close>

record expected_file =
  ef_sha256 :: ustr
  ef_size :: nat

type_synonym allowlist = "(ustr \<times> expected_file) list"

definition lower_hex :: "nat \<Rightarrow> bool" where
  "lower_hex c \<longleftrightarrow> 48 \<le> c \<and> c \<le> 57 \<or> 97 \<le> c \<and> c \<le> 102"

definition ascii_digit :: "nat \<Rightarrow> bool" where
  "ascii_digit c \<longleftrightarrow> 48 \<le> c \<and> c \<le> 57"

fun digits_value :: "nat \<Rightarrow> ustr \<Rightarrow> nat" where
  "digits_value acc [] = acc"
| "digits_value acc (c # cs) = digits_value (10 * acc + (c - 48)) cs"

text \<open>\<open>re.fullmatch(r"([0-9a-f]{64})  (0|[1-9][0-9]*)  (.+)", line)\<close>; a dot matches all but a line feed.\<close>

definition allowlist_line :: "ustr \<Rightarrow> (ustr \<times> ustr \<times> ustr) option" where
  "allowlist_line l =
     (let h = take 64 l; rest = drop 66 l; size = takeWhile ascii_digit rest; tail = dropWhile ascii_digit rest in
      if length h = 64 \<and> list_all lower_hex h \<and> take 2 (drop 64 l) = [32, 32]
         \<and> size \<noteq> [] \<and> (size = [48] \<or> hd size \<noteq> 48) \<and> take 2 tail = [32, 32]
         \<and> drop 2 tail \<noteq> [] \<and> 10 \<notin> set (drop 2 tail)
      then Some (h, size, drop 2 tail) else None)"

fun allowlist_loop :: "unicode \<Rightarrow> nat \<Rightarrow> allowlist \<Rightarrow> ustr list \<Rightarrow> boundary + allowlist" where
  "allowlist_loop U n expected [] = Inr expected"
| "allowlist_loop U n expected (l # ls) = (case allowlist_line l of
     None \<Rightarrow> Inl (Bad_allowlist_line n)
   | Some (sha256, size_text, name) \<Rightarrow> (case validate_portable_name U name of
       Inl b \<Rightarrow> Inl b
     | Inr _ \<Rightarrow> if name \<in> fst ` set expected then Inl (Duplicate_path name)
                else if 4300 < length size_text then Inl Int_conversion_limit
                else allowlist_loop U (n + 1)
                  (expected @ [(name, \<lparr>ef_sha256 = sha256, ef_size = digits_value 0 size_text\<rparr>)]) ls))"

definition parse_allowlist :: "unicode \<Rightarrow> bytes \<Rightarrow> boundary + allowlist" where
  "parse_allowlist U raw = (case utf8_decode raw of
     None \<Rightarrow> Inl Invalid_utf8_allowlist
   | Some s \<Rightarrow>
       if s = [] \<or> last s \<noteq> 10 \<or> 13 \<in> set s then Inl Not_canonical_lf
       else res_bind (allowlist_loop U 1 [] (ulines [] s)) (\<lambda>expected.
         let names = map fst expected; normalized = map (\<lambda>x. casefold U (nfc U x)) names in
         if names \<noteq> sort names then Inl Not_ordinal_order
         else if \<not> distinct normalized then Inl Name_collision
         else Inr expected))"

end
