(* ===== verification/Text_Codec.thy ===== *)
theory Text_Codec
  imports Portable
begin

text \<open>
  The text functions of Portable are inverse to each other: UTF-8 encoding and decoding, splitting and
  joining, lines and their concatenation, decimal text and numbers.
\<close>

section \<open>UTF-8\<close>

definition scalar :: "nat \<Rightarrow> bool" where
  "scalar v \<longleftrightarrow> v < 1114112 \<and> \<not> (55296 \<le> v \<and> v < 57344)"

lemma byte_lt: "unat (b :: byte) < 256"
  using unsigned_less [of b] by simp

lemma word_of_unat [simp]: "word_of_nat (unat (b :: byte)) = b"
  by simp

lemma unat_byte [simp]: "n < 256 \<Longrightarrow> unat (word_of_nat n :: byte) = n"
  by (simp add: unat_of_nat take_bit_nat_eq_self)

lemma byte_sum: "unat (b :: byte) = numeral k + n \<Longrightarrow> numeral k + word_of_nat n = b"
  by (metis of_nat_add of_nat_numeral word_of_unat)

lemma lead_cases:
  assumes "lead b = Some (n, v)"
  obtains "n = 0" "v = unat b" "unat b < 128"
  | "n = 1" "unat b = 192 + v" "2 \<le> v" "v < 32"
  | "n = 2" "unat b = 224 + v" "v < 16"
  | "n = 3" "unat b = 240 + v" "v < 5"
  using assms by (auto simp: lead_def Let_def split: if_splits)

lemma length_SucE: "Suc n \<le> length xs \<Longrightarrow> (\<And>x ys. xs = x # ys \<Longrightarrow> n \<le> length ys \<Longrightarrow> P) \<Longrightarrow> P"
  by (cases xs) auto

lemma tail_byteE:
  assumes "tail_byte b" obtains r where "unat b = 128 + r" "r < 64"
proof
  show "unat b = 128 + (unat b - 128)" "unat b - 128 < 64" using assms by (auto simp: tail_byte_def)
qed

lemma digit64: obtains a r :: nat where "v = 64 * a + r" "r < 64"
  by (rule that [of "v div 64" "v mod 64"]) simp_all

lemma split64: "r < 64 \<Longrightarrow> (64 * a + r) div 64 = a" "r < 64 \<Longrightarrow> (64 * a + r) mod 64 = (r :: nat)"
  by simp_all

lemma div64: "v div 4096 = v div 64 div 64" "v div 262144 = v div 64 div 64 div (64 :: nat)"
  by (simp_all flip: div_mult2_eq)

text \<open>What a first byte and its followers stand for is written back as the same bytes.\<close>

lemma utf8_char_of_bytes:
  assumes l: "lead b = Some (n, v0)" and len: "n \<le> length bs"
    and tails: "list_all tail_byte (take n bs)" and ok: "code_ok n (tail_value v0 (take n bs))"
  shows "utf8_char (tail_value v0 (take n bs)) = b # take n bs \<and> scalar (tail_value v0 (take n bs))"
  using l
proof (cases rule: lead_cases)
  case 1
  then show ?thesis by (simp add: utf8_char_def scalar_def)
next
  case 2
  then obtain c cs where bs: "bs = c # cs" using len by (cases bs) auto
  with 2 tails obtain r where r: "unat c = 128 + r" "r < 64" by (auto elim: tail_byteE)
  have "64 * v0 + r < 2048" "\<not> 64 * v0 + r < 128" using 2 r by simp_all
  moreover have "(64 * v0 + r) div 64 = v0" "(64 * v0 + r) mod 64 = r" using r by simp_all
  ultimately show ?thesis using 2 bs r by (auto simp: utf8_char_def scalar_def intro!: byte_sum)
next
  case 3
  then obtain c d cs where bs: "bs = c # d # cs"
    using len by (metis Suc_le_D length_Suc_conv numeral_2_eq_2 Suc_le_mono)
  with 3 tails obtain r s where r: "unat c = 128 + r" "r < 64" and s: "unat d = 128 + s" "s < 64"
    by (auto simp: numeral_2_eq_2 elim!: tail_byteE)
  let ?v = "64 * (64 * v0 + r) + s"
  have v: "tail_value v0 (take n bs) = ?v" using 3 bs r s by (simp add: numeral_2_eq_2)
  have "?v div 64 = 64 * v0 + r" "?v mod 64 = s" "(64 * v0 + r) mod 64 = r" "?v div 4096 = v0"
    by (simp_all only: div64 split64 r s)
  moreover have "?v < 65536" using 3 r s by simp
  moreover have "\<not> ?v < 2048" "\<not> (55296 \<le> ?v \<and> ?v < 57344)" using ok 3 v by (simp_all add: code_ok_def)
  ultimately show ?thesis using 3 bs r s
    by (auto simp: v utf8_char_def scalar_def numeral_2_eq_2 intro!: byte_sum)
next
  case 4
  then obtain c d e cs where bs: "bs = c # d # e # cs"
    using len by (auto simp: numeral_3_eq_3 elim!: length_SucE)
  with 4 tails obtain r s t where r: "unat c = 128 + r" "r < 64" and s: "unat d = 128 + s" "s < 64"
      and t: "unat e = 128 + t" "t < 64"
    by (auto simp: numeral_3_eq_3 elim!: tail_byteE)
  let ?v = "64 * (64 * (64 * v0 + r) + s) + t"
  have v: "tail_value v0 (take n bs) = ?v" using 4 bs r s t by (simp add: numeral_3_eq_3)
  have d: "?v mod 64 = t" "?v div 64 = 64 * (64 * v0 + r) + s" "(64 * (64 * v0 + r) + s) mod 64 = s"
    "?v div 4096 = 64 * v0 + r" "(64 * v0 + r) mod 64 = r" "?v div 262144 = v0"
    by (simp_all only: div64 split64 r s t)
  moreover have "\<not> ?v < 65536" "?v < 1114112" using ok 4 v by (simp_all add: code_ok_def)
  ultimately show ?thesis using 4 bs r s t
    by (auto simp: v utf8_char_def scalar_def numeral_3_eq_3 intro!: byte_sum)
qed

lemma utf8_encode_decode: "utf8_decode bs = Some s \<Longrightarrow> utf8_encode s = bs \<and> list_all scalar s"
proof (induction bs arbitrary: s rule: utf8_decode.induct)
  case 1
  then show ?case by (simp add: utf8_encode_def)
next
  case (2 b bs)
  then obtain n v0 where l: "lead b = Some (n, v0)" by (cases "lead b") auto
  let ?v = "tail_value v0 (take n bs)"
  from 2(2) l obtain s' where ok: "n \<le> length bs" "list_all tail_byte (take n bs)" "code_ok n ?v"
    and rest: "utf8_decode (drop n bs) = Some s'" and s: "s = ?v # s'"
    by (auto simp: Let_def split: if_splits)
  have "utf8_encode s' = drop n bs \<and> list_all scalar s'"
    using 2(1) [OF l refl refl _ rest] ok by auto
  then show ?case using utf8_char_of_bytes [OF l ok] s by (simp add: utf8_encode_def)
qed

lemma utf8_decode_Cons:
  assumes "lead b = Some (n, v0)" "length ts = n" "list_all tail_byte ts" "code_ok n (tail_value v0 ts)"
  shows "utf8_decode (b # ts @ rest) = map_option ((#) (tail_value v0 ts)) (utf8_decode rest)"
  using assms by simp

lemma lead_of_nat:
  "v < 128 \<Longrightarrow> lead (word_of_nat v) = Some (0, v)"
  "2 \<le> v \<Longrightarrow> v < 32 \<Longrightarrow> lead (word_of_nat (192 + v)) = Some (1, v)"
  "v < 16 \<Longrightarrow> lead (word_of_nat (224 + v)) = Some (2, v)"
  "v < 5 \<Longrightarrow> lead (word_of_nat (240 + v)) = Some (3, v)"
  by (simp_all add: lead_def del: of_nat_add)

lemma tail_of_nat:
  "r < 64 \<Longrightarrow> tail_byte (word_of_nat (128 + r))" "r < 64 \<Longrightarrow> unat (word_of_nat (128 + r) :: byte) = 128 + r"
  by (simp_all add: tail_byte_def del: of_nat_add)

lemma utf8_decode_char:
  assumes "scalar v" shows "utf8_decode (utf8_char v @ rest) = map_option ((#) v) (utf8_decode rest)"
proof -
  obtain x1 t where v: "v = 64 * x1 + t" and t: "t < 64" by (rule digit64)
  obtain x2 s where x1: "x1 = 64 * x2 + s" and s: "s < 64" by (rule digit64)
  obtain x3 r where x2: "x2 = 64 * x3 + r" and r: "r < 64" by (rule digit64)
  have d: "v div 64 = x1" "v mod 64 = t" "v div 4096 = x2" "x1 mod 64 = s" "v div 262144 = x3" "x2 mod 64 = r"
    using t s r by (simp_all only: div64 v split64 x1 x2)
  note facts = d tail_of_nat t s r lead_of_nat
  consider "v < 128" | "128 \<le> v" "v < 2048" | "2048 \<le> v" "v < 65536" | "65536 \<le> v" "v < 1114112"
    using assms by (fastforce simp: scalar_def)
  then show ?thesis
  proof cases
    case 1
    then have "utf8_char v = [word_of_nat v]" by (simp add: utf8_char_def)
    then show ?thesis
      using utf8_decode_Cons [of "word_of_nat v" 0 v "[]" rest] 1
      by (simp add: lead_of_nat code_ok_def del: utf8_decode.simps)
  next
    case 2
    then have x: "2 \<le> x1" "x1 < 32" using v t by simp_all
    have "utf8_char v = [word_of_nat (192 + x1), word_of_nat (128 + t)]"
      using 2 d by (simp only: utf8_char_def) simp
    moreover have "tail_value x1 [word_of_nat (128 + t)] = v"
      using t v by (simp add: tail_of_nat del: of_nat_add)
    ultimately show ?thesis
      using utf8_decode_Cons [of "word_of_nat (192 + x1)" 1 x1 "[word_of_nat (128 + t)]" rest] x t
      by (simp only: lead_of_nat) (simp add: code_ok_def tail_of_nat del: utf8_decode.simps of_nat_add)
  next
    case 3
    then have x: "x2 < 16" using v x1 t s by simp
    have "utf8_char v = [word_of_nat (224 + x2), word_of_nat (128 + s), word_of_nat (128 + t)]"
      using 3 d by (simp only: utf8_char_def) simp
    moreover have "tail_value x2 [word_of_nat (128 + s), word_of_nat (128 + t)] = v"
      using t s v x1 by (simp add: tail_of_nat del: of_nat_add)
    ultimately show ?thesis
      using utf8_decode_Cons [of "word_of_nat (224 + x2)" 2 x2 "[word_of_nat (128 + s), word_of_nat (128 + t)]" rest]
        x s t 3 assms
      by (simp only: lead_of_nat) (simp add: code_ok_def scalar_def tail_of_nat del: utf8_decode.simps of_nat_add)
  next
    case 4
    then have x: "x3 < 5" using v x1 x2 t s r by simp
    have "utf8_char v = [word_of_nat (240 + x3), word_of_nat (128 + r), word_of_nat (128 + s), word_of_nat (128 + t)]"
      using 4 d by (simp only: utf8_char_def) simp
    moreover have "tail_value x3 [word_of_nat (128 + r), word_of_nat (128 + s), word_of_nat (128 + t)] = v"
      using t s r v x1 x2 by (simp add: tail_of_nat del: of_nat_add)
    ultimately show ?thesis
      using utf8_decode_Cons [of "word_of_nat (240 + x3)" 3 x3
          "[word_of_nat (128 + r), word_of_nat (128 + s), word_of_nat (128 + t)]" rest] x r s t 4 assms
      by (simp only: lead_of_nat) (simp add: code_ok_def scalar_def tail_of_nat del: utf8_decode.simps of_nat_add)
  qed
qed

lemma utf8_decode_encode: "list_all scalar s \<Longrightarrow> utf8_decode (utf8_encode s) = Some s"
  by (induction s) (simp_all add: utf8_encode_def utf8_decode_char del: utf8_decode.simps(2))

lemma utf8_encode_ascii: "list_all (\<lambda>c. c < 128) s \<Longrightarrow> utf8_encode s = map word_of_nat s"
  by (induction s) (simp_all add: utf8_encode_def utf8_char_def)

section \<open>Splitting and joining\<close>

lemma split_on_not_Nil [simp]: "split_on sep acc s \<noteq> []"
  by (induction sep acc s rule: split_on.induct) auto

lemma join_on_Cons: "ys \<noteq> [] \<Longrightarrow> join_on sep (x # ys) = x @ sep # join_on sep ys"
  by (cases ys) auto

lemma join_split: "join_on sep (split_on sep acc s) = rev acc @ s"
  by (induction sep acc s rule: split_on.induct) (auto simp: join_on_Cons)

lemma split_no_sep: "sep \<notin> set acc \<Longrightarrow> c \<in> set (split_on sep acc s) \<Longrightarrow> sep \<notin> set c"
  by (induction sep acc s rule: split_on.induct) (auto split: if_splits)

lemma split_chars: "\<Union> (set ` set (split_on sep acc s)) \<subseteq> set acc \<union> set s"
  by (induction sep acc s rule: split_on.induct) auto

lemma split_covers: "x \<in> set s \<Longrightarrow> x \<noteq> sep \<Longrightarrow> \<exists>c \<in> set (split_on sep acc s). x \<in> set c"
proof -
  assume "x \<in> set s" "x \<noteq> sep"
  then have "x \<in> set (join_on sep (split_on sep acc s))" by (simp add: join_split)
  moreover have "x \<in> set (join_on sep cs) \<Longrightarrow> x \<noteq> sep \<Longrightarrow> \<exists>c \<in> set cs. x \<in> set c" for cs
    by (induction sep cs rule: join_on.induct) auto
  ultimately show ?thesis using \<open>x \<noteq> sep\<close> by blast
qed

section \<open>Lines\<close>

definition only_lf :: "ustr \<Rightarrow> bool" where
  "only_lf s \<longleftrightarrow> list_all (\<lambda>c. line_end c \<longrightarrow> c = 10) s"

definition unlines :: "ustr list \<Rightarrow> ustr" where
  "unlines ls = concat (map (\<lambda>l. l @ [10]) ls)"

lemma line_end_lf [simp]: "line_end 10"
  by (simp add: line_end_def)

lemma ulines_line:
  "list_all (\<lambda>c. \<not> line_end c) l \<Longrightarrow> line_end e \<Longrightarrow> e \<noteq> 13 \<Longrightarrow> ulines acc (l @ e # s) = (rev acc @ l) # ulines [] s"
proof (induction l arbitrary: acc)
  case (Cons c l)
  then have "c \<noteq> 13" by (auto simp: line_end_def)
  then show ?case using Cons by simp
qed simp

lemma ulines_unlines: "list_all (list_all (\<lambda>c. \<not> line_end c)) ls \<Longrightarrow> ulines [] (unlines ls) = ls"
  by (induction ls) (simp_all add: unlines_def ulines_line)

lemma unlines_ulines:
  "only_lf s \<Longrightarrow> s \<noteq> [] \<Longrightarrow> last s = 10 \<Longrightarrow> list_all (\<lambda>c. \<not> line_end c) acc \<Longrightarrow>
   unlines (ulines acc s) = rev acc @ s \<and> list_all (list_all (\<lambda>c. \<not> line_end c)) (ulines acc s)"
proof (induction acc s rule: ulines.induct)
  case (2 acc c cs)
  then have c: "c \<noteq> 13" "line_end c \<longleftrightarrow> c = 10" by (auto simp: only_lf_def line_end_def)
  show ?case
  proof (cases "c = 10")
    case True
    then show ?thesis
      using 2(2) 2(4-7) by (cases "cs = []") (auto simp: unlines_def only_lf_def)
  next
    case False
    then have "cs \<noteq> []" "last cs = 10" using 2(6) by (auto split: if_splits)
    then show ?thesis using 2(3) 2(4-7) c False by (auto simp: only_lf_def)
  qed
qed simp

section \<open>Decimal text\<close>

fun udec :: "nat \<Rightarrow> ustr" where
  "udec n = (if n < 10 then [48 + n] else udec (n div 10) @ [48 + n mod 10])"

declare udec.simps [simp del]

definition canonical_decimal :: "ustr \<Rightarrow> bool" where
  "canonical_decimal z \<longleftrightarrow> z \<noteq> [] \<and> list_all ascii_digit z \<and> (z = [48] \<or> hd z \<noteq> 48)"

lemma digits_value_snoc: "digits_value acc (xs @ [c]) = 10 * digits_value acc xs + (c - 48)"
  by (induction xs arbitrary: acc) simp_all

lemma udec_not_Nil [simp]: "udec n \<noteq> []"
  by (subst udec.simps) simp

lemma udec_digits: "list_all ascii_digit (udec n)"
proof (induction n rule: udec.induct)
  case (1 n)
  have "ascii_digit (48 + n mod 10)" "n < 10 \<Longrightarrow> ascii_digit (48 + n)" by (auto simp: ascii_digit_def)
  then show ?case using 1 by (subst udec.simps) simp
qed

lemma udec_value: "digits_value 0 (udec n) = n"
proof (induction n rule: udec.induct)
  case (1 n)
  show ?case using 1 by (subst udec.simps) (simp add: digits_value_snoc)
qed

lemma udec_hd: "0 < n \<Longrightarrow> hd (udec n) \<noteq> 48"
proof (induction n rule: udec.induct)
  case (1 n)
  show ?case using 1 by (subst udec.simps) simp
qed

lemma canonical_udec: "canonical_decimal (udec n)"
  using udec_digits udec_hd by (cases "n = 0") (auto simp: canonical_decimal_def udec.simps [of 0] ascii_digit_def)

lemma digits_value_pos: "list_all ascii_digit z \<Longrightarrow> z \<noteq> [] \<Longrightarrow> hd z \<noteq> 48 \<Longrightarrow> 0 < digits_value acc z"
proof (induction z arbitrary: acc rule: rev_induct)
  case (snoc c z)
  show ?case
  proof (cases "z = []")
    case True
    then show ?thesis using snoc.prems by (auto simp: ascii_digit_def)
  next
    case False
    then have "0 < digits_value acc z" using snoc by simp
    then show ?thesis by (simp add: digits_value_snoc)
  qed
qed simp

lemma udec_of_value: "canonical_decimal z \<Longrightarrow> udec (digits_value 0 z) = z"
proof (induction z rule: rev_induct)
  case (snoc c z)
  then have c: "48 \<le> c" "c \<le> 57" by (auto simp: canonical_decimal_def ascii_digit_def)
  show ?case
  proof (cases "z = []")
    case True
    then show ?thesis using c by (subst udec.simps) simp
  next
    case False
    then have z: "canonical_decimal z" "hd z \<noteq> 48" using snoc.prems by (auto simp: canonical_decimal_def)
    then have "0 < digits_value 0 z" using False digits_value_pos by (simp add: canonical_decimal_def)
    moreover define v d where "v = digits_value 0 z" and "d = c - 48"
    ultimately have v: "0 < v" "udec v = z" "c = 48 + d" "d < 10" "digits_value 0 (z @ [c]) = 10 * v + d"
      using snoc.IH [OF z(1)] c by (auto simp: digits_value_snoc)
    then show ?thesis by (simp add: udec.simps [of "10 * v + d"])
  qed
qed (simp add: canonical_decimal_def)

end
