(* ===== verification/Zip_Layout.thy ===== *)
theory Zip_Layout
  imports Text_Codec
begin

text \<open>
  The byte layout of the archives of \<open>tools/build_deterministic_zip.py\<close> and \<open>tools/verify_archive.py\<close>:
  little-endian fields (\<open>struct.pack\<close> and \<open>struct.unpack\<close> with the formats of the ZIP records), CRC-32,
  code page 437, DOS dates, the archive mode of a name, and the records of one member.  The compressor
  (\<open>zlib\<close>, a C library) is a parameter.
\<close>

section \<open>Little-endian fields\<close>

fun le :: "nat \<Rightarrow> nat \<Rightarrow> bytes" where
  "le 0 v = []"
| "le (Suc w) v = word_of_nat (v mod 256) # le w (v div 256)"

fun le_val :: "bytes \<Rightarrow> nat" where
  "le_val [] = 0"
| "le_val (b # bs) = unat b + 256 * le_val bs"

fun fields :: "nat list \<Rightarrow> bytes \<Rightarrow> bytes list" where
  "fields [] bs = []"
| "fields (w # ws) bs = take w bs # fields ws (drop w bs)"

definition unpack :: "nat list \<Rightarrow> bytes \<Rightarrow> nat list" where
  "unpack ws bs = map le_val (fields ws bs)"

fun pack :: "nat list \<Rightarrow> nat list \<Rightarrow> bytes" where
  "pack (w # ws) (v # vs) = le w v @ pack ws vs"
| "pack _ _ = []"

lemma length_le [simp]: "length (le w v) = w"
  by (induction w arbitrary: v) simp_all

lemma le_val_le: "v < 256 ^ w \<Longrightarrow> le_val (le w v) = v"
proof (induction w arbitrary: v)
  case (Suc w)
  have "v div 256 < 256 ^ w" using Suc.prems by (simp add: less_mult_imp_div_less mult.commute)
  then show ?case using Suc.IH by simp
qed simp

lemma le_le_val: "le (length bs) (le_val bs) = bs"
proof (induction bs)
  case (Cons b bs)
  have "unat b < 256" by (rule byte_lt)
  then have "(unat b + 256 * le_val bs) mod 256 = unat b" "(unat b + 256 * le_val bs) div 256 = le_val bs" by simp_all
  then show ?case using Cons by (simp only: length_Cons le_val.simps le.simps word_of_unat)
qed simp

lemma length_fields [simp]: "length (fields ws bs) = length ws"
  by (induction ws arbitrary: bs) simp_all

lemma length_unpack [simp]: "length (unpack ws bs) = length ws"
  by (simp add: unpack_def)

lemma pack_unpack: "length bs = sum_list ws \<Longrightarrow> pack ws (unpack ws bs) = bs"
proof (induction ws arbitrary: bs)
  case (Cons w ws)
  then have "le w (le_val (take w bs)) = take w bs" using le_le_val [of "take w bs"] by simp
  moreover have "pack ws (unpack ws (drop w bs)) = drop w bs" using Cons by simp
  ultimately show ?case by (simp add: unpack_def)
qed (simp add: unpack_def)

definition fits :: "nat list \<Rightarrow> nat list \<Rightarrow> bool" where
  "fits ws vs \<longleftrightarrow> list_all2 (\<lambda>w v. v < 256 ^ w) ws vs"

lemma unpack_pack: "fits ws vs \<Longrightarrow> unpack ws (pack ws vs @ rest) = vs"
  unfolding fits_def
  by (induction rule: list_all2_induct) (simp_all add: unpack_def le_val_le)

lemma length_pack: "length ws = length vs \<Longrightarrow> length (pack ws vs) = sum_list ws"
  by (induction ws vs rule: list_induct2) simp_all

definition slice :: "bytes \<Rightarrow> nat \<Rightarrow> nat \<Rightarrow> bytes" where
  "slice bs off n = take n (drop off bs)"

text \<open>\<open>bytes.rfind\<close>\<close>

definition rfind :: "bytes \<Rightarrow> bytes \<Rightarrow> nat option" where
  "rfind pat bs = (let at = filter (\<lambda>i. slice bs i (length pat) = pat) [0..<length bs] in
     if at = [] then None else Some (last at))"

section \<open>Standard library tables\<close>

text \<open>\<open>zlib.crc32\<close>: the reflected polynomial EDB88320, bit by bit.\<close>

definition crc_bit :: "32 word \<Rightarrow> 32 word" where
  "crc_bit c = (if bit c 0 then drop_bit 1 c XOR 0xEDB88320 else drop_bit 1 c)"

definition crc32 :: "bytes \<Rightarrow> nat" where
  "crc32 bs = unat (NOT (fold (\<lambda>b c. (crc_bit ^^ 8) (c XOR ucast b)) bs (NOT 0)))"

lemma crc32_lt: "crc32 bs < 256 ^ 4"
  unfolding crc32_def by (rule less_le_trans [OF unsigned_less]) simp

text \<open>The upper half of code page 437; the lower half is ASCII.\<close>

definition CP437 :: "nat list" where
  "CP437 =
    [199, 252, 233, 226, 228, 224, 229, 231, 234, 235, 232, 239, 238, 236, 196, 197,
     201, 230, 198, 244, 246, 242, 251, 249, 255, 214, 220, 162, 163, 165, 8359, 402,
     225, 237, 243, 250, 241, 209, 170, 186, 191, 8976, 172, 189, 188, 161, 171, 187,
     9617, 9618, 9619, 9474, 9508, 9569, 9570, 9558, 9557, 9571, 9553, 9559, 9565, 9564, 9563, 9488,
     9492, 9524, 9516, 9500, 9472, 9532, 9566, 9567, 9562, 9556, 9577, 9574, 9568, 9552, 9580, 9575,
     9576, 9572, 9573, 9561, 9560, 9554, 9555, 9579, 9578, 9496, 9484, 9608, 9604, 9612, 9616, 9600,
     945, 223, 915, 960, 931, 963, 181, 964, 934, 920, 937, 948, 8734, 966, 949, 8745,
     8801, 177, 8805, 8804, 8992, 8993, 247, 8776, 176, 8729, 183, 8730, 8319, 178, 9632, 160]"

definition cp437_decode :: "bytes \<Rightarrow> ustr" where
  "cp437_decode bs = map (\<lambda>b. if unat b < 128 then unat b else CP437 ! (unat b - 128)) bs"

definition cp437_byte :: "nat \<Rightarrow> byte option" where
  "cp437_byte c = (if c < 128 then Some (word_of_nat c)
     else map_option (\<lambda>i. word_of_nat (128 + i)) (List.find (\<lambda>i. CP437 ! i = c) [0..<128]))"

fun cp437_encode :: "ustr \<Rightarrow> bytes option" where
  "cp437_encode [] = Some []"
| "cp437_encode (c # cs) = (case (cp437_byte c, cp437_encode cs) of (Some b, Some bs) \<Rightarrow> Some (b # bs) | _ \<Rightarrow> None)"

lemma length_CP437: "length CP437 = 128"
  by (simp add: CP437_def)

lemma CP437_ge: "i < 128 \<Longrightarrow> 128 \<le> CP437 ! i"
proof -
  have "list_all (\<lambda>c. 128 \<le> c) CP437" by (simp add: CP437_def)
  then show "i < 128 \<Longrightarrow> 128 \<le> CP437 ! i" using length_CP437 by (simp add: list_all_length)
qed

lemma distinct_CP437: "distinct CP437"
  by (simp add: CP437_def)

lemma cp437_byte_decode:
  "cp437_byte (if unat b < 128 then unat b else CP437 ! (unat b - 128)) = Some b"
proof (cases "unat b < 128")
  case False
  define i where "i = unat b - 128"
  then have i: "i < 128" "128 + i = unat b" using False byte_lt [of b] by simp_all
  have f: "List.find (\<lambda>k. CP437 ! k = CP437 ! i) [0..<128] = Some i"
    using i(1) nth_eq_iff_index_eq [OF distinct_CP437] length_CP437
    by (auto simp: find_Some_iff)
  have "\<not> CP437 ! i < 128" using CP437_ge i(1) not_less by blast
  moreover have "word_of_nat (128 + i) = b" using i(2) by (simp only: word_of_unat)
  ultimately have "cp437_byte (CP437 ! i) = Some b" using f by (simp only: cp437_byte_def if_False option.map)
  then show ?thesis using False by (simp add: i_def)
qed (simp add: cp437_byte_def)

lemma cp437_encode_decode: "cp437_encode (cp437_decode bs) = Some bs"
proof (induction bs)
  case (Cons b bs)
  then show ?case using cp437_byte_decode [of b] by (simp add: cp437_decode_def del: if_split)
qed (simp add: cp437_decode_def)

lemma cp437_decode_byte:
  "cp437_byte c = Some b \<Longrightarrow> (if unat b < 128 then unat b else CP437 ! (unat b - 128)) = c"
proof (cases "c < 128")
  case False
  assume "cp437_byte c = Some b"
  then obtain i where "List.find (\<lambda>i. CP437 ! i = c) [0..<128] = Some i" "b = word_of_nat (128 + i)"
    using False by (auto simp: cp437_byte_def)
  then have "i < 128" "CP437 ! i = c" "unat b = 128 + i" by (auto simp: find_Some_iff simp del: of_nat_add)
  then show ?thesis by simp
qed (auto simp: cp437_byte_def)

lemma cp437_decode_encode: "cp437_encode s = Some bs \<Longrightarrow> cp437_decode bs = s"
proof (induction s arbitrary: bs)
  case (Cons c s)
  then obtain b bs' where "cp437_byte c = Some b" "cp437_encode s = Some bs'" "bs = b # bs'"
    by (auto split: option.splits)
  then show ?case using Cons.IH cp437_decode_byte [of c b] by (simp add: cp437_decode_def del: if_split)
qed (simp add: cp437_decode_def)

lemma cp437_decode_inj: "cp437_decode a = cp437_decode b \<longleftrightarrow> a = b"
  by (metis cp437_encode_decode option.inject)

section \<open>The policy of the archive\<close>

definition EXPECTED_TIMESTAMP :: "nat list" where
  "EXPECTED_TIMESTAMP = [2026, 9, 2, 0, 0, 0]"

text \<open>\<open>(hour << 11) | (minute << 5) | (second // 2)\<close> and \<open>((year - 1980) << 9) | (month << 5) | day\<close>.\<close>

definition dos_time :: "nat list \<Rightarrow> nat" where
  "dos_time v = (v ! 3 * 2048) OR (v ! 4 * 32) OR (v ! 5 div 2)"

definition dos_date :: "nat list \<Rightarrow> nat" where
  "dos_date v = ((v ! 0 - 1980) * 512) OR (v ! 1 * 32) OR v ! 2"

definition dos_datetime :: "nat list \<Rightarrow> nat \<times> nat" where
  "dos_datetime v = (dos_time v, dos_date v)"

text \<open>\<open>PurePosixPath(name).suffix\<close>: from the last dot of the last component, unless the dot is its first or last character.\<close>

definition final_component :: "ustr \<Rightarrow> ustr" where
  "final_component name = (let parts = filter (\<lambda>c. c \<noteq> [] \<and> c \<noteq> [46]) (split_on 47 [] name) in
     if parts = [] then [] else last parts)"

definition path_suffix :: "ustr \<Rightarrow> ustr" where
  "path_suffix name = (let final = final_component name; ext = rev (takeWhile (\<lambda>c. c \<noteq> 46) (rev final)) in
     if ext \<noteq> [] \<and> length ext + 1 < length final then 46 # ext else [])"

definition EXECUTABLE_SUFFIXES :: "ustr list" where
  "EXECUTABLE_SUFFIXES = map lit [''.py'', ''.sh'']"

definition canonical_mode :: "unicode \<Rightarrow> ustr \<Rightarrow> nat" where
  "canonical_mode U name = (if lower U (path_suffix name) \<in> set EXECUTABLE_SUFFIXES then 493 else 420)"

text \<open>\<open>permission_policy_self_test\<close>: the names whose mode is not the listed one.\<close>

definition permission_policy_self_test :: "unicode \<Rightarrow> ustr list" where
  "permission_policy_self_test U =
     map fst (filter (\<lambda>(name, expected). canonical_mode U name \<noteq> expected)
       [(lit ''tools/run.py'', 493), (lit ''tools/run.sh'', 493), (lit ''tools/RUN.PY'', 493),
        (lit ''README.md'', 420), (lit ''record.json'', 420), (lit ''notes/x.py.txt'', 420)])"

section \<open>Records\<close>

text \<open>\<open>b"PK\x03\x04"\<close>, \<open>b"PK\x01\x02"\<close>, \<open>b"PK\x05\x06"\<close> and the two ZIP64 signatures, as little-endian numbers.\<close>

definition LOCAL_SIGNATURE :: nat where "LOCAL_SIGNATURE = 0x04034b50"
definition CENTRAL_SIGNATURE :: nat where "CENTRAL_SIGNATURE = 0x02014b50"
definition EOCD_SIGNATURE :: nat where "EOCD_SIGNATURE = 0x06054b50"
definition EOCD64_SIGNATURE :: nat where "EOCD64_SIGNATURE = 0x06064b50"
definition LOCATOR64_SIGNATURE :: nat where "LOCATOR64_SIGNATURE = 0x07064b50"

text \<open>The formats \<open><4s5H3L2H\<close>, \<open><4s4B4HL2L5H2L\<close>, \<open><4s4H2LH\<close>, \<open><4sQ2H2L4Q\<close> and \<open><4sLQL\<close>.\<close>

definition LOCAL_FORMAT :: "nat list" where "LOCAL_FORMAT = [4, 2, 2, 2, 2, 2, 4, 4, 4, 2, 2]"
definition CENTRAL_FORMAT :: "nat list" where
  "CENTRAL_FORMAT = [4, 1, 1, 1, 1, 2, 2, 2, 2, 4, 4, 4, 2, 2, 2, 2, 2, 4, 4]"
definition EOCD_FORMAT :: "nat list" where "EOCD_FORMAT = [4, 2, 2, 2, 2, 4, 4, 2]"
definition EOCD64_FORMAT :: "nat list" where "EOCD64_FORMAT = [4, 8, 2, 2, 4, 4, 8, 8, 8, 8]"
definition LOCATOR64_FORMAT :: "nat list" where "LOCATOR64_FORMAT = [4, 4, 8, 4]"

text \<open>
  One member as the archive holds it: raw name, flag bits, permission bits and content.  Its central
  record has further fields that the local record has not: a reserved byte, a disk number, the claimed
  lengths of name, extra field and comment, and the offset of the local record.
\<close>

record member =
  mb_name :: bytes
  mb_flags :: nat
  mb_mode :: nat
  mb_data :: bytes

record central_fields =
  cf_reserved :: nat
  cf_disk :: nat
  cf_lengths :: "nat \<times> nat \<times> nat"
  cf_offset :: nat

definition S_IFREG :: nat where "S_IFREG = 0x8000"

definition local_record :: "(bytes \<Rightarrow> bytes) \<Rightarrow> member \<Rightarrow> bytes" where
  "local_record deflate m =
     pack LOCAL_FORMAT [LOCAL_SIGNATURE, 20, mb_flags m, 8, dos_time EXPECTED_TIMESTAMP, dos_date EXPECTED_TIMESTAMP,
       crc32 (mb_data m), length (deflate (mb_data m)), length (mb_data m), length (mb_name m), 0]
     @ mb_name m @ deflate (mb_data m)"

definition central_record :: "(bytes \<Rightarrow> bytes) \<Rightarrow> member \<Rightarrow> central_fields \<Rightarrow> bytes" where
  "central_record deflate m c =
     pack CENTRAL_FORMAT [CENTRAL_SIGNATURE, 20, 3, 20, cf_reserved c, mb_flags m, 8,
       dos_time EXPECTED_TIMESTAMP, dos_date EXPECTED_TIMESTAMP,
       crc32 (mb_data m), length (deflate (mb_data m)), length (mb_data m),
       fst (cf_lengths c), fst (snd (cf_lengths c)), snd (snd (cf_lengths c)), cf_disk c,
       0, (S_IFREG + mb_mode m) * 65536, cf_offset c]
     @ mb_name m"

definition end_record :: "nat \<Rightarrow> nat \<Rightarrow> nat \<Rightarrow> bytes" where
  "end_record n sz off = pack EOCD_FORMAT [EOCD_SIGNATURE, 0, 0, n, n, sz, off, 0]"

text \<open>Where the local records start.\<close>

fun offsets :: "(bytes \<Rightarrow> bytes) \<Rightarrow> nat \<Rightarrow> member list \<Rightarrow> nat list" where
  "offsets deflate pos [] = []"
| "offsets deflate pos (m # ms) = pos # offsets deflate (pos + length (local_record deflate m)) ms"

definition local_part :: "(bytes \<Rightarrow> bytes) \<Rightarrow> member list \<Rightarrow> bytes" where
  "local_part deflate ms = concat (map (local_record deflate) ms)"

definition central_part :: "(bytes \<Rightarrow> bytes) \<Rightarrow> member list \<Rightarrow> central_fields list \<Rightarrow> bytes" where
  "central_part deflate ms cs = concat (map2 (central_record deflate) ms cs)"

definition tight :: "member \<Rightarrow> nat \<Rightarrow> central_fields" where
  "tight m off = \<lparr>cf_reserved = 0, cf_disk = 0, cf_lengths = (length (mb_name m), 0, 0), cf_offset = off\<rparr>"

text \<open>The archive of a list of members with nothing left free.\<close>

definition archive_bytes :: "(bytes \<Rightarrow> bytes) \<Rightarrow> member list \<Rightarrow> bytes" where
  "archive_bytes deflate ms = (let
       locals = local_part deflate ms;
       centrals = central_part deflate ms (map2 tight ms (offsets deflate 0 ms))
     in locals @ centrals @ end_record (length ms) (length centrals) (length locals))"

lemma length_local_record [simp]:
  "length (local_record deflate m) = 30 + length (mb_name m) + length (deflate (mb_data m))"
  by (simp add: local_record_def LOCAL_FORMAT_def length_pack)

lemma length_central_record [simp]: "length (central_record deflate m c) = 46 + length (mb_name m)"
  by (simp add: central_record_def CENTRAL_FORMAT_def length_pack)

lemma length_end_record [simp]: "length (end_record n sz off) = 22"
  by (simp add: end_record_def EOCD_FORMAT_def length_pack)

lemma length_offsets [simp]: "length (offsets deflate pos ms) = length ms"
  by (induction ms arbitrary: pos) simp_all

end
