(* ===== verification/Allowlist.thy ===== *)
theory Allowlist
  imports Text_Codec
begin

text \<open>
  What an accepted name and an accepted allowlist look like: the rendering of a listing, and the proof
  that the parser accepts exactly the renderings of well-formed listings as long as the text has no
  line boundary but LF; the names and the allowlist of \<open>tools/verify_archive.py\<close>, which repeats the
  code of the builder, and their equality with the builder's.
\<close>

section \<open>Accepted names\<close>

text \<open>Resolution of a path against a directory: \<open>..\<close> leaves it, \<open>.\<close> and empty parts stay.\<close>

fun resolve :: "ustr list \<Rightarrow> ustr list \<Rightarrow> ustr list" where
  "resolve dir [] = dir"
| "resolve dir (c # cs) =
     (if c = [] \<or> c = [46] then resolve dir cs
      else if c = [46, 46] then resolve (butlast dir) cs
      else resolve (dir @ [c]) cs)"

lemma resolve_plain: "list_all (\<lambda>c. c \<notin> set dots) cs \<Longrightarrow> resolve dir cs = dir @ cs"
  by (induction dir cs rule: resolve.induct) (auto simp: dots_def)

definition plain_component :: "unicode \<Rightarrow> ustr \<Rightarrow> bool" where
  "plain_component U c \<longleftrightarrow> c \<notin> set FORBIDDEN_COMPONENTS \<and> \<not> ends_with c [32] \<and> \<not> ends_with c [46]
     \<and> list_all (\<lambda>x. 32 \<le> x \<and> x \<notin> set WINDOWS_FORBIDDEN_CHARS) c
     \<and> upper U (takeWhile (\<lambda>x. x \<noteq> 46) c) \<notin> set WINDOWS_RESERVED_STEMS"

lemma component_error_None: "component_error U cs = None \<longleftrightarrow> list_all (plain_component U) cs"
proof -
  have "\<not> list_ex (\<lambda>x. x < 32 \<or> x \<in> set WINDOWS_FORBIDDEN_CHARS) c \<longleftrightarrow>
      list_all (\<lambda>x. 32 \<le> x \<and> x \<notin> set WINDOWS_FORBIDDEN_CHARS) c" for c :: ustr
    by (auto simp: list_ex_iff list_all_iff not_less)
  then show ?thesis
    by (induction U cs rule: component_error.induct) (auto simp: plain_component_def)
qed

definition portable_name :: "unicode \<Rightarrow> ustr \<Rightarrow> bool" where
  "portable_name U name \<longleftrightarrow> validate_portable_name U name = Inr ()"

lemma portable_nameD:
  assumes "portable_name U name"
  shows "name \<noteq> []" "nfc U name = name" "\<not> absolute_posix name" "92 \<notin> set name"
    "\<not> drive_letter name"
    "list_all (\<lambda>c. c \<notin> set dots) (split_on 47 [] name)"
    "list_all (plain_component U) (split_on 47 [] name)"
    "\<not> list_ex (ends_with (lower U name)) FORBIDDEN_SUFFIXES"
  using assms
  by (auto simp: portable_name_def validate_portable_name_def Let_def list_ex_iff list_all_iff
      component_error_None split: if_splits option.splits)

lemma portable_chars: "portable_name U name \<Longrightarrow> x \<in> set name \<Longrightarrow> 32 \<le> x"
  using portable_nameD(7) [of U name] split_covers [of x name 47 "[]"]
  by (cases "x = 47") (auto simp: list_all_iff plain_component_def)

section \<open>Rendering\<close>

definition render_line :: "ustr \<times> expected_file \<Rightarrow> ustr" where
  "render_line p = ef_sha256 (snd p) @ [32, 32] @ udec (ef_size (snd p)) @ [32, 32] @ fst p"

definition render_allowlist :: "allowlist \<Rightarrow> bytes" where
  "render_allowlist es = utf8_encode (unlines (map render_line es))"

text \<open>What an allowlist lists: hashes in lower case hexadecimal, portable names in ordinal order, no two alike.\<close>

definition entry_ok :: "unicode \<Rightarrow> ustr \<times> expected_file \<Rightarrow> bool" where
  "entry_ok U p \<longleftrightarrow> length (ef_sha256 (snd p)) = 64 \<and> list_all lower_hex (ef_sha256 (snd p))
     \<and> length (udec (ef_size (snd p))) \<le> 4300 \<and> portable_name U (fst p)
     \<and> only_lf (fst p) \<and> list_all scalar (fst p)"

definition listing :: "unicode \<Rightarrow> allowlist \<Rightarrow> bool" where
  "listing U es \<longleftrightarrow> es \<noteq> [] \<and> list_all (entry_ok U) es \<and> map fst es = sort (map fst es)
     \<and> distinct (map (\<lambda>x. casefold U (nfc U x)) (map fst es))"

section \<open>One line\<close>

lemma take_drop_iff: "take n xs = ys \<and> length ys = n \<longleftrightarrow> (\<exists>zs. xs = ys @ zs) \<and> length ys = n"
  by (metis append_eq_conv_conj append_take_drop_id)

lemma allowlist_line_Some:
  "allowlist_line l = Some (h, z, name) \<longleftrightarrow>
     length h = 64 \<and> list_all lower_hex h \<and> canonical_decimal z \<and> name \<noteq> [] \<and> 10 \<notin> set name
     \<and> l = h @ [32, 32] @ z @ [32, 32] @ name" (is "?L \<longleftrightarrow> ?R")
proof
  assume ?L
  let ?r = "drop 66 l"
  from \<open>?L\<close> have h: "h = take 64 l" "length h = 64" "list_all lower_hex h" "take 2 (drop 64 l) = [32, 32]"
    and z: "z = takeWhile ascii_digit ?r" "z \<noteq> []" "z = [48] \<or> hd z \<noteq> 48"
    and n: "take 2 (dropWhile ascii_digit ?r) = [32, 32]" "name = drop 2 (dropWhile ascii_digit ?r)"
      "name \<noteq> []" "10 \<notin> set name"
    unfolding allowlist_line_def Let_def by (auto split: if_splits)
  have "l = h @ take 2 (drop 64 l) @ drop 2 (drop 64 l)" using h(1) by (simp only: append_take_drop_id)
  then have "l = h @ [32, 32] @ ?r" using h(4) by simp
  moreover have "dropWhile ascii_digit ?r = [32, 32] @ name"
    using append_take_drop_id [of 2 "dropWhile ascii_digit ?r"] unfolding n(1) n(2) [symmetric] by (rule sym)
  then have "?r = z @ [32, 32] @ name"
    using takeWhile_dropWhile_id [of ascii_digit ?r] by (simp only: z(1) [symmetric])
  moreover have "list_all ascii_digit z" by (simp only: z(1) list_all_iff) (blast dest: set_takeWhileD)
  ultimately show ?R using h(2,3) z(2,3) n(3,4) by (simp add: canonical_decimal_def)
next
  assume r: ?R
  then have d: "\<forall>c \<in> set z. ascii_digit c" by (simp add: canonical_decimal_def list_all_iff)
  have sp: "\<not> ascii_digit 32" by (simp add: ascii_digit_def)
  have "drop 66 l = z @ [32, 32] @ name" "take 64 l = h" "take 2 (drop 64 l) = [32, 32]" using r by simp_all
  moreover have "takeWhile ascii_digit (z @ [32, 32] @ name) = z"
    "dropWhile ascii_digit (z @ [32, 32] @ name) = [32, 32] @ name"
    using d sp by (simp_all add: takeWhile_append2 dropWhile_append2)
  ultimately show ?L using r by (auto simp: allowlist_line_def Let_def canonical_decimal_def)
qed

definition line_entry :: "unicode \<Rightarrow> ustr \<Rightarrow> (ustr \<times> expected_file) option" where
  "line_entry U l = (case allowlist_line l of
     None \<Rightarrow> None
   | Some (h, z, name) \<Rightarrow>
       if portable_name U name \<and> length z \<le> 4300
       then Some (name, \<lparr>ef_sha256 = h, ef_size = digits_value 0 z\<rparr>) else None)"

lemma line_entry_render:
  assumes "list_all (\<lambda>c. \<not> line_end c) l"
  shows "line_entry U l = Some p \<longleftrightarrow>
    l = render_line p \<and> length (ef_sha256 (snd p)) = 64 \<and> list_all lower_hex (ef_sha256 (snd p))
     \<and> length (udec (ef_size (snd p))) \<le> 4300 \<and> portable_name U (fst p)" (is "?L \<longleftrightarrow> ?R")
proof
  assume ?L
  then obtain h z name where a: "allowlist_line l = Some (h, z, name)" and b: "portable_name U name" "length z \<le> 4300"
    and p: "p = (name, \<lparr>ef_sha256 = h, ef_size = digits_value 0 z\<rparr>)"
    by (auto simp: line_entry_def split: option.splits if_splits)
  then show ?R by (auto simp: allowlist_line_Some render_line_def udec_of_value)
next
  assume r: ?R
  have "10 \<notin> set (fst p)" using portable_chars [of U "fst p" 10] r by fastforce
  then have "allowlist_line l = Some (ef_sha256 (snd p), udec (ef_size (snd p)), fst p)"
    using r portable_nameD(1) [of U "fst p"] by (auto simp: allowlist_line_Some render_line_def canonical_udec)
  then show ?L using r by (cases p) (simp add: line_entry_def udec_value)
qed

section \<open>The loop and the parser\<close>

lemma allowlist_loop_Inr:
  "allowlist_loop U n ex ls = Inr es \<longleftrightarrow>
     (\<exists>new. map (line_entry U) ls = map Some new \<and> es = ex @ new \<and> distinct (map fst new)
        \<and> set (map fst new) \<inter> fst ` set ex = {})"
proof (induction U n ex ls rule: allowlist_loop.induct)
  case (2 U n ex l ls)
  show ?case
  proof (cases "line_entry U l")
    case None
    then have "allowlist_loop U n ex (l # ls) \<noteq> Inr es"
      by (auto simp: line_entry_def portable_name_def split: option.splits sum.splits if_splits)
    then show ?thesis using None by (cases es) auto
  next
    case (Some p)
    then obtain h z name where a: "allowlist_line l = Some (h, z, name)" and b: "portable_name U name" "length z \<le> 4300"
      and p: "p = (name, \<lparr>ef_sha256 = h, ef_size = digits_value 0 z\<rparr>)"
      by (auto simp: line_entry_def split: option.splits if_splits)
    have v: "validate_portable_name U name = Inr ()" using b by (simp add: portable_name_def)
    show ?thesis
    proof (cases "name \<in> fst ` set ex")
      case True
      then have "allowlist_loop U n ex (l # ls) = Inl (Duplicate_path name)" using a v by simp
      moreover have "\<not> (\<exists>new. map (line_entry U) (l # ls) = map Some new \<and> es = ex @ new
          \<and> distinct (map fst new) \<and> set (map fst new) \<inter> fst ` set ex = {})"
        using Some p True by (auto simp: Cons_eq_map_conv)
      ultimately show ?thesis by simp
    next
      case False
      then have s: "allowlist_loop U n ex (l # ls) = allowlist_loop U (n + 1) (ex @ [p]) ls" using a v b p by simp
      have IH: "(allowlist_loop U (n + 1) (ex @ [p]) ls = Inr es) =
          (\<exists>new. map (line_entry U) ls = map Some new \<and> es = (ex @ [p]) @ new \<and> distinct (map fst new)
            \<and> set (map fst new) \<inter> fst ` set (ex @ [p]) = {})"
        using 2(1) [OF a refl refl v False] b p by simp
      show ?thesis unfolding s IH using Some p False
        by (auto simp: Cons_eq_map_conv intro: exI [where x = "p # _"])
    qed
  qed
qed auto

lemma map_line_entry:
  assumes "list_all (list_all (\<lambda>c. \<not> line_end c)) ls"
  shows "map (line_entry U) ls = map Some es \<longleftrightarrow>
    ls = map render_line es \<and> list_all (\<lambda>p. length (ef_sha256 (snd p)) = 64 \<and> list_all lower_hex (ef_sha256 (snd p))
     \<and> length (udec (ef_size (snd p))) \<le> 4300 \<and> portable_name U (fst p)) es"
  using assms
proof (induction ls arbitrary: es)
  case (Cons l ls)
  then show ?case by (cases es) (auto simp: line_entry_render)
qed auto

lemma parse_allowlist_Inr:
  "parse_allowlist U raw = Inr es \<longleftrightarrow>
     (\<exists>s. utf8_decode raw = Some s \<and> s \<noteq> [] \<and> last s = 10 \<and> 13 \<notin> set s
        \<and> map (line_entry U) (ulines [] s) = map Some es \<and> distinct (map fst es)
        \<and> map fst es = sort (map fst es) \<and> distinct (map (\<lambda>x. casefold U (nfc U x)) (map fst es)))"
  by (auto simp: parse_allowlist_def Let_def res_bind_Inr_iff allowlist_loop_Inr
      split: option.splits if_splits simp del: map_map)

text \<open>The listing in a text, for a text whose only line boundary is LF.\<close>

lemma utf8_encode_inj:
  "utf8_encode s = utf8_encode t \<Longrightarrow> list_all scalar s \<Longrightarrow> list_all scalar t \<Longrightarrow> s = t"
  by (metis option.inject utf8_decode_encode)

lemma lower_hex_plain: "lower_hex c \<Longrightarrow> scalar c \<and> \<not> line_end c \<and> c \<noteq> 13"
  by (auto simp: lower_hex_def scalar_def line_end_def)

lemma digit_plain: "ascii_digit c \<Longrightarrow> scalar c \<and> \<not> line_end c \<and> c \<noteq> 13"
  by (auto simp: ascii_digit_def scalar_def line_end_def)

lemma only_lf_no_end: "only_lf s \<Longrightarrow> 10 \<notin> set s \<Longrightarrow> list_all (\<lambda>c. \<not> line_end c) s"
  by (auto simp: only_lf_def list_all_iff)

lemma entry_ok_line:
  assumes "entry_ok U p"
  shows "list_all scalar (render_line p @ [10])" "list_all (\<lambda>c. \<not> line_end c) (render_line p)"
proof -
  have hex: "list_all lower_hex (ef_sha256 (snd p))" and name: "portable_name U (fst p)"
    using assms by (simp_all add: entry_ok_def)
  have "10 \<notin> set (fst p)" using portable_chars [OF name, of 10] by fastforce
  then have n: "list_all (\<lambda>c. \<not> line_end c) (fst p)" using assms only_lf_no_end by (simp add: entry_ok_def)
  have h: "list_all (\<lambda>c. scalar c \<and> \<not> line_end c) (ef_sha256 (snd p))"
    by (rule list.pred_mono_strong [OF hex]) (simp add: lower_hex_plain)
  have d: "list_all (\<lambda>c. scalar c \<and> \<not> line_end c) (udec (ef_size (snd p)))"
    by (rule list.pred_mono_strong [OF udec_digits]) (simp add: digit_plain)
  have "scalar 32" "scalar 10" "\<not> line_end 32" by (simp_all add: scalar_def line_end_def)
  then show "list_all scalar (render_line p @ [10])" "list_all (\<lambda>c. \<not> line_end c) (render_line p)"
    using assms n h d by (auto simp: render_line_def entry_ok_def list_all_iff)
qed

lemma unlines_facts:
  assumes "es \<noteq> []" "list_all (entry_ok U) es"
  shows "list_all scalar (unlines (map render_line es))" "unlines (map render_line es) \<noteq> []"
    "last (unlines (map render_line es)) = 10" "13 \<notin> set (unlines (map render_line es))"
    "ulines [] (unlines (map render_line es)) = map render_line es"
proof -
  have lines: "list_all (list_all (\<lambda>c. \<not> line_end c)) (map render_line es)"
    using assms(2) entry_ok_line(2) [of U] by (auto simp: list.pred_map elim!: list.pred_mono_strong)
  show "list_all scalar (unlines (map render_line es))"
    using assms(2) entry_ok_line(1) [of U] by (induction es) (auto simp: unlines_def)
  show "unlines (map render_line es) \<noteq> []" using assms(1) by (cases es) (auto simp: unlines_def)
  show "last (unlines (map render_line es)) = 10"
    using assms(1) by (cases es rule: rev_cases) (auto simp: unlines_def)
  have "line_end 13" by (simp add: line_end_def)
  then show "13 \<notin> set (unlines (map render_line es))" using lines by (auto simp: unlines_def list_all_iff)
  show "ulines [] (unlines (map render_line es)) = map render_line es"
    using ulines_unlines [OF lines] .
qed

lemma parse_render: "listing U es \<Longrightarrow> parse_allowlist U (render_allowlist es) = Inr es"
proof -
  assume l: "listing U es"
  then have es: "es \<noteq> []" "list_all (entry_ok U) es" by (simp_all add: listing_def)
  have "list_all (list_all (\<lambda>c. \<not> line_end c)) (map render_line es)"
    using es(2) entry_ok_line(2) [of U] by (auto simp: list.pred_map elim!: list.pred_mono_strong)
  then have "map (line_entry U) (map render_line es) = map Some es"
    using es(2) by (subst map_line_entry) (auto simp: list_all_iff entry_ok_def)
  moreover have "distinct (map fst es)"
    using l distinct_map [of "\<lambda>x. casefold U (nfc U x)" "map fst es"] by (auto simp: listing_def)
  ultimately show ?thesis
    using l unlines_facts [OF es] utf8_decode_encode [OF unlines_facts(1) [OF es]]
    by (auto simp: parse_allowlist_Inr render_allowlist_def listing_def simp del: map_map)
qed

lemma render_parse:
  assumes d: "utf8_decode raw = Some s" and lf: "only_lf s" and p: "parse_allowlist U raw = Inr es"
  shows "listing U es \<and> raw = render_allowlist es"
proof -
  from p d have s: "s \<noteq> []" "last s = 10" and m: "map (line_entry U) (ulines [] s) = map Some es"
    and o: "map fst es = sort (map fst es)" "distinct (map (\<lambda>x. casefold U (nfc U x)) (map fst es))"
    by (auto simp: parse_allowlist_Inr)
  from unlines_ulines [OF lf s, of "[]"]
  have u: "unlines (ulines [] s) = s" and lines: "list_all (list_all (\<lambda>c. \<not> line_end c)) (ulines [] s)"
    by simp_all
  have r: "ulines [] s = map render_line es" and ok: "list_all (\<lambda>p. length (ef_sha256 (snd p)) = 64
      \<and> list_all lower_hex (ef_sha256 (snd p)) \<and> length (udec (ef_size (snd p))) \<le> 4300
      \<and> portable_name U (fst p)) es"
    using m map_line_entry [OF lines] by blast+
  have ne: "es \<noteq> []" using s(1) u r by (auto simp: unlines_def)
  have sc: "list_all scalar s" and raw: "utf8_encode s = raw" using utf8_encode_decode [OF d] by simp_all
  have "set (fst p) \<subseteq> set s" if "p \<in> set es" for p
    using that u unfolding r by (fastforce simp: unlines_def render_line_def)
  then have "list_all (entry_ok U) es"
    using ok sc lf unfolding list_all_iff entry_ok_def only_lf_def by (meson subsetD)
  then show ?thesis using o ne u raw r by (simp add: listing_def render_allowlist_def)
qed

section \<open>The verifier's names and allowlist\<close>

text \<open>
  \<open>tools/verify_archive.py\<close> shares no code with the builder: it has its own name check (which asks for
  the dotted components and the absolute path in the other order), its own tables and its own parser, whose
  line pattern is matched here from left to right, group by group.
\<close>

definition v_WINDOWS_FORBIDDEN_CHARS :: "nat list" where
  "v_WINDOWS_FORBIDDEN_CHARS = [60, 62, 58, 34, 124, 63, 42]"

definition v_WINDOWS_RESERVED_STEMS :: "ustr list" where
  "v_WINDOWS_RESERVED_STEMS = map lit
     ([''CON'', ''PRN'', ''AUX'', ''NUL''] @ map (\<lambda>number. ''COM'' @ str_nat number) [1..<10]
       @ map (\<lambda>number. ''LPT'' @ str_nat number) [1..<10])"

definition v_FORBIDDEN_COMPONENTS :: "ustr list" where
  "v_FORBIDDEN_COMPONENTS =
     [lit ''.git'', lit ''target'', lit ''__pycache__'', lit ''.pytest_cache'', lit ''.mypy_cache'', lit ''.ruff_cache'']"

definition v_FORBIDDEN_SUFFIXES :: "ustr list" where
  "v_FORBIDDEN_SUFFIXES = [lit ''.pyc'', lit ''.pyo'']"

fun v_drive_letter :: "ustr \<Rightarrow> bool" where
  "v_drive_letter (c # d # cs) = (d = 58 \<and> (65 \<le> c \<and> c \<le> 90 \<or> 97 \<le> c \<and> c \<le> 122))"
| "v_drive_letter cs = False"

fun v_component_error :: "unicode \<Rightarrow> ustr list \<Rightarrow> boundary option" where
  "v_component_error U [] = None"
| "v_component_error U (c # cs) =
     (if c \<in> set v_FORBIDDEN_COMPONENTS then Some (Forbidden_component c)
      else if ends_with c [32] \<or> ends_with c [46] then Some (Non_portable_component c)
      else if list_ex (\<lambda>x. x < 32 \<or> x \<in> set v_WINDOWS_FORBIDDEN_CHARS) c then Some (Non_portable_component c)
      else if upper U (takeWhile (\<lambda>x. x \<noteq> 46) c) \<in> set v_WINDOWS_RESERVED_STEMS then Some (Reserved_component c)
      else v_component_error U cs)"

definition v_validate_portable_name :: "unicode \<Rightarrow> ustr \<Rightarrow> boundary + unit" where
  "v_validate_portable_name U name =
     (if name = [] \<or> name \<noteq> nfc U name then Inl (Non_canonical_path name)
      else if absolute_posix name \<or> 92 \<in> set name \<or> v_drive_letter name then Inl (Unsafe_path name)
      else let components = split_on 47 [] name in
        if absolute_posix name \<or> list_ex (\<lambda>c. c \<in> set dots) components then Inl (Unsafe_path name)
        else case v_component_error U components of
          Some e \<Rightarrow> Inl e
        | None \<Rightarrow> if list_ex (ends_with (lower U name)) v_FORBIDDEN_SUFFIXES then Inl (Forbidden_suffix name)
                  else Inr ())"

text \<open>\<open>([0-9a-f]{64})\<close>, two spaces, \<open>(0|[1-9][0-9]*)\<close>, two spaces, \<open>(.+)\<close>, where a dot matches all but a line feed.\<close>

definition v_hash_group :: "ustr \<Rightarrow> (ustr \<times> ustr) option" where
  "v_hash_group l = (if 64 \<le> length l \<and> list_all (\<lambda>c. 48 \<le> c \<and> c \<le> 57 \<or> 97 \<le> c \<and> c \<le> 102) (take 64 l)
     then Some (take 64 l, drop 64 l) else None)"

fun v_two_spaces :: "ustr \<Rightarrow> ustr option" where
  "v_two_spaces (a # b # cs) = (if a = 32 \<and> b = 32 then Some cs else None)"
| "v_two_spaces cs = None"

fun v_size_group :: "ustr \<Rightarrow> (ustr \<times> ustr) option" where
  "v_size_group [] = None"
| "v_size_group (c # cs) =
     (if c = 48 then Some ([48], cs)
      else if 49 \<le> c \<and> c \<le> 57 then
        Some (c # takeWhile (\<lambda>d. 48 \<le> d \<and> d \<le> 57) cs, dropWhile (\<lambda>d. 48 \<le> d \<and> d \<le> 57) cs)
      else None)"

definition v_name_group :: "ustr \<Rightarrow> ustr option" where
  "v_name_group l = (if l \<noteq> [] \<and> list_all (\<lambda>c. c \<noteq> 10) l then Some l else None)"

definition v_allowlist_line :: "ustr \<Rightarrow> (ustr \<times> ustr \<times> ustr) option" where
  "v_allowlist_line l =
     Option.bind (v_hash_group l) (\<lambda>(sha256, rest).
     Option.bind (v_two_spaces rest) (\<lambda>rest.
     Option.bind (v_size_group rest) (\<lambda>(size_text, rest).
     Option.bind (v_two_spaces rest) (\<lambda>rest.
     map_option (\<lambda>name. (sha256, size_text, name)) (v_name_group rest)))))"

fun v_allowlist_loop :: "unicode \<Rightarrow> nat \<Rightarrow> allowlist \<Rightarrow> ustr list \<Rightarrow> ustr list \<Rightarrow> boundary + allowlist \<times> ustr list" where
  "v_allowlist_loop U n expected ordered [] = Inr (expected, ordered)"
| "v_allowlist_loop U n expected ordered (l # ls) = (case v_allowlist_line l of
     None \<Rightarrow> Inl (Bad_allowlist_line n)
   | Some (sha256, size_text, name) \<Rightarrow> res_bind (v_validate_portable_name U name) (\<lambda>_.
       if map_of expected name \<noteq> None then Inl (Duplicate_path name)
       else if 4300 < length size_text then Inl Int_conversion_limit
       else v_allowlist_loop U (n + 1)
         (expected @ [(name, \<lparr>ef_sha256 = sha256, ef_size = digits_value 0 size_text\<rparr>)]) (ordered @ [name]) ls))"

definition v_parse_allowlist :: "unicode \<Rightarrow> bytes \<Rightarrow> boundary + allowlist" where
  "v_parse_allowlist U raw = (case utf8_decode raw of
     None \<Rightarrow> Inl Invalid_utf8_allowlist
   | Some s \<Rightarrow>
       if s = [] \<or> \<not> ends_with s [10] \<or> 13 \<in> set s then Inl Not_canonical_lf
       else res_bind (v_allowlist_loop U 1 [] [] (ulines [] s)) (\<lambda>(expected, ordered_names).
         if ordered_names \<noteq> sort ordered_names then Inl Not_ordinal_order
         else let normalized = map (\<lambda>x. casefold U (nfc U x)) ordered_names in
           if length normalized \<noteq> card (set normalized) then Inl Name_collision
           else Inr expected))"

lemma v_tables:
  "set v_WINDOWS_FORBIDDEN_CHARS = set WINDOWS_FORBIDDEN_CHARS" "v_WINDOWS_RESERVED_STEMS = WINDOWS_RESERVED_STEMS"
  "v_FORBIDDEN_COMPONENTS = FORBIDDEN_COMPONENTS" "v_FORBIDDEN_SUFFIXES = FORBIDDEN_SUFFIXES"
  "v_drive_letter = drive_letter"
proof -
  have upt: "[1..<10] = [1, 2, 3, 4, 5, 6, 7, 8, 9 :: nat]" by code_simp
  show "v_WINDOWS_RESERVED_STEMS = WINDOWS_RESERVED_STEMS"
    unfolding v_WINDOWS_RESERVED_STEMS_def WINDOWS_RESERVED_STEMS_def upt
    by (simp add: lit_def str_nat.simps digit_char_def)
  show "v_drive_letter = drive_letter"
    by (rule ext) (auto simp: drive_letter_def split: list.splits)
qed (simp_all add: v_WINDOWS_FORBIDDEN_CHARS_def WINDOWS_FORBIDDEN_CHARS_def v_FORBIDDEN_COMPONENTS_def FORBIDDEN_COMPONENTS_def
    v_FORBIDDEN_SUFFIXES_def FORBIDDEN_SUFFIXES_def lit_def)

lemma v_component_error_eq: "v_component_error U cs = component_error U cs"
  by (induction cs) (auto simp: v_tables)

lemma v_validate_eq: "v_validate_portable_name U name = validate_portable_name U name"
  by (simp add: v_validate_portable_name_def validate_portable_name_def v_component_error_eq v_tables disj_commute Let_def)

lemma v_two_spaces_Some: "v_two_spaces l = Some r \<longleftrightarrow> l = 32 # 32 # r"
  by (induction l rule: v_two_spaces.induct) auto

lemma v_hash_group_Some: "v_hash_group l = Some (h, r) \<longleftrightarrow> length h = 64 \<and> list_all lower_hex h \<and> l = h @ r"
proof -
  have hex: "lower_hex = (\<lambda>c. 48 \<le> c \<and> c \<le> 57 \<or> 97 \<le> c \<and> c \<le> 102)" by (rule ext) (simp add: lower_hex_def)
  have "h = take 64 l \<and> r = drop 64 l \<and> 64 \<le> length l \<longleftrightarrow> length h = 64 \<and> l = h @ r"
    by (metis append_eq_conv_conj append_take_drop_id length_append length_take le_add1 min.absorb2)
  then show ?thesis by (auto simp: v_hash_group_def hex)
qed

lemma v_size_group_Some:
  assumes r: "r = 32 # r'"
  shows "v_size_group l = Some (z, r) \<longleftrightarrow> canonical_decimal z \<and> l = z @ r"
proof (cases l)
  case (Cons c cs)
  have dig: "(\<lambda>d. 48 \<le> d \<and> d \<le> 57) = ascii_digit" by (rule ext) (simp add: ascii_digit_def)
  have sp: "\<not> ascii_digit 32" by (simp add: ascii_digit_def)
  consider "c = 48" | "49 \<le> c" "c \<le> 57" | "\<not> ascii_digit c" by (fastforce simp: ascii_digit_def)
  then show ?thesis
  proof cases
    case 1
    then show ?thesis using Cons by (cases z) (auto simp: canonical_decimal_def ascii_digit_def)
  next
    case 2
    then have c: "v_size_group l = Some (c # takeWhile ascii_digit cs, dropWhile ascii_digit cs)" "ascii_digit c" "c \<noteq> 48"
      using Cons by (simp_all add: dig ascii_digit_def)
    show ?thesis
    proof
      assume "v_size_group l = Some (z, r)"
      then have "z = c # takeWhile ascii_digit cs" "r = dropWhile ascii_digit cs" using c(1) by simp_all
      moreover have "list_all ascii_digit (takeWhile ascii_digit cs)" by (auto simp: list_all_iff dest: set_takeWhileD)
      ultimately show "canonical_decimal z \<and> l = z @ r" using Cons c by (simp add: canonical_decimal_def)
    next
      assume z: "canonical_decimal z \<and> l = z @ r"
      then obtain zs where zs: "z = c # zs" "cs = zs @ r" "\<forall>d \<in> set zs. ascii_digit d"
        using Cons by (cases z) (auto simp: canonical_decimal_def list_all_iff)
      then show "v_size_group l = Some (z, r)" using c(1) r sp by (simp add: takeWhile_append2 dropWhile_append2)
    qed
  next
    case 3
    then show ?thesis using Cons by (cases z) (auto simp: canonical_decimal_def ascii_digit_def)
  qed
qed (simp add: canonical_decimal_def)

lemma v_allowlist_line_eq: "v_allowlist_line l = allowlist_line l"
proof -
  have "v_allowlist_line l = Some (h, z, n) \<longleftrightarrow>
      (\<exists>a b c. v_hash_group l = Some (h, a) \<and> v_two_spaces a = Some b \<and> v_size_group b = Some (z, c) \<and> v_two_spaces c = Some n)
      \<and> n \<noteq> [] \<and> 10 \<notin> set n" for h z n
    by (auto simp: v_allowlist_line_def bind_eq_Some_conv v_name_group_def list_all_iff)
  moreover have "((\<exists>a b c. v_hash_group l = Some (h, a) \<and> v_two_spaces a = Some b \<and> v_size_group b = Some (z, c) \<and> v_two_spaces c = Some n)
      \<and> n \<noteq> [] \<and> 10 \<notin> set n) \<longleftrightarrow> allowlist_line l = Some (h, z, n)" for h z n
    unfolding allowlist_line_Some v_hash_group_Some v_two_spaces_Some
    by (auto simp: v_size_group_Some [OF refl])
  ultimately have "v_allowlist_line l = Some p \<longleftrightarrow> allowlist_line l = Some p" for p by (cases p) simp
  then show ?thesis by (metis not_None_eq)
qed

lemma v_allowlist_loop_eq:
  "v_allowlist_loop U n expected (map fst expected) ls =
     res_map (\<lambda>es. (es, map fst es)) (allowlist_loop U n expected ls)"
proof (induction U n expected ls rule: allowlist_loop.induct)
  case (2 U n expected l ls)
  show ?case
  proof (cases "allowlist_line l")
    case (Some t)
    obtain h z name where t: "t = (h, z, name)" by (cases t) auto
    have m: "map_of expected name \<noteq> None \<longleftrightarrow> name \<in> fst ` set expected" by (metis map_of_eq_None_iff)
    show ?thesis
    proof (cases "validate_portable_name U name")
      case (Inr u)
      then show ?thesis using 2 [OF Some] Some t m by (auto simp: v_validate_eq v_allowlist_line_eq)
    qed (use Some t in \<open>simp add: v_validate_eq v_allowlist_line_eq\<close>)
  qed (simp add: v_allowlist_line_eq)
qed simp

lemma ends_with_single: "s \<noteq> [] \<Longrightarrow> ends_with s [c] \<longleftrightarrow> last s = c"
  by (cases s rule: rev_cases) (auto simp: ends_with_def)

lemma v_parse_eq: "v_parse_allowlist U raw = parse_allowlist U raw"
proof (cases "utf8_decode raw")
  case (Some s)
  have loop: "v_allowlist_loop U 1 [] [] ls = res_map (\<lambda>es. (es, map fst es)) (allowlist_loop U 1 [] ls)" for ls
    using v_allowlist_loop_eq [of U 1 "[]" ls] by simp
  have card: "length xs \<noteq> card (set xs) \<longleftrightarrow> \<not> distinct xs" for xs :: "ustr list"
    by (metis card_distinct distinct_card)
  show ?thesis
  proof (cases "allowlist_loop U 1 [] (ulines [] s)")
    case (Inl e)
    then show ?thesis using Some
      by (cases "s = []") (simp_all add: v_parse_allowlist_def parse_allowlist_def loop [simplified] ends_with_single)
  next
    case (Inr es)
    have c: "length es \<noteq> card (set (map (\<lambda>x. casefold U (nfc U x)) (map fst es))) \<longleftrightarrow>
        \<not> distinct (map (\<lambda>x. casefold U (nfc U x)) (map fst es))"
      using card [of "map (\<lambda>x. casefold U (nfc U x)) (map fst es)"] by simp
    show ?thesis using Some Inr c
      by (cases "s = []")
        (simp_all add: v_parse_allowlist_def parse_allowlist_def loop [simplified] ends_with_single Let_def del: map_map set_map)
  qed
qed (simp add: v_parse_allowlist_def parse_allowlist_def)

end
