(* ===== verification/Source_Tree.thy ===== *)
theory Source_Tree
  imports Allowlist
begin

text \<open>
  The file system as the release tools see it: what \<open>lstat\<close>, \<open>scandir\<close> and the reads of one file return
  (each an observation of its own, since another process may change the tree in between), the plain-file
  guards, the walk of the source directory and the stable read of one file.  \<open>None\<close> is an OSError.
\<close>

section \<open>Guards\<close>

datatype file_kind = Regular_file | Directory | Symbolic_link | Special_file

record status =
  st_kind :: file_kind
  st_reparse :: bool
  st_dev :: nat
  st_ino :: nat
  st_size :: nat
  st_mtime_ns :: nat

definition is_link :: "status \<Rightarrow> bool" where
  "is_link st \<longleftrightarrow> st_kind st = Symbolic_link \<or> st_reparse st"

definition require_plain_file :: "status option \<Rightarrow> string \<Rightarrow> boundary + status" where
  "require_plain_file lstat label = (case lstat of
     None \<Rightarrow> Inl (Not_readable label)
   | Some st \<Rightarrow> if is_link st then Inl (Link_or_reparse label)
       else if st_kind st \<noteq> Regular_file then Inl (Not_a_regular_file label) else Inr st)"

definition require_plain_directory :: "status option \<Rightarrow> string \<Rightarrow> boundary + status" where
  "require_plain_directory lstat label = (case lstat of
     None \<Rightarrow> Inl (Not_readable label)
   | Some st \<Rightarrow> if is_link st then Inl (Link_or_reparse label)
       else if st_kind st \<noteq> Directory then Inl (Not_a_directory label) else Inr st)"

section \<open>The walk of the source directory\<close>

text \<open>
  A directory as the walk meets it: its \<open>lstat\<close> result and its entries with their own \<open>lstat\<close> results;
  the subtree of an entry matters only when the entry is a directory.
\<close>

datatype tree = Tree (tree_lstat: "status option") (tree_entries: "(ustr \<times> status option \<times> tree) list option")

definition relative_to :: "ustr \<Rightarrow> ustr \<Rightarrow> ustr" where
  "relative_to prefix name = (if prefix = [] then name else prefix @ 47 # name)"

definition by_name :: "(ustr \<times> status option \<times> tree) list \<Rightarrow> (ustr \<times> status option \<times> tree) list" where
  "by_name es = sort_key fst es"

text \<open>
  One directory: the subdirectories to visit, in the order they are pushed, and the files found so far
  (\<open>discovered[relative] = path\<close> keeps one entry per relative name).
\<close>

definition add_found :: "ustr \<Rightarrow> ustr list \<Rightarrow> ustr list" where
  "add_found r found = (if r \<in> set found then found else found @ [r])"

fun scan_entries :: "unicode \<Rightarrow> ustr \<Rightarrow> (ustr \<times> status option \<times> tree) list \<Rightarrow> ustr list
    \<Rightarrow> boundary + (ustr \<times> tree) list \<times> ustr list" where
  "scan_entries U prefix [] found = Inr ([], found)"
| "scan_entries U prefix ((name, lstat, sub) # es) found = (case lstat of
     None \<Rightarrow> Inl (Cannot_stat (relative_to prefix name))
   | Some st \<Rightarrow> (let relative = relative_to prefix name in
       res_bind (validate_portable_name U relative) (\<lambda>_.
         if is_link st then Inl (Link_entry relative)
         else if st_kind st = Directory then
           res_map (\<lambda>(dirs, found'). ((relative, sub) # dirs, found')) (scan_entries U prefix es found)
         else if st_kind st = Regular_file then scan_entries U prefix es (add_found relative found)
         else Inl (Special_entry relative))))"

lemma res_bind_cong [fundef_cong]:
  "m = m' \<Longrightarrow> (\<And>a. m' = Inr a \<Longrightarrow> f a = f' a) \<Longrightarrow> res_bind m f = res_bind m' f'"
  by (cases m') auto

definition weight :: "(ustr \<times> tree) list \<Rightarrow> nat" where
  "weight stack = sum_list (map (\<lambda>d. size (snd d)) stack)"

lemma scan_weight:
  "scan_entries U prefix es found = Inr (dirs, found') \<Longrightarrow>
   weight dirs \<le> size_list (\<lambda>e. size (snd (snd e))) es"
  by (induction U prefix es found arbitrary: dirs found' rule: scan_entries.induct)
    (fastforce simp: weight_def Let_def res_bind_Inr_iff split: option.splits if_splits sum.splits
      elim: res_map.elims)+

lemma weight_append: "weight (xs @ ys) = weight xs + weight ys" "weight (rev xs) = weight xs"
  by (simp_all add: weight_def rev_map [symmetric])

lemma weight_entries:
  "size_list (\<lambda>e. size (snd (snd e))) es < size (Tree l (Some es))"
proof -
  have "size_list (\<lambda>e. size (snd (snd e))) es \<le> size_list (size_prod (\<lambda>x. 0) (size_prod (\<lambda>x. 0) size)) es"
    by (induction es) (auto split: prod.splits)
  then show ?thesis by simp
qed

lemma size_list_by_name:
  "size_list (\<lambda>e. size (snd (snd e))) (by_name es) = size_list (\<lambda>e. size (snd (snd e))) es"
proof -
  have "size_list f xs = sum_list (map f xs) + length xs" for f :: "_ \<Rightarrow> nat" and xs :: "(ustr \<times> status option \<times> tree) list"
    by (induction xs) simp_all
  moreover have "sum_list (map f (by_name es)) = sum_list (map f es)" for f :: "_ \<Rightarrow> nat"
    unfolding by_name_def by (metis mset_map mset_sort sum_mset_sum_list)
  ultimately show ?thesis by (simp add: by_name_def)
qed

text \<open>
  \<open>stack.pop()\<close> takes the directory pushed last; a directory's own \<open>lstat\<close> is checked when it is
  popped, before it is enumerated.
\<close>

function walk :: "unicode \<Rightarrow> (ustr \<times> tree) list \<Rightarrow> ustr list \<Rightarrow> boundary + ustr list" where
  "walk U [] found = Inr found"
| "walk U ((prefix, Tree lstat entries) # stack) found =
     res_bind (require_plain_directory lstat ''source directory entry'') (\<lambda>_. case entries of
       None \<Rightarrow> Inl Cannot_enumerate
     | Some es \<Rightarrow> res_bind (scan_entries U prefix (by_name es) found) (\<lambda>p.
         walk U (rev (fst p) @ stack) (snd p)))"
  by pat_completeness auto
termination
proof (relation "measure (\<lambda>(U, stack, found). weight stack)", goal_cases)
  case (2 U prefix lstat entries stack found st es p)
  then have "weight (fst p) \<le> size_list (\<lambda>e. size (snd (snd e))) (by_name es)"
    using scan_weight [of U prefix "by_name es" found "fst p" "snd p"] by simp
  then show ?case
    using weight_entries [of es lstat] 2 by (simp add: weight_append size_list_by_name) (simp add: weight_def)
qed simp

definition inspect_source :: "unicode \<Rightarrow> status option \<Rightarrow> tree \<Rightarrow> boundary + ustr list" where
  "inspect_source U root_lstat root =
     res_bind (require_plain_directory root_lstat ''source directory'') (\<lambda>_.
     res_bind (walk U [([], root)] []) (\<lambda>discovered.
       if \<not> distinct (map (\<lambda>x. casefold U (nfc U x)) discovered) then Inl Source_collision
       else Inr discovered))"

section \<open>What the walk returns\<close>

text \<open>Without the stack: the files below a directory, and when every entry below it is plain.\<close>

definition regulars :: "ustr \<Rightarrow> (ustr \<times> status option \<times> tree) list \<Rightarrow> ustr list" where
  "regulars prefix es = concat (map (\<lambda>(name, lstat, sub). case lstat of
     Some st \<Rightarrow> if st_kind st = Regular_file then [relative_to prefix name] else [] | None \<Rightarrow> []) es)"

definition subdirs :: "ustr \<Rightarrow> (ustr \<times> status option \<times> tree) list \<Rightarrow> (ustr \<times> tree) list" where
  "subdirs prefix es = concat (map (\<lambda>(name, lstat, sub). case lstat of
     Some st \<Rightarrow> if st_kind st = Directory then [(relative_to prefix name, sub)] else [] | None \<Rightarrow> []) es)"

definition entry_plain :: "unicode \<Rightarrow> ustr \<Rightarrow> ustr \<times> status option \<times> tree \<Rightarrow> bool" where
  "entry_plain U prefix e = (case e of (name, lstat, sub) \<Rightarrow> (case lstat of
     Some st \<Rightarrow> portable_name U (relative_to prefix name) \<and> \<not> is_link st
       \<and> (st_kind st = Regular_file \<or> st_kind st = Directory)
   | None \<Rightarrow> False))"

definition directory_plain :: "status option \<Rightarrow> bool" where
  "directory_plain lstat = (case lstat of Some st \<Rightarrow> \<not> is_link st \<and> st_kind st = Directory | None \<Rightarrow> False)"

lemma subdirs_size: "d \<in> set (subdirs prefix es) \<Longrightarrow> size (snd d) < size (Tree l (Some es))"
proof -
  assume "d \<in> set (subdirs prefix es)"
  then obtain e where "e \<in> set es" "snd d = snd (snd e)"
    by (fastforce simp: subdirs_def split: option.splits if_splits)
  moreover have "e \<in> set es \<Longrightarrow> size (snd (snd e)) \<le> size_list (\<lambda>e. size (snd (snd e))) es" for e
    by (induction es) auto
  ultimately show ?thesis using weight_entries [of es l] by fastforce
qed

function tree_files :: "ustr \<Rightarrow> tree \<Rightarrow> ustr list" where
  "tree_files prefix (Tree lstat None) = []"
| "tree_files prefix (Tree lstat (Some es)) =
     regulars prefix es @ concat (map (\<lambda>d. tree_files (fst d) (snd d)) (subdirs prefix es))"
  by pat_completeness auto
termination
  by (relation "measure (\<lambda>(prefix, t). size t)") (auto dest: subdirs_size)

function tree_plain :: "unicode \<Rightarrow> ustr \<Rightarrow> tree \<Rightarrow> bool" where
  "tree_plain U prefix (Tree lstat None) = False"
| "tree_plain U prefix (Tree lstat (Some es)) =
     (directory_plain lstat \<and> list_all (entry_plain U prefix) es
      \<and> (\<forall>d \<in> set (subdirs prefix es). tree_plain U (fst d) (snd d)))"
  by pat_completeness auto
termination
  by (relation "measure (\<lambda>(U, prefix, t). size t)") (auto dest: subdirs_size)

lemma plain_directory_iff: "(\<exists>st. require_plain_directory lstat label = Inr st) \<longleftrightarrow> directory_plain lstat"
  by (auto simp: require_plain_directory_def directory_plain_def split: option.splits)

lemma validate_Inr: "validate_portable_name U name = Inr u \<longleftrightarrow> portable_name U name"
  by (simp add: portable_name_def)

lemma scan_entries_Inr:
  "scan_entries U prefix es found = Inr r \<longleftrightarrow>
     list_all (entry_plain U prefix) es \<and> r = (subdirs prefix es, fold add_found (regulars prefix es) found)"
proof (induction U prefix es found arbitrary: r rule: scan_entries.induct)
  case (1 U prefix found)
  then show ?case by (auto simp: regulars_def subdirs_def)
next
  case (2 U prefix name lstat sub es found)
  show ?case
  proof (cases lstat)
    case None
    then show ?thesis by (simp add: entry_plain_def)
  next
    case (Some st)
    let ?r = "relative_to prefix name"
    have map_iff: "res_map (\<lambda>(dirs, f). ((?r, sub) # dirs, f)) x = Inr r \<longleftrightarrow>
        (\<exists>dirs f. x = Inr (dirs, f) \<and> r = ((?r, sub) # dirs, f))" for x :: "boundary + (ustr \<times> tree) list \<times> ustr list"
      by (cases x) auto
    show ?thesis
    proof (cases "portable_name U ?r \<and> \<not> is_link st")
      case False
      then show ?thesis using Some by (auto simp: entry_plain_def Let_def res_bind_Inr_iff validate_Inr split: if_splits)
    next
      case True
      then have v: "validate_portable_name U ?r = Inr ()" and l: "\<not> is_link st"
        by (simp_all add: portable_name_def)
      show ?thesis
        using 2(1) [OF Some refl l] 2(2) [OF Some refl l] Some v l True
        by (cases "st_kind st") (auto simp: map_iff entry_plain_def regulars_def subdirs_def Let_def)
    qed
  qed
qed

lemma set_add_found: "set (fold add_found xs found) = set found \<union> set xs"
  by (induction xs arbitrary: found) (auto simp: add_found_def)

lemma distinct_add_found: "distinct found \<Longrightarrow> distinct (fold add_found xs found)"
  by (induction xs arbitrary: found) (auto simp: add_found_def)

lemma set_by_name [simp]: "set (by_name es) = set es"
  by (simp add: by_name_def)

lemma by_name_parts:
  "set (regulars prefix (by_name es)) = set (regulars prefix es)"
  "set (subdirs prefix (by_name es)) = set (subdirs prefix es)"
  by (simp_all add: regulars_def subdirs_def)

lemma walk_step:
  "walk U ((prefix, Tree lstat entries) # stack) found = Inr out \<longleftrightarrow>
     directory_plain lstat \<and> (\<exists>es. entries = Some es \<and> list_all (entry_plain U prefix) (by_name es)
       \<and> walk U (rev (subdirs prefix (by_name es)) @ stack)
           (fold add_found (regulars prefix (by_name es)) found) = Inr out)"
  using plain_directory_iff [of lstat "''source directory entry''"]
  by (auto simp: res_bind_Inr_iff scan_entries_Inr split: option.splits)

lemma tree_plain_by_name:
  "tree_plain U prefix (Tree lstat (Some es)) \<longleftrightarrow> directory_plain lstat
     \<and> list_all (entry_plain U prefix) (by_name es)
     \<and> (\<forall>d \<in> set (subdirs prefix (by_name es)). tree_plain U (fst d) (snd d))"
  by (simp add: list_all_iff by_name_parts)

lemma walk_plain:
  "walk U stack found = Inr out \<Longrightarrow> (\<forall>d \<in> set stack. tree_plain U (fst d) (snd d))
     \<and> set out = set found \<union> (\<Union>d \<in> set stack. set (tree_files (fst d) (snd d)))
     \<and> (distinct found \<longrightarrow> distinct out)"
proof (induction U stack found rule: walk.induct)
  case (2 U prefix lstat entries stack found)
  from 2(2) obtain es where d: "directory_plain lstat" "entries = Some es"
    and e: "list_all (entry_plain U prefix) (by_name es)"
    and w: "walk U (rev (subdirs prefix (by_name es)) @ stack)
      (fold add_found (regulars prefix (by_name es)) found) = Inr out"
    unfolding walk_step by blast
  obtain st where st: "require_plain_directory lstat ''source directory entry'' = Inr st"
    using d(1) plain_directory_iff by blast
  have s: "scan_entries U prefix (by_name es) found =
      Inr (subdirs prefix (by_name es), fold add_found (regulars prefix (by_name es)) found)"
    using e by (simp add: scan_entries_Inr)
  note IH = 2(1) [OF st d(2) s, simplified fst_conv snd_conv, OF w]
  show ?case
    using IH d e by (auto simp: set_add_found by_name_parts distinct_add_found list_all_iff)
qed simp

lemma walk_of_plain:
  "\<forall>d \<in> set stack. tree_plain U (fst d) (snd d) \<Longrightarrow> \<exists>out. walk U stack found = Inr out"
proof (induction U stack found rule: walk.induct)
  case (2 U prefix lstat entries stack found)
  then obtain es where es: "entries = Some es" by (cases entries) auto
  with 2(2) have d: "directory_plain lstat" and e: "list_all (entry_plain U prefix) (by_name es)"
    and sub: "\<forall>d \<in> set (rev (subdirs prefix (by_name es)) @ stack). tree_plain U (fst d) (snd d)"
    by (auto simp: list_all_iff by_name_parts)
  obtain st where st: "require_plain_directory lstat ''source directory entry'' = Inr st"
    using d plain_directory_iff by blast
  have s: "scan_entries U prefix (by_name es) found =
      Inr (subdirs prefix (by_name es), fold add_found (regulars prefix (by_name es)) found)"
    using e by (simp add: scan_entries_Inr)
  show ?case
    using 2(1) [OF st es s, simplified fst_conv snd_conv, OF sub] d e es unfolding walk_step by blast
qed simp

lemma inspect_source_Inr:
  "inspect_source U root_lstat root = Inr found \<Longrightarrow>
     directory_plain root_lstat \<and> tree_plain U [] root \<and> set found = set (tree_files [] root) \<and> distinct found
     \<and> distinct (map (\<lambda>x. casefold U (nfc U x)) found)"
  using plain_directory_iff [of root_lstat "''source directory''"]
  by (auto simp: inspect_source_def res_bind_Inr_iff split: if_splits dest: walk_plain)

section \<open>The verifier's walk\<close>

text \<open>
  \<open>inspect_source\<close> of \<open>tools/verify_archive.py\<close> goes on after an error and keeps the list of messages;
  it checks an entry's name before its \<open>lstat\<close> result.
\<close>

datatype source_error =
    Boundary boundary
  | Scandir_failed
  | Stat_failed ustr
  | Source_has_collision
  | Files_missing "ustr list"
  | Files_unlisted "ustr list"
  | Source_identity_changed ustr
  | Source_metadata_changed ustr
  | Source_size_mismatch ustr
  | Source_digest_mismatch ustr
  | Source_unreadable ustr

definition v_entry_error :: "unicode \<Rightarrow> ustr \<Rightarrow> status option \<Rightarrow> source_error option" where
  "v_entry_error U relative lstat = (case v_validate_portable_name U relative of
     Inl b \<Rightarrow> Some (Boundary b)
   | Inr _ \<Rightarrow> (case lstat of
       None \<Rightarrow> Some (Stat_failed relative)
     | Some st \<Rightarrow> if is_link st then Some (Boundary (Link_entry relative))
         else if st_kind st = Directory \<or> st_kind st = Regular_file then None
         else Some (Boundary (Special_entry relative))))"

fun v_scan_entries :: "unicode \<Rightarrow> ustr \<Rightarrow> (ustr \<times> status option \<times> tree) list \<Rightarrow> ustr list
    \<Rightarrow> (ustr \<times> tree) list \<times> ustr list \<times> source_error list" where
  "v_scan_entries U prefix [] found = ([], found, [])"
| "v_scan_entries U prefix ((name, lstat, sub) # es) found = (let relative = relative_to prefix name in
     case v_entry_error U relative lstat of
       Some e \<Rightarrow> (let (dirs, found', errs) = v_scan_entries U prefix es found in (dirs, found', e # errs))
     | None \<Rightarrow>
       if map_option st_kind lstat = Some Directory then
         let (dirs, found', errs) = v_scan_entries U prefix es found in ((relative, sub) # dirs, found', errs)
       else v_scan_entries U prefix es (add_found relative found))"

lemma v_scan_weight:
  "v_scan_entries U prefix es found = (dirs, r) \<Longrightarrow> weight dirs \<le> size_list (\<lambda>e. size (snd (snd e))) es"
  by (induction U prefix es found arbitrary: dirs r rule: v_scan_entries.induct)
    (fastforce simp: weight_def Let_def split: option.splits if_splits prod.splits)+

function v_walk :: "unicode \<Rightarrow> (ustr \<times> tree) list \<Rightarrow> ustr list \<Rightarrow> ustr list \<times> source_error list" where
  "v_walk U [] found = (found, [])"
| "v_walk U ((prefix, Tree lstat entries) # stack) found =
     (case require_plain_directory lstat ''source directory entry'' of
        Inl b \<Rightarrow> (let (out, errs) = v_walk U stack found in (out, Boundary b # errs))
      | Inr _ \<Rightarrow> (case entries of
          None \<Rightarrow> (let (out, errs) = v_walk U stack found in (out, Scandir_failed # errs))
        | Some es \<Rightarrow>
            let r = v_scan_entries U prefix (by_name es) found;
                w = v_walk U (rev (fst r) @ stack) (fst (snd r))
            in (fst w, snd (snd r) @ snd w)))"
  by pat_completeness auto
termination
proof (relation "measure (\<lambda>(U, stack, found). weight stack)", goal_cases)
  case (4 U prefix lstat entries stack found st es r)
  then have "weight (fst r) \<le> size_list (\<lambda>e. size (snd (snd e))) (by_name es)"
    using v_scan_weight [of U prefix "by_name es" found "fst r" "snd r"] by simp
  then show ?case
    using weight_entries [of es lstat] 4 by (simp add: weight_append size_list_by_name) (simp add: weight_def)
qed (auto simp: weight_def)

lemma v_entry_error_None: "v_entry_error U (relative_to prefix name) lstat = None \<longleftrightarrow> entry_plain U prefix (name, lstat, sub)"
  by (auto simp: v_entry_error_def entry_plain_def v_validate_eq portable_name_def split: sum.splits option.splits)

lemma v_scan_clean:
  "v_scan_entries U prefix es found = (dirs, out, errs) \<Longrightarrow>
     (errs = [] \<longleftrightarrow> list_all (entry_plain U prefix) es)
     \<and> (errs = [] \<longrightarrow> dirs = subdirs prefix es \<and> out = fold add_found (regulars prefix es) found)"
proof (induction U prefix es found arbitrary: dirs out errs rule: v_scan_entries.induct)
  case (2 U prefix name lstat sub es found)
  show ?case
  proof (cases "v_entry_error U (relative_to prefix name) lstat")
    case None
    then have p: "entry_plain U prefix (name, lstat, sub)" by (rule v_entry_error_None [THEN iffD1])
    show ?thesis
    proof (cases "map_option st_kind lstat = Some Directory")
      case True
      then obtain st where "lstat = Some st" "st_kind st = Directory" by auto
      then show ?thesis using 2(1) [OF refl None True] 2(4) None p
        by (auto simp: Let_def subdirs_def regulars_def split: prod.splits)
    next
      case False
      then obtain st where "lstat = Some st" "st_kind st = Regular_file" "st_kind st \<noteq> Directory"
        using p by (auto simp: entry_plain_def split: option.splits)
      then show ?thesis using 2(2) [OF refl None False] 2(4) None p
        by (auto simp: Let_def subdirs_def regulars_def)
    qed
  next
    case (Some e)
    then have "\<not> entry_plain U prefix (name, lstat, sub)" using v_entry_error_None by (metis option.distinct(1))
    then show ?thesis using 2(4) Some by (auto simp: Let_def split: prod.splits)
  qed
qed (auto simp: regulars_def subdirs_def)

lemma v_walk_clean:
  "v_walk U stack found = (out, errs) \<Longrightarrow>
     (errs = [] \<longrightarrow> walk U stack found = Inr out) \<and> (\<forall>out'. walk U stack found = Inr out' \<longrightarrow> errs = [])"
proof (induction U stack found arbitrary: out errs rule: v_walk.induct)
  case (2 U prefix lstat entries stack found)
  show ?case
  proof (cases "require_plain_directory lstat ''source directory entry''")
    case (Inl b)
    then have "\<not> directory_plain lstat" using plain_directory_iff by (metis sum.distinct(1))
    then show ?thesis using 2(4) Inl by (auto simp: walk_step simp del: walk.simps split: prod.splits)
  next
    case (Inr st)
    then have d: "directory_plain lstat" using plain_directory_iff by blast
    show ?thesis
    proof (cases entries)
      case None
      then show ?thesis using 2(4) Inr by (auto simp: walk_step simp del: walk.simps split: prod.splits)
    next
      case (Some es)
      obtain dirs found' errs1 where s: "v_scan_entries U prefix (by_name es) found = (dirs, found', errs1)"
        by (cases "v_scan_entries U prefix (by_name es) found") auto
      obtain out2 errs2 where w: "v_walk U (rev dirs @ stack) found' = (out2, errs2)"
        by (cases "v_walk U (rev dirs @ stack) found'") auto
      have r: "out = out2" "errs = errs1 @ errs2" using 2(4) Inr Some s w by (simp_all add: Let_def)
      note IH = 2(3) [OF Inr Some refl, unfolded s fst_conv snd_conv, OF w]
      show ?thesis using v_scan_clean [OF s] IH r d Some
        by (auto simp: walk_step simp del: walk.simps)
    qed
  qed
qed auto

section \<open>Reading one file\<close>

text \<open>What the calls of one read return: \<open>lstat\<close>, \<open>open\<close> and \<open>fstat\<close>, the data, \<open>fstat\<close>, \<open>lstat\<close>.\<close>

record reading =
  rd_before :: "status option"
  rd_opened :: "status option"
  rd_data :: "bytes option"
  rd_after_read :: "status option"
  rd_after :: "status option"

definition same_identity :: "status \<Rightarrow> status \<Rightarrow> bool" where
  "same_identity l r \<longleftrightarrow>
     \<not> (st_dev l \<noteq> 0 \<and> st_dev r \<noteq> 0 \<and> st_dev l \<noteq> st_dev r) \<and>
     \<not> (st_ino l \<noteq> 0 \<and> st_ino r \<noteq> 0 \<and> st_ino l \<noteq> st_ino r)"

definition matches :: "(bytes \<Rightarrow> bytes) \<Rightarrow> bytes \<Rightarrow> expected_file \<Rightarrow> bool" where
  "matches sha data expected \<longleftrightarrow> length data = ef_size expected \<and> lit (sha_hex sha data) = ef_sha256 expected"

definition read_stable :: "(bytes \<Rightarrow> bytes) \<Rightarrow> reading \<Rightarrow> ustr \<Rightarrow> expected_file \<Rightarrow> boundary + bytes" where
  "read_stable sha rd relative expected =
     res_bind (require_plain_file (rd_before rd) ''source file'') (\<lambda>before.
     case rd_opened rd of None \<Rightarrow> Inl (Cannot_read relative)
     | Some opened \<Rightarrow>
       if \<not> same_identity before opened \<or> st_kind opened \<noteq> Regular_file then Inl (Identity_changed_before_read relative)
       else case (rd_data rd, rd_after_read rd) of
         (Some data, Some after_read) \<Rightarrow>
           res_bind (require_plain_file (rd_after rd) ''source file'') (\<lambda>after.
             if \<not> same_identity before after \<or> \<not> same_identity opened after_read
             then Inl (Identity_changed_during_read relative)
             else if st_size before \<noteq> st_size after \<or> st_mtime_ns before \<noteq> st_mtime_ns after
             then Inl (Metadata_changed_during_read relative)
             else if \<not> matches sha data expected then Inl (Content_mismatch relative)
             else Inr data)
       | _ \<Rightarrow> Inl (Cannot_read relative))"

text \<open>\<open>stable_digest\<close>: the four identities that are not zero must be one, attribute by attribute.\<close>

definition identity_errors :: "ustr \<Rightarrow> status list \<Rightarrow> source_error list" where
  "identity_errors relative sts =
     (if list_ex (\<lambda>f. 1 < length (remdups (filter (\<lambda>n. n \<noteq> 0) (map f sts)))) [st_dev, st_ino]
      then [Source_identity_changed relative] else [])"

definition stable_digest :: "(bytes \<Rightarrow> bytes) \<Rightarrow> reading \<Rightarrow> ustr \<Rightarrow> expected_file \<Rightarrow> source_error list" where
  "stable_digest sha rd relative expected = (case require_plain_file (rd_before rd) ''source file'' of
     Inl b \<Rightarrow> [Boundary b]
   | Inr before \<Rightarrow> (case (rd_opened rd, rd_data rd, rd_after_read rd) of
       (Some opened, Some data, Some after_read) \<Rightarrow> (case require_plain_file (rd_after rd) ''source file'' of
         Inl b \<Rightarrow> [Boundary b]
       | Inr after \<Rightarrow>
           identity_errors relative [before, opened, after_read, after]
           @ (if st_size before \<noteq> st_size after \<or> st_mtime_ns before \<noteq> st_mtime_ns after
              then [Source_metadata_changed relative] else [])
           @ (if length data \<noteq> ef_size expected then [Source_size_mismatch relative] else [])
           @ (if lit (sha_hex sha data) \<noteq> ef_sha256 expected then [Source_digest_mismatch relative] else []))
     | _ \<Rightarrow> [Source_unreadable relative]))"

definition v_inspect_source ::
    "unicode \<Rightarrow> (bytes \<Rightarrow> bytes) \<Rightarrow> status option \<Rightarrow> tree \<Rightarrow> (ustr \<Rightarrow> reading) \<Rightarrow> allowlist \<Rightarrow> source_error list" where
  "v_inspect_source U sha root_lstat root rd expected =
     (case require_plain_directory root_lstat ''source directory'' of
        Inl b \<Rightarrow> [Boundary b]
      | Inr _ \<Rightarrow>
          let (discovered, errors) = v_walk U [([], root)] [];
              normalized = map (\<lambda>x. casefold U (nfc U x)) discovered;
              names = map fst expected;
              missing = sort (filter (\<lambda>n. n \<notin> set discovered) (remdups names));
              unlisted = sort (filter (\<lambda>n. n \<notin> set names) discovered);
              both = sort (filter (\<lambda>n. n \<in> set discovered) (remdups names))
          in errors
             @ (if length normalized \<noteq> card (set normalized) then [Source_has_collision] else [])
             @ (if missing \<noteq> [] then [Files_missing missing] else [])
             @ (if unlisted \<noteq> [] then [Files_unlisted unlisted] else [])
             @ concat (map (\<lambda>n. stable_digest sha (rd n) n (the (map_of expected n))) both))"

text \<open>A file the verifier takes is one the builder takes, when it is a regular file once opened.\<close>

lemma identity_errors_Nil:
  assumes "identity_errors relative sts = []" "a \<in> set sts" "b \<in> set sts"
  shows "same_identity a b"
proof -
  have one: "x = y" if "\<not> 1 < length (remdups xs)" "x \<in> set xs" "y \<in> set xs" for xs :: "nat list" and x y
  proof -
    have "length (remdups xs) = card (set xs)" by (simp add: length_remdups_card_conv)
    then have "card (set xs) \<le> 1" using that(1) by simp
    then show ?thesis using that(2,3) by (metis List.finite_set One_nat_def card_le_Suc0_iff_eq)
  qed
  have "f a = f b" if "f \<in> {st_dev, st_ino}" "f a \<noteq> 0" "f b \<noteq> 0" for f
    using one [of "filter (\<lambda>n. n \<noteq> 0) (map f sts)" "f a" "f b"] assms that
    by (auto simp: identity_errors_def split: if_splits)
  then show ?thesis by (auto simp: same_identity_def)
qed

lemma stable_digest_read:
  assumes "stable_digest sha rd relative expected = []"
    and "\<And>st. rd_opened rd = Some st \<Longrightarrow> st_kind st = Regular_file"
  obtains data where "rd_data rd = Some data" "read_stable sha rd relative expected = Inr data"
proof -
  obtain before opened data after_read after
    where r: "require_plain_file (rd_before rd) ''source file'' = Inr before" "rd_opened rd = Some opened"
        "rd_data rd = Some data" "rd_after_read rd = Some after_read"
        "require_plain_file (rd_after rd) ''source file'' = Inr after"
      and i: "identity_errors relative [before, opened, after_read, after] = []"
      and m: "st_size before = st_size after" "st_mtime_ns before = st_mtime_ns after" "matches sha data expected"
    using assms(1) by (auto simp: stable_digest_def matches_def split: sum.splits option.splits if_splits)
  have "same_identity before opened" "same_identity before after" "same_identity opened after_read"
    using identity_errors_Nil [OF i] by simp_all
  then have "read_stable sha rd relative expected = Inr data"
    using r m assms(2) by (simp add: read_stable_def)
  then show thesis using that r(3) by blast
qed

lemma read_stable_Inr:
  "read_stable sha rd relative expected = Inr data \<Longrightarrow> rd_data rd = Some data \<and> matches sha data expected"
  by (auto simp: read_stable_def res_bind_Inr_iff split: option.splits if_splits)

end
