(* ===== verification/Zip_Reader.thy ===== *)
theory Zip_Reader
  imports Zip_Layout Source_Tree
begin

text \<open>
  What \<open>zipfile.ZipFile\<close> of the standard library does with an archive when \<open>tools/verify_archive.py\<close>
  opens it and reads a member: the search for the end record (with its ZIP64 variant), the central
  directory, and the checks of \<open>ZipFile.open\<close>.  Decompressing a member's bytes (\<open>ZipExtFile\<close> over zlib)
  and decoding a non-empty extra field are parameters.
\<close>

datatype zip_error =
    Zip_boundary boundary
  | Zip_os_error
  | Zip_eof
  | Zip_bad_file
  | Zip_runtime_error
  | Zip_value_error  \<comment> \<open>UnicodeError is one\<close>
  | Zlib_error

section \<open>The end record\<close>

record end_info =
  ei_zip64 :: bool
  ei_size :: nat
  ei_offset :: nat
  ei_comment :: bytes
  ei_location :: nat

text \<open>\<open>_EndRecData64\<close>: a locator directly before the end record leads to the 56 bytes before it.\<close>

definition end_record64 :: "bytes \<Rightarrow> end_info \<Rightarrow> zip_error + end_info" where
  "end_record64 file e = (let loc = ei_location e in
     if loc < 20 then Inr e
     else let l = unpack LOCATOR64_FORMAT (slice file (loc - 20) 20) in
       if l ! 0 \<noteq> LOCATOR64_SIGNATURE then Inr e
       else if l ! 1 \<noteq> 0 \<or> 1 < l ! 3 then Inl Zip_bad_file
       else if loc < 76 then Inl Zip_bad_file
       else let r = unpack EOCD64_FORMAT (slice file (loc - 76) 56) in
         if r ! 0 \<noteq> EOCD64_SIGNATURE then Inr e
         else Inr (e\<lparr>ei_zip64 := True, ei_size := r ! 8, ei_offset := r ! 9\<rparr>))"

definition find_end_record :: "bytes \<Rightarrow> zip_error + end_info" where
  "find_end_record file = (let n = length file in
     if n < 22 then Inl Zip_bad_file
     else let last22 = drop (n - 22) file; v = unpack EOCD_FORMAT last22 in
       if v ! 0 = EOCD_SIGNATURE \<and> v ! 7 = 0 then
         end_record64 file \<lparr>ei_zip64 = False, ei_size = v ! 5, ei_offset = v ! 6, ei_comment = [], ei_location = n - 22\<rparr>
       else let from = n - 65558; tail = drop from file in
         case rfind (le 4 EOCD_SIGNATURE) tail of
           None \<Rightarrow> Inl Zip_bad_file
         | Some start \<Rightarrow>
             if length tail < start + 22 then Inl Zip_bad_file
             else let w = unpack EOCD_FORMAT (slice tail start 22) in
               end_record64 file \<lparr>ei_zip64 = False, ei_size = w ! 5, ei_offset = w ! 6,
                 ei_comment = slice tail (start + 22) (w ! 7), ei_location = from + start\<rparr>)"

section \<open>The central directory\<close>

record zip_info =
  zi_orig_filename :: ustr
  zi_filename :: ustr
  zi_extra :: bytes
  zi_comment :: bytes
  zi_create_version :: nat
  zi_create_system :: nat
  zi_extract_version :: nat
  zi_flag_bits :: nat
  zi_compress_type :: nat
  zi_date_time :: "nat list"
  zi_CRC :: nat
  zi_compress_size :: nat
  zi_file_size :: nat
  zi_internal_attr :: nat
  zi_external_attr :: nat
  zi_header_offset :: int

text \<open>
  The parameters: the compressor \<open>compressobj(9, DEFLATED, -15)\<close> on a whole input; what reading a member
  to its end gives, from its compression type, its compressed bytes as far as the file has them, and the
  compressed size, size and CRC of its \<open>ZipInfo\<close>; what decoding a non-empty extra field makes of the
  size, compressed size and offset.
\<close>

record codec =
  deflate :: "bytes \<Rightarrow> bytes"
  read_payload :: "nat \<Rightarrow> bytes \<Rightarrow> nat \<Rightarrow> nat \<Rightarrow> nat \<Rightarrow> zip_error + bytes"
  decode_extra :: "bytes \<Rightarrow> nat \<times> nat \<times> nat \<Rightarrow> zip_error + nat \<times> nat \<times> nat"

definition decode_name :: "nat \<Rightarrow> bytes \<Rightarrow> zip_error + ustr" where
  "decode_name flags raw = (if bit flags 11
     then (case utf8_decode raw of None \<Rightarrow> Inl Zip_value_error | Some s \<Rightarrow> Inr s)
     else Inr (cp437_decode raw))"

text \<open>\<open>ZipInfo.__init__\<close> cuts the name at the first NUL.\<close>

definition cut_nul :: "ustr \<Rightarrow> ustr" where
  "cut_nul s = takeWhile (\<lambda>c. c \<noteq> 0) s"

definition date_of :: "nat \<Rightarrow> nat \<Rightarrow> nat list" where
  "date_of d t = [d div 512 + 1980, d div 32 mod 16, d mod 32, t div 2048, t div 32 mod 64, t mod 32 * 2]"

definition central_info :: "codec \<Rightarrow> nat list \<Rightarrow> bytes \<Rightarrow> zip_error + zip_info" where
  "central_info z v after = (let
       raw_name = take (v ! 12) after;
       extra = take (v ! 13) (drop (v ! 12) after);
       comment = take (v ! 14) (drop (v ! 12 + v ! 13) after)
     in res_bind (decode_name (v ! 5) raw_name) (\<lambda>filename.
       if 63 < v ! 3 then Inl Zip_runtime_error
       else res_bind (if extra = [] then Inr (v ! 11, v ! 10, v ! 18) else decode_extra z extra (v ! 11, v ! 10, v ! 18))
         (\<lambda>(file_size, compress_size, offset). Inr
           \<lparr>zi_orig_filename = filename, zi_filename = cut_nul filename, zi_extra = extra, zi_comment = comment,
            zi_create_version = v ! 1, zi_create_system = v ! 2, zi_extract_version = v ! 3,
            zi_flag_bits = v ! 5, zi_compress_type = v ! 6, zi_date_time = date_of (v ! 8) (v ! 7),
            zi_CRC = v ! 9, zi_compress_size = compress_size, zi_file_size = file_size,
            zi_internal_attr = v ! 16, zi_external_attr = v ! 17, zi_header_offset = int offset\<rparr>)))"

text \<open>The loop counts the lengths the records claim, not the bytes it got.\<close>

function central_loop :: "codec \<Rightarrow> nat \<Rightarrow> bytes \<Rightarrow> zip_error + zip_info list" where
  "central_loop z todo data =
     (if todo = 0 then Inr []
      else if length data < 46 then Inl Zip_bad_file
      else let v = unpack CENTRAL_FORMAT (take 46 data); used = 46 + v ! 12 + v ! 13 + v ! 14 in
        if v ! 0 \<noteq> CENTRAL_SIGNATURE then Inl Zip_bad_file
        else res_bind (central_info z v (drop 46 data)) (\<lambda>x.
          res_map ((#) x) (central_loop z (todo - used) (drop used data))))"
  by pat_completeness auto
termination
  by (relation "measure (\<lambda>(z, todo, data). todo)") auto

declare central_loop.simps [simp del]

record zip_file =
  zf_infos :: "zip_info list"
  zf_start_dir :: nat
  zf_comment :: bytes

definition shift_offset :: "int \<Rightarrow> zip_info \<Rightarrow> zip_info" where
  "shift_offset k x = x\<lparr>zi_header_offset := zi_header_offset x + k\<rparr>"

definition read_directory :: "codec \<Rightarrow> bytes \<Rightarrow> zip_error + zip_file" where
  "read_directory z file = res_bind (find_end_record file) (\<lambda>e. (let
       start_dir = int (ei_location e) - int (ei_size e) - (if ei_zip64 e then 76 else 0);
       concat_shift = start_dir - int (ei_offset e)
     in if start_dir < 0 then Inl Zip_bad_file
        else res_bind (central_loop z (ei_size e) (slice file (nat start_dir) (ei_size e))) (\<lambda>infos. Inr
          \<lparr>zf_infos = map (shift_offset concat_shift) infos, zf_start_dir = nat start_dir, zf_comment = ei_comment e\<rparr>)))"

section \<open>Opening a member\<close>

text \<open>
  \<open>_end_offset\<close>: going through the members by falling header offset, each ends where the one before it
  in that order starts, the first where the central directory starts.
\<close>

definition end_offsets :: "zip_file \<Rightarrow> nat \<Rightarrow> int" where
  "end_offsets zf = (let
       offs = map zi_header_offset (zf_infos zf);
       order = sort_key (\<lambda>i. - offs ! i) [0..<length offs];
       ends = int (zf_start_dir zf) # map (\<lambda>i. offs ! i) order
     in (\<lambda>i. the (map_of (zip order ends) i)))"

definition local_name :: "bytes \<Rightarrow> int \<Rightarrow> bytes" where
  "local_name file off = slice file (nat off + 30) (unpack LOCAL_FORMAT (slice file (nat off) 30) ! 9)"

definition read_member :: "codec \<Rightarrow> bytes \<Rightarrow> zip_info \<Rightarrow> int \<Rightarrow> zip_error + bytes" where
  "read_member z file x end_offset =
     (if zi_header_offset x < 0 then Inl Zip_os_error
      else let header = slice file (nat (zi_header_offset x)) 30; h = unpack LOCAL_FORMAT header;
               fname = local_name file (zi_header_offset x);
               extra = slice file (nat (zi_header_offset x) + 30 + h ! 9) (h ! 10);
               pos = nat (zi_header_offset x) + 30 + length fname + length extra
           in if length header \<noteq> 30 then Inl Zip_bad_file
              else if h ! 0 \<noteq> LOCAL_SIGNATURE then Inl Zip_bad_file
              else if bit (zi_flag_bits x) 5 \<or> bit (zi_flag_bits x) 6 then Inl Zip_runtime_error
              else res_bind (decode_name (h ! 2) fname) (\<lambda>fname_str.
                if fname_str \<noteq> zi_orig_filename x then Inl Zip_bad_file
                else if end_offset < int pos + int (zi_compress_size x) then Inl Zip_bad_file
                else if bit (zi_flag_bits x) 0 then Inl Zip_runtime_error
                else read_payload z (zi_compress_type x) (slice file pos (zi_compress_size x))
                       (zi_compress_size x) (zi_file_size x) (zi_CRC x)))"

end
