(* ===== verification/Verify_Archive.thy ===== *)
theory Verify_Archive
  imports Zip_Reader
begin

text \<open>
  \<open>verify_archive\<close> and \<open>main\<close> of \<open>tools/verify_archive.py\<close>.  A run leaves a log (the error list and the
  counters of the report, in the order they are written) and ends with a value or an exception.
\<close>

section \<open>Runs\<close>

datatype finding =
    Archive_too_short | EOCD_missing | Trailing_bytes | Multi_disk | Entry_count_mismatch
  | Directory_offset_mismatch | Directory_size_mismatch | Comment_not_permitted
  | Local_gap ustr | Truncated_local_header ustr | Bad_local_signature ustr | Extract_version_drift ustr
  | Flag_drift ustr | Local_compression_drift ustr | Local_timestamp_drift ustr
  | Size_or_CRC_mismatch ustr | Local_name_mismatch ustr | Unexpected_local_extra ustr | Gap_before_directory
  | Entries_not_in_order | Duplicate_entry | Archive_collision
  | Membership_mismatch "ustr list" "ustr list" | Unexpected_archive_comment
  | Bad_name boundary | Directory_entry ustr | Timestamp_drift ustr | Creator_drift ustr
  | Not_marked_regular ustr nat | Permission_drift ustr nat nat | Dos_attributes ustr
  | Internal_attributes ustr | Compression_drift ustr | Unexpected_flags ustr nat | Central_metadata ustr
  | Member_size_mismatch ustr | Member_read_failure ustr zip_error | Member_bytes_mismatch ustr
  | Member_CRC_mismatch ustr | Offset_unavailable ustr | Non_canonical_deflate ustr | CRC_testzip_failure ustr
  | Archive_identity_before | Archive_metadata_changed | Archive_identity_during | Archive_bytes_changed
  | Archive_boundary boundary | Invalid_zip zip_error

datatype log = Finding finding | Listed nat | Measured nat

type_synonym 'a run = "log list \<times> (zip_error + 'a)"

definition run_return :: "'a \<Rightarrow> 'a run" where
  "run_return a = ([], Inr a)"

definition run_lift :: "zip_error + 'a \<Rightarrow> 'a run" where
  "run_lift r = ([], r)"

definition run_bind :: "'a run \<Rightarrow> ('a \<Rightarrow> 'b run) \<Rightarrow> 'b run" where
  "run_bind m f = (case m of (l, Inl e) \<Rightarrow> (l, Inl e) | (l, Inr a) \<Rightarrow> (case f a of (l', r) \<Rightarrow> (l @ l', r)))"

text \<open>\<open>if cond: errors.append(finding)\<close>, statement after statement.\<close>

definition say :: "(bool \<times> finding) list \<Rightarrow> unit run" where
  "say cs = (map (Finding \<circ> snd) (filter fst cs), Inr ())"

section \<open>The end record\<close>

definition eocd_checks :: "nat list \<Rightarrow> nat \<Rightarrow> nat \<Rightarrow> nat \<Rightarrow> nat \<Rightarrow> (bool \<times> finding) list" where
  "eocd_checks v eocd_offset archive_size entry_count start_dir = [
     (eocd_offset + 22 + v ! 7 \<noteq> archive_size, Trailing_bytes),
     (v ! 1 \<noteq> 0 \<or> v ! 2 \<noteq> 0 \<or> v ! 3 \<noteq> v ! 4, Multi_disk),
     (v ! 4 \<noteq> entry_count, Entry_count_mismatch),
     (v ! 6 \<noteq> start_dir, Directory_offset_mismatch),
     (v ! 6 + v ! 5 \<noteq> eocd_offset, Directory_size_mismatch),
     (v ! 7 \<noteq> 0, Comment_not_permitted)]"

definition verify_eocd :: "bytes \<Rightarrow> zip_file \<Rightarrow> nat \<Rightarrow> unit run" where
  "verify_eocd file archive entry_count = (let archive_size = length file in
     if archive_size < 22 then say [(True, Archive_too_short)]
     else let tail_size = min archive_size (22 + 65535);
              tail = drop (archive_size - tail_size) file
          in case rfind (le 4 EOCD_SIGNATURE) tail of
            None \<Rightarrow> say [(True, EOCD_missing)]
          | Some relative_offset \<Rightarrow>
              if length tail < relative_offset + 22 then say [(True, EOCD_missing)]
              else say (eocd_checks (unpack EOCD_FORMAT (slice tail relative_offset 22))
                (archive_size - tail_size + relative_offset) archive_size entry_count (zf_start_dir archive)))"

section \<open>The local records\<close>

definition expected_name_bytes :: "zip_info \<Rightarrow> zip_error + bytes" where
  "expected_name_bytes x = (if bit (zi_flag_bits x) 11
     then (if list_all scalar (zi_filename x) then Inr (utf8_encode (zi_filename x)) else Inl Zip_value_error)
     else (case cp437_encode (zi_filename x) of None \<Rightarrow> Inl Zip_value_error | Some b \<Rightarrow> Inr b))"

text \<open>\<open>flags & ~0x800\<close>\<close>

definition other_flags :: "nat \<Rightarrow> nat" where
  "other_flags f = unset_bit 11 f"

definition local_checks :: "zip_info \<Rightarrow> nat list \<Rightarrow> (bool \<times> finding) list" where
  "local_checks x h = (let n = zi_filename x in [
     (h ! 0 \<noteq> LOCAL_SIGNATURE, Bad_local_signature n),
     (h ! 1 \<noteq> 20 \<or> zi_extract_version x \<noteq> 20, Extract_version_drift n),
     (h ! 2 \<noteq> zi_flag_bits x \<or> other_flags (h ! 2) \<noteq> 0, Flag_drift n),
     (h ! 3 \<noteq> 8 \<or> h ! 3 \<noteq> zi_compress_type x, Local_compression_drift n),
     (h ! 4 \<noteq> dos_time EXPECTED_TIMESTAMP \<or> h ! 5 \<noteq> dos_date EXPECTED_TIMESTAMP, Local_timestamp_drift n),
     (h ! 6 \<noteq> zi_CRC x \<or> h ! 7 \<noteq> zi_compress_size x \<or> h ! 8 \<noteq> zi_file_size x, Size_or_CRC_mismatch n)])"

fun local_headers :: "bytes \<Rightarrow> int \<Rightarrow> zip_info list \<Rightarrow> (int \<times> int option list) run" where
  "local_headers file cursor [] = run_return (cursor, [])"
| "local_headers file cursor (x # xs) = (let off = zi_header_offset x; n = zi_filename x in
     run_bind (say [(off \<noteq> cursor, Local_gap n)]) (\<lambda>_.
     if off < 0 then run_lift (Inl Zip_os_error)
     else let header = slice file (nat off) 30 in
       if length header \<noteq> 30 then
         run_bind (say [(True, Truncated_local_header n)]) (\<lambda>_.
         run_bind (local_headers file off xs) (\<lambda>(c, offs). run_return (c, None # offs)))
       else let h = unpack LOCAL_FORMAT header;
                raw_name = slice file (nat off + 30) (h ! 9);
                raw_extra = slice file (nat off + 30 + length raw_name) (h ! 10)
         in run_bind (say (local_checks x h)) (\<lambda>_.
            run_bind (run_lift (expected_name_bytes x)) (\<lambda>name.
            run_bind (say [(raw_name \<noteq> name, Local_name_mismatch n),
                           (raw_extra \<noteq> [] \<or> h ! 10 \<noteq> 0, Unexpected_local_extra n)]) (\<lambda>_.
            run_bind (local_headers file (off + 30 + int (h ! 9) + int (h ! 10) + int (zi_compress_size x)) xs)
              (\<lambda>(c, offs). run_return (c, Some (off + 30 + int (h ! 9) + int (h ! 10)) # offs)))))))"

definition verify_local_headers :: "bytes \<Rightarrow> zip_file \<Rightarrow> int option list run" where
  "verify_local_headers file archive =
     run_bind (local_headers file 0 (zf_infos archive)) (\<lambda>(cursor, offs).
     run_bind (say [(cursor \<noteq> int (zf_start_dir archive), Gap_before_directory)]) (\<lambda>_. run_return offs))"

section \<open>The members\<close>

definition S_IFMT :: "nat \<Rightarrow> nat" where
  "S_IFMT m = m AND 0xF000"

definition S_IMODE :: "nat \<Rightarrow> nat" where
  "S_IMODE m = m AND 0xFFF"

definition raw_mode :: "zip_info \<Rightarrow> nat" where
  "raw_mode x = zi_external_attr x div 65536 mod 65536"

definition name_errors :: "unicode \<Rightarrow> ustr \<Rightarrow> (bool \<times> finding) list" where
  "name_errors U name = (case v_validate_portable_name U name of Inl b \<Rightarrow> [(True, Bad_name b)] | Inr _ \<Rightarrow> [])"

definition info_checks :: "unicode \<Rightarrow> zip_info \<Rightarrow> (bool \<times> finding) list" where
  "info_checks U x = (let name = zi_filename x in name_errors U name @ [
     (ends_with name [47], Directory_entry name),
     (zi_date_time x \<noteq> EXPECTED_TIMESTAMP, Timestamp_drift name),
     (zi_create_system x \<noteq> 3 \<or> zi_create_version x \<noteq> 20, Creator_drift name),
     (S_IFMT (raw_mode x) \<noteq> S_IFREG, Not_marked_regular name (raw_mode x)),
     (S_IMODE (raw_mode x) \<noteq> canonical_mode U name,
        Permission_drift name (S_IMODE (raw_mode x)) (canonical_mode U name)),
     (zi_external_attr x mod 65536 \<noteq> 0, Dos_attributes name),
     (zi_internal_attr x \<noteq> 0, Internal_attributes name),
     (zi_compress_type x \<noteq> 8, Compression_drift name),
     (other_flags (zi_flag_bits x) \<noteq> 0, Unexpected_flags name (zi_flag_bits x)),
     (zi_extra x \<noteq> [] \<or> zi_comment x \<noteq> [], Central_metadata name)])"

text \<open>The exceptions that \<open>except (OSError, RuntimeError, zipfile.BadZipFile)\<close> catches around the read.\<close>

definition read_failure :: "zip_error \<Rightarrow> bool" where
  "read_failure e \<longleftrightarrow> e \<in> {Zip_os_error, Zip_runtime_error, Zip_bad_file}"

definition payload_checks :: "bytes \<Rightarrow> codec \<Rightarrow> zip_info \<Rightarrow> int option \<Rightarrow> bytes \<Rightarrow> (bool \<times> finding) list" where
  "payload_checks file z x data_offset data = (case data_offset of
     None \<Rightarrow> [(True, Offset_unavailable (zi_filename x))]
   | Some off \<Rightarrow> [(slice file (nat off) (zi_compress_size x) \<noteq> deflate z data, Non_canonical_deflate (zi_filename x))])"

definition check_member ::
    "unicode \<Rightarrow> (bytes \<Rightarrow> bytes) \<Rightarrow> codec \<Rightarrow> bytes \<Rightarrow> allowlist \<Rightarrow> zip_info \<Rightarrow> int \<Rightarrow> int option \<Rightarrow> unit run" where
  "check_member U sha z file expected x end_offset data_offset = (let name = zi_filename x in
     run_bind (say (info_checks U x)) (\<lambda>_. case map_of expected name of
       None \<Rightarrow> run_return ()
     | Some listed \<Rightarrow>
         run_bind (say [(zi_file_size x \<noteq> ef_size listed, Member_size_mismatch name)]) (\<lambda>_.
         case read_member z file x end_offset of
           Inl e \<Rightarrow> if read_failure e then say [(True, Member_read_failure name e)] else run_lift (Inl e)
         | Inr data \<Rightarrow>
             run_bind (say ([(length data \<noteq> ef_size listed \<or> lit (sha_hex sha data) \<noteq> ef_sha256 listed,
                                Member_bytes_mismatch name),
                             (crc32 data \<noteq> zi_CRC x, Member_CRC_mismatch name)]
                            @ payload_checks file z x data_offset data)) (\<lambda>_.
             ([Measured (length data)], Inr ())))))"

fun check_members ::
    "unicode \<Rightarrow> (bytes \<Rightarrow> bytes) \<Rightarrow> codec \<Rightarrow> bytes \<Rightarrow> allowlist \<Rightarrow> (zip_info \<times> int \<times> int option) list \<Rightarrow> unit run" where
  "check_members U sha z file expected [] = run_return ()"
| "check_members U sha z file expected ((x, end_offset, data_offset) # xs) =
     run_bind (check_member U sha z file expected x end_offset data_offset) (\<lambda>_.
     check_members U sha z file expected xs)"

text \<open>\<open>testzip\<close> opens each member by its name, which finds the last entry of that name.\<close>

fun testzip :: "codec \<Rightarrow> bytes \<Rightarrow> (zip_info \<times> int) list \<Rightarrow> (zip_info \<times> int) list \<Rightarrow> (ustr option) run" where
  "testzip z file all [] = run_return None"
| "testzip z file all ((x, e) # xs) =
     (case the (map_of (rev (map (\<lambda>p. (zi_filename (fst p), p)) all)) (zi_filename x)) of
        (y, end_offset) \<Rightarrow> (case read_member z file y end_offset of
          Inl Zip_bad_file \<Rightarrow> run_return (Some (zi_filename x))
        | Inl err \<Rightarrow> run_lift (Inl err)
        | Inr _ \<Rightarrow> testzip z file all xs))"

definition membership :: "unicode \<Rightarrow> ustr list \<Rightarrow> ustr list \<Rightarrow> (bool \<times> finding) list" where
  "membership U names expected_names = [
     (names \<noteq> sort names, Entries_not_in_order),
     (length names \<noteq> card (set names), Duplicate_entry),
     (length (map (\<lambda>x. casefold U (nfc U x)) names) \<noteq> card (set (map (\<lambda>x. casefold U (nfc U x)) names)),
        Archive_collision),
     (names \<noteq> expected_names, Membership_mismatch
        (sort (filter (\<lambda>n. n \<notin> set names) (remdups expected_names)))
        (sort (filter (\<lambda>n. n \<notin> set expected_names) (remdups names))))]"

definition verify_contents ::
    "unicode \<Rightarrow> (bytes \<Rightarrow> bytes) \<Rightarrow> codec \<Rightarrow> bytes \<Rightarrow> allowlist \<Rightarrow> unit run" where
  "verify_contents U sha z file expected =
     run_bind (run_lift (read_directory z file)) (\<lambda>archive. (let
         infos = zf_infos archive;
         ends = map (end_offsets archive) [0..<length infos]
       in run_bind ([Listed (length infos)], Inr ()) (\<lambda>_.
          run_bind (say (membership U (map zi_filename infos) (sort (map fst expected))
                         @ [(zf_comment archive \<noteq> [], Unexpected_archive_comment)])) (\<lambda>_.
          run_bind (verify_eocd file archive (length infos)) (\<lambda>_.
          run_bind (verify_local_headers file archive) (\<lambda>offs.
          run_bind (check_members U sha z file expected (zip infos (zip ends offs))) (\<lambda>_.
          run_bind (testzip z file (zip infos ends) (zip infos ends)) (\<lambda>corrupt.
          case corrupt of None \<Rightarrow> run_return () | Some name \<Rightarrow> say [(True, CRC_testzip_failure name)]))))))))"

section \<open>One archive\<close>

text \<open>
  What the calls around the archive return: \<open>lstat\<close>, the bytes of the first hashing, \<open>fstat\<close> of the open
  stream, the bytes the stream gives while it is open, \<open>fstat\<close>, \<open>lstat\<close> and the bytes of the second hashing.
\<close>

record archive_reading =
  ar_before :: "status option"
  ar_hashed :: "bytes option"
  ar_opened :: "status option"
  ar_stream :: bytes
  ar_after_read :: "status option"
  ar_after :: "status option"
  ar_hashed_again :: "bytes option"

record report =
  rp_bytes :: "nat option"
  rp_entries :: nat
  rp_errors :: "finding list"
  rp_pass :: bool
  rp_sha256 :: "string option"
  rp_uncompressed_bytes :: nat

definition need :: "'a option \<Rightarrow> 'a run" where
  "need x = run_lift (case x of None \<Rightarrow> Inl Zip_os_error | Some a \<Rightarrow> Inr a)"

definition plain_archive :: "status option \<Rightarrow> status run" where
  "plain_archive lstat = run_lift (case require_plain_file lstat ''archive'' of Inl b \<Rightarrow> Inl (Zip_boundary b) | Inr st \<Rightarrow> Inr st)"

definition differs :: "nat \<Rightarrow> nat \<Rightarrow> bool" where
  "differs a b \<longleftrightarrow> a \<noteq> 0 \<and> b \<noteq> 0 \<and> a \<noteq> b"

definition archive_run ::
    "unicode \<Rightarrow> (bytes \<Rightarrow> bytes) \<Rightarrow> codec \<Rightarrow> archive_reading \<Rightarrow> allowlist \<Rightarrow> unit run" where
  "archive_run U sha z ar expected =
     run_bind (plain_archive (ar_before ar)) (\<lambda>before.
     run_bind (need (ar_hashed ar)) (\<lambda>hashed.
     run_bind (need (ar_opened ar)) (\<lambda>opened.
     run_bind (say [(differs (st_dev before) (st_dev opened), Archive_identity_before),
                    (differs (st_ino before) (st_ino opened), Archive_identity_before)]) (\<lambda>_.
     run_bind (verify_contents U sha z (ar_stream ar) expected) (\<lambda>_.
     run_bind (need (ar_after_read ar)) (\<lambda>after_read.
     run_bind (plain_archive (ar_after ar)) (\<lambda>after.
     run_bind (say [(st_size before \<noteq> st_size after \<or> st_mtime_ns before \<noteq> st_mtime_ns after, Archive_metadata_changed),
                    (differs (st_dev opened) (st_dev after_read), Archive_identity_during),
                    (differs (st_ino opened) (st_ino after_read), Archive_identity_during)]) (\<lambda>_.
     run_bind (need (ar_hashed_again ar)) (\<lambda>again.
     say [(sha_hex sha again \<noteq> sha_hex sha hashed, Archive_bytes_changed)])))))))))"

text \<open>
  The two except clauses; a UnicodeError, a RuntimeError that is no BoundaryError and a zlib.error pass
  them and leave the program (\<open>Inl\<close>).
\<close>

definition closing_finding :: "zip_error \<Rightarrow> finding option" where
  "closing_finding e = (case e of
     Zip_boundary b \<Rightarrow> Some (Archive_boundary b)
   | Zip_os_error \<Rightarrow> Some (Invalid_zip e)
   | Zip_eof \<Rightarrow> Some (Invalid_zip e)
   | Zip_bad_file \<Rightarrow> Some (Invalid_zip e)
   | _ \<Rightarrow> None)"

fun logged_findings :: "log list \<Rightarrow> finding list" where
  "logged_findings [] = []"
| "logged_findings (Finding f # l) = f # logged_findings l"
| "logged_findings (_ # l) = logged_findings l"

fun logged_entries :: "log list \<Rightarrow> nat" where
  "logged_entries [] = 0"
| "logged_entries (Listed n # l) = n"
| "logged_entries (_ # l) = logged_entries l"

fun logged_bytes :: "log list \<Rightarrow> nat" where
  "logged_bytes [] = 0"
| "logged_bytes (Measured n # l) = n + logged_bytes l"
| "logged_bytes (_ # l) = logged_bytes l"

definition make_report ::
    "(bytes \<Rightarrow> bytes) \<Rightarrow> archive_reading \<Rightarrow> log list \<Rightarrow> finding list \<Rightarrow> report" where
  "make_report sha ar l errors = (let plain = is_ok (require_plain_file (ar_before ar) ''archive'') in
     \<lparr>rp_bytes = (if plain then map_option st_size (ar_before ar) else None),
      rp_entries = logged_entries l, rp_errors = errors, rp_pass = (errors = []),
      rp_sha256 = (if plain then map_option (sha_hex sha) (ar_hashed ar) else None),
      rp_uncompressed_bytes = logged_bytes l\<rparr>)"

definition verify_archive ::
    "unicode \<Rightarrow> (bytes \<Rightarrow> bytes) \<Rightarrow> codec \<Rightarrow> archive_reading \<Rightarrow> allowlist \<Rightarrow> zip_error + report" where
  "verify_archive U sha z ar expected = (case archive_run U sha z ar expected of
     (l, Inr _) \<Rightarrow> Inr (make_report sha ar l (logged_findings l))
   | (l, Inl e) \<Rightarrow> (case closing_finding e of
       Some f \<Rightarrow> Inr (make_report sha ar l (logged_findings l @ [f]))
     | None \<Rightarrow> Inl e))"

section \<open>The program\<close>

text \<open>
  \<open>main\<close>: the arguments are what reading the allowlist, the source directory (when \<open>--source\<close> is given)
  and the archives returns.  The exit code is 0 exactly when the run passed; \<open>Inl\<close> is an exception that
  leaves the program.
\<close>

datatype global_error =
    Mode_self_test ustr
  | Allowlist_error boundary
  | Source_error source_error
  | Source_skipped

record verifier_input =
  vi_allowlist_lstat :: "status option"
  vi_allowlist :: "bytes option"
  vi_source :: "(status option \<times> tree \<times> (ustr \<Rightarrow> reading)) option"
  vi_archives :: "archive_reading list"

definition v_read_allowlist :: "unicode \<Rightarrow> verifier_input \<Rightarrow> boundary + allowlist" where
  "v_read_allowlist U vi = res_bind (require_plain_file (vi_allowlist_lstat vi) ''allowlist'') (\<lambda>_.
     case vi_allowlist vi of None \<Rightarrow> Inl Invalid_utf8_allowlist | Some raw \<Rightarrow> v_parse_allowlist U raw)"

definition source_errors ::
    "unicode \<Rightarrow> (bytes \<Rightarrow> bytes) \<Rightarrow> (status option \<times> tree \<times> (ustr \<Rightarrow> reading)) option \<Rightarrow> allowlist \<Rightarrow> global_error list" where
  "source_errors U sha source expected = (case source of
     None \<Rightarrow> []
   | Some (root_lstat, root, rd) \<Rightarrow>
       if expected \<noteq> [] then map Source_error (v_inspect_source U sha root_lstat root rd expected)
       else [Source_skipped])"

definition uncaught :: "boundary \<Rightarrow> bool" where
  "uncaught b \<longleftrightarrow> b = Int_conversion_limit"

definition v_main ::
    "unicode \<Rightarrow> (bytes \<Rightarrow> bytes) \<Rightarrow> codec \<Rightarrow> verifier_input \<Rightarrow> zip_error + nat \<times> global_error list \<times> report list" where
  "v_main U sha z vi = (let
       self = map Mode_self_test (permission_policy_self_test U);
       parsed = v_read_allowlist U vi;
       expected = (case parsed of Inl b \<Rightarrow> [] | Inr es \<Rightarrow> es);
       global_errors = self @ (case parsed of Inl b \<Rightarrow> [Allowlist_error b] | Inr _ \<Rightarrow> [])
                       @ source_errors U sha (vi_source vi) expected
     in if (case parsed of Inl b \<Rightarrow> uncaught b | Inr _ \<Rightarrow> False) then Inl Zip_value_error
        else res_bind (if expected = [] then Inr []
                       else res_map_list (\<lambda>ar. verify_archive U sha z ar expected) (vi_archives vi)) (\<lambda>results.
          let passed = global_errors = [] \<and> results \<noteq> [] \<and> list_all rp_pass results in
          Inr (if passed then 0 else 1, global_errors, results)))"

end
