(* ===== verification/Zip_Sound.thy ===== *)
theory Zip_Sound
  imports Verify_Archive
begin

text \<open>
  What an archive without findings looks like: every byte of it is given by the members, up to the fields
  of the central directory that no check reads and the 76 bytes of a ZIP64 end record.
\<close>

section \<open>Runs without findings\<close>

definition gives :: "'a run \<Rightarrow> 'a \<Rightarrow> bool" where
  "gives m a \<longleftrightarrow> (\<exists>l. m = (l, Inr a) \<and> logged_findings l = [])"

lemma logged_findings_append [simp]: "logged_findings (l @ l') = logged_findings l @ logged_findings l'"
  by (induction l rule: logged_findings.induct) simp_all

lemma logged_findings_map [simp]: "logged_findings (map (Finding \<circ> f) xs) = map f xs"
  by (induction xs) simp_all

lemma gives_bind [simp]: "gives (run_bind m f) b \<longleftrightarrow> (\<exists>a. gives m a \<and> gives (f a) b)"
  by (fastforce simp: gives_def run_bind_def split: prod.splits sum.splits)

lemma gives_return [simp]: "gives (run_return a) b \<longleftrightarrow> b = a"
  by (auto simp: gives_def run_return_def)

lemma gives_lift [simp]: "gives (run_lift r) a \<longleftrightarrow> r = Inr a"
  by (simp add: gives_def run_lift_def)

lemma gives_say [simp]: "gives (say cs) u \<longleftrightarrow> list_all (\<lambda>c. \<not> fst c) cs"
  by (simp add: gives_def say_def filter_empty_conv list_all_iff)

lemma gives_note [simp]: "gives ([Measured n], Inr ()) u" "gives ([Listed n], Inr ()) u"
  by (simp_all add: gives_def)

lemma rp_pass_make [simp]: "rp_pass (make_report sha ar l errors) \<longleftrightarrow> errors = []"
  by (simp add: make_report_def Let_def)

lemma verify_archive_pass:
  "verify_archive U sha z ar expected = Inr r \<and> rp_pass r \<longleftrightarrow>
     (\<exists>l. archive_run U sha z ar expected = (l, Inr ()) \<and> logged_findings l = []
        \<and> r = make_report sha ar l [])"
  by (auto simp: verify_archive_def split: prod.splits sum.splits option.splits)

section \<open>Bit fields\<close>

lemma mode_bits: "m < 65536 \<Longrightarrow> (m AND 0xF000) + (m AND 0xFFF) = (m :: nat)"
proof -
  assume "m < 65536"
  have "(m AND 0xF000) + (m AND 0xFFF) = (m AND 0xF000) OR (m AND 0xFFF)"
    by (rule disjunctive_add_eq_or) (simp add: ac_simps)
  also have "\<dots> = m AND (0xF000 OR 0xFFF)" by (rule bit_eqI) (simp only: bit_and_iff bit_or_iff, blast)
  also have "\<dots> = m" using \<open>m < 65536\<close> take_bit_nat_eq_self [of m 16]
    by (simp add: take_bit_eq_mask mask_eq_exp_minus_1)
  finally show ?thesis .
qed

section \<open>The local records\<close>

text \<open>A member as its \<open>ZipInfo\<close> describes it, once no check has anything to say.\<close>

definition describes :: "unicode \<Rightarrow> codec \<Rightarrow> zip_info \<Rightarrow> member \<Rightarrow> bool" where
  "describes U z x m \<longleftrightarrow>
     decode_name (mb_flags m) (mb_name m) = Inr (zi_orig_filename x) \<and> zi_filename x = zi_orig_filename x
     \<and> zi_flag_bits x = mb_flags m \<and> (mb_flags m = 0 \<or> mb_flags m = 2048)
     \<and> zi_extract_version x = 20 \<and> zi_create_version x = 20 \<and> zi_create_system x = 3
     \<and> zi_compress_type x = 8 \<and> zi_date_time x = EXPECTED_TIMESTAMP
     \<and> zi_CRC x = crc32 (mb_data m) \<and> zi_compress_size x = length (deflate z (mb_data m))
     \<and> zi_file_size x = length (mb_data m) \<and> zi_internal_attr x = 0
     \<and> zi_external_attr x mod 65536 = 0 \<and> raw_mode x = S_IFREG + mb_mode m
     \<and> mb_mode m = canonical_mode U (zi_filename x)
     \<and> zi_extra x = [] \<and> zi_comment x = []"

lemma decode_name_inj:
  "decode_name f a = Inr s \<Longrightarrow> decode_name f b = Inr s \<Longrightarrow> a = b"
proof (cases "bit f 11")
  case True
  assume "decode_name f a = Inr s" "decode_name f b = Inr s"
  then have "utf8_decode a = Some s" "utf8_decode b = Some s"
    using True by (cases "utf8_decode a"; cases "utf8_decode b"; simp add: decode_name_def)+
  then have "utf8_encode s = a" "utf8_encode s = b" 
    using utf8_encode_decode [of a s] utf8_encode_decode [of b s] by simp_all
  then show "a = b" by simp
next
  case False
  assume "decode_name f a = Inr s" "decode_name f b = Inr s"
  then show "a = b" using False cp437_decode_inj [of a b] by (simp add: decode_name_def)
qed

lemma expected_name_decode:
  assumes "expected_name_bytes x = Inr raw"
  shows "decode_name (zi_flag_bits x) raw = Inr (zi_filename x)"
  using assms cp437_decode_encode utf8_decode_encode
  by (auto simp: expected_name_bytes_def decode_name_def split: if_splits option.splits)

lemma other_flags_zero: "other_flags f = 0 \<Longrightarrow> f = 0 \<or> f = 2048"
proof -
  assume "other_flags f = 0"
  then have b: "\<not> bit f n \<or> n = 11" for n
    unfolding other_flags_def by (metis bit_0_eq bit_unset_bit_iff bot_apply bot_bool_def)
  show ?thesis
  proof (cases "bit f 11")
    case True
    have "bit f n \<longleftrightarrow> n = 11" for n using b [of n] True by blast
    then have "f = 2 ^ 11" by (intro bit_eqI) (simp only: bit_exp_iff possible_bit_nat, blast)
    then show ?thesis by simp
  next
    case False
    have "\<not> bit f n" for n using b [of n] False by blast
    then have "f = 0" by (intro bit_eqI) simp
    then show ?thesis by simp
  qed
qed

lemma slice_join: "slice f a n @ slice f (a + n) k = slice f a (n + k)"
  by (simp only: slice_def take_add drop_drop) (simp only: add.commute)

lemma length_slice: "length (slice f a n) = min n (length f - a)"
  by (simp add: slice_def min.commute)

lemma nth_list11: "length h = 11 \<Longrightarrow> h = [h ! 0, h ! 1, h ! 2, h ! 3, h ! 4, h ! 5, h ! 6, h ! 7, h ! 8, h ! 9, h ! 10]"
  by (auto simp: length_Suc_conv numeral_eq_Suc)

lemma read_member_name:
  "read_member z file x e = Inr data \<Longrightarrow> 0 \<le> zi_header_offset x \<Longrightarrow>
   decode_name (unpack LOCAL_FORMAT (slice file (nat (zi_header_offset x)) 30) ! 2)
     (local_name file (zi_header_offset x)) = Inr (zi_orig_filename x)"
  by (auto simp: read_member_def Let_def res_bind_Inr_iff split: if_splits)

lemma check_member_gives:
  assumes "gives (check_member U sha z file expected x e off) u" "map_of expected (zi_filename x) = Some listed"
  obtains data where "list_all (\<lambda>c. \<not> fst c) (info_checks U x)" "zi_file_size x = ef_size listed"
    "read_member z file x e = Inr data" "matches sha data listed" "zi_CRC x = crc32 data"
    "list_all (\<lambda>c. \<not> fst c) (payload_checks file z x off data)"
  using assms
  by (auto simp: check_member_def Let_def matches_def split: sum.splits if_splits)

lemma info_checks_mode:
  assumes "list_all (\<lambda>c. \<not> fst c) (info_checks U x)"
  shows "raw_mode x = S_IFREG + canonical_mode U (zi_filename x)"
proof -
  have "raw_mode x < 65536" by (simp add: raw_mode_def)
  moreover have "S_IFMT (raw_mode x) = S_IFREG" "S_IMODE (raw_mode x) = canonical_mode U (zi_filename x)"
    using assms by (simp_all add: info_checks_def Let_def)
  ultimately show ?thesis using mode_bits [of "raw_mode x"] by (simp add: S_IFMT_def S_IMODE_def)
qed

lemma local_member:
  assumes off: "zi_header_offset x = int cur"
    and header: "length (slice file cur 30) = 30"
    and h: "h = unpack LOCAL_FORMAT (slice file cur 30)"
    and checks: "list_all (\<lambda>c. \<not> fst c) (local_checks x h)"
    and name: "expected_name_bytes x = Inr (slice file (cur + 30) (h ! 9))" and extra: "h ! 10 = 0"
    and content: "gives (check_member U sha z file expected x e (Some (int cur + 30 + int (h ! 9)))) u"
    and listed: "map_of expected (zi_filename x) = Some listed"
    and inside: "cur + 30 + h ! 9 + zi_compress_size x \<le> length file"
  obtains m where "describes U z x m" "matches sha (mb_data m) listed"
    "slice file cur (length (local_record (deflate z) m)) = local_record (deflate z) m"
    "length (local_record (deflate z) m) = 30 + h ! 9 + zi_compress_size x"
proof -
  obtain data where d: "list_all (\<lambda>c. \<not> fst c) (info_checks U x)" "zi_file_size x = ef_size listed"
      "read_member z file x e = Inr data" "matches sha data listed" "zi_CRC x = crc32 data"
      "list_all (\<lambda>c. \<not> fst c) (payload_checks file z x (Some (int cur + 30 + int (h ! 9))) data)"
    using check_member_gives [OF content listed] by blast
  define raw where "raw = slice file (cur + 30) (h ! 9)"
  define m where "m = \<lparr>mb_name = raw, mb_flags = zi_flag_bits x, mb_mode = canonical_mode U (zi_filename x), mb_data = data\<rparr>"
  have len_raw: "length raw = h ! 9" using inside by (simp add: raw_def length_slice)
  have payload: "slice file (cur + 30 + h ! 9) (zi_compress_size x) = deflate z data"
    using d(6) by (simp add: payload_checks_def nat_add_distrib)
  have len_payload: "length (deflate z data) = zi_compress_size x"
    using inside by (simp flip: payload add: length_slice)
  have lc: "h ! 0 = LOCAL_SIGNATURE" "h ! 1 = 20" "zi_extract_version x = 20" "h ! 2 = zi_flag_bits x"
    "other_flags (h ! 2) = 0" "h ! 3 = 8" "zi_compress_type x = 8" "h ! 4 = dos_time EXPECTED_TIMESTAMP"
    "h ! 5 = dos_date EXPECTED_TIMESTAMP" "h ! 6 = zi_CRC x" "h ! 7 = zi_compress_size x" "h ! 8 = zi_file_size x"
    using checks by (auto simp: local_checks_def Let_def)
  have size: "zi_file_size x = length data" using d(2,4) by (simp add: matches_def)
  have "pack LOCAL_FORMAT h = slice file cur 30"
    unfolding h by (rule pack_unpack) (simp add: header, simp add: LOCAL_FORMAT_def)
  moreover have "h = [LOCAL_SIGNATURE, 20, mb_flags m, 8, dos_time EXPECTED_TIMESTAMP, dos_date EXPECTED_TIMESTAMP,
       crc32 (mb_data m), length (deflate z (mb_data m)), length (mb_data m), length (mb_name m), 0]"
    using nth_list11 [of h] lc extra d(5) size len_raw len_payload
    by (simp add: h m_def LOCAL_FORMAT_def)
  ultimately have rec: "local_record (deflate z) m = slice file cur 30 @ raw @ deflate z data"
    by (simp add: local_record_def m_def)
  have "\<dots> = slice file cur (30 + (h ! 9 + zi_compress_size x))"
    unfolding raw_def payload [symmetric] by (simp only: slice_join)
  then have all: "local_record (deflate z) m = slice file cur (30 + (h ! 9 + zi_compress_size x))" using rec by simp
  have len: "length (local_record (deflate z) m) = 30 + h ! 9 + zi_compress_size x"
    by (simp add: m_def len_raw len_payload)
  have "decode_name (zi_flag_bits x) raw = Inr (zi_filename x)"
    using expected_name_decode [OF name] by (simp add: raw_def)
  moreover have "decode_name (zi_flag_bits x) raw = Inr (zi_orig_filename x)"
    using read_member_name [OF d(3)] off lc(4) by (simp add: raw_def local_name_def h)
  ultimately have "describes U z x m"
    using lc d(1,5) size len_payload info_checks_mode [OF d(1)] other_flags_zero
    by (simp add: describes_def m_def info_checks_def Let_def)
  moreover have "matches sha (mb_data m) listed" using d(4) by (simp add: m_def)
  moreover have "slice file cur (length (local_record (deflate z) m)) = local_record (deflate z) m"
    using all len by (simp only: add.assoc)
  ultimately show thesis using len by (rule that)
qed

text \<open>All local records, one after the other.\<close>

lemma local_headers_Cons:
  assumes "gives (local_headers file cursor (x # xs)) (c, offs)"
  shows "zi_header_offset x = cursor" "0 \<le> cursor" "length (slice file (nat cursor) 30) = 30"
    "\<And>h. h = unpack LOCAL_FORMAT (slice file (nat cursor) 30) \<Longrightarrow>
       list_all (\<lambda>c. \<not> fst c) (local_checks x h)
       \<and> expected_name_bytes x = Inr (slice file (nat cursor + 30) (h ! 9)) \<and> h ! 10 = 0
       \<and> (\<exists>offs'. offs = Some (cursor + 30 + int (h ! 9)) # offs'
           \<and> gives (local_headers file (cursor + 30 + int (h ! 9) + int (zi_compress_size x)) xs) (c, offs'))"
  using assms by (auto simp: Let_def split: if_splits)

lemma local_headers_mono: "gives (local_headers file cursor xs) (c, offs) \<Longrightarrow> cursor \<le> c"
proof (induction xs arbitrary: cursor offs)
  case (Cons x xs)
  from local_headers_Cons(4) [OF Cons.prems refl] Cons.IH show ?case by fastforce
qed simp

fun members_listed :: "(bytes \<Rightarrow> bytes) \<Rightarrow> allowlist \<Rightarrow> zip_info list \<Rightarrow> member list \<Rightarrow> bool" where
  "members_listed sha expected (x # xs) (m # ms) \<longleftrightarrow>
     (\<exists>listed. map_of expected (zi_filename x) = Some listed \<and> matches sha (mb_data m) listed)
     \<and> members_listed sha expected xs ms"
| "members_listed sha expected [] [] \<longleftrightarrow> True"
| "members_listed sha expected _ _ \<longleftrightarrow> False"

lemma local_records:
  assumes "gives (local_headers file (int cur) xs) (int c, offs)"
    and "gives (check_members U sha z file expected (zip xs (zip ends offs))) u" and "length ends = length xs"
    and "c \<le> length file" and "set (map zi_filename xs) \<subseteq> fst ` set expected"
  shows "\<exists>ms. list_all2 (describes U z) xs ms \<and> members_listed sha expected xs ms
    \<and> slice file cur (c - cur) = local_part (deflate z) ms
    \<and> map zi_header_offset xs = map int (offsets (deflate z) cur ms) \<and> c = cur + length (local_part (deflate z) ms)"
  using assms
proof (induction xs arbitrary: cur offs ends)
  case Nil
  then show ?case by (intro exI [of _ "[]"]) (simp add: local_part_def slice_def)
next
  case (Cons x xs)
  define h where "h = unpack LOCAL_FORMAT (slice file cur 30)"
  note L = local_headers_Cons [OF Cons.prems(1)]
  from L(4) [of h] obtain offs' where lc: "list_all (\<lambda>c. \<not> fst c) (local_checks x h)"
      and name: "expected_name_bytes x = Inr (slice file (cur + 30) (h ! 9))" and h10: "h ! 10 = 0"
      and offs: "offs = Some (int cur + 30 + int (h ! 9)) # offs'"
      and rest: "gives (local_headers file (int (cur + 30 + h ! 9 + zi_compress_size x)) xs) (int c, offs')"
    by (auto simp: h_def)
  obtain e ends' where ends: "ends = e # ends'" using Cons.prems(3) by (cases ends) auto
  obtain listed where listed: "map_of expected (zi_filename x) = Some listed"
    using Cons.prems(5) by (metis (no_types, lifting) list.set_intros(1) list.simps(9) map_of_eq_None_iff not_None_eq subsetD)
  let ?next = "cur + 30 + h ! 9 + zi_compress_size x"
  have next_le: "?next \<le> c" using local_headers_mono [OF rest] by (simp only: of_nat_le_iff)
  from Cons.prems(2) have content: "gives (check_member U sha z file expected x e (Some (int cur + 30 + int (h ! 9)))) ()"
      and others: "gives (check_members U sha z file expected (zip xs (zip ends' offs'))) u"
    by (auto simp: ends offs)
  obtain m where m: "describes U z x m" "matches sha (mb_data m) listed"
      "slice file cur (length (local_record (deflate z) m)) = local_record (deflate z) m"
      "length (local_record (deflate z) m) = 30 + h ! 9 + zi_compress_size x"
    using local_member [OF _ _ h_def lc name h10 content listed] L(1,3) next_le Cons.prems(4) by auto
  obtain ms where ms: "list_all2 (describes U z) xs ms" "members_listed sha expected xs ms"
      "slice file ?next (c - ?next) = local_part (deflate z) ms"
      "map zi_header_offset xs = map int (offsets (deflate z) ?next ms)" "c = ?next + length (local_part (deflate z) ms)"
    using Cons.IH [OF rest others] Cons.prems ends by auto
  have "slice file cur (c - cur) = slice file cur (length (local_record (deflate z) m)) @ slice file ?next (c - ?next)"
    using slice_join [where f = "file" and a = cur and n = "length (local_record (deflate z) m)" and k = "c - ?next"] next_le m(4)
    by (simp add: add.assoc del: length_local_record)
  then have "slice file cur (c - cur) = local_part (deflate z) (m # ms)" using m(3) ms(3) by (simp add: local_part_def)
  then show ?case using m ms L(1) listed
    by (intro exI [of _ "m # ms"]) (simp add: local_part_def add.assoc)
qed

section \<open>The central directory\<close>

text \<open>
  The lengths a central record claims are those of its name and of nothing else, except in the last
  record, where the loop of the reader stops as soon as the claims reach the end of the directory.
\<close>

fun lengths_tight :: "member list \<Rightarrow> central_fields list \<Rightarrow> bool" where
  "lengths_tight [] [] \<longleftrightarrow> True"
| "lengths_tight [m] [c] \<longleftrightarrow> length (mb_name m) \<le> fst (cf_lengths c)"
| "lengths_tight (m # m' # ms) (c # c' # cs) \<longleftrightarrow>
     cf_lengths c = (length (mb_name m), 0, 0) \<and> lengths_tight (m' # ms) (c' # cs)"
| "lengths_tight _ _ \<longleftrightarrow> False"

lemma le_val_lt: "length bs \<le> w \<Longrightarrow> le_val bs < 256 ^ w"
proof (induction bs arbitrary: w)
  case (Cons b bs)
  then obtain w' where "w = Suc w'" "le_val bs < 256 ^ w'" by (cases w) auto
  then show ?case using byte_lt [of b] by simp
qed simp

lemma unpack_nth_lt: "i < length ws \<Longrightarrow> unpack ws bs ! i < 256 ^ (ws ! i)"
proof (induction ws arbitrary: bs i)
  case (Cons w ws)
  then show ?case using le_val_lt [of "take w bs" w] by (cases i) (auto simp: unpack_def)
qed simp

lemma nth_list19:
  "length h = 19 \<Longrightarrow> h = [h ! 0, h ! 1, h ! 2, h ! 3, h ! 4, h ! 5, h ! 6, h ! 7, h ! 8, h ! 9, h ! 10,
     h ! 11, h ! 12, h ! 13, h ! 14, h ! 15, h ! 16, h ! 17, h ! 18]"
proof -
  assume "length h = 19"
  moreover have "[0..<19] = [0, 1, 2, 3, 4, 5, 6, 7, 8, 9, 10, 11, 12, 13, 14, 15, 16, 17, 18]" by code_simp
  ultimately show ?thesis using map_nth [of h] by (simp only: list.map)
qed

lemma date_of_expected:
  assumes "date_of d t = EXPECTED_TIMESTAMP"
  shows "d = dos_date EXPECTED_TIMESTAMP" "t = dos_time EXPECTED_TIMESTAMP"
proof -
  have d: "d div 512 = 46" "d div 32 mod 16 = 9" "d mod 32 = 2"
    and t: "t div 2048 = 0" "t div 32 mod 64 = 0" "t mod 32 = 0"
    using assms by (auto simp: date_of_def EXPECTED_TIMESTAMP_def)
  have "d div 32 div 16 = 46" "t div 32 div 64 = 0" using d(1) t(1) by (simp_all flip: div_mult2_eq)
  then have "d div 32 = 745" "t div 32 = 0"
    using div_mult_mod_eq [of "d div 32" 16] div_mult_mod_eq [of "t div 32" 64] d(2) t(2) by simp_all
  then have "d = 23842" "t = 0"
    using div_mult_mod_eq [of d 32] div_mult_mod_eq [of t 32] d(3) t(3) by simp_all
  then show "d = dos_date EXPECTED_TIMESTAMP" "t = dos_time EXPECTED_TIMESTAMP"
    by (simp_all add: dos_date_def dos_time_def EXPECTED_TIMESTAMP_def)
qed

lemma central_info_fields:
  assumes "central_info z v after = Inr x" "zi_extra x = []"
  shows "decode_name (v ! 5) (take (v ! 12) after) = Inr (zi_orig_filename x)"
    "take (v ! 13) (drop (v ! 12) after) = []" "zi_comment x = take (v ! 14) (drop (v ! 12 + v ! 13) after)"
    "zi_create_version x = v ! 1" "zi_create_system x = v ! 2" "zi_extract_version x = v ! 3"
    "zi_flag_bits x = v ! 5" "zi_compress_type x = v ! 6" "zi_date_time x = date_of (v ! 8) (v ! 7)"
    "zi_CRC x = v ! 9" "zi_compress_size x = v ! 10" "zi_file_size x = v ! 11"
    "zi_internal_attr x = v ! 16" "zi_external_attr x = v ! 17" "zi_header_offset x = int (v ! 18)"
    "zi_filename x = cut_nul (zi_orig_filename x)"
  using assms by (auto simp: central_info_def Let_def res_bind_Inr_iff split: if_splits)

lemma external_attr_bits:
  fixes n :: nat
  assumes "n < 256 ^ 4" "n mod 65536 = 0"
  shows "n = (n div 65536 mod 65536) * 65536"
proof -
  have "n div 65536 < 65536" using assms(1) by (simp add: div_less_iff_less_mult)
  then show ?thesis using assms(2) by (simp add: mod_0_imp_dvd)
qed

lemma central_member:
  assumes v: "v = unpack CENTRAL_FORMAT (take 46 data)" and sig: "v ! 0 = CENTRAL_SIGNATURE" and len: "46 \<le> length data"
    and x: "central_info z v (drop 46 data) = Inr x" and m: "describes U z x m"
  obtains c where "cf_lengths c = (v ! 12, v ! 13, v ! 14)" "int (cf_offset c) = zi_header_offset x"
    "central_record (deflate z) m c = take 46 data @ take (v ! 12) (drop 46 data)"
    "mb_name m = take (v ! 12) (drop 46 data)"
proof -
  define c where "c = \<lparr>cf_reserved = v ! 4, cf_disk = v ! 15, cf_lengths = (v ! 12, v ! 13, v ! 14), cf_offset = v ! 18\<rparr>"
  have ex: "zi_extra x = []" using m by (simp add: describes_def)
  note f = central_info_fields [OF x ex]
  have name: "mb_name m = take (v ! 12) (drop 46 data)"
    using f(1,7) m decode_name_inj [of "mb_flags m" "mb_name m"] by (simp add: describes_def)
  have lv: "length v = 19" by (simp add: v CENTRAL_FORMAT_def)
  have "v ! 17 < 256 ^ (CENTRAL_FORMAT ! 17)" unfolding v by (rule unpack_nth_lt) (simp add: CENTRAL_FORMAT_def)
  then have "v ! 17 < 256 ^ 4" by (simp add: CENTRAL_FORMAT_def)
  then have ext: "v ! 17 = (S_IFREG + mb_mode m) * 65536"
  proof -
    have "v ! 17 mod 65536 = 0" "v ! 17 div 65536 mod 65536 = S_IFREG + mb_mode m"
      using m by (simp_all add: describes_def raw_mode_def f(14) [symmetric])
    then show ?thesis using external_attr_bits [OF \<open>v ! 17 < 256 ^ 4\<close>] by (simp only:)
  qed
  have "pack CENTRAL_FORMAT v = take 46 data"
    unfolding v by (rule pack_unpack) (use len in \<open>simp add: CENTRAL_FORMAT_def\<close>)
  moreover have "v = [CENTRAL_SIGNATURE, 20, 3, 20, cf_reserved c, mb_flags m, 8,
       dos_time EXPECTED_TIMESTAMP, dos_date EXPECTED_TIMESTAMP,
       crc32 (mb_data m), length (deflate z (mb_data m)), length (mb_data m),
       fst (cf_lengths c), fst (snd (cf_lengths c)), snd (snd (cf_lengths c)), cf_disk c,
       0, (S_IFREG + mb_mode m) * 65536, cf_offset c]"
    using nth_list19 [OF lv] sig f(4-14) m ext date_of_expected [of "v ! 8" "v ! 7"]
    by (simp add: describes_def c_def)
  ultimately have "central_record (deflate z) m c = take 46 data @ take (v ! 12) (drop 46 data)"
    by (simp add: central_record_def name)
  then show thesis using that [of c] f(15) name by (simp add: c_def)
qed

lemma central_records:
  assumes "central_loop z todo data = Inr xs" "length data = todo" "list_all2 (describes U z) xs ms"
  shows "\<exists>cs. length cs = length ms \<and> data = central_part (deflate z) ms cs \<and> lengths_tight ms cs
    \<and> map zi_header_offset xs = map (int \<circ> cf_offset) cs"
  using assms
proof (induction z todo data arbitrary: xs ms rule: central_loop.induct)
  case (1 z todo data)
  show ?case
  proof (cases "todo = 0")
    case True
    then have "data = []" "xs = []" using 1(2,3) by (simp_all add: central_loop.simps [of z 0])
    then show ?thesis using 1(4) by (intro exI [of _ "[]"]) (simp add: central_part_def)
  next
    case False
    define v where "v = unpack CENTRAL_FORMAT (take 46 data)"
    define used where "used = 46 + v ! 12 + v ! 13 + v ! 14"
    from 1(2) False obtain x xs' where len: "46 \<le> length data" and sig: "v ! 0 = CENTRAL_SIGNATURE"
        and x: "central_info z v (drop 46 data) = Inr x"
        and rest: "central_loop z (todo - used) (drop used data) = Inr xs'" and xs: "xs = x # xs'"
      unfolding central_loop.simps [of z todo] Let_def v_def [symmetric] used_def [symmetric]
      by (auto simp: res_bind_Inr_iff not_less split: if_splits elim!: res_map.elims)
    obtain m ms' where ms: "ms = m # ms'" and m: "describes U z x m" and ms': "list_all2 (describes U z) xs' ms'"
      using 1(4) xs by (auto simp: list_all2_Cons1)
    obtain c where c: "cf_lengths c = (v ! 12, v ! 13, v ! 14)" "int (cf_offset c) = zi_header_offset x"
        "central_record (deflate z) m c = take 46 data @ take (v ! 12) (drop 46 data)"
        "mb_name m = take (v ! 12) (drop 46 data)"
      using central_member [OF v_def sig len x m] by blast
    have IH: "\<exists>cs. length cs = length ms' \<and> drop used data = central_part (deflate z) ms' cs \<and> lengths_tight ms' cs
        \<and> map zi_header_offset xs' = map (int \<circ> cf_offset) cs"
      using 1(1) [OF False _ v_def used_def _ x rest _ ms'] len sig 1(3) by (simp add: comp_def)
    then obtain cs where cs: "length cs = length ms'" "drop used data = central_part (deflate z) ms' cs"
        "lengths_tight ms' cs" "map zi_header_offset xs' = map (int \<circ> cf_offset) cs" by blast
    have ex: "zi_extra x = []" "zi_comment x = []" using m by (simp_all add: describes_def)
    note f = central_info_fields [OF x ex(1)]
    have rest_data: "take (v ! 12) (drop 46 data) @ drop used data = drop 46 data"
      and tight: "used < length data \<Longrightarrow> cf_lengths c = (length (mb_name m), 0, 0)"
      and claim: "length (mb_name m) \<le> fst (cf_lengths c)"
    proof -
      let ?d = "drop 46 data"
      have e13: "take (v ! 13) (drop (v ! 12) ?d) = []" and e14: "take (v ! 14) (drop (v ! 12 + v ! 13) ?d) = []"
        using f(2,3) ex(2) by simp_all
      have short: "v ! 12 < length ?d \<Longrightarrow> v ! 13 = 0 \<and> v ! 14 = 0" using e13 e14 by auto
      show "take (v ! 12) ?d @ drop used data = ?d"
      proof (cases "v ! 12 < length ?d")
        case True
        then have "used = v ! 12 + 46" using short by (simp add: used_def)
        then have "drop used data = drop (v ! 12) ?d" by simp
        then show ?thesis by (simp only: append_take_drop_id)
      qed (simp add: used_def)
      show "used < length data \<Longrightarrow> cf_lengths c = (length (mb_name m), 0, 0)"
        using short c(1,4) by (simp add: used_def)
      show "length (mb_name m) \<le> fst (cf_lengths c)" using c(1,4) by simp
    qed
    have "data = take 46 data @ take (v ! 12) (drop 46 data) @ drop used data" using rest_data by simp
    then have all: "data = central_part (deflate z) ms (c # cs)"
      using c(3) cs(2) by (simp add: ms central_part_def)
    have "lengths_tight ms (c # cs)"
    proof (cases ms')
      case Nil
      then show ?thesis using cs(1) claim by (simp add: ms)
    next
      case (Cons m' ms2)
      then obtain c' cs2 where c': "cs = c' # cs2" using cs(1) by (cases cs) auto
      have "drop used data \<noteq> []" using cs(2) length_central_record [of "deflate z" m' c']
        by (auto simp: Cons c' central_part_def simp del: length_central_record)
      then show ?thesis using tight cs(3) by (simp add: ms Cons c')
    qed
    then show ?thesis using all cs(1,4) c(2) by (intro exI [of _ "c # cs"]) (simp add: ms xs)
  qed
qed

section \<open>The end record\<close>

lemma rfind_Some: "rfind pat bs = Some i \<Longrightarrow> i < length bs \<and> slice bs i (length pat) = pat"
proof -
  let ?at = "filter (\<lambda>i. slice bs i (length pat) = pat) [0..<length bs]"
  assume "rfind pat bs = Some i"
  then have "?at \<noteq> []" "i = last ?at" by (auto simp: rfind_def Let_def split: if_splits)
  then have "i \<in> set ?at" using last_in_set by metis
  then show ?thesis by simp
qed

lemma nth_list8: "length h = 8 \<Longrightarrow> h = [h ! 0, h ! 1, h ! 2, h ! 3, h ! 4, h ! 5, h ! 6, h ! 7]"
proof -
  assume "length h = 8"
  moreover have "[0..<8] = [0, 1, 2, 3, 4, 5, 6, 7]" by code_simp
  ultimately show ?thesis using map_nth [of h] by (simp only: list.map)
qed

lemma eocd_checks_clean:
  "list_all (\<lambda>c. \<not> fst c) (eocd_checks v eo sz n sd) \<longleftrightarrow>
     eo + 22 = sz \<and> v ! 1 = 0 \<and> v ! 2 = 0 \<and> v ! 3 = n \<and> v ! 4 = n \<and> v ! 6 = sd \<and> v ! 5 = eo - sd \<and> sd \<le> eo \<and> v ! 7 = 0"
  by (auto simp: eocd_checks_def)

lemma eocd_facts:
  assumes "gives (verify_eocd file archive n) u"
  shows "22 \<le> length file" "zf_start_dir archive \<le> length file - 22"
    "drop (length file - 22) file = end_record n (length file - 22 - zf_start_dir archive) (zf_start_dir archive)"
    "unpack EOCD_FORMAT (drop (length file - 22) file) =
       [EOCD_SIGNATURE, 0, 0, n, n, length file - 22 - zf_start_dir archive, zf_start_dir archive, 0]"
proof -
  let ?size = "length file" and ?ts = "min (length file) 65557"
  let ?tail = "drop (?size - ?ts) file"
  have size: "22 \<le> ?size"
    using assms by (cases "?size < 22") (simp_all add: verify_eocd_def Let_def)
  obtain i where i: "rfind (le 4 EOCD_SIGNATURE) ?tail = Some i"
    using assms size by (cases "rfind (le 4 EOCD_SIGNATURE) ?tail") (simp_all add: verify_eocd_def Let_def)
  have ck: "list_all (\<lambda>c. \<not> fst c)
      (eocd_checks (unpack EOCD_FORMAT (slice ?tail i 22)) (?size - ?ts + i) ?size n (zf_start_dir archive))"
    using assms size i by (cases "length ?tail < i + 22") (simp_all add: verify_eocd_def Let_def)
  note c = ck [unfolded eocd_checks_clean]
  have at: "?size - ?ts + i = ?size - 22" using c by (metis add_diff_cancel_right')
  then have rec: "slice ?tail i 22 = drop (?size - 22) file"
    using size by (simp add: slice_def add.commute)
  let ?v = "unpack EOCD_FORMAT (drop (?size - 22) file)"
  have "slice ?tail i 4 = le 4 EOCD_SIGNATURE" using rfind_Some [OF i] by simp
  moreover have "slice ?tail i 4 = take 4 (slice ?tail i 22)" by (simp add: slice_def)
  ultimately have "le_val (take 4 (drop (?size - 22) file)) = EOCD_SIGNATURE"
    unfolding rec by (simp add: le_val_le EOCD_SIGNATURE_def)
  then have sig: "?v ! 0 = EOCD_SIGNATURE" by (simp add: unpack_def EOCD_FORMAT_def)
  note c = c [unfolded rec at]
  have "length ?v = 8" by (simp add: EOCD_FORMAT_def)
  from nth_list8 [OF this] show v: "?v = [EOCD_SIGNATURE, 0, 0, n, n, ?size - 22 - zf_start_dir archive, zf_start_dir archive, 0]"
    using sig c by simp
  show "22 \<le> ?size" by (rule size)
  show "zf_start_dir archive \<le> ?size - 22" using c by simp
  have "pack EOCD_FORMAT ?v = drop (?size - 22) file"
    by (rule pack_unpack) (use size in \<open>simp add: EOCD_FORMAT_def\<close>)
  then show "drop (?size - 22) file = end_record n (?size - 22 - zf_start_dir archive) (zf_start_dir archive)"
    unfolding v end_record_def by (rule sym)
qed

definition zip64_gap :: "bytes \<Rightarrow> bool" where
  "zip64_gap g \<longleftrightarrow> length g = 76 \<and> take 4 g = le 4 EOCD64_SIGNATURE \<and> slice g 56 4 = le 4 LOCATOR64_SIGNATURE"

lemma unpack_sig: "length bs \<ge> 4 \<Longrightarrow> unpack (4 # ws) bs ! 0 = sig \<Longrightarrow> take 4 bs = le 4 sig"
  using le_le_val [of "take 4 bs"] by (simp add: unpack_def min_absorb2)

lemma end_record64_cases:
  assumes "end_record64 file e0 = Inr e" "ei_location e0 \<le> length file" "\<not> ei_zip64 e0"
  shows "e = e0 \<or> ei_zip64 e \<and> ei_location e = ei_location e0 \<and> ei_comment e = ei_comment e0 \<and> 76 \<le> ei_location e0
    \<and> zip64_gap (slice file (ei_location e0 - 76) 76)"
proof (cases "e = e0")
  case False
  let ?loc = "ei_location e0"
  from False assms(1) have l: "76 \<le> ?loc"
      and s1: "unpack LOCATOR64_FORMAT (slice file (?loc - 20) 20) ! 0 = LOCATOR64_SIGNATURE"
      and s2: "unpack EOCD64_FORMAT (slice file (?loc - 76) 56) ! 0 = EOCD64_SIGNATURE"
      and e: "ei_zip64 e" "ei_location e = ?loc" "ei_comment e = ei_comment e0"
    by (auto simp: end_record64_def Let_def split: if_splits)
  have "take 4 (slice file (?loc - 20) 20) = le 4 LOCATOR64_SIGNATURE"
    using s1 l assms(2) unpack_sig [of "slice file (?loc - 20) 20" "[4, 8, 4]"]
    by (simp add: LOCATOR64_FORMAT_def length_slice)
  moreover have "take 4 (slice file (?loc - 76) 56) = le 4 EOCD64_SIGNATURE"
    using s2 l assms(2) unpack_sig [of "slice file (?loc - 76) 56" "[8, 2, 2, 4, 4, 8, 8, 8, 8]"]
    by (simp add: EOCD64_FORMAT_def length_slice)
  ultimately have "zip64_gap (slice file (?loc - 76) 76)"
  proof -
    have "56 + (?loc - 76) = ?loc - 20" using l by simp
    moreover assume "take 4 (slice file (?loc - 20) 20) = le 4 LOCATOR64_SIGNATURE"
      "take 4 (slice file (?loc - 76) 56) = le 4 EOCD64_SIGNATURE"
    moreover have "length (slice file (?loc - 76) 76) = 76" unfolding length_slice using l assms(2) by arith
    ultimately show ?thesis by (simp add: zip64_gap_def slice_def drop_take min_def add.commute)
  qed
  then show ?thesis using e l by simp
qed simp

lemma read_directory_cases:
  assumes r: "read_directory z file = Inr archive" and v: "gives (verify_eocd file archive n) u"
  obtains shift gap size xs where "zf_infos archive = map (shift_offset shift) xs" "central_loop z size (slice file (zf_start_dir archive) size) = Inr xs"
    "drop (zf_start_dir archive + size) file = gap @ end_record n (size + length gap) (zf_start_dir archive)"
    "gap = [] \<and> shift = 0 \<or> zip64_gap gap" "zf_start_dir archive + size + length gap + 22 = length file"
proof -
  note E = eocd_facts [OF v]
  let ?loc = "length file - 22" and ?sd = "zf_start_dir archive"
  define e0 where "e0 = \<lparr>ei_zip64 = False, ei_size = ?loc - ?sd, ei_offset = ?sd, ei_comment = [], ei_location = ?loc\<rparr>"
  have f: "find_end_record file = end_record64 file e0"
    using E(1,4) by (simp add: find_end_record_def Let_def e0_def)
  from r obtain e where e: "end_record64 file e0 = Inr e"
      and sd: "int ?sd = int (ei_location e) - int (ei_size e) - (if ei_zip64 e then 76 else 0)"
      and loop: "\<exists>xs. central_loop z (ei_size e) (slice file ?sd (ei_size e)) = Inr xs
        \<and> zf_infos archive = map (shift_offset (int ?sd - int (ei_offset e))) xs"
    unfolding read_directory_def f by (auto simp: res_bind_Inr_iff Let_def split: if_splits)
  have cases: "e = e0 \<or> ei_zip64 e \<and> ei_location e = ?loc \<and> 76 \<le> ?loc \<and> zip64_gap (slice file (?loc - 76) 76)"
    using end_record64_cases [OF e] by (auto simp: e0_def)
  from loop obtain xs where xs: "central_loop z (ei_size e) (slice file ?sd (ei_size e)) = Inr xs"
      "zf_infos archive = map (shift_offset (int ?sd - int (ei_offset e))) xs" by blast
  from cases show thesis
  proof
    assume "e = e0"
    then show thesis using that [of "int ?sd - int (ei_offset e)" xs "ei_size e" "[]"] xs E by (simp add: e0_def)
  next
    assume g: "ei_zip64 e \<and> ei_location e = ?loc \<and> 76 \<le> ?loc \<and> zip64_gap (slice file (?loc - 76) 76)"
    then have at: "?sd + ei_size e + 76 = ?loc" using sd by simp
    define gap where "gap = slice file (?loc - 76) 76"
    have lg: "length gap = 76" using g by (simp add: gap_def zip64_gap_def)
    have "drop (?loc - 76) file = gap @ drop ?loc file"
    proof -
      have "76 + (?loc - 76) = ?loc" using g by linarith
      then have "drop 76 (drop (?loc - 76) file) = drop ?loc file" by (simp only: drop_drop)
      then show ?thesis using append_take_drop_id [of 76 "drop (?loc - 76) file"] by (simp only: gap_def slice_def)
    qed
    moreover have "?loc - 76 = ?sd + ei_size e" "?loc - ?sd = ei_size e + length gap"
      "?sd + ei_size e + length gap + 22 = length file" using at lg E(1) by linarith+
    moreover have "zip64_gap gap" using g by (simp add: gap_def)
    ultimately show thesis using that [OF xs(2,1), of gap] E(3) by simp
  qed
qed

section \<open>The whole archive\<close>

text \<open>
  The bytes of an archive, all of them: local records, central directory, gap, end record.  \<open>shift\<close> is
  what the reader adds to the offsets of the central directory.
\<close>

definition archive_layout ::
    "(bytes \<Rightarrow> bytes) \<Rightarrow> member list \<Rightarrow> central_fields list \<Rightarrow> int \<Rightarrow> bytes \<Rightarrow> bytes \<Rightarrow> bool" where
  "archive_layout zip9 ms cs shift gap file \<longleftrightarrow>
     file = local_part zip9 ms @ central_part zip9 ms cs @ gap
       @ end_record (length ms) (length (central_part zip9 ms cs) + length gap) (length (local_part zip9 ms))
     \<and> lengths_tight ms cs
     \<and> map (\<lambda>c. int (cf_offset c) + shift) cs = map int (offsets zip9 0 ms)
     \<and> (gap = [] \<and> shift = 0 \<or> zip64_gap gap)"

definition archive_member ::
    "unicode \<Rightarrow> (bytes \<Rightarrow> bytes) \<Rightarrow> allowlist \<Rightarrow> ustr \<Rightarrow> member \<Rightarrow> bool" where
  "archive_member U sha expected name m \<longleftrightarrow>
     decode_name (mb_flags m) (mb_name m) = Inr name \<and> (mb_flags m = 0 \<or> mb_flags m = 2048)
     \<and> mb_mode m = canonical_mode U name
     \<and> (\<exists>listed. map_of expected name = Some listed \<and> matches sha (mb_data m) listed)"

lemma members_listed_names:
  "members_listed sha expected xs ms \<Longrightarrow> list_all2 (describes U z) xs ms \<Longrightarrow>
   list_all2 (archive_member U sha expected) (map zi_filename xs) ms"
  by (induction sha expected xs ms rule: members_listed.induct)
    (auto simp: archive_member_def describes_def)

lemma describes_shift [simp]: "describes U z (shift_offset k x) m = describes U z x m"
  by (simp add: describes_def shift_offset_def raw_mode_def)

lemma slice_ends: "take n f = a \<Longrightarrow> drop n f = b \<Longrightarrow> f = a @ b"
  using append_take_drop_id [of n f] by simp

lemma verified_layout:
  assumes "gives (verify_contents U sha z file expected) u"
  obtains ms cs shift gap where
    "list_all2 (archive_member U sha expected) (sort (map fst expected)) ms"
    "archive_layout (deflate z) ms cs shift gap file"
proof -
  from assms obtain archive offs where r: "read_directory z file = Inr archive"
      and names: "map zi_filename (zf_infos archive) = sort (map fst expected)"
      and eocd: "gives (verify_eocd file archive (length (zf_infos archive))) ()"
      and loc: "gives (verify_local_headers file archive) offs"
      and mem: "gives (check_members U sha z file expected
        (zip (zf_infos archive) (zip (map (end_offsets archive) [0..<length (zf_infos archive)]) offs))) ()"
    by (auto simp: verify_contents_def Let_def membership_def)
  let ?infos = "zf_infos archive" and ?sd = "zf_start_dir archive"
  from loc have l: "gives (local_headers file (int 0) ?infos) (int ?sd, offs)"
    by (auto simp: verify_local_headers_def)
  note E = eocd_facts [OF eocd]
  have "set (map zi_filename ?infos) \<subseteq> fst ` set expected" by (simp only: names) simp
  moreover have "?sd \<le> length file" using E(1,2) by linarith
  ultimately obtain ms where ms: "list_all2 (describes U z) ?infos ms"
      "members_listed sha expected ?infos ms" "slice file 0 (?sd - 0) = local_part (deflate z) ms"
      "map zi_header_offset ?infos = map int (offsets (deflate z) 0 ms)" "?sd = 0 + length (local_part (deflate z) ms)"
    using local_records [OF l mem] by auto
  obtain shift gap size xs where x: "?infos = map (shift_offset shift) xs"
      "central_loop z size (slice file ?sd size) = Inr xs"
      "drop (?sd + size) file = gap @ end_record (length ?infos) (size + length gap) ?sd"
      "gap = [] \<and> shift = 0 \<or> zip64_gap gap" "?sd + size + length gap + 22 = length file"
    by (rule read_directory_cases [OF r eocd])
  have d: "list_all2 (describes U z) xs ms" using ms(1) by (simp add: x(1) list_all2_map1)
  have len: "length (slice file ?sd size) = size" using x(5) by (simp add: length_slice)
  from central_records [OF x(2) len d] obtain cs where cs: "length cs = length ms"
      "slice file ?sd size = central_part (deflate z) ms cs" "lengths_tight ms cs"
      "map zi_header_offset xs = map (int \<circ> cf_offset) cs" by blast
  have "drop ?sd file = slice file ?sd size @ drop (?sd + size) file"
    using append_take_drop_id [of size "drop ?sd file"] by (simp add: slice_def add.commute)
  then have "file = local_part (deflate z) ms @ central_part (deflate z) ms cs @ gap
      @ end_record (length ?infos) (size + length gap) ?sd"
    using slice_ends [of ?sd "file"] ms(3) cs(2) x(3) by (simp add: slice_def)
  moreover have "length ?infos = length ms" using ms(1) by (rule list_all2_lengthD)
  moreover have "size = length (central_part (deflate z) ms cs)" using cs(2) len by simp
  moreover have "map (\<lambda>c. int (cf_offset c) + shift) cs = map int (offsets (deflate z) 0 ms)"
  proof -
    have "map zi_header_offset ?infos = map (\<lambda>k. k + shift) (map zi_header_offset xs)"
      by (simp add: x(1) shift_offset_def comp_def)
    then show ?thesis using ms(4) cs(4) by (simp add: comp_def)
  qed
  ultimately have "archive_layout (deflate z) ms cs shift gap file"
    using cs(3) x(4) ms(5) by (simp add: archive_layout_def)
  moreover have "list_all2 (archive_member U sha expected) (sort (map fst expected)) ms"
    using members_listed_names [OF ms(2,1)] by (simp only: names)
  ultimately show thesis by (rule that [rotated])
qed

text \<open>With nothing left free the bytes are those of the archive the members determine.\<close>

lemma layout_tight:
  assumes "archive_layout zip9 ms cs shift [] file" "cs = map2 tight ms (offsets zip9 0 ms)"
  shows "file = archive_bytes zip9 ms"
  using assms by (simp add: archive_layout_def archive_bytes_def Let_def)

end
