(* ===== verification/Build_Zip.thy ===== *)
theory Build_Zip
  imports Zip_Layout Source_Tree
begin

text \<open>
  \<open>tools/build_deterministic_zip.py\<close>: writing the archive with \<open>zipfile.ZipFile\<close>, and \<open>main\<close> with its
  checks, the two readings of the source, the partial file, the independent verifier and the replacement
  of the output.  The calls to the operating system and the verifier process return what a record of
  observations says; the disk holds the partial file and the output, and other processes may change both
  between any two of the program's steps on them.
\<close>

section \<open>Writing an archive\<close>

datatype build_error =
    Build_boundary boundary
  | Build_large_zip
  | Build_os_error
  | Build_runtime_error
  | Build_struct_error
  | Build_value_error

text \<open>\<open>ZIP64_LIMIT\<close> and \<open>ZIP_FILECOUNT_LIMIT\<close> of \<open>zipfile\<close>.\<close>

definition ZIP64_LIMIT :: nat where "ZIP64_LIMIT = 2 ^ 31 - 1"
definition ZIP_FILECOUNT_LIMIT :: nat where "ZIP_FILECOUNT_LIMIT = 65535"

text \<open>\<open>ZipInfo._encodeFilenameFlags\<close>\<close>

definition encode_filename :: "ustr \<Rightarrow> bytes \<times> nat" where
  "encode_filename name = (if list_all (\<lambda>c. c < 128) name then (map word_of_nat name, 0) else (utf8_encode name, 2048))"

text \<open>The open archive: what is written up to \<open>start_dir\<close>, and \<open>filelist\<close> with the header offsets.\<close>

record zip_writer =
  zw_written :: bytes
  zw_filelist :: "(member \<times> nat) list"

definition new_writer :: zip_writer where
  "new_writer = \<lparr>zw_written = [], zw_filelist = []\<rparr>"

definition new_member :: "unicode \<Rightarrow> ustr \<Rightarrow> bytes \<Rightarrow> member" where
  "new_member U name data = \<lparr>mb_name = fst (encode_filename name), mb_flags = snd (encode_filename name),
     mb_mode = canonical_mode U name, mb_data = data\<rparr>"

text \<open>
  \<open>writestr\<close>: the size limits (\<open>file_size * 1.05 > ZIP64_LIMIT\<close> among them), then the record.  Its header
  is written once before the data and again, at the same place, once sizes and CRC are known.
\<close>

definition writestr :: "unicode \<Rightarrow> (bytes \<Rightarrow> bytes) \<Rightarrow> zip_writer \<Rightarrow> ustr \<Rightarrow> bytes \<Rightarrow> build_error + zip_writer" where
  "writestr U zip9 w name data = (let m = new_member U name data; header_offset = length (zw_written w) in
     if 100 * ZIP64_LIMIT < 105 * length data then Inl Build_large_zip
     else if ZIP_FILECOUNT_LIMIT \<le> length (zw_filelist w) then Inl Build_large_zip
     else if ZIP64_LIMIT < header_offset then Inl Build_large_zip
     else if 65535 < length (mb_name m) then Inl Build_struct_error
     else if ZIP64_LIMIT < length (zip9 data) then Inl Build_runtime_error
     else Inr \<lparr>zw_written = zw_written w @ local_record zip9 m, zw_filelist = zw_filelist w @ [(m, header_offset)]\<rparr>)"

text \<open>\<open>close\<close> writes the central directory and the end record.\<close>

definition close_archive :: "(bytes \<Rightarrow> bytes) \<Rightarrow> zip_writer \<Rightarrow> build_error + bytes" where
  "close_archive zip9 w = (let
       start_dir = length (zw_written w);
       centrals = concat (map (\<lambda>(m, off). central_record zip9 m (tight m off)) (zw_filelist w))
     in if ZIP_FILECOUNT_LIMIT < length (zw_filelist w) \<or> ZIP64_LIMIT < start_dir \<or> ZIP64_LIMIT < length centrals
        then Inl Build_large_zip
        else Inr (zw_written w @ centrals @ end_record (length (zw_filelist w)) (length centrals) start_dir))"

definition boundary :: "boundary + 'a \<Rightarrow> build_error + 'a" where
  "boundary r = (case r of Inl b \<Rightarrow> Inl (Build_boundary b) | Inr a \<Rightarrow> Inr a)"

fun write_members ::
    "unicode \<Rightarrow> (bytes \<Rightarrow> bytes) \<Rightarrow> (bytes \<Rightarrow> bytes) \<Rightarrow> (ustr \<Rightarrow> reading) \<Rightarrow> allowlist \<Rightarrow> zip_writer \<Rightarrow> ustr list
      \<Rightarrow> build_error + zip_writer" where
  "write_members U sha zip9 rd expected w [] = Inr w"
| "write_members U sha zip9 rd expected w (n # ns) =
     res_bind (boundary (read_stable sha (rd n) n (the (map_of expected n)))) (\<lambda>data.
     res_bind (writestr U zip9 w n data) (\<lambda>w'. write_members U sha zip9 rd expected w' ns))"

text \<open>The bytes \<open>write_partial\<close> leaves in the partial file when it ends normally.\<close>

definition write_partial ::
    "unicode \<Rightarrow> (bytes \<Rightarrow> bytes) \<Rightarrow> (bytes \<Rightarrow> bytes) \<Rightarrow> (ustr \<Rightarrow> reading) \<Rightarrow> allowlist \<Rightarrow> build_error + bytes" where
  "write_partial U sha zip9 rd expected =
     res_bind (write_members U sha zip9 rd expected new_writer (sort (map fst expected))) (close_archive zip9)"

section \<open>The program\<close>

text \<open>The verifier process: \<open>lstat\<close> of its file, exit code and, if its output is JSON, \<open>result["pass"] is True\<close>.\<close>

record verifier_run =
  vr_lstat :: "status option"
  vr_completed :: "(nat \<times> bool option) option"

definition invoke_independent_verifier :: "verifier_run \<Rightarrow> build_error + unit" where
  "invoke_independent_verifier vr =
     res_bind (boundary (require_plain_file (vr_lstat vr) ''independent archive verifier'')) (\<lambda>_.
     case vr_completed vr of None \<Rightarrow> Inl Build_os_error
     | Some (returncode, passed) \<Rightarrow>
         if returncode \<noteq> 0 then Inl (Build_boundary Verification_failed)
         else (case passed of
             None \<Rightarrow> Inl (Build_boundary Verifier_invalid_json)
           | Some p \<Rightarrow> if p then Inr () else Inl (Build_boundary Verifier_not_passed)))"

record build_arguments =
  ba_source :: "ustr list"
  ba_output :: "ustr list"
  ba_allowlist :: "ustr list"
  ba_overwrite :: bool

text \<open>
  Where \<open>main\<close> has come to when other processes may act on the two files: before the partial file is created,
  before it is read for its hash, before the verifier reads it, before the output is looked for (line 355),
  before \<open>os.replace\<close> (line 357), before the output is opened and flushed, before the verifier reads it, and
  before it is read for its hash.
\<close>

datatype moment =
    Before_create | Before_digest | Before_verifier | Before_check
  | Before_replace | Before_flush | Before_verify_output | Before_output_digest

record build_world =
  bw_root_lstat :: "status option"
  bw_allowlist_lstat :: "status option"
  bw_parent_lstat :: "status option"
  bw_output_lstat :: "status option"
  bw_allowlist_lstat_again :: "status option"
  bw_allowlist :: "bytes option"
  bw_root_lstat_again :: "status option"
  bw_tree :: tree
  bw_first :: "ustr \<Rightarrow> reading"
  bw_second :: "ustr \<Rightarrow> reading"
  bw_create_ok :: bool
  bw_flush_ok :: bool
  bw_leftover :: bytes
  bw_read_partial_ok :: bool
  bw_verify_partial :: "bytes option \<Rightarrow> verifier_run"
  bw_replace_ok :: bool
  bw_fsync_ok :: bool
  bw_verify_output :: "bytes option \<Rightarrow> verifier_run"
  bw_read_output_ok :: bool
  bw_others_partial :: "moment \<Rightarrow> bytes option \<Rightarrow> bytes option"
  bw_others_output :: "moment \<Rightarrow> bytes option \<Rightarrow> bytes option"

text \<open>
  The two files, absent or with their bytes; an interrupted \<open>write_partial\<close> leaves \<open>bw_leftover\<close> in the partial
  file.  The verifier's run depends on the bytes it finds at the path it is given.
\<close>

record disk =
  dk_partial :: "bytes option"
  dk_output :: "bytes option"

definition others :: "build_world \<Rightarrow> moment \<Rightarrow> disk \<Rightarrow> disk" where
  "others bw m d = \<lparr>dk_partial = bw_others_partial bw m (dk_partial d), dk_output = bw_others_output bw m (dk_output d)\<rparr>"

definition is_within :: "ustr list \<Rightarrow> ustr list \<Rightarrow> bool" where
  "is_within candidate parent \<longleftrightarrow> take (length parent) candidate = parent"

definition partial_path :: "ustr list \<Rightarrow> ustr list" where
  "partial_path output = butlast output @ [last output @ lit ''.partial'']"

definition guard :: "bool \<Rightarrow> boundary \<Rightarrow> build_error + unit" where
  "guard bad b = (if bad then Inl (Build_boundary b) else Inr ())"

text \<open>The checks before anything is read.\<close>

definition preflight :: "unicode \<Rightarrow> build_arguments \<Rightarrow> build_world \<Rightarrow> disk \<Rightarrow> build_error + unit" where
  "preflight U ba bw d =
     (if ba_output ba = [] then Inl Build_value_error
      else let root = ba_source ba; output = ba_output ba; partial = partial_path output in
       res_bind (boundary (require_plain_directory (bw_root_lstat bw) ''source directory'')) (\<lambda>_.
       res_bind (boundary (require_plain_file (bw_allowlist_lstat bw) ''allowlist'')) (\<lambda>_.
       res_bind (boundary (require_plain_directory (bw_parent_lstat bw) ''output parent directory'')) (\<lambda>_.
       res_bind (guard (is_within output root \<or> is_within partial root) Output_inside_source) (\<lambda>_.
       res_bind (guard (is_within (ba_allowlist ba) root) Allowlist_inside_source) (\<lambda>_.
       res_bind (guard (lower U (path_suffix (last output)) \<noteq> lit ''.zip'') Output_not_zip) (\<lambda>_.
       res_bind (guard (dk_partial d \<noteq> None) Partial_exists) (\<lambda>_.
       if dk_output d = None then Inr ()
       else res_bind (guard (\<not> ba_overwrite ba) Output_exists) (\<lambda>_.
            res_map (\<lambda>_. ()) (boundary (require_plain_file (bw_output_lstat bw) ''existing output'')))))))))))"

definition read_allowlist :: "unicode \<Rightarrow> build_world \<Rightarrow> boundary + allowlist" where
  "read_allowlist U bw = res_bind (require_plain_file (bw_allowlist_lstat_again bw) ''allowlist'') (\<lambda>_.
     case bw_allowlist bw of None \<Rightarrow> Inl Invalid_utf8_allowlist | Some raw \<Rightarrow> parse_allowlist U raw)"

text \<open>\<open>for relative in sorted(expected): read_stable(...)\<close>, before any output exists.\<close>

fun validate_sources :: "(bytes \<Rightarrow> bytes) \<Rightarrow> (ustr \<Rightarrow> reading) \<Rightarrow> allowlist \<Rightarrow> ustr list \<Rightarrow> boundary + unit" where
  "validate_sources sha rd expected [] = Inr ()"
| "validate_sources sha rd expected (n # ns) =
     res_bind (read_stable sha (rd n) n (the (map_of expected n))) (\<lambda>_. validate_sources sha rd expected ns)"

definition plan :: "unicode \<Rightarrow> (bytes \<Rightarrow> bytes) \<Rightarrow> build_world \<Rightarrow> boundary + allowlist" where
  "plan U sha bw =
     res_bind (read_allowlist U bw) (\<lambda>expected.
     res_bind (inspect_source U (bw_root_lstat_again bw) (bw_tree bw)) (\<lambda>discovered. (let
         names = map fst expected;
         missing = sort (filter (\<lambda>n. n \<notin> set discovered) names);
         unlisted = sort (filter (\<lambda>n. n \<notin> set names) discovered)
       in if missing \<noteq> [] \<or> unlisted \<noteq> [] then Inl (Source_mismatch missing unlisted)
          else res_bind (validate_sources sha (bw_first bw) expected (sort names)) (\<lambda>_. Inr expected))))"

record build_result =
  br_entries :: nat
  br_sha256 :: string

definition os_call :: "bool \<Rightarrow> build_error + unit" where
  "os_call ok = (if ok then Inr () else Inl Build_os_error)"

text \<open>\<open>digest\<close> of a file that is opened by its path.\<close>

definition digest :: "(bytes \<Rightarrow> bytes) \<Rightarrow> bool \<Rightarrow> bytes option \<Rightarrow> build_error + string" where
  "digest sha ok f = (case f of None \<Rightarrow> Inl Build_os_error | Some c \<Rightarrow> res_map (\<lambda>_. sha_hex sha c) (os_call ok))"

text \<open>
  After \<open>os.replace\<close>: the output is opened and flushed, its directory is flushed, the verifier runs on it, and
  its hash is compared.
\<close>

definition confirm_output ::
    "(bytes \<Rightarrow> bytes) \<Rightarrow> build_world \<Rightarrow> nat \<Rightarrow> string \<Rightarrow> disk \<Rightarrow> (build_error + build_result) \<times> disk" where
  "confirm_output sha bw n partial_hash d = (let d5 = others bw Before_flush d in
     case os_call (dk_output d5 \<noteq> None \<and> bw_fsync_ok bw) of Inl e \<Rightarrow> (Inl e, d5) | Inr _ \<Rightarrow>
     (let d6 = others bw Before_verify_output d5 in
      case invoke_independent_verifier (bw_verify_output bw (dk_output d6)) of Inl e \<Rightarrow> (Inl e, d6) | Inr _ \<Rightarrow>
      (let d7 = others bw Before_output_digest d6 in
       case digest sha (bw_read_output_ok bw) (dk_output d7) of Inl e \<Rightarrow> (Inl e, d7) | Inr h \<Rightarrow>
       (if h \<noteq> partial_hash then Inl (Build_boundary Archive_hash_changed)
        else Inr \<lparr>br_entries = n, br_sha256 = partial_hash\<rparr>, d7))))"

text \<open>
  \<open>os.replace\<close> moves whatever is then at the path of the partial file over whatever is then at the output: the
  look at the output before it is a step of its own.
\<close>

definition replace_output :: "(bytes \<Rightarrow> bytes) \<Rightarrow> build_world \<Rightarrow> nat \<Rightarrow> string \<Rightarrow> disk \<Rightarrow> (build_error + build_result) \<times> disk" where
  "replace_output sha bw n partial_hash d = (let d4 = others bw Before_replace d in
     case dk_partial d4 of None \<Rightarrow> (Inl Build_os_error, d4)
     | Some content \<Rightarrow>
         if \<not> bw_replace_ok bw then (Inl Build_os_error, d4)
         else confirm_output sha bw n partial_hash (d4\<lparr>dk_partial := None, dk_output := Some content\<rparr>))"

definition publish ::
    "(bytes \<Rightarrow> bytes) \<Rightarrow> build_arguments \<Rightarrow> build_world \<Rightarrow> nat \<Rightarrow> disk \<Rightarrow> (build_error + build_result) \<times> disk" where
  "publish sha ba bw n d = (let d1 = others bw Before_digest d in
     case digest sha (bw_read_partial_ok bw) (dk_partial d1) of Inl e \<Rightarrow> (Inl e, d1) | Inr partial_hash \<Rightarrow>
     (let d2 = others bw Before_verifier d1 in
      case invoke_independent_verifier (bw_verify_partial bw (dk_partial d2)) of Inl e \<Rightarrow> (Inl e, d2) | Inr _ \<Rightarrow>
      (let d3 = others bw Before_check d2 in
       if \<not> ba_overwrite ba \<and> dk_output d3 \<noteq> None then (Inl (Build_boundary Output_appeared), d3)
       else replace_output sha bw n partial_hash d3)))"

text \<open>The partial file is created exclusively: one that appeared since the checks is an error.\<close>

definition build_main ::
    "unicode \<Rightarrow> (bytes \<Rightarrow> bytes) \<Rightarrow> (bytes \<Rightarrow> bytes) \<Rightarrow> build_arguments \<Rightarrow> build_world \<Rightarrow> disk
      \<Rightarrow> (build_error + build_result) \<times> disk" where
  "build_main U sha zip9 ba bw d =
     (case res_bind (preflight U ba bw d) (\<lambda>_. boundary (plan U sha bw)) of
        Inl e \<Rightarrow> (Inl e, d)
      | Inr expected \<Rightarrow>
          (let d0 = others bw Before_create d in
           if dk_partial d0 \<noteq> None \<or> \<not> bw_create_ok bw then (Inl Build_os_error, d0)
           else (case write_partial U sha zip9 (bw_second bw) expected of
             Inl e \<Rightarrow> (Inl e, d0\<lparr>dk_partial := Some (bw_leftover bw)\<rparr>)
           | Inr archive \<Rightarrow>
               if \<not> bw_flush_ok bw then (Inl Build_os_error, d0\<lparr>dk_partial := Some (bw_leftover bw)\<rparr>)
               else publish sha ba bw (length expected) (d0\<lparr>dk_partial := Some archive\<rparr>))))"

end
