(* ===== verification/Build_Props.thy ===== *)
theory Build_Props
  imports Build_Zip
begin

text \<open>
  The archive \<open>write_partial\<close> leaves is the archive of its members; \<open>build_main\<close> replaces the output only
  after every check, the second reading and the verifier have passed.
\<close>

section \<open>The writer\<close>

definition writer_of :: "(bytes \<Rightarrow> bytes) \<Rightarrow> zip_writer \<Rightarrow> member list \<Rightarrow> bool" where
  "writer_of zip9 w ms \<longleftrightarrow> zw_written w = local_part zip9 ms \<and> zw_filelist w = zip ms (offsets zip9 0 ms)"

lemma offsets_append:
  "offsets zip9 pos (ms @ [m]) = offsets zip9 pos ms @ [pos + length (local_part zip9 ms)]"
  by (induction ms arbitrary: pos) (simp_all add: local_part_def)

lemma writestr_Inr:
  assumes "writestr U zip9 w name data = Inr w'" "writer_of zip9 w ms"
  shows "writer_of zip9 w' (ms @ [new_member U name data])"
    and "length (mb_name (new_member U name data)) \<le> 65535"
    and "length data < 2 ^ 31" and "length (zip9 data) < 2 ^ 31"
  using assms
  by (auto simp: writestr_def Let_def writer_of_def local_part_def offsets_append ZIP64_LIMIT_def split: if_splits)

text \<open>A member of the archive holds what the second reading gave, and that is what the allowlist lists.\<close>

definition built_member :: "unicode \<Rightarrow> (bytes \<Rightarrow> bytes) \<Rightarrow> (bytes \<Rightarrow> bytes) \<Rightarrow> (ustr \<Rightarrow> reading) \<Rightarrow> allowlist \<Rightarrow> ustr \<Rightarrow> member \<Rightarrow> bool" where
  "built_member U sha zip9 rd expected n m \<longleftrightarrow>
     (\<exists>data. rd_data (rd n) = Some data \<and> m = new_member U n data
        \<and> matches sha data (the (map_of expected n)) \<and> length (mb_name m) \<le> 65535
        \<and> length data < 2 ^ 31 \<and> length (zip9 data) < 2 ^ 31)"

lemma boundary_Inr [simp]: "boundary r = Inr a \<longleftrightarrow> r = Inr a"
  by (simp add: boundary_def split: sum.splits)

lemma write_members_Inr:
  "write_members U sha zip9 rd expected w ns = Inr w' \<Longrightarrow> writer_of zip9 w ms \<Longrightarrow>
   \<exists>ms'. list_all2 (built_member U sha zip9 rd expected) ns ms' \<and> writer_of zip9 w' (ms @ ms')"
proof (induction ns arbitrary: w ms)
  case Nil
  then show ?case by (intro exI [of _ "[]"]) simp
next
  case (Cons n ns)
  then obtain data w1 where data: "read_stable sha (rd n) n (the (map_of expected n)) = Inr data"
      and w1: "writestr U zip9 w n data = Inr w1" and rest: "write_members U sha zip9 rd expected w1 ns = Inr w'"
    by (auto simp: res_bind_Inr_iff)
  note W = writestr_Inr [OF w1 Cons.prems(2)]
  obtain ms' where "list_all2 (built_member U sha zip9 rd expected) ns ms'"
      "writer_of zip9 w' ((ms @ [new_member U n data]) @ ms')"
    using Cons.IH [OF rest W(1)] by blast
  moreover have "built_member U sha zip9 rd expected n (new_member U n data)"
    using read_stable_Inr [OF data] W(2-4) by (simp add: built_member_def new_member_def)
  ultimately show ?case by (intro exI [of _ "new_member U n data # ms'"]) simp
qed

lemma write_partial_Inr:
  assumes "write_partial U sha zip9 rd expected = Inr archive"
  shows "\<exists>ms. list_all2 (built_member U sha zip9 rd expected) (sort (map fst expected)) ms
    \<and> archive = archive_bytes zip9 ms \<and> length ms \<le> 65535 \<and> length (local_part zip9 ms) < 2 ^ 31
    \<and> length (central_part zip9 ms (map2 tight ms (offsets zip9 0 ms))) < 2 ^ 31"
proof -
  from assms obtain w where w: "write_members U sha zip9 rd expected new_writer (sort (map fst expected)) = Inr w"
      and c: "close_archive zip9 w = Inr archive"
    by (auto simp: write_partial_def res_bind_Inr_iff)
  have "writer_of zip9 new_writer []" by (simp add: writer_of_def new_writer_def local_part_def)
  from write_members_Inr [OF w this] obtain ms where
    ms: "list_all2 (built_member U sha zip9 rd expected) (sort (map fst expected)) ms"
      "zw_written w = local_part zip9 ms" "zw_filelist w = zip ms (offsets zip9 0 ms)"
    by (auto simp: writer_of_def)
  have "map (\<lambda>(m, off). central_record zip9 m (tight m off)) (zip ms os) = map2 (central_record zip9) ms (map2 tight ms os)"
    for ms os by (induction ms os rule: list_induct2') simp_all
  then have "concat (map (\<lambda>(m, off). central_record zip9 m (tight m off)) (zw_filelist w))
      = central_part zip9 ms (map2 tight ms (offsets zip9 0 ms))"
    by (simp add: ms(3) central_part_def)
  then show ?thesis
    using c ms by (auto simp: close_archive_def Let_def archive_bytes_def ZIP64_LIMIT_def ZIP_FILECOUNT_LIMIT_def split: if_splits)
qed

section \<open>The program\<close>

lemma guard_Inr [simp]: "guard bad b = Inr u \<longleftrightarrow> \<not> bad"
  by (simp add: guard_def)

lemma verifier_Inr:
  "invoke_independent_verifier vr = Inr u \<longleftrightarrow>
     vr_completed vr = Some (0, Some True) \<and> (\<exists>st. require_plain_file (vr_lstat vr) ''independent archive verifier'' = Inr st)"
  by (auto simp: invoke_independent_verifier_def res_bind_Inr_iff split: option.splits if_splits)

lemma res_map_unit [simp]: "res_map (\<lambda>_. ()) r = Inr u \<longleftrightarrow> (\<exists>a. r = Inr a)"
  by (cases r) simp_all

lemma preflight_Inr:
  "preflight U ba bw d = Inr u \<Longrightarrow> dk_partial d = None \<and> (dk_output d = None \<or> ba_overwrite ba)
     \<and> \<not> is_within (ba_output ba) (ba_source ba) \<and> \<not> is_within (partial_path (ba_output ba)) (ba_source ba)
     \<and> \<not> is_within (ba_allowlist ba) (ba_source ba)"
  by (auto simp: preflight_def Let_def res_bind_Inr_iff split: if_splits)

lemma sort_Nil_iff: "sort xs = [] \<longleftrightarrow> xs = []"
  by (metis length_0_conv length_sort)

lemma plan_Inr:
  assumes "plan U sha bw = Inr expected"
  shows "set (map fst expected) = set (tree_files [] (bw_tree bw))"
    "tree_plain U [] (bw_tree bw)"
    "\<exists>raw. bw_allowlist bw = Some raw \<and> parse_allowlist U raw = Inr expected"
proof -
  from assms obtain found where f: "inspect_source U (bw_root_lstat_again bw) (bw_tree bw) = Inr found"
      and m: "filter (\<lambda>n. n \<notin> set found) (map fst expected) = []"
        "filter (\<lambda>n. n \<notin> set (map fst expected)) found = []"
      and a: "read_allowlist U bw = Inr expected"
    by (auto simp: plan_def Let_def res_bind_Inr_iff sort_Nil_iff split: if_splits)
  have "set (map fst expected) = set found" using m by (auto simp: filter_empty_conv)
  then show "set (map fst expected) = set (tree_files [] (bw_tree bw))" "tree_plain U [] (bw_tree bw)"
    using inspect_source_Inr [OF f] by simp_all
  show "\<exists>raw. bw_allowlist bw = Some raw \<and> parse_allowlist U raw = Inr expected"
    using a by (auto simp: read_allowlist_def res_bind_Inr_iff split: option.splits)
qed

text \<open>
  The two files at a moment, when the given moments have passed and the program itself has not written since.
\<close>

definition partial_at :: "build_world \<Rightarrow> moment list \<Rightarrow> bytes option \<Rightarrow> bytes option" where
  "partial_at bw ms f = fold (bw_others_partial bw) ms f"

definition output_at :: "build_world \<Rightarrow> moment list \<Rightarrow> bytes option \<Rightarrow> bytes option" where
  "output_at bw ms f = fold (bw_others_output bw) ms f"

definition until_check :: "moment list" where
  "until_check = [Before_create, Before_digest, Before_verifier, Before_check]"

definition after_replace :: "moment list" where
  "after_replace = [Before_flush, Before_verify_output, Before_output_digest]"

definition accepted :: "verifier_run \<Rightarrow> bool" where
  "accepted vr \<longleftrightarrow> vr_completed vr = Some (0, Some True)"

lemmas moment_defs = partial_at_def output_at_def until_check_def after_replace_def accepted_def

lemma others_sel [simp]:
  "dk_partial (others bw m d) = bw_others_partial bw m (dk_partial d)"
  "dk_output (others bw m d) = bw_others_output bw m (dk_output d)"
  by (simp_all add: others_def)

lemma digest_Inr: "digest sha ok f = Inr h \<longleftrightarrow> ok \<and> (\<exists>c. f = Some c \<and> h = sha_hex sha c)"
  by (auto simp: digest_def os_call_def split: option.splits)

text \<open>After the replacement only other processes change the output.\<close>

lemma confirm_output_cases:
  assumes "confirm_output sha bw n h d = (r, d')"
  shows "\<exists>k. dk_output d' = output_at bw (take k after_replace) (dk_output d) \<and> dk_partial d' = partial_at bw (take k after_replace) (dk_partial d)"
    and "r = Inr res \<Longrightarrow> res = \<lparr>br_entries = n, br_sha256 = h\<rparr>
      \<and> accepted (bw_verify_output bw (output_at bw [Before_flush, Before_verify_output] (dk_output d)))
      \<and> (\<exists>c. dk_output d' = Some c \<and> sha_hex sha c = h)"
proof -
  define d5 d6 d7 where ds: "d5 = others bw Before_flush d" "d6 = others bw Before_verify_output d5" "d7 = others bw Before_output_digest d6"
  have k: "dk_output d5 = output_at bw (take 1 after_replace) (dk_output d)" "dk_partial d5 = partial_at bw (take 1 after_replace) (dk_partial d)"
    "dk_output d6 = output_at bw (take 2 after_replace) (dk_output d)" "dk_partial d6 = partial_at bw (take 2 after_replace) (dk_partial d)"
    "dk_output d7 = output_at bw (take 3 after_replace) (dk_output d)" "dk_partial d7 = partial_at bw (take 3 after_replace) (dk_partial d)"
    by (simp_all add: ds moment_defs)
  have "d' = d5 \<or> d' = d6 \<or> d' = d7"
    using assms by (auto simp: confirm_output_def Let_def ds split: sum.splits)
  then show "\<exists>k. dk_output d' = output_at bw (take k after_replace) (dk_output d) \<and> dk_partial d' = partial_at bw (take k after_replace) (dk_partial d)"
    using k by metis
  show "res = \<lparr>br_entries = n, br_sha256 = h\<rparr>
      \<and> accepted (bw_verify_output bw (output_at bw [Before_flush, Before_verify_output] (dk_output d)))
      \<and> (\<exists>c. dk_output d' = Some c \<and> sha_hex sha c = h)" if "r = Inr res"
    using assms that
    by (auto simp: confirm_output_def Let_def verifier_Inr digest_Inr moment_defs split: sum.splits if_splits)
qed

lemma replace_output_cases:
  assumes "replace_output sha bw n h d = (r, d')"
  shows "(\<exists>e. r = Inl e) \<and> dk_output d' = output_at bw [Before_replace] (dk_output d)
   \<or> (\<exists>moved. partial_at bw [Before_replace] (dk_partial d) = Some moved
       \<and> confirm_output sha bw n h \<lparr>dk_partial = None, dk_output = Some moved\<rparr> = (r, d'))"
  using assms by (auto simp: replace_output_def Let_def others_def moment_defs split: option.splits if_splits)

text \<open>The output changes only by other processes, or by the replacement, after the verifier passed the partial file.\<close>

lemma publish_cases:
  assumes "publish sha ba bw n d = (r, d')"
  shows "(\<exists>e. r = Inl e) \<and> (\<exists>k. dk_output d' = output_at bw (take k [Before_digest, Before_verifier, Before_check, Before_replace]) (dk_output d))
   \<or> (\<exists>c moved. partial_at bw [Before_digest] (dk_partial d) = Some c
       \<and> accepted (bw_verify_partial bw (partial_at bw [Before_digest, Before_verifier] (dk_partial d)))
       \<and> (\<not> ba_overwrite ba \<longrightarrow> output_at bw [Before_digest, Before_verifier, Before_check] (dk_output d) = None)
       \<and> partial_at bw [Before_digest, Before_verifier, Before_check, Before_replace] (dk_partial d) = Some moved
       \<and> confirm_output sha bw n (sha_hex sha c) \<lparr>dk_partial = None, dk_output = Some moved\<rparr> = (r, d'))"
proof -
  define d1 d2 d3 where ds: "d1 = others bw Before_digest d" "d2 = others bw Before_verifier d1" "d3 = others bw Before_check d2"
  let ?ms = "[Before_digest, Before_verifier, Before_check, Before_replace]"
  have at: "dk_output d1 = output_at bw (take 1 ?ms) (dk_output d)" "dk_output d2 = output_at bw (take 2 ?ms) (dk_output d)"
    "dk_output d3 = output_at bw (take 3 ?ms) (dk_output d)"
    "output_at bw [Before_replace] (dk_output d3) = output_at bw (take 4 ?ms) (dk_output d)"
    by (simp_all add: ds moment_defs)
  consider (early) e where "r = Inl e" "d' = d1 \<or> d' = d2 \<or> d' = d3"
    | (late) h where "digest sha (bw_read_partial_ok bw) (dk_partial d1) = Inr h"
        "invoke_independent_verifier (bw_verify_partial bw (dk_partial d2)) = Inr ()"
        "ba_overwrite ba \<or> dk_output d3 = None" "replace_output sha bw n h d3 = (r, d')"
    using assms by (auto simp: publish_def Let_def ds split: sum.splits if_splits)
  then show ?thesis
  proof cases
    case early
    then show ?thesis using at by metis
  next
    case late
    obtain c where c: "dk_partial d1 = Some c" "h = sha_hex sha c" using late(1) by (auto simp: digest_Inr)
    have p: "partial_at bw [Before_digest] (dk_partial d) = Some c"
      "accepted (bw_verify_partial bw (partial_at bw [Before_digest, Before_verifier] (dk_partial d)))"
      "partial_at bw [Before_replace] (dk_partial d3) = partial_at bw ?ms (dk_partial d)"
      "dk_output d3 = output_at bw [Before_digest, Before_verifier, Before_check] (dk_output d)"
      using c late(2) by (simp_all add: ds moment_defs verifier_Inr)
    show ?thesis using replace_output_cases [OF late(4)] p late(3) c(2) at(4) by metis
  qed
qed

end
