(* ===== verification/Zip_Complete.thy ===== *)
theory Zip_Complete
  imports Zip_Sound Build_Props
begin

text \<open>
  An archive of well-formed members passes the verifier: the reader finds the records the writer wrote,
  member by member, and no check has anything to say.
\<close>

section \<open>Members the verifier takes\<close>

definition info_of :: "codec \<Rightarrow> ustr \<Rightarrow> member \<Rightarrow> nat \<Rightarrow> zip_info" where
  "info_of z name m off = \<lparr>zi_orig_filename = name, zi_filename = name, zi_extra = [], zi_comment = [],
     zi_create_version = 20, zi_create_system = 3, zi_extract_version = 20, zi_flag_bits = mb_flags m,
     zi_compress_type = 8, zi_date_time = EXPECTED_TIMESTAMP, zi_CRC = crc32 (mb_data m),
     zi_compress_size = length (deflate z (mb_data m)), zi_file_size = length (mb_data m),
     zi_internal_attr = 0, zi_external_attr = (S_IFREG + mb_mode m) * 65536, zi_header_offset = int off\<rparr>"

definition good_member :: "unicode \<Rightarrow> codec \<Rightarrow> ustr \<Rightarrow> member \<Rightarrow> bool" where
  "good_member U z name m \<longleftrightarrow>
     portable_name U name \<and> decode_name (mb_flags m) (mb_name m) = Inr name
     \<and> (mb_flags m = 0 \<or> mb_flags m = 2048) \<and> mb_mode m = canonical_mode U name \<and> list_all scalar name
     \<and> length (mb_name m) \<le> 65535 \<and> length (mb_data m) < 2 ^ 31 \<and> length (deflate z (mb_data m)) < 2 ^ 31"

text \<open>The compressed bytes of a content give the content back.\<close>

definition inflates :: "codec \<Rightarrow> bool" where
  "inflates z \<longleftrightarrow> (\<forall>data. read_payload z 8 (deflate z data) (length (deflate z data)) (length data) (crc32 data) = Inr data)"

lemma canonical_mode_cases: "canonical_mode U name = 493 \<or> canonical_mode U name = 420"
  by (simp add: canonical_mode_def)

lemma portable_no_nul: "portable_name U name \<Longrightarrow> cut_nul name = name"
  using portable_chars by (fastforce simp: cut_nul_def takeWhile_eq_all_conv)

lemma utf8_flag: "bit (2048 :: nat) 11" "\<not> bit (2048 :: nat) 0" "\<not> bit (2048 :: nat) 5" "\<not> bit (2048 :: nat) 6"
  "other_flags 2048 = 0" "other_flags 0 = 0"
proof -
  show "other_flags 2048 = 0"
  proof -
    have "unset_bit 11 (2 ^ 11 :: nat) = 0" by (rule bit_eqI) (simp only: bit_unset_bit_iff bit_exp_iff, simp)
    then show ?thesis by (simp add: other_flags_def)
  qed
qed (simp_all add: bit_iff_odd other_flags_def)

lemma built_good:
  assumes "built_member U sha (deflate z) rd expected n m" "portable_name U n" "list_all scalar n"
  shows "good_member U z n m"
proof -
  from assms(1) obtain data where m: "m = new_member U n data"
    and b: "length (mb_name m) \<le> 65535" "length data < 2 ^ 31" "length (deflate z data) < 2 ^ 31"
    by (auto simp: built_member_def)
  have "decode_name (mb_flags m) (mb_name m) = Inr n"
  proof (cases "list_all (\<lambda>c. c < 128) n")
    case True
    then have "cp437_decode (map word_of_nat n) = n"
      by (induction n) (simp_all add: cp437_decode_def)
    then show ?thesis using True by (simp add: m new_member_def encode_filename_def decode_name_def)
  next
    case False
    then show ?thesis using utf8_decode_encode [OF assms(3)] utf8_flag(1)
      by (simp add: m new_member_def encode_filename_def decode_name_def)
  qed
  then show ?thesis using assms(2,3) b
    by (simp add: good_member_def m new_member_def encode_filename_def)
qed

section \<open>The central directory\<close>

lemma date_of_written: "date_of (dos_date EXPECTED_TIMESTAMP) (dos_time EXPECTED_TIMESTAMP) = EXPECTED_TIMESTAMP"
  by (simp add: date_of_def dos_date_def dos_time_def EXPECTED_TIMESTAMP_def)

lemma dos_values: "dos_date EXPECTED_TIMESTAMP = 23842" "dos_time EXPECTED_TIMESTAMP = 0"
  by (simp_all add: dos_date_def dos_time_def EXPECTED_TIMESTAMP_def)

lemma central_step:
  assumes g: "good_member U z name m" and off: "off < 2 ^ 32"
  shows "central_loop z (length (central_record (deflate z) m (tight m off)) + todo)
      (central_record (deflate z) m (tight m off) @ rest) =
    res_map ((#) (info_of z name m off)) (central_loop z todo rest)"
proof -
  define v where "v = [CENTRAL_SIGNATURE, 20, 3, 20, 0, mb_flags m, 8,
       dos_time EXPECTED_TIMESTAMP, dos_date EXPECTED_TIMESTAMP,
       crc32 (mb_data m), length (deflate z (mb_data m)), length (mb_data m),
       length (mb_name m), 0, 0, 0, 0, (S_IFREG + mb_mode m) * 65536, off]"
  have rec: "central_record (deflate z) m (tight m off) = pack CENTRAL_FORMAT v @ mb_name m"
    by (simp add: central_record_def tight_def v_def)
  have len: "length (pack CENTRAL_FORMAT v) = 46" by (simp add: length_pack CENTRAL_FORMAT_def v_def)
  have "fits CENTRAL_FORMAT v"
    using g off crc32_lt [of "mb_data m"] canonical_mode_cases [of U name]
    by (auto simp: fits_def CENTRAL_FORMAT_def v_def dos_values CENTRAL_SIGNATURE_def S_IFREG_def good_member_def)
  then have u: "unpack CENTRAL_FORMAT (pack CENTRAL_FORMAT v) = v"
    using unpack_pack [of CENTRAL_FORMAT v "[]"] by simp
  have "central_info z v (mb_name m @ rest) = Inr (info_of z name m off)"
    using g portable_no_nul [of U name]
    by (simp add: central_info_def v_def info_of_def good_member_def date_of_written)
  then show ?thesis
    unfolding rec by (subst central_loop.simps) (simp add: len u Let_def, simp add: v_def)
qed

fun infos_of :: "codec \<Rightarrow> nat \<Rightarrow> ustr list \<Rightarrow> member list \<Rightarrow> zip_info list" where
  "infos_of z pos (n # ns) (m # ms) = info_of z n m pos # infos_of z (pos + length (local_record (deflate z) m)) ns ms"
| "infos_of z pos _ _ = []"

lemma central_directory:
  assumes "list_all2 (good_member U z) ns ms" "pos + length (local_part (deflate z) ms) < 2 ^ 32"
  shows "central_loop z (length (central_part (deflate z) ms (map2 tight ms (offsets (deflate z) pos ms))))
      (central_part (deflate z) ms (map2 tight ms (offsets (deflate z) pos ms))) = Inr (infos_of z pos ns ms)"
  using assms
proof (induction ns ms arbitrary: pos rule: list_all2_induct)
  case Nil
  then show ?case by (simp add: central_part_def central_loop.simps)
next
  case (Cons n ns m ms)
  let ?next = "pos + length (local_record (deflate z) m)"
  have "?next + length (local_part (deflate z) ms) < 2 ^ 32" "pos < 2 ^ 32"
    using Cons.prems by (simp_all add: local_part_def)
  then show ?case
    using central_step [OF Cons.hyps(1), of pos] Cons.IH [of ?next]
    by (simp add: central_part_def)
qed

section \<open>The local records\<close>

lemma slice_at: "length pre = k \<Longrightarrow> length x = n \<Longrightarrow> slice (pre @ x @ post) k n = x"
  by (simp add: slice_def)

definition local_fields :: "codec \<Rightarrow> member \<Rightarrow> nat list" where
  "local_fields z m = [LOCAL_SIGNATURE, 20, mb_flags m, 8, dos_time EXPECTED_TIMESTAMP, dos_date EXPECTED_TIMESTAMP,
     crc32 (mb_data m), length (deflate z (mb_data m)), length (mb_data m), length (mb_name m), 0]"

text \<open>What lies at the offset of a member.\<close>

lemma record_at:
  assumes g: "good_member U z name m" and f: "file = pre @ local_record (deflate z) m @ post" and k: "length pre = k"
  shows "length (slice file k 30) = 30" "unpack LOCAL_FORMAT (slice file k 30) = local_fields z m"
    "slice file (k + 30) (length (mb_name m)) = mb_name m"
    "slice file (k + 30 + length (mb_name m)) (length (deflate z (mb_data m))) = deflate z (mb_data m)"
proof -
  have r: "local_record (deflate z) m = pack LOCAL_FORMAT (local_fields z m) @ mb_name m @ deflate z (mb_data m)"
    by (simp add: local_record_def local_fields_def)
  have len: "length (pack LOCAL_FORMAT (local_fields z m)) = 30"
    by (simp add: length_pack LOCAL_FORMAT_def local_fields_def)
  have h: "slice file k 30 = pack LOCAL_FORMAT (local_fields z m)"
    using slice_at [OF k len] by (simp add: f r)
  show "length (slice file k 30) = 30" using h len by simp
  have "fits LOCAL_FORMAT (local_fields z m)"
    using g crc32_lt [of "mb_data m"]
    by (auto simp: fits_def LOCAL_FORMAT_def local_fields_def dos_values LOCAL_SIGNATURE_def good_member_def)
  then show "unpack LOCAL_FORMAT (slice file k 30) = local_fields z m"
    using unpack_pack [of LOCAL_FORMAT "local_fields z m" "[]"] by (simp add: h)
  show "slice file (k + 30) (length (mb_name m)) = mb_name m"
    using slice_at [of "pre @ pack LOCAL_FORMAT (local_fields z m)" "k + 30" "mb_name m"] k len by (simp add: f r)
  show "slice file (k + 30 + length (mb_name m)) (length (deflate z (mb_data m))) = deflate z (mb_data m)"
    using slice_at [of "pre @ pack LOCAL_FORMAT (local_fields z m) @ mb_name m" "k + 30 + length (mb_name m)" "deflate z (mb_data m)" _ post] k len
    by (simp add: f r)
qed

lemma expected_name_of:
  assumes "good_member U z name m"
  shows "expected_name_bytes (info_of z name m off) = Inr (mb_name m)"
proof (cases "mb_flags m = 2048")
  case True
  then have "utf8_decode (mb_name m) = Some name"
    using assms utf8_flag(1) by (auto simp: good_member_def decode_name_def split: option.splits)
  then show ?thesis using True utf8_flag(1) utf8_encode_decode [of "mb_name m" name]
    by (simp add: expected_name_bytes_def info_of_def)
next
  case False
  then have "mb_flags m = 0" "cp437_decode (mb_name m) = name"
    using assms by (auto simp: good_member_def decode_name_def)
  then show ?thesis using cp437_encode_decode [of "mb_name m"] by (simp add: expected_name_bytes_def info_of_def)
qed

lemma local_clean:
  assumes g: "good_member U z name m" and f: "file = pre @ local_record (deflate z) m @ post" and k: "length pre = k"
    and rest: "gives (local_headers file (int (k + length (local_record (deflate z) m))) xs) (c, offs)"
  shows "gives (local_headers file (int k) (info_of z name m k # xs)) (c, Some (int (k + 30 + length (mb_name m))) # offs)"
proof -
  note R = record_at [OF g f k]
  have "list_all (\<lambda>c. \<not> fst c) (local_checks (info_of z name m k) (local_fields z m))"
    using g utf8_flag(5,6)
    by (auto simp: local_checks_def Let_def local_fields_def info_of_def good_member_def)
  moreover have "zi_header_offset (info_of z name m k) = int k" "zi_compress_size (info_of z name m k) = length (deflate z (mb_data m))"
    by (simp_all add: info_of_def)
  moreover have "local_fields z m ! 9 = length (mb_name m)" "local_fields z m ! 10 = 0" by (simp_all add: local_fields_def)
  moreover have "int k + 30 + int (length (mb_name m)) + int (length (deflate z (mb_data m)))
      = int (k + length (local_record (deflate z) m))" by simp
  ultimately show ?thesis
    using R(1-3) rest expected_name_of [OF g] by (simp add: Let_def slice_def ac_simps)
qed

fun data_offsets :: "codec \<Rightarrow> nat \<Rightarrow> member list \<Rightarrow> int option list" where
  "data_offsets z pos [] = []"
| "data_offsets z pos (m # ms) =
     Some (int (pos + 30 + length (mb_name m))) # data_offsets z (pos + length (local_record (deflate z) m)) ms"

lemma local_headers_written:
  assumes "list_all2 (good_member U z) ns ms" "file = pre @ local_part (deflate z) ms @ post" "length pre = k"
  shows "gives (local_headers file (int k) (infos_of z k ns ms)) (int (k + length (local_part (deflate z) ms)), data_offsets z k ms)"
  using assms
proof (induction ns ms arbitrary: pre k rule: list_all2_induct)
  case Nil
  then show ?case by (simp add: local_part_def)
next
  case (Cons n ns m ms)
  have f: "file = (pre @ local_record (deflate z) m) @ local_part (deflate z) ms @ post"
    "file = pre @ local_record (deflate z) m @ local_part (deflate z) ms @ post"
    using Cons.prems(1) by (simp_all add: local_part_def)
  have "gives (local_headers file (int (k + length (local_record (deflate z) m)))
      (infos_of z (k + length (local_record (deflate z) m)) ns ms))
      (int (k + length (local_record (deflate z) m) + length (local_part (deflate z) ms)),
       data_offsets z (k + length (local_record (deflate z) m)) ms)"
    by (rule Cons.IH [OF f(1)]) (simp add: Cons.prems(2))
  from local_clean [OF Cons.hyps(1) f(2) Cons.prems(2) this] show ?case
    by (simp add: local_part_def add.assoc)
qed

section \<open>The members\<close>

lemma read_written:
  assumes g: "good_member U z name m" and f: "file = pre @ local_record (deflate z) m @ post" and k: "length pre = k"
    and e: "int (k + length (local_record (deflate z) m)) \<le> e" and z: "inflates z"
  shows "read_member z file (info_of z name m k) e = Inr (mb_data m)"
proof -
  note R = record_at [OF g f k]
  have h: "local_fields z m ! 0 = LOCAL_SIGNATURE" "local_fields z m ! 2 = mb_flags m"
    "local_fields z m ! 9 = length (mb_name m)" "local_fields z m ! 10 = 0"
    by (simp_all add: local_fields_def)
  have name: "local_name file (int k) = mb_name m" by (simp add: local_name_def R h)
  have flags: "\<not> bit (mb_flags m) 0" "\<not> bit (mb_flags m) 5" "\<not> bit (mb_flags m) 6"
    using g utf8_flag by (auto simp: good_member_def)
  have dec: "decode_name (mb_flags m) (mb_name m) = Inr name" using g by (simp add: good_member_def)
  have i: "zi_header_offset (info_of z name m k) = int k" "zi_flag_bits (info_of z name m k) = mb_flags m"
    "zi_orig_filename (info_of z name m k) = name" "zi_compress_type (info_of z name m k) = 8"
    "zi_compress_size (info_of z name m k) = length (deflate z (mb_data m))"
    "zi_file_size (info_of z name m k) = length (mb_data m)" "zi_CRC (info_of z name m k) = crc32 (mb_data m)"
    by (simp_all add: info_of_def)
  have nil: "slice file (k + 30 + length (mb_name m)) 0 = []" by (simp add: slice_def)
  show ?thesis
    unfolding read_member_def Let_def i name nat_int R(2) h nil
    using R(1) R(4) z e dec flags by (simp add: inflates_def add.assoc)
qed

lemma info_clean:
  assumes "good_member U z name m"
  shows "list_all (\<lambda>c. \<not> fst c) (info_checks U (info_of z name m k))"
proof -
  have mode: "raw_mode (info_of z name m k) = S_IFREG + mb_mode m"
    using assms canonical_mode_cases [of U name] by (auto simp: raw_mode_def info_of_def good_member_def S_IFREG_def)
  have "(S_IFREG + mb_mode m) AND 0xF000 = S_IFREG \<and> (S_IFREG + mb_mode m) AND 0xFFF = mb_mode m"
    using assms canonical_mode_cases [of U name] by (auto simp: good_member_def S_IFREG_def)
  moreover have "v_validate_portable_name U name = Inr ()"
    using assms by (simp add: good_member_def portable_name_def v_validate_eq)
  moreover have "\<not> ends_with name [47]"
  proof
    assume e: "ends_with name [47]"
    then have "name \<noteq> []" by (cases name) (auto simp: ends_with_def)
    moreover from this e have "last name = 47" by (simp add: ends_with_single)
    moreover have "split_on 47 acc (xs @ [47]) = split_on 47 acc xs @ [[]]" for acc xs
      by (induction "47 :: nat" acc xs rule: split_on.induct) auto
    ultimately have "[] \<in> set (split_on 47 [] name)" by (cases name rule: rev_cases) auto
    then show False using assms portable_nameD(6) [of U name] by (auto simp: good_member_def dots_def list_all_iff)
  qed
  ultimately show ?thesis
    using assms mode utf8_flag(5,6)
    by (auto simp: info_checks_def name_errors_def Let_def S_IFMT_def S_IMODE_def info_of_def good_member_def)
qed

lemma member_clean:
  assumes g: "good_member U z name m" and f: "file = pre @ local_record (deflate z) m @ post" and k: "length pre = k"
    and e: "int (k + length (local_record (deflate z) m)) \<le> e" and z: "inflates z"
    and listed: "map_of expected name = Some listed" "matches sha (mb_data m) listed"
  shows "gives (check_member U sha z file expected (info_of z name m k) e (Some (int (k + 30 + length (mb_name m))))) ()"
proof -
  have r: "read_member z file (info_of z name m k) e = Inr (mb_data m)" by (rule read_written [OF g f k e z])
  have p: "payload_checks file z (info_of z name m k) (Some (int (k + 30 + length (mb_name m)))) (mb_data m)
      = [(False, Non_canonical_deflate name)]"
    using record_at(4) [OF g f k] unfolding payload_checks_def by (simp add: info_of_def nat_plus_as_int del: of_nat_add)
  have i: "zi_filename (info_of z name m k) = name" "zi_file_size (info_of z name m k) = length (mb_data m)"
    "zi_CRC (info_of z name m k) = crc32 (mb_data m)"
    by (simp_all add: info_of_def)
  show ?thesis
    using info_clean [OF g, of k] listed r p by (simp add: check_member_def Let_def i matches_def)
qed

fun next_starts :: "codec \<Rightarrow> nat \<Rightarrow> member list \<Rightarrow> nat list" where
  "next_starts z pos [] = []"
| "next_starts z pos (m # ms) =
     (pos + length (local_record (deflate z) m)) # next_starts z (pos + length (local_record (deflate z) m)) ms"

definition archive_content :: "(bytes \<Rightarrow> bytes) \<Rightarrow> allowlist \<Rightarrow> ustr \<Rightarrow> member \<Rightarrow> bool" where
  "archive_content sha expected n m \<longleftrightarrow>
     (\<exists>listed. map_of expected n = Some listed \<and> matches sha (mb_data m) listed)"

lemma members_clean:
  assumes "list_all2 (good_member U z) ns ms" "list_all2 (archive_content sha expected) ns ms"
    and "file = pre @ local_part (deflate z) ms @ post" "length pre = k" "inflates z"
  shows "gives (check_members U sha z file expected
    (zip (infos_of z k ns ms) (zip (map int (next_starts z k ms)) (data_offsets z k ms)))) ()"
  using assms
proof (induction ns ms arbitrary: pre k rule: list_all2_induct)
  case (Cons n ns m ms)
  have f: "file = (pre @ local_record (deflate z) m) @ local_part (deflate z) ms @ post"
    "file = pre @ local_record (deflate z) m @ local_part (deflate z) ms @ post"
    using Cons.prems(2) by (simp_all add: local_part_def)
  obtain listed where "map_of expected n = Some listed" "matches sha (mb_data m) listed"
    using Cons.prems(1) by (auto simp: archive_content_def)
  from member_clean [OF Cons.hyps(1) f(2) Cons.prems(3) _ Cons.prems(4) this]
  have "gives (check_member U sha z file expected (info_of z n m k)
      (int (k + length (local_record (deflate z) m))) (Some (int (k + 30 + length (mb_name m))))) ()"
    by blast
  moreover have "gives (check_members U sha z file expected
      (zip (infos_of z (k + length (local_record (deflate z) m)) ns ms)
         (zip (map int (next_starts z (k + length (local_record (deflate z) m)) ms))
           (data_offsets z (k + length (local_record (deflate z) m)) ms)))) ()"
    by (rule Cons.IH [OF _ f(1) _ Cons.prems(4)]) (use Cons.prems in simp_all)
  ultimately show ?case by simp
qed simp

section \<open>Where members end\<close>

lemma filter_index: "k < n \<Longrightarrow> filter (\<lambda>x. x = k) [0..<n] = [k]"
proof (induction n)
  case (Suc n)
  then show ?case by (cases "k = n") (auto simp: filter_empty_conv)
qed simp

lemma sort_key_descending:
  assumes "sorted_wrt (<) os"
  shows "sort_key (\<lambda>i. - os ! i) [0..<length os] = rev [0..<length (os :: int list)]"
proof (rule properties_for_sort_key)
  have less: "i < j \<Longrightarrow> j < length os \<Longrightarrow> os ! i < os ! j" for i j
    using assms by (simp add: sorted_wrt_iff_nth_less)
  have inj: "i < length os \<Longrightarrow> j < length os \<Longrightarrow> os ! i = os ! j \<longleftrightarrow> i = j" for i j
    by (metis less less_irrefl linorder_neqE_nat)
  show "mset (rev [0..<length os]) = mset [0..<length os]" by simp
  show "filter (\<lambda>x. - os ! k = - os ! x) (rev [0..<length os]) = filter (\<lambda>x. - os ! k = - os ! x) [0..<length os]"
    if "k \<in> set (rev [0..<length os])" for k
  proof -
    have "filter (\<lambda>x. - os ! k = - os ! x) [0..<length os] = filter (\<lambda>x. x = k) [0..<length os]"
      by (rule filter_cong) (use that inj in auto)
    moreover have "filter (\<lambda>x. x = k) [0..<length os] = [k]"
      using that by (simp add: filter_index)
    ultimately show ?thesis by (simp flip: rev_filter)
  qed
  show "sorted (map (\<lambda>i. - os ! i) (rev [0..<length os]))"
    unfolding sorted_iff_nth_mono using less by (auto simp: rev_nth less_imp_le le_less)
qed

lemma end_offsets_nth:
  assumes os: "map zi_header_offset (zf_infos zf) = os" "sorted_wrt (<) os" and i: "i < length os"
  shows "end_offsets zf i = (os @ [int (zf_start_dir zf)]) ! Suc i"
proof -
  let ?n = "length os" and ?s = "int (zf_start_dir zf)"
  let ?ends = "?s # map (\<lambda>i. os ! i) (rev [0..<?n])"
  have z: "zip (rev [0..<?n]) ?ends = zip (rev [0..<?n]) (take ?n ?ends)"
    using take_zip [of ?n "rev [0..<?n]" ?ends] by simp
  have "map_of (zip (rev [0..<?n]) (take ?n ?ends)) (rev [0..<?n] ! (?n - Suc i)) = Some (take ?n ?ends ! (?n - Suc i))"
    by (rule map_of_zip_nth) (use i in simp_all)
  moreover have "rev [0..<?n] ! (?n - Suc i) = i" using i by (simp add: rev_nth)
  moreover have "take ?n ?ends ! (?n - Suc i) = (os @ [?s]) ! Suc i"
  proof (cases "Suc i = ?n")
    case False
    then obtain j where j: "?n - Suc i = Suc j" "j < ?n" using i by (cases "?n - Suc i") auto
    have "rev [0..<?n] ! j = Suc i" using j by (simp add: rev_nth)
    then show ?thesis using j i False by (simp add: nth_append)
  next
    case True
    then show ?thesis using i by (cases os) (auto simp: nth_append)
  qed
  ultimately show ?thesis
    using os(1) sort_key_descending [OF os(2)] z unfolding end_offsets_def Let_def
    by (simp only: os(1)) simp
qed

lemma infos_of_facts:
  assumes "length ns = length ms"
  shows "length (infos_of z pos ns ms) = length ms"
    "map zi_filename (infos_of z pos ns ms) = ns"
    "map zi_header_offset (infos_of z pos ns ms) = map int (offsets (deflate z) pos ms)"
  using assms by (induction ns ms arbitrary: pos rule: list_induct2) (simp_all add: info_of_def)

lemma offsets_sorted: "sorted_wrt (<) (map int (offsets (deflate z) pos ms))"
proof -
  have "\<forall>k \<in> set (offsets (deflate z) pos ms). pos \<le> k" for pos ms
  proof (induction ms arbitrary: pos)
    case (Cons m ms)
    from Cons.IH [of "pos + length (local_record (deflate z) m)"] show ?case by auto
  qed simp
  then have "sorted_wrt (<) (offsets (deflate z) pos ms)"
  proof (induction ms arbitrary: pos)
    case (Cons m ms)
    have "\<forall>k \<in> set (offsets (deflate z) (pos + length (local_record (deflate z) m)) ms). pos < k"
      using Cons.prems [of "pos + length (local_record (deflate z) m)" ms] by fastforce
    then show ?case using Cons by simp
  qed simp
  then show ?thesis by (simp add: sorted_wrt_map)
qed

lemma next_starts_offsets:
  "next_starts z pos ms = tl (offsets (deflate z) pos ms @ [pos + length (local_part (deflate z) ms)])"
proof (induction ms arbitrary: pos)
  case (Cons m ms)
  show ?case using Cons [of "pos + length (local_record (deflate z) m)"]
    by (cases ms) (simp_all add: local_part_def add.assoc)
qed (simp add: local_part_def)

lemma ends_written:
  assumes zf: "zf_infos zf = infos_of z 0 ns ms" "zf_start_dir zf = length (local_part (deflate z) ms)"
    and len: "length ns = length ms"
  shows "map (end_offsets zf) [0..<length ms] = map int (next_starts z 0 ms)"
proof (rule nth_equalityI)
  let ?os = "map int (offsets (deflate z) 0 ms)"
  fix i assume i: "i < length (map (end_offsets zf) [0..<length ms])"
  have "map zi_header_offset (zf_infos zf) = ?os" using zf(1) infos_of_facts(3) [OF len] by simp
  from end_offsets_nth [OF this offsets_sorted] i
  have "end_offsets zf i = (?os @ [int (zf_start_dir zf)]) ! Suc i" by simp
  also have "\<dots> = tl (?os @ [int (zf_start_dir zf)]) ! i" using i by (simp add: nth_tl)
  also have "tl (?os @ [int (zf_start_dir zf)]) = map int (next_starts z 0 ms)"
    by (simp add: next_starts_offsets zf(2) map_tl)
  finally show "map (end_offsets zf) [0..<length ms] ! i = map int (next_starts z 0 ms) ! i" using i by simp
qed (simp add: next_starts_offsets)

section \<open>testzip\<close>

lemma map_of_rev_self:
  assumes "distinct (map f xs)" "x \<in> set xs"
  shows "map_of (rev (map (\<lambda>p. (f p, p)) xs)) (f x) = Some x"
proof -
  have "distinct (map fst (rev (map (\<lambda>p. (f p, p)) xs)))" using assms(1) by (simp add: rev_map [symmetric] comp_def)
  then show ?thesis using assms(2) by (simp add: map_of_eq_Some_iff)
qed

lemma testzip_clean:
  assumes "distinct (map (\<lambda>p. zi_filename (fst p)) all)" "set ps \<subseteq> set all"
    and "\<And>p. p \<in> set all \<Longrightarrow> \<exists>data. read_member z file (fst p) (snd p) = Inr data"
  shows "gives (testzip z file all ps) None"
  using assms(2)
proof (induction ps)
  case (Cons p ps)
  obtain x e where p: "p = (x, e)" by (cases p)
  have "map_of (rev (map (\<lambda>p. (zi_filename (fst p), p)) all)) (zi_filename x) = Some (x, e)"
    using map_of_rev_self [OF assms(1), of p] Cons.prems by (simp add: p)
  moreover obtain data where "read_member z file x e = Inr data" using assms(3) [of p] Cons.prems p by auto
  ultimately show ?case using Cons by (simp add: p)
qed simp

lemma reads_written:
  assumes "list_all2 (good_member U z) ns ms" "file = pre @ local_part (deflate z) ms @ post" "length pre = k" "inflates z"
    and "p \<in> set (zip (infos_of z k ns ms) (map int (next_starts z k ms)))"
  shows "\<exists>data. read_member z file (fst p) (snd p) = Inr data"
  using assms
proof (induction ns ms arbitrary: pre k rule: list_all2_induct)
  case (Cons n ns m ms)
  have f: "file = (pre @ local_record (deflate z) m) @ local_part (deflate z) ms @ post"
    "file = pre @ local_record (deflate z) m @ local_part (deflate z) ms @ post"
    using Cons.prems(1) by (simp_all add: local_part_def)
  consider "p = (info_of z n m k, int (k + length (local_record (deflate z) m)))"
    | "p \<in> set (zip (infos_of z (k + length (local_record (deflate z) m)) ns ms)
        (map int (next_starts z (k + length (local_record (deflate z) m)) ms)))"
    using Cons.prems(4) by auto
  then show ?case
  proof cases
    case 1
    then show ?thesis using read_written [OF Cons.hyps(1) f(2) Cons.prems(2) order_refl Cons.prems(3)] by auto
  next
    case 2
    show ?thesis by (rule Cons.IH [OF f(1) _ Cons.prems(3) 2]) (simp add: Cons.prems(2))
  qed
qed simp

section \<open>The whole archive\<close>

text \<open>
  The two places where the search for the end record can be led astray: its signature showing up in its
  own number fields, and a ZIP64 locator signature in the central directory 20 bytes before it.
\<close>

definition end_unambiguous :: "(bytes \<Rightarrow> bytes) \<Rightarrow> member list \<Rightarrow> bool" where
  "end_unambiguous zip9 ms \<longleftrightarrow> (let
       centrals = central_part zip9 ms (map2 tight ms (offsets zip9 0 ms));
       locals = local_part zip9 ms;
       last22 = end_record (length ms) (length centrals) (length locals)
     in list_all (\<lambda>i. slice last22 i 4 \<noteq> le 4 EOCD_SIGNATURE) [1..<22]
        \<and> (20 \<le> length (locals @ centrals) \<longrightarrow>
           slice (locals @ centrals) (length (locals @ centrals) - 20) 4 \<noteq> le 4 LOCATOR64_SIGNATURE))"

lemma rfind_last:
  assumes "i < length bs" "slice bs i (length pat) = pat" "\<And>j. i < j \<Longrightarrow> j < length bs \<Longrightarrow> slice bs j (length pat) \<noteq> pat"
  shows "rfind pat bs = Some i"
proof -
  have "[0..<length bs] = [0..<i] @ i # [Suc i..<length bs]"
    using assms(1) by (metis less_imp_add_positive upt_add_eq_append upt_conv_Cons le0 less_imp_le add.left_neutral add.commute)
  moreover have "filter (\<lambda>i. slice bs i (length pat) = pat) [Suc i..<length bs] = []"
    using assms(3) by (auto simp: filter_empty_conv)
  ultimately show ?thesis using assms(2) by (simp add: rfind_def Let_def)
qed

lemma end_record_fields:
  assumes "n < 65536" "sz < 2 ^ 32" "off < 2 ^ 32"
  shows "unpack EOCD_FORMAT (end_record n sz off) = [EOCD_SIGNATURE, 0, 0, n, n, sz, off, 0]"
proof -
  have "fits EOCD_FORMAT [EOCD_SIGNATURE, 0, 0, n, n, sz, off, 0]"
    using assms by (simp add: fits_def EOCD_FORMAT_def EOCD_SIGNATURE_def)
  then show ?thesis using unpack_pack [of EOCD_FORMAT _ "[]"] by (simp add: end_record_def)
qed

lemma end_record_found:
  assumes fl: "file = body @ end_record n sz off" and b: "n < 65536" "sz < 2 ^ 32" "off < 2 ^ 32"
    and clear: "list_all (\<lambda>i. slice (end_record n sz off) i 4 \<noteq> le 4 EOCD_SIGNATURE) [1..<22]"
    and k: "k \<le> length body"
  shows "rfind (le 4 EOCD_SIGNATURE) (drop k file) = Some (length body - k)"
    "slice (drop k file) (length body - k) 22 = end_record n sz off"
proof -
  let ?e = "end_record n sz off" and ?i = "length body - k"
  have d: "drop k file = drop k body @ ?e" using k by (simp add: fl)
  have at: "slice (drop k file) (?i + j) 4 = slice ?e j 4" for j
    by (simp add: d slice_def)
  have "take 4 ?e = le 4 EOCD_SIGNATURE" by (simp add: end_record_def EOCD_FORMAT_def)
  then have first: "slice (drop k file) ?i 4 = le 4 EOCD_SIGNATURE" using at [of 0] by (simp add: slice_def)
  show "rfind (le 4 EOCD_SIGNATURE) (drop k file) = Some ?i"
  proof (rule rfind_last)
    show "?i < length (drop k file)" using k by (simp add: fl)
    show "slice (drop k file) ?i (length (le 4 EOCD_SIGNATURE)) = le 4 EOCD_SIGNATURE" using first by simp
    fix j assume j: "?i < j" "j < length (drop k file)"
    then have "j - ?i \<in> {1..<22}" using k by (auto simp: fl)
    then have "slice ?e (j - ?i) 4 \<noteq> le 4 EOCD_SIGNATURE" using clear by (simp add: list_all_iff)
    then show "slice (drop k file) j (length (le 4 EOCD_SIGNATURE)) \<noteq> le 4 EOCD_SIGNATURE"
      using at [of "j - ?i"] j(1) by simp
  qed
  show "slice (drop k file) ?i 22 = ?e" by (simp add: d slice_def)
qed

lemma directory_written:
  assumes good: "list_all2 (good_member U z) ns ms" and n: "length ms < 65536"
    and sizes: "length (local_part (deflate z) ms) < 2 ^ 31"
      "length (central_part (deflate z) ms (map2 tight ms (offsets (deflate z) 0 ms))) < 2 ^ 31"
    and clear: "end_unambiguous (deflate z) ms"
  shows "read_directory z (archive_bytes (deflate z) ms) = Inr \<lparr>zf_infos = infos_of z 0 ns ms,
      zf_start_dir = length (local_part (deflate z) ms), zf_comment = []\<rparr>"
    "gives (verify_eocd (archive_bytes (deflate z) ms) \<lparr>zf_infos = infos_of z 0 ns ms,
      zf_start_dir = length (local_part (deflate z) ms), zf_comment = []\<rparr> (length ms)) ()"
proof -
  define L where "L = local_part (deflate z) ms"
  define C where "C = central_part (deflate z) ms (map2 tight ms (offsets (deflate z) 0 ms))"
  define e where "e = end_record (length ms) (length C) (length L)"
  define body where "body = L @ C"
  have fl: "archive_bytes (deflate z) ms = body @ e"
    by (simp add: archive_bytes_def Let_def L_def C_def e_def body_def)
  have le: "length e = 22" by (simp add: e_def)
  have C32: "length C < 2 ^ 32" and L32: "length L < 2 ^ 32" using sizes by (simp_all add: L_def C_def)
  have u: "unpack EOCD_FORMAT e = [EOCD_SIGNATURE, 0, 0, length ms, length ms, length C, length L, 0]"
    unfolding e_def by (rule end_record_fields [OF n C32 L32])
  have sep: "list_all (\<lambda>i. slice e i 4 \<noteq> le 4 EOCD_SIGNATURE) [1..<22]"
    and loc: "20 \<le> length body \<Longrightarrow> slice body (length body - 20) 4 \<noteq> le 4 LOCATOR64_SIGNATURE"
    using clear unfolding end_unambiguous_def Let_def L_def [symmetric] C_def [symmetric] e_def [symmetric] body_def [symmetric]
    by simp_all
  define e0 where "e0 = \<lparr>ei_zip64 = False, ei_size = length C, ei_offset = length L, ei_comment = [], ei_location = length body\<rparr>"
  have "end_record64 (body @ e) e0 = Inr e0"
  proof (cases "20 \<le> length body")
    case True
    have "take 4 (slice (body @ e) (length body - 20) 20) = slice body (length body - 20) 4"
      using True by (simp add: slice_def)
    then have "unpack LOCATOR64_FORMAT (slice (body @ e) (length body - 20) 20) ! 0 \<noteq> LOCATOR64_SIGNATURE"
      using loc [OF True] unpack_sig [of "slice (body @ e) (length body - 20) 20" "[4, 8, 4]" LOCATOR64_SIGNATURE]
      by (auto simp: LOCATOR64_FORMAT_def length_slice le)
    then show ?thesis by (simp add: end_record64_def Let_def e0_def)
  qed (simp add: end_record64_def Let_def e0_def)
  then have find_end: "find_end_record (body @ e) = Inr e0"
    by (simp add: find_end_record_def Let_def le u e0_def)
  have "central_loop z (length C) C = Inr (infos_of z 0 ns ms)"
    unfolding C_def by (rule central_directory [OF good]) (use L32 in \<open>simp add: L_def\<close>)
  moreover have "slice (body @ e) (length L) (length C) = C" by (simp add: body_def slice_def)
  moreover have "map (shift_offset 0) xs = xs" for xs
    by (rule map_idI) (simp add: shift_offset_def)
  ultimately show "read_directory z (archive_bytes (deflate z) ms) = Inr \<lparr>zf_infos = infos_of z 0 ns ms,
      zf_start_dir = length (local_part (deflate z) ms), zf_comment = []\<rparr>"
    unfolding fl read_directory_def find_end L_def [symmetric] by (simp add: e0_def body_def)
  let ?ts = "min (length (body @ e)) 65557"
  have k: "length (body @ e) - ?ts \<le> length body" by (simp add: le)
  note F = end_record_found [OF refl n C32 L32 sep [unfolded e_def] k [unfolded e_def], folded e_def]
  have pos: "length (body @ e) - ?ts + (length body - (length (body @ e) - ?ts)) = length body"
    using k by simp
  have tail: "length (drop (length (body @ e) - ?ts) (body @ e)) = length body - (length (body @ e) - ?ts) + 22"
    using k by (simp add: le)
  have "list_all (\<lambda>c. \<not> fst c) (eocd_checks (unpack EOCD_FORMAT e) (length body) (length (body @ e)) (length ms) (length L))"
    by (simp add: eocd_checks_clean u le body_def)
  then show "gives (verify_eocd (archive_bytes (deflate z) ms) \<lparr>zf_infos = infos_of z 0 ns ms,
      zf_start_dir = length (local_part (deflate z) ms), zf_comment = []\<rparr> (length ms)) ()"
    unfolding fl verify_eocd_def Let_def L_def [symmetric]
    using F pos tail by (simp add: le)
qed

text \<open>A file that starts with the local records and whose directory reads as the members' passes.\<close>

lemma contents_clean:
  assumes good: "list_all2 (good_member U z) (sort (map fst expected)) ms"
    and content: "list_all2 (archive_content sha expected) (sort (map fst expected)) ms"
    and start: "arch = local_part (deflate z) ms @ post"
    and dir: "read_directory z arch = Inr \<lparr>zf_infos = infos_of z 0 (sort (map fst expected)) ms,
      zf_start_dir = length (local_part (deflate z) ms), zf_comment = []\<rparr>"
    and eocd: "gives (verify_eocd arch \<lparr>zf_infos = infos_of z 0 (sort (map fst expected)) ms,
      zf_start_dir = length (local_part (deflate z) ms), zf_comment = []\<rparr> (length ms)) ()"
    and z: "inflates z"
    and names: "distinct (map (\<lambda>x. casefold U (nfc U x)) (map fst expected))"
  shows "gives (verify_contents U sha z arch expected) ()"
proof -
  let ?ns = "sort (map fst expected)" and ?file = "arch"
  let ?infos = "infos_of z 0 ?ns ms"
  define zf where "zf = \<lparr>zf_infos = ?infos, zf_start_dir = length (local_part (deflate z) ms), zf_comment = []\<rparr>"
  note D = dir [folded zf_def] eocd [folded zf_def]
  have len: "length ?ns = length ms" by (rule list_all2_lengthD [OF good])
  note I = infos_of_facts [OF len]
  have zf: "zf_infos zf = ?infos" "zf_comment zf = []" "zf_start_dir zf = length (local_part (deflate z) ms)"
    by (simp_all add: zf_def)
  have ends: "map (end_offsets zf) [0..<length ms] = map int (next_starts z 0 ms)"
    by (rule ends_written [OF zf(1,3) len])
  have fl: "?file = [] @ local_part (deflate z) ms @ post" by (simp add: start)
  have inj: "distinct (map fst expected)" "inj_on (\<lambda>x. casefold U (nfc U x)) (set (map fst expected))"
    using names distinct_map by blast+
  have dn: "distinct ?ns" using inj(1) by simp
  have norm: "distinct (map (\<lambda>x. casefold U (nfc U x)) ?ns)"
    by (rule distinct_map [THEN iffD2]) (use dn inj(2) in simp)
  have members: "list_all (\<lambda>c. \<not> fst c) (membership U ?ns ?ns @ [(zf_comment zf \<noteq> [], Unexpected_archive_comment)])"
    using distinct_card [OF dn] distinct_card [OF norm] by (simp add: membership_def zf sorted_sort_id)
  have local: "gives (verify_local_headers ?file zf) (data_offsets z 0 ms)"
    using local_headers_written [OF good fl] by (auto simp: verify_local_headers_def zf)
  have mem: "gives (check_members U sha z ?file expected (zip ?infos (zip (map int (next_starts z 0 ms)) (data_offsets z 0 ms)))) ()"
    by (rule members_clean [OF good content fl _ z]) simp
  have lens: "length (next_starts z 0 ms) = length ms" by (simp add: next_starts_offsets)
  have tz: "gives (testzip z ?file (zip ?infos (map int (next_starts z 0 ms))) (zip ?infos (map int (next_starts z 0 ms)))) None"
  proof (rule testzip_clean)
    have "map (\<lambda>p. zi_filename (fst p)) (zip ?infos (map int (next_starts z 0 ms))) = map zi_filename (map fst (zip ?infos (map int (next_starts z 0 ms))))"
      by simp
    then show "distinct (map (\<lambda>p. zi_filename (fst p)) (zip ?infos (map int (next_starts z 0 ms))))"
      using dn I lens by (simp only: map_fst_zip length_map)
    show "\<exists>data. read_member z ?file (fst p) (snd p) = Inr data"
      if "p \<in> set (zip ?infos (map int (next_starts z 0 ms)))" for p
      by (rule reads_written [OF good fl _ z that]) simp
  qed simp
  show ?thesis
    unfolding verify_contents_def Let_def gives_bind gives_lift
  proof (intro exI conjI)
    show "read_directory z ?file = Inr zf" by (rule D(1))
    show "gives ([Listed (length (zf_infos zf))], Inr ()) ()" by simp
    show "gives (say (membership U (map zi_filename (zf_infos zf)) ?ns
        @ [(zf_comment zf \<noteq> [], Unexpected_archive_comment)])) ()"
      using members by (simp only: zf I gives_say)
    show "gives (verify_eocd ?file zf (length (zf_infos zf))) ()" using D(2) by (simp only: zf I)
    show "gives (verify_local_headers ?file zf) (data_offsets z 0 ms)" by (rule local)
    show "gives (check_members U sha z ?file expected (zip (zf_infos zf)
        (zip (map (end_offsets zf) [0..<length (zf_infos zf)]) (data_offsets z 0 ms)))) ()"
      using mem by (simp only: zf I ends)
    show "gives (testzip z ?file (zip (zf_infos zf) (map (end_offsets zf) [0..<length (zf_infos zf)]))
        (zip (zf_infos zf) (map (end_offsets zf) [0..<length (zf_infos zf)]))) None"
      using tz by (simp only: zf I ends)
    show "gives (case None of None \<Rightarrow> run_return () | Some name \<Rightarrow> say [(True, CRC_testzip_failure name)]) ()" by simp
  qed
qed

lemma written_contents:
  assumes "list_all2 (good_member U z) (sort (map fst expected)) ms"
    and "list_all2 (archive_content sha expected) (sort (map fst expected)) ms"
    and "length ms < 65536" and "length (local_part (deflate z) ms) < 2 ^ 31"
      "length (central_part (deflate z) ms (map2 tight ms (offsets (deflate z) 0 ms))) < 2 ^ 31"
    and "end_unambiguous (deflate z) ms" and "inflates z"
    and "distinct (map (\<lambda>x. casefold U (nfc U x)) (map fst expected))"
  shows "gives (verify_contents U sha z (archive_bytes (deflate z) ms) expected) ()"
  by (rule contents_clean [OF assms(1,2) _ directory_written [OF assms(1,3-6)] assms(7,8)])
    (simp add: archive_bytes_def Let_def)

section \<open>A gap the verifier does not see\<close>

text \<open>
  A ZIP64 end record and its locator between the central directory and the end record: the reader takes
  the size and offset of the directory from it, the end record counts it as part of the directory, and
  its other fields (here \<open>a\<close> to \<open>h\<close>) are read by nobody.
\<close>

definition zip64_records :: "nat list \<Rightarrow> nat \<Rightarrow> nat \<Rightarrow> bytes" where
  "zip64_records free sz off =
     pack EOCD64_FORMAT ([EOCD64_SIGNATURE] @ take 7 free @ [sz, off])
     @ pack LOCATOR64_FORMAT [LOCATOR64_SIGNATURE, 0, free ! 7, 1]"

definition archive_with_gap :: "(bytes \<Rightarrow> bytes) \<Rightarrow> nat list \<Rightarrow> member list \<Rightarrow> bytes" where
  "archive_with_gap zip9 free ms = (let
       locals = local_part zip9 ms;
       centrals = central_part zip9 ms (map2 tight ms (offsets zip9 0 ms))
     in locals @ centrals @ zip64_records free (length centrals) (length locals)
        @ end_record (length ms) (length centrals + 76) (length locals))"

lemma zip64_read:
  assumes "fits [8, 2, 2, 4, 4, 8, 8, 8] free" "sz < 2 ^ 32" "off < 2 ^ 32"
  shows "length (zip64_records free sz off) = 76"
    "unpack EOCD64_FORMAT (slice (body @ zip64_records free sz off @ e) (length body) 56)
       = [EOCD64_SIGNATURE] @ take 7 free @ [sz, off]"
    "unpack LOCATOR64_FORMAT (slice (body @ zip64_records free sz off @ e) (length body + 56) 20)
       = [LOCATOR64_SIGNATURE, 0, free ! 7, 1]"
proof -
  let ?r = "[EOCD64_SIGNATURE] @ take 7 free @ [sz, off]" and ?l = "[LOCATOR64_SIGNATURE, 0, free ! 7, 1]"
  obtain a b c d p q g h where fr: "free = [a, b, c, d, p, q, g, h]"
    using assms(1) by (auto simp: fits_def list_all2_Cons1)
  have lr: "length (pack EOCD64_FORMAT ?r) = 56" by (simp add: fr length_pack EOCD64_FORMAT_def)
  have ll: "length (pack LOCATOR64_FORMAT ?l) = 20" by (simp add: length_pack LOCATOR64_FORMAT_def)
  show "length (zip64_records free sz off) = 76" using lr ll by (simp add: zip64_records_def)
  have "fits EOCD64_FORMAT ?r" "fits LOCATOR64_FORMAT ?l"
    using assms by (auto simp: fr fits_def EOCD64_FORMAT_def LOCATOR64_FORMAT_def EOCD64_SIGNATURE_def LOCATOR64_SIGNATURE_def)
  then have u: "unpack EOCD64_FORMAT (pack EOCD64_FORMAT ?r) = ?r" "unpack LOCATOR64_FORMAT (pack LOCATOR64_FORMAT ?l) = ?l"
    using unpack_pack [of _ _ "[]"] by simp_all
  have "slice (body @ zip64_records free sz off @ e) (length body) 56 = pack EOCD64_FORMAT ?r"
    using slice_at [OF refl lr] by (simp add: zip64_records_def)
  then show "unpack EOCD64_FORMAT (slice (body @ zip64_records free sz off @ e) (length body) 56) = ?r"
    using u(1) by simp
  have "slice ((body @ pack EOCD64_FORMAT ?r) @ pack LOCATOR64_FORMAT ?l @ e) (length body + 56) 20 = pack LOCATOR64_FORMAT ?l"
    by (rule slice_at) (use lr ll in simp_all)
  then show "unpack LOCATOR64_FORMAT (slice (body @ zip64_records free sz off @ e) (length body + 56) 20) = ?l"
    using u(2) by (simp add: zip64_records_def)
qed

lemma directory_with_gap:
  assumes good: "list_all2 (good_member U z) ns ms" and n: "length ms < 65536"
    and sizes: "length (local_part (deflate z) ms) < 2 ^ 31"
      "length (central_part (deflate z) ms (map2 tight ms (offsets (deflate z) 0 ms))) < 2 ^ 31"
    and free: "fits [8, 2, 2, 4, 4, 8, 8, 8] free"
    and sep: "list_all (\<lambda>i. slice (end_record (length ms)
        (length (central_part (deflate z) ms (map2 tight ms (offsets (deflate z) 0 ms))) + 76)
        (length (local_part (deflate z) ms))) i 4 \<noteq> le 4 EOCD_SIGNATURE) [1..<22]"
  shows "read_directory z (archive_with_gap (deflate z) free ms) = Inr \<lparr>zf_infos = infos_of z 0 ns ms,
      zf_start_dir = length (local_part (deflate z) ms), zf_comment = []\<rparr>"
    "gives (verify_eocd (archive_with_gap (deflate z) free ms) \<lparr>zf_infos = infos_of z 0 ns ms,
      zf_start_dir = length (local_part (deflate z) ms), zf_comment = []\<rparr> (length ms)) ()"
proof -
  define L where "L = local_part (deflate z) ms"
  define C where "C = central_part (deflate z) ms (map2 tight ms (offsets (deflate z) 0 ms))"
  define G where "G = zip64_records free (length C) (length L)"
  define e where "e = end_record (length ms) (length C + 76) (length L)"
  define body where "body = (L @ C) @ G"
  have fl: "archive_with_gap (deflate z) free ms = body @ e"
    by (simp add: archive_with_gap_def Let_def L_def C_def G_def e_def body_def)
  have le: "length e = 22" by (simp add: e_def)
  have C32: "length C < 2 ^ 32" "length C + 76 < 2 ^ 32" and L32: "length L < 2 ^ 32"
    using sizes by (simp_all add: L_def C_def)
  note G = zip64_read [OF free C32(1) L32, folded G_def]
  have lb: "length body = length L + length C + 76" by (simp add: body_def G(1))
  have u: "unpack EOCD_FORMAT e = [EOCD_SIGNATURE, 0, 0, length ms, length ms, length C + 76, length L, 0]"
    unfolding e_def by (rule end_record_fields [OF n C32(2) L32])
  obtain f where fr: "f = free ! 7" by blast
  define e0 where "e0 = \<lparr>ei_zip64 = False, ei_size = length C + 76, ei_offset = length L, ei_comment = [], ei_location = length body\<rparr>"
  define e1 where "e1 = \<lparr>ei_zip64 = True, ei_size = length C, ei_offset = length L, ei_comment = [], ei_location = length body\<rparr>"
  have at: "length body - 20 = length (L @ C) + 56" "length body - 76 = length (L @ C)" by (simp_all add: lb)
  have r: "unpack LOCATOR64_FORMAT (slice (body @ e) (length body - 20) 20) = [LOCATOR64_SIGNATURE, 0, free ! 7, 1]"
    "unpack EOCD64_FORMAT (slice (body @ e) (length body - 76) 56) = [EOCD64_SIGNATURE] @ take 7 free @ [length C, length L]"
    using G(2,3) [of "L @ C" e] unfolding at by (simp_all add: body_def)
  have l7: "length (take 7 free) = 7" using free by (auto simp: fits_def list_all2_Cons1)
  have "end_record64 (body @ e) e0 = Inr e1"
    using r l7 lb by (simp add: end_record64_def Let_def e0_def e1_def nth_append)
  then have find_end: "find_end_record (body @ e) = Inr e1"
    by (simp add: find_end_record_def Let_def le u e0_def)
  have "central_loop z (length C) C = Inr (infos_of z 0 ns ms)"
    unfolding C_def by (rule central_directory [OF good]) (use L32 in \<open>simp add: L_def\<close>)
  moreover have "slice (body @ e) (length L) (length C) = C" by (simp add: body_def slice_def)
  moreover have "map (shift_offset 0) xs = xs" for xs
    by (rule map_idI) (simp add: shift_offset_def)
  ultimately show "read_directory z (archive_with_gap (deflate z) free ms) = Inr \<lparr>zf_infos = infos_of z 0 ns ms,
      zf_start_dir = length (local_part (deflate z) ms), zf_comment = []\<rparr>"
    unfolding fl read_directory_def find_end L_def [symmetric] by (simp add: e1_def lb)
  let ?ts = "min (length (body @ e)) 65557"
  have k: "length (body @ e) - ?ts \<le> length body" by (simp add: le)
  have sep': "list_all (\<lambda>i. slice e i 4 \<noteq> le 4 EOCD_SIGNATURE) [1..<22]"
    using sep by (simp only: e_def C_def L_def)
  note F = end_record_found [OF refl n C32(2) L32 sep' [unfolded e_def] k [unfolded e_def], folded e_def]
  have pos: "length (body @ e) - ?ts + (length body - (length (body @ e) - ?ts)) = length body"
    using k by simp
  have tail: "length (drop (length (body @ e) - ?ts) (body @ e)) = length body - (length (body @ e) - ?ts) + 22"
    using k by (simp add: le)
  have "list_all (\<lambda>c. \<not> fst c) (eocd_checks (unpack EOCD_FORMAT e) (length body) (length (body @ e)) (length ms) (length L))"
    by (simp add: eocd_checks_clean u le lb)
  then show "gives (verify_eocd (archive_with_gap (deflate z) free ms) \<lparr>zf_infos = infos_of z 0 ns ms,
      zf_start_dir = length (local_part (deflate z) ms), zf_comment = []\<rparr> (length ms)) ()"
    unfolding fl verify_eocd_def Let_def L_def [symmetric]
    using F pos tail by (simp add: le)
qed

text \<open>So the verifier takes an archive with 44 bytes of anybody's choice in front of its end record.\<close>

lemma gap_contents:
  assumes "list_all2 (good_member U z) (sort (map fst expected)) ms"
    and "list_all2 (archive_content sha expected) (sort (map fst expected)) ms"
    and "length ms < 65536" and "length (local_part (deflate z) ms) < 2 ^ 31"
      "length (central_part (deflate z) ms (map2 tight ms (offsets (deflate z) 0 ms))) < 2 ^ 31"
    and "fits [8, 2, 2, 4, 4, 8, 8, 8] free"
    and "list_all (\<lambda>i. slice (end_record (length ms)
        (length (central_part (deflate z) ms (map2 tight ms (offsets (deflate z) 0 ms))) + 76)
        (length (local_part (deflate z) ms))) i 4 \<noteq> le 4 EOCD_SIGNATURE) [1..<22]"
    and "inflates z" and "distinct (map (\<lambda>x. casefold U (nfc U x)) (map fst expected))"
  shows "gives (verify_contents U sha z (archive_with_gap (deflate z) free ms) expected) ()"
  by (rule contents_clean [OF assms(1,2) _ directory_with_gap [OF assms(1,3-7)] assms(8,9)])
    (simp add: archive_with_gap_def Let_def)

section \<open>One archive, seen without change\<close>

text \<open>What the calls around a file that nobody touches return.\<close>

definition quiet_reading :: "status \<Rightarrow> bytes \<Rightarrow> archive_reading" where
  "quiet_reading st content = \<lparr>ar_before = Some st, ar_hashed = Some content, ar_opened = Some st,
     ar_stream = content, ar_after_read = Some st, ar_after = Some st, ar_hashed_again = Some content\<rparr>"

lemma quiet_pass:
  assumes "gives (verify_contents U sha z content expected) ()" "st_kind st = Regular_file" "\<not> st_reparse st"
  shows "\<exists>r. verify_archive U sha z (quiet_reading st content) expected = Inr r \<and> rp_pass r"
proof -
  have "gives (archive_run U sha z (quiet_reading st content) expected) ()"
    using assms by (auto simp: archive_run_def quiet_reading_def plain_archive_def require_plain_file_def is_link_def
        need_def differs_def)
  then obtain l where "archive_run U sha z (quiet_reading st content) expected = (l, Inr ())" "logged_findings l = []"
    by (auto simp: gives_def)
  then show ?thesis using verify_archive_pass by blast
qed

end
