(* ===== verification/Release_Theorems.thy ===== *)
theory Release_Theorems
  imports Zip_Complete
begin

text \<open>
  The properties of the release tools: archive names, the allowlist and its two parsers, the walk of the
  source, the archive verifier and the builder; with each the concrete input it is applied to.
\<close>

section \<open>Sample input\<close>

definition ascii_lower :: "ustr \<Rightarrow> ustr" where
  "ascii_lower s = map (\<lambda>c. if 65 \<le> c \<and> c \<le> 90 then c + 32 else c) s"

definition ascii_upper :: "ustr \<Rightarrow> ustr" where
  "ascii_upper s = map (\<lambda>c. if 97 \<le> c \<and> c \<le> 122 then c - 32 else c) s"

text \<open>The Unicode tables on ASCII text.\<close>

definition ascii_tables :: unicode where
  "ascii_tables = \<lparr>nfc = id, casefold = ascii_lower, lower = ascii_lower, upper = ascii_upper\<rparr>"

definition zero_sha :: "bytes \<Rightarrow> bytes" where
  "zero_sha b = replicate 32 0"

definition zero_hex :: ustr where
  "zero_hex = replicate 64 48"

definition two_files :: allowlist where
  "two_files = [(lit ''a.txt'', \<lparr>ef_sha256 = zero_hex, ef_size = 2\<rparr>), (lit ''b/run.py'', \<lparr>ef_sha256 = zero_hex, ef_size = 10\<rparr>)]"

lemma two_files_portable: "portable_name ascii_tables (lit ''a.txt'')" "portable_name ascii_tables (lit ''b/run.py'')"
  by code_simp+

lemma two_files_listing: "listing ascii_tables two_files"
proof -
  have hex: "list_all lower_hex zero_hex" "length zero_hex = 64"
    by (simp_all add: zero_hex_def list_all_iff lower_hex_def)
  have "list_all (entry_ok ascii_tables) two_files"
    by (simp add: hex two_files_def entry_ok_def two_files_portable)
      (simp add: udec.simps lit_def only_lf_def line_end_def scalar_def)
  moreover have "map fst two_files = sort (map fst two_files)" by (simp add: two_files_def lit_def)
  moreover have "distinct (map (\<lambda>x. casefold ascii_tables (nfc ascii_tables x)) (map fst two_files))"
    by (simp add: two_files_def lit_def ascii_tables_def ascii_lower_def)
  ultimately show ?thesis by (simp add: listing_def two_files_def)
qed

section \<open>Names\<close>

text \<open>C34. A name that the check accepts is the join of its components, is already in NFC, and resolves,
  against any directory, to the path below it with exactly these components: none is empty or dotted, has
  a separator or a control character, is a reserved device name or a forbidden directory.\<close>

theorem accepted_name_stays_inside:
  assumes "validate_portable_name U name = Inr ()"
  shows "join_on 47 (split_on 47 [] name) = name \<and> nfc U name = name
    \<and> resolve root (split_on 47 [] name) = root @ split_on 47 [] name
    \<and> (\<forall>c \<in> set (split_on 47 [] name). c \<noteq> [] \<and> 47 \<notin> set c \<and> 92 \<notin> set c \<and> plain_component U c)"
proof -
  have p: "portable_name U name" using assms by (simp add: portable_name_def)
  note P = portable_nameD [OF p]
  have "\<forall>c \<in> set (split_on 47 [] name). c \<noteq> [] \<and> 47 \<notin> set c \<and> 92 \<notin> set c \<and> plain_component U c"
    using P(4,6,7) split_no_sep [of 47 "[]" _ name] split_chars [of 47 "[]" name]
    by (fastforce simp: list_all_iff dots_def)
  then show ?thesis using join_split [of 47 "[]" name] resolve_plain [OF P(6)] P(2) by simp
qed

theorem accepted_name_stays_inside_witness:
  "resolve [lit ''srv''] (split_on 47 [] (lit ''b/run.py'')) = [lit ''srv''] @ split_on 47 [] (lit ''b/run.py'')"
  using accepted_name_stays_inside [of ascii_tables "lit ''b/run.py''" "[lit ''srv'']"] two_files_portable(2)
  by (simp add: portable_name_def)

section \<open>The allowlist\<close>

text \<open>C35. As long as the decoded text has no line boundary but LF, the parser returns a listing exactly
  when the file is the rendering of that listing and the listing is well-formed: at least one entry, lower
  case hexadecimal hashes, portable names in ordinal order, no two of them equal after normalization and
  case folding.\<close>

theorem allowlist_exact:
  assumes "utf8_decode raw = Some s" "only_lf s"
  shows "parse_allowlist U raw = Inr es \<longleftrightarrow> listing U es \<and> raw = render_allowlist es"
  using render_parse [OF assms] parse_render by blast

theorem allowlist_exact_witness:
  "parse_allowlist ascii_tables (render_allowlist two_files) = Inr two_files"
proof -
  have es: "two_files \<noteq> []" "list_all (entry_ok ascii_tables) two_files"
    using two_files_listing by (simp_all add: listing_def)
  let ?s = "unlines (map render_line two_files)"
  have "utf8_decode (render_allowlist two_files) = Some ?s"
    unfolding render_allowlist_def by (rule utf8_decode_encode [OF unlines_facts(1) [OF es]])
  moreover have "only_lf ?s"
    using es(2) entry_ok_line(2) [of ascii_tables]
    by (fastforce simp: only_lf_def unlines_def list_all_iff)
  ultimately show ?thesis using allowlist_exact [of "render_allowlist two_files" ?s ascii_tables two_files] two_files_listing
    by simp
qed

text \<open>
  Without that assumption the rendering is not the only file: \<open>splitlines\<close> also ends a line at a vertical
  tab, so that two files of different bytes have the same listing.
\<close>

definition tab_separated :: bytes where
  "tab_separated = utf8_encode (render_line (two_files ! 0) @ [11] @ render_line (two_files ! 1) @ [10])"

lemma vertical_tab_accepted:
  "parse_allowlist ascii_tables tab_separated = Inr two_files \<and> tab_separated \<noteq> render_allowlist two_files"
proof -
  obtain p q where two: "two_files = [p, q]" by (simp add: two_files_def)
  let ?l = "render_line p" and ?m = "render_line q"
  let ?s = "?l @ [11] @ ?m @ [10]"
  have es: "two_files \<noteq> []" "list_all (entry_ok ascii_tables) two_files"
    using two_files_listing by (simp_all add: listing_def)
  have ok: "entry_ok ascii_tables p" "entry_ok ascii_tables q" using es(2) by (simp_all add: two)
  note lines = entry_ok_line [OF ok(1)] entry_ok_line [OF ok(2)]
  have tab: "tab_separated = utf8_encode ?s" by (simp add: tab_separated_def two)
  have sc: "list_all scalar ?s" using lines(1,3) by (simp add: scalar_def)
  have d: "utf8_decode tab_separated = Some ?s" unfolding tab by (rule utf8_decode_encode [OF sc])
  have ends: "line_end 11" "line_end 13" by (simp_all add: line_end_def)
  have u: "ulines [] ?s = map render_line two_files"
    using ulines_line [OF lines(2) ends(1), of "[]" "?m @ [10]"] ulines_line [OF lines(4) line_end_lf, of "[]" "[]"]
    by (simp add: two)
  have ls: "list_all (list_all (\<lambda>c. \<not> line_end c)) (map render_line two_files)"
    using lines(2,4) by (simp add: two)
  have m: "map (line_entry ascii_tables) (ulines [] ?s) = map Some two_files"
    unfolding u using es(2) by (subst map_line_entry [OF ls]) (auto simp: list_all_iff entry_ok_def)
  have cr: "13 \<notin> set ?s" using lines(2,4) ends(2) by (auto simp: list_all_iff)
  have "distinct (map fst two_files)" by (simp add: two_files_def lit_def)
  then have "parse_allowlist ascii_tables tab_separated = Inr two_files"
    unfolding parse_allowlist_Inr using d m cr two_files_listing by (intro exI [of _ ?s]) (simp add: listing_def)
  moreover have "tab_separated \<noteq> render_allowlist two_files"
  proof
    assume "tab_separated = render_allowlist two_files"
    then have "?s = unlines (map render_line two_files)"
      unfolding tab render_allowlist_def by (rule utf8_encode_inj [OF _ sc unlines_facts(1) [OF es]])
    then show False by (simp add: two unlines_def)
  qed
  ultimately show ?thesis by blast
qed

text \<open>C36. The archive verifier's own name check and allowlist parser give, on every input, the same result
  as the builder's: the same names, the same listing, the same error.  The two copies are translated apart: their
  tables of forbidden parts, their line pattern, their checks and the order of these.\<close>

theorem allowlist_parsers_agree:
  "v_parse_allowlist U raw = parse_allowlist U raw \<and> v_validate_portable_name U name = validate_portable_name U name"
  by (simp add: v_parse_eq v_validate_eq)

section \<open>The walk of the source\<close>

definition dir_status :: status where
  "dir_status = \<lparr>st_kind = Directory, st_reparse = False, st_dev = 1, st_ino = 2, st_size = 0, st_mtime_ns = 5\<rparr>"

definition file_status :: status where
  "file_status = dir_status\<lparr>st_kind := Regular_file\<rparr>"

definition two_files_tree :: tree where
  "two_files_tree = Tree (Some dir_status)
     (Some [(lit ''a.txt'', Some file_status, Tree None None),
            (lit ''b'', Some dir_status,
              Tree (Some dir_status) (Some [(lit ''run.py'', Some file_status, Tree None None)]))])"

text \<open>C37. The builder's walk with its stack returns normally exactly when every directory below the root is
  a plain readable directory and every entry a plain file or directory with a portable name; it then
  returns each regular file below the root once and nothing else, and the verifier's walk, which collects
  errors instead of stopping, finds the same files and no error.  When the builder's walk fails, the
  verifier's reports an error.\<close>

theorem source_walk_exact:
  "((\<exists>found. walk U [([], root)] [] = Inr found) \<longleftrightarrow> tree_plain U [] root)
   \<and> (\<forall>found. walk U [([], root)] [] = Inr found \<longrightarrow>
        distinct found \<and> set found = set (tree_files [] root) \<and> v_walk U [([], root)] [] = (found, []))
   \<and> (\<forall>e. walk U [([], root)] [] = Inl e \<longrightarrow> snd (v_walk U [([], root)] []) \<noteq> [])"
proof -
  obtain out errs where v: "v_walk U [([], root)] [] = (out, errs)" by fastforce
  show ?thesis
    using walk_of_plain [of "[([], root)]" U "[]"] walk_plain [of U "[([], root)]" "[]"] v_walk_clean [OF v] v
    by (fastforce simp del: walk.simps)
qed

theorem source_walk_exact_witness:
  "walk ascii_tables [([], two_files_tree)] [] = Inr [lit ''a.txt'', lit ''b/run.py'']
   \<and> v_walk ascii_tables [([], two_files_tree)] [] = ([lit ''a.txt'', lit ''b/run.py''], [])"
proof -
  have "walk ascii_tables [([], two_files_tree)] [] = Inr [lit ''a.txt'', lit ''b/run.py'']" by code_simp
  then show ?thesis using source_walk_exact [of ascii_tables two_files_tree] by blast
qed

section \<open>The archive verifier\<close>

text \<open>
  A sample archive: the members of \<open>two_files\<close>, stored by a compressor that changes nothing.
\<close>

definition plain_codec :: codec where
  "plain_codec = \<lparr>deflate = id, read_payload = (\<lambda>t payload n size crc. Inr payload),
     decode_extra = (\<lambda>extra sizes. Inl Zip_bad_file)\<rparr>"

definition two_members :: "member list" where
  "two_members = [new_member ascii_tables (lit ''a.txt'') (ascii ''hi''), new_member ascii_tables (lit ''b/run.py'') (ascii ''print(123)'')]"

definition two_archive :: bytes where
  "two_archive = archive_bytes (deflate plain_codec) two_members"

lemma plain_codec_inflates: "inflates plain_codec"
  by (simp add: inflates_def plain_codec_def)

lemma two_files_names: "sort (map fst two_files) = [lit ''a.txt'', lit ''b/run.py'']"
  by (simp add: two_files_def lit_def)

lemma zero_hex_sha: "lit (sha_hex zero_sha b) = zero_hex"
  unfolding sha_hex_def zero_sha_def zero_hex_def by code_simp

lemma two_members_good:
  "list_all2 (good_member ascii_tables plain_codec) (sort (map fst two_files)) two_members"
  unfolding two_files_names two_members_def
  by (simp add: good_member_def two_files_portable new_member_def encode_filename_def decode_name_def plain_codec_def)
    (simp add: lit_def cp437_decode_def scalar_def)

lemma two_members_content: "list_all2 (archive_content zero_sha two_files) (sort (map fst two_files)) two_members"
  unfolding two_files_names two_members_def
  by (simp add: archive_content_def new_member_def matches_def zero_hex_sha two_files_def) (simp add: lit_def)

lemma two_members_sizes:
  "length two_members < 65536" "length (local_part (deflate plain_codec) two_members) < 2 ^ 31"
  "length (central_part (deflate plain_codec) two_members
     (map2 tight two_members (offsets (deflate plain_codec) 0 two_members))) < 2 ^ 31"
  by (simp_all add: two_members_def local_part_def central_part_def new_member_def encode_filename_def plain_codec_def lit_def)

lemma pack_append: "length ws = length vs \<Longrightarrow> pack (ws @ ws') (vs @ vs') = pack ws vs @ pack ws' vs'"
  by (induction ws vs rule: list_induct2) simp_all

text \<open>The last fields of a central record, from the disk number on.\<close>

lemma central_record_tail:
  obtains X where "central_record zip9 m c = X @ le 2 (cf_disk c) @ le 2 0
      @ le 4 ((S_IFREG + mb_mode m) * 65536) @ le 4 (cf_offset c) @ mb_name m"
proof -
  obtain vs where "length vs = 15" "central_record zip9 m c =
      pack ([4, 1, 1, 1, 1, 2, 2, 2, 2, 4, 4, 4, 2, 2, 2] @ [2, 2, 4, 4])
        (vs @ [cf_disk c, 0, (S_IFREG + mb_mode m) * 65536, cf_offset c]) @ mb_name m"
    by (rule that [of "[CENTRAL_SIGNATURE, 20, 3, 20, cf_reserved c, mb_flags m, 8,
       dos_time EXPECTED_TIMESTAMP, dos_date EXPECTED_TIMESTAMP,
       crc32 (mb_data m), length (zip9 (mb_data m)), length (mb_data m),
       fst (cf_lengths c), fst (snd (cf_lengths c)), snd (snd (cf_lengths c))]"])
      (simp_all add: central_record_def CENTRAL_FORMAT_def)
  then have "central_record zip9 m c = pack [4, 1, 1, 1, 1, 2, 2, 2, 2, 4, 4, 4, 2, 2, 2] vs
      @ le 2 (cf_disk c) @ le 2 0 @ le 4 ((S_IFREG + mb_mode m) * 65536) @ le 4 (cf_offset c) @ mb_name m"
    by (subst (asm) pack_append) simp_all
  then show thesis by (rule that)
qed

lemma le_bytes:
  "le 2 v = [word_of_nat (v mod 256), word_of_nat (v div 256 mod 256)]"
  "le 4 v = [word_of_nat (v mod 256), word_of_nat (v div 256 mod 256), word_of_nat (v div 256 div 256 mod 256),
     word_of_nat (v div 256 div 256 div 256 mod 256)]"
proof -
  have n: "2 = Suc (Suc 0)" "4 = Suc (Suc (Suc (Suc 0)))" by simp_all
  show "le 2 v = [word_of_nat (v mod 256), word_of_nat (v div 256 mod 256)]" by (simp only: n le.simps)
  show "le 4 v = [word_of_nat (v mod 256), word_of_nat (v div 256 mod 256), word_of_nat (v div 256 div 256 mod 256),
     word_of_nat (v div 256 div 256 div 256 mod 256)]" by (simp only: n le.simps)
qed

lemma two_members_end: "end_unambiguous (deflate plain_codec) two_members"
proof -
  let ?L = "local_part (deflate plain_codec) two_members"
  let ?C = "central_part (deflate plain_codec) two_members
     (map2 tight two_members (offsets (deflate plain_codec) 0 two_members))"
  have len: "length two_members = 2" "length ?L = 85" "length ?C = 105"
    by (simp_all add: two_members_def local_part_def central_part_def new_member_def encode_filename_def plain_codec_def lit_def)
  have bytes: "end_record 2 105 85 = [80, 75, 5, 6, 0, 0, 0, 0, 2, 0, 2, 0, 105, 0, 0, 0, 85, 0, 0, 0, 0, 0]"
    by (simp add: end_record_def EOCD_FORMAT_def EOCD_SIGNATURE_def le_bytes)
  have sig: "le 4 EOCD_SIGNATURE = [80, 75, 5, 6]" "le 4 LOCATOR64_SIGNATURE = [80, 75, 6, 7]"
    by (simp_all add: EOCD_SIGNATURE_def LOCATOR64_SIGNATURE_def le_bytes)
  have upt: "[1..<22] = [1, 2, 3, 4, 5, 6, 7, 8, 9, 10, 11, 12, 13, 14, 15, 16, 17, 18, 19, 20, 21 :: nat]" by code_simp
  have e: "list_all (\<lambda>i. slice (end_record 2 105 85) i 4 \<noteq> le 4 EOCD_SIGNATURE) [1..<22]"
    unfolding upt by (simp add: bytes sig slice_def)
  define z where "z = deflate plain_codec"
  obtain m0 m1 where ms: "two_members = [m0, m1]" and len0: "length (local_record z m0) = 37" and name: "length (mb_name m1) = 8"
    by (rule that [of "two_members ! 0" "two_members ! 1"])
      (simp_all add: two_members_def new_member_def encode_filename_def plain_codec_def lit_def z_def)
  have C0: "?C = central_record z m0 (tight m0 0) @ central_record z m1 (tight m1 37)"
    using len0 by (simp add: ms central_part_def z_def [symmetric] del: length_local_record)
  obtain X where X: "central_record z m1 (tight m1 37) =
      X @ le 2 0 @ le 2 0 @ le 4 ((S_IFREG + mb_mode m1) * 65536) @ le 4 37 @ mb_name m1"
    by (rule central_record_tail [of z m1 "tight m1 37"]) (simp add: tight_def)
  define Y where "Y = le 4 ((S_IFREG + mb_mode m1) * 65536) @ le 4 37 @ mb_name m1"
  have Y: "length Y = 16" by (simp add: Y_def name)
  define W where "W = ?L @ central_record z m0 (tight m0 0) @ X"
  have C': "?L @ ?C = W @ (le 2 0 @ le 2 0) @ Y" unfolding C0 X by (simp only: W_def Y_def append_assoc)
  have at: "length (?L @ ?C) - 20 = length W" unfolding C' using Y by simp
  have "slice (?L @ ?C) (length (?L @ ?C) - 20) 4 = le 2 0 @ le 2 0"
    unfolding at unfolding C' by (simp add: slice_def)
  moreover have "le 2 0 @ le 2 0 \<noteq> le 4 LOCATOR64_SIGNATURE" by (simp add: sig le_bytes(1))
  ultimately show ?thesis using e by (simp add: end_unambiguous_def Let_def len)
qed

lemma two_files_distinct: "distinct (map (\<lambda>x. casefold ascii_tables (nfc ascii_tables x)) (map fst two_files))"
  using two_files_listing by (simp add: listing_def)

lemma two_archive_contents: "gives (verify_contents ascii_tables zero_sha plain_codec two_archive two_files) ()"
  unfolding two_archive_def
  by (rule written_contents [OF two_members_good two_members_content two_members_sizes two_members_end
        plain_codec_inflates two_files_distinct])

lemma two_archive_passes:
  "\<exists>r. verify_archive ascii_tables zero_sha plain_codec (quiet_reading file_status two_archive) two_files = Inr r \<and> rp_pass r"
  by (rule quiet_pass [OF two_archive_contents]) (simp_all add: file_status_def dir_status_def)

text \<open>C38. Soundness of the archive verifier.  When a report says pass, the bytes of the archive are the
  canonical local records of one member per allowlisted name, in ordinal order and without a gap, then a
  canonical central directory, then the end record, where the members have the canonical mode, UTF-8 or
  code page 437 names, and contents of the listed size and hash; left free are only what
  \<open>archive_layout\<close> leaves free: the reserved byte and disk number of central records, the lengths the last
  one claims, and a ZIP64 end record in front of the end record.\<close>

theorem accepted_archive_is_its_members:
  assumes "verify_archive U sha z ar expected = Inr r" "rp_pass r"
  shows "\<exists>ms cs shift gap. list_all2 (archive_member U sha expected) (sort (map fst expected)) ms
    \<and> archive_layout (deflate z) ms cs shift gap (ar_stream ar)"
proof -
  obtain l where "archive_run U sha z ar expected = (l, Inr ())" "logged_findings l = []"
    using assms verify_archive_pass by blast
  then have "gives (archive_run U sha z ar expected) ()" by (simp add: gives_def)
  then have "gives (verify_contents U sha z (ar_stream ar) expected) ()" by (auto simp: archive_run_def)
  then show ?thesis by (rule verified_layout) blast
qed

theorem accepted_archive_is_its_members_witness:
  "\<exists>ms cs shift gap. list_all2 (archive_member ascii_tables zero_sha two_files) [lit ''a.txt'', lit ''b/run.py''] ms
    \<and> archive_layout id ms cs shift gap two_archive"
proof -
  obtain r where "verify_archive ascii_tables zero_sha plain_codec (quiet_reading file_status two_archive) two_files = Inr r" "rp_pass r"
    using two_archive_passes by blast
  from accepted_archive_is_its_members [OF this] show ?thesis
    by (simp add: two_files_names quiet_reading_def plain_codec_def)
qed

section \<open>The builder\<close>

definition end_clear :: "bytes \<Rightarrow> bool" where
  "end_clear arch \<longleftrightarrow>
     list_all (\<lambda>i. slice (drop (length arch - 22) arch) i 4 \<noteq> le 4 EOCD_SIGNATURE) [1..<22]
     \<and> (42 \<le> length arch \<longrightarrow> slice arch (length arch - 42) 4 \<noteq> le 4 LOCATOR64_SIGNATURE)"

lemma end_clear_archive: "end_clear (archive_bytes zip9 ms) \<longleftrightarrow> end_unambiguous zip9 ms"
proof -
  define L where "L = local_part zip9 ms"
  define C where "C = central_part zip9 ms (map2 tight ms (offsets zip9 0 ms))"
  define body where "body = L @ C"
  define e where "e = end_record (length ms) (length C) (length L)"
  have a: "archive_bytes zip9 ms = body @ e"
    by (simp add: archive_bytes_def Let_def L_def C_def body_def e_def)
  have le: "length e = 22" by (simp add: e_def)
  have s: "slice (body @ e) (length body - 20) 4 = slice body (length body - 20) 4" if "20 \<le> length body"
    using that by (simp add: slice_def)
  show ?thesis
    unfolding end_clear_def a end_unambiguous_def Let_def L_def [symmetric] C_def [symmetric] body_def [symmetric] e_def [symmetric]
    using s by (cases "20 \<le> length body") (simp_all add: le)
qed

lemma ulines_chars: "l \<in> set (ulines acc s) \<Longrightarrow> set l \<subseteq> set acc \<union> set s"
proof (induction acc s arbitrary: l rule: ulines.induct)
  case (2 acc c cs)
  have "set (tl cs) \<subseteq> set cs" by (cases cs) auto
  then show ?case using 2 by (fastforce split: if_splits)
qed (auto split: if_splits)

lemma parsed_names:
  assumes "parse_allowlist U raw = Inr es" "n \<in> set (map fst es)"
  shows "portable_name U n" "list_all scalar n" "\<exists>listed. map_of es n = Some listed"
proof -
  obtain s where d: "utf8_decode raw = Some s" and m: "map (line_entry U) (ulines [] s) = map Some es"
    using assms(1) by (auto simp: parse_allowlist_Inr)
  obtain p where p: "p \<in> set es" "fst p = n" using assms(2) by auto
  then have "Some p \<in> set (map (line_entry U) (ulines [] s))" unfolding m by simp
  then obtain l where l: "l \<in> set (ulines [] s)" "line_entry U l = Some p" by auto
  then obtain h z where a: "allowlist_line l = Some (h, z, n)" and n: "portable_name U n"
    using p(2) by (auto simp: line_entry_def split: option.splits if_splits)
  show "portable_name U n" by (rule n)
  have "set n \<subseteq> set l" using a by (auto simp: allowlist_line_Some)
  then have "set n \<subseteq> set s" using ulines_chars [OF l(1)] by auto
  then show "list_all scalar n" using utf8_encode_decode [OF d] by (auto simp: list_all_iff)
  show "\<exists>listed. map_of es n = Some listed" using assms(2) by (metis list.set_map map_of_eq_None_iff not_None_eq)
qed

text \<open>C39. What the builder writes from a parsed allowlist, the verifier accepts, for a compressor whose
  output inflates to its input, when nothing touches the file meanwhile and the end of the file does not
  hold the signature of an end record or of a ZIP64 locator at another place.\<close>

theorem built_archive_passes:
  assumes "parse_allowlist U raw = Inr expected"
    and "write_partial U sha (deflate z) rd expected = Inr archive"
    and "inflates z" "end_clear archive" "st_kind st = Regular_file" "\<not> st_reparse st"
  shows "\<exists>r. verify_archive U sha z (quiet_reading st archive) expected = Inr r \<and> rp_pass r"
proof -
  let ?ns = "sort (map fst expected)"
  obtain ms where ms: "list_all2 (built_member U sha (deflate z) rd expected) ?ns ms"
      "archive = archive_bytes (deflate z) ms" "length ms \<le> 65535" "length (local_part (deflate z) ms) < 2 ^ 31"
      "length (central_part (deflate z) ms (map2 tight ms (offsets (deflate z) 0 ms))) < 2 ^ 31"
    using write_partial_Inr [OF assms(2)] by blast
  have named: "n \<in> set (map fst expected)" if "n \<in> set ?ns" for n using that by simp
  have good: "list_all2 (good_member U z) ?ns ms"
    by (rule list.rel_mono_strong [OF ms(1)]) (rule built_good, simp, (rule parsed_names [OF assms(1)], rule named, simp)+)
  have content: "list_all2 (archive_content sha expected) ?ns ms"
  proof (rule list.rel_mono_strong [OF ms(1)])
    fix n m assume n: "n \<in> set ?ns" and b: "built_member U sha (deflate z) rd expected n m"
    obtain listed where "map_of expected n = Some listed" using parsed_names(3) [OF assms(1) named [OF n]] by blast
    then show "archive_content sha expected n m" using b by (auto simp: built_member_def archive_content_def new_member_def)
  qed
  have "distinct (map (\<lambda>x. casefold U (nfc U x)) (map fst expected))"
    using assms(1) by (auto simp: parse_allowlist_Inr)
  moreover have "end_unambiguous (deflate z) ms" using assms(4) by (simp add: ms(2) end_clear_archive)
  ultimately have "gives (verify_contents U sha z archive expected) ()"
    using written_contents [OF good content _ ms(4,5) _ assms(3)] ms(2,3) by simp
  then show ?thesis by (rule quiet_pass) (rule assms(5,6))+
qed

definition quiet_file :: "bytes \<Rightarrow> reading" where
  "quiet_file content = \<lparr>rd_before = Some file_status, rd_opened = Some file_status, rd_data = Some content,
     rd_after_read = Some file_status, rd_after = Some file_status\<rparr>"

definition two_reads :: "ustr \<Rightarrow> reading" where
  "two_reads n = quiet_file (if n = lit ''a.txt'' then ascii ''hi'' else ascii ''print(123)'')"

lemma two_reads_stable:
  "read_stable zero_sha (two_reads (lit ''a.txt'')) (lit ''a.txt'') (the (map_of two_files (lit ''a.txt''))) = Inr (ascii ''hi'')"
  "read_stable zero_sha (two_reads (lit ''b/run.py'')) (lit ''b/run.py'') (the (map_of two_files (lit ''b/run.py'')))
     = Inr (ascii ''print(123)'')"
  by (simp_all add: read_stable_def two_reads_def quiet_file_def require_plain_file_def is_link_def file_status_def
      dir_status_def same_identity_def matches_def zero_hex_sha two_files_def)
    (simp_all add: lit_def)

lemma two_files_written:
  "write_partial ascii_tables zero_sha id two_reads two_files = Inr two_archive"
proof -
  let ?m0 = "new_member ascii_tables (lit ''a.txt'') (ascii ''hi'')"
  let ?m1 = "new_member ascii_tables (lit ''b/run.py'') (ascii ''print(123)'')"
  have len: "length (mb_name ?m0) = 5" "length (mb_name ?m1) = 8" "mb_data ?m0 = ascii ''hi''" "mb_data ?m1 = ascii ''print(123)''"
    by (simp_all add: new_member_def encode_filename_def lit_def)
  have w0: "writestr ascii_tables id new_writer (lit ''a.txt'') (ascii ''hi'') =
      Inr \<lparr>zw_written = local_record id ?m0, zw_filelist = [(?m0, 0)]\<rparr>"
    by (simp add: writestr_def Let_def new_writer_def len ZIP64_LIMIT_def ZIP_FILECOUNT_LIMIT_def)
  have w1: "writestr ascii_tables id \<lparr>zw_written = local_record id ?m0, zw_filelist = [(?m0, 0)]\<rparr> (lit ''b/run.py'') (ascii ''print(123)'') =
      Inr \<lparr>zw_written = local_record id ?m0 @ local_record id ?m1, zw_filelist = [(?m0, 0), (?m1, 37)]\<rparr>"
    by (simp add: writestr_def Let_def len ZIP64_LIMIT_def ZIP_FILECOUNT_LIMIT_def)
  have "close_archive id \<lparr>zw_written = local_record id ?m0 @ local_record id ?m1, zw_filelist = [(?m0, 0), (?m1, 37)]\<rparr> = Inr two_archive"
    by (simp add: close_archive_def Let_def two_archive_def archive_bytes_def two_members_def plain_codec_def local_part_def
        central_part_def len ZIP64_LIMIT_def ZIP_FILECOUNT_LIMIT_def)
  then show ?thesis by (simp add: write_partial_def two_files_names two_reads_stable boundary_def w0 w1)
qed

theorem built_archive_passes_witness:
  "write_partial ascii_tables zero_sha id two_reads two_files = Inr two_archive
   \<and> (\<exists>r. verify_archive ascii_tables zero_sha plain_codec (quiet_reading file_status two_archive) two_files = Inr r \<and> rp_pass r)"
proof -
  have "parse_allowlist ascii_tables (render_allowlist two_files) = Inr two_files"
    using two_files_listing by (rule parse_render)
  moreover have "write_partial ascii_tables zero_sha (deflate plain_codec) two_reads two_files = Inr two_archive"
    using two_files_written by (simp add: plain_codec_def)
  moreover have "end_clear two_archive" unfolding two_archive_def end_clear_archive by (rule two_members_end)
  ultimately show ?thesis
    using built_archive_passes [of ascii_tables "render_allowlist two_files" two_files zero_sha plain_codec two_reads two_archive file_status]
      plain_codec_inflates two_files_written by (simp add: file_status_def dir_status_def)
qed

text \<open>
  The same members with a ZIP64 end record whose free fields hold anything pass as well: the bytes of an
  accepted archive are not determined by the allowlist.
\<close>

definition two_archive_gap :: bytes where
  "two_archive_gap = archive_with_gap (deflate plain_codec) [1, 2, 3, 4, 5, 6, 7, 8] two_members"

lemma gapped_archive_passes:
  "(\<exists>r. verify_archive ascii_tables zero_sha plain_codec (quiet_reading file_status two_archive_gap) two_files = Inr r \<and> rp_pass r)
   \<and> length two_archive_gap = length two_archive + 76"
proof -
  let ?C = "central_part (deflate plain_codec) two_members
     (map2 tight two_members (offsets (deflate plain_codec) 0 two_members))"
  let ?L = "local_part (deflate plain_codec) two_members"
  have len: "length two_members = 2" "length ?L = 85" "length ?C = 105"
    by (simp_all add: two_members_def local_part_def central_part_def new_member_def encode_filename_def plain_codec_def lit_def)
  have bytes: "end_record 2 181 85 = [80, 75, 5, 6, 0, 0, 0, 0, 2, 0, 2, 0, 181, 0, 0, 0, 85, 0, 0, 0, 0, 0]"
    by (simp add: end_record_def EOCD_FORMAT_def EOCD_SIGNATURE_def le_bytes)
  have sig: "le 4 EOCD_SIGNATURE = [80, 75, 5, 6]" by (simp add: EOCD_SIGNATURE_def le_bytes)
  have upt: "[1..<22] = [1, 2, 3, 4, 5, 6, 7, 8, 9, 10, 11, 12, 13, 14, 15, 16, 17, 18, 19, 20, 21 :: nat]" by code_simp
  have sep: "list_all (\<lambda>i. slice (end_record (length two_members) (length ?C + 76) (length ?L)) i 4 \<noteq> le 4 EOCD_SIGNATURE) [1..<22]"
    unfolding upt len by (simp add: bytes sig slice_def)
  have free: "fits [8, 2, 2, 4, 4, 8, 8, 8] [1, 2, 3, 4, 5, 6, 7, 8]" by (simp add: fits_def)
  have "gives (verify_contents ascii_tables zero_sha plain_codec two_archive_gap two_files) ()"
    unfolding two_archive_gap_def
    by (rule gap_contents [OF two_members_good two_members_content two_members_sizes free sep plain_codec_inflates two_files_distinct])
  then have "\<exists>r. verify_archive ascii_tables zero_sha plain_codec (quiet_reading file_status two_archive_gap) two_files = Inr r \<and> rp_pass r"
    by (rule quiet_pass) (simp_all add: file_status_def dir_status_def)
  moreover have "length two_archive_gap = length two_archive + 76"
    using zip64_read(1) [OF free, of 105 85] by (simp add: two_archive_gap_def two_archive_def archive_with_gap_def archive_bytes_def Let_def len)
  ultimately show ?thesis by blast
qed

text \<open>C40. Publication, while other processes may change the partial file and the output between any two steps.
  Either the build ends with an error and the output file is what others made of it, or it was replaced, and then:
  the program had written into the partial file the archive of exactly the allowlisted files with the contents of
  the second reading; the verifier passed what it found there; without the flag no output existed before the build
  nor when it was looked for just before \<open>os.replace\<close>; what \<open>os.replace\<close> moved is what was then at the path of the
  partial file, the archive itself when no other process touches that path; and later only others change the
  output.  When the build succeeds, the verifier passed the output too, and the output read last has the hash of
  the partial file read first.  An output that appears after that look and before \<open>os.replace\<close> escapes it and
  is lost, as the second half of the witness shows.\<close>

theorem build_publishes_verified:
  assumes "build_main U sha zip9 ba bw d = (r, d')"
  shows "(\<exists>e. r = Inl e) \<and> (\<exists>k. dk_output d' = output_at bw (take k (until_check @ [Before_replace])) (dk_output d))
    \<or> (\<exists>expected ms moved. plan U sha bw = Inr expected
        \<and> set (map fst expected) = set (tree_files [] (bw_tree bw))
        \<and> list_all2 (built_member U sha zip9 (bw_second bw) expected) (sort (map fst expected)) ms
        \<and> accepted (bw_verify_partial bw (partial_at bw [Before_digest, Before_verifier] (Some (archive_bytes zip9 ms))))
        \<and> (ba_overwrite ba \<or> dk_output d = None \<and> output_at bw until_check (dk_output d) = None)
        \<and> partial_at bw [Before_digest, Before_verifier, Before_check, Before_replace] (Some (archive_bytes zip9 ms)) = Some moved
        \<and> ((\<forall>m f. bw_others_partial bw m f = f) \<longrightarrow> moved = archive_bytes zip9 ms)
        \<and> (\<exists>k. dk_output d' = output_at bw (take k after_replace) (Some moved) \<and> dk_partial d' = partial_at bw (take k after_replace) None)
        \<and> (\<forall>res. r = Inr res \<longrightarrow> br_entries res = length expected
             \<and> accepted (bw_verify_output bw (output_at bw [Before_flush, Before_verify_output] (Some moved)))
             \<and> (\<exists>c c'. partial_at bw [Before_digest] (Some (archive_bytes zip9 ms)) = Some c \<and> dk_output d' = Some c'
                  \<and> sha_hex sha c' = sha_hex sha c \<and> br_sha256 res = sha_hex sha c)))"
    (is "?early \<or> ?late")
proof (cases "res_bind (preflight U ba bw d) (\<lambda>_. boundary (plan U sha bw))")
  case (Inl e)
  then have "(\<exists>e. r = Inl e) \<and> dk_output d' = output_at bw (take 0 (until_check @ [Before_replace])) (dk_output d)"
    using assms by (auto simp: build_main_def output_at_def)
  then show ?thesis by blast
next
  case (Inr expected)
  then have pre: "preflight U ba bw d = Inr ()" and plan: "plan U sha bw = Inr expected"
    by (auto simp: res_bind_Inr_iff)
  define d0 where "d0 = others bw Before_create d"
  have o: "dk_output d0 = output_at bw [Before_create] (dk_output d)" by (simp add: d0_def output_at_def)
  consider (early) e where "r = Inl e" "dk_output d' = dk_output d0"
    | (late) arch where "write_partial U sha zip9 (bw_second bw) expected = Inr arch"
        "publish sha ba bw (length expected) (d0\<lparr>dk_partial := Some arch\<rparr>) = (r, d')"
    using assms Inr by (auto simp: build_main_def Let_def d0_def split: if_splits sum.splits)
  then show ?thesis
  proof cases
    case early
    then have "dk_output d' = output_at bw (take 1 (until_check @ [Before_replace])) (dk_output d)"
      by (simp add: o until_check_def)
    then show ?thesis using early(1) by blast
  next
    case late
    obtain ms where ms: "list_all2 (built_member U sha zip9 (bw_second bw) expected) (sort (map fst expected)) ms"
        "arch = archive_bytes zip9 ms"
      using write_partial_Inr [OF late(1)] by blast
    from publish_cases [OF late(2)] show ?thesis
    proof (elim disjE exE conjE)
      fix e k assume "r = Inl e"
        "dk_output d' = output_at bw (take k [Before_digest, Before_verifier, Before_check, Before_replace]) (dk_output (d0\<lparr>dk_partial := Some arch\<rparr>))"
      then have "dk_output d' = output_at bw (take (Suc k) (until_check @ [Before_replace])) (dk_output d)"
        by (simp add: o until_check_def output_at_def)
      then show ?thesis using \<open>r = Inl e\<close> by blast
    next
      let ?P = "\<lambda>xs. partial_at bw xs (Some arch)"
      let ?O = "\<lambda>xs. output_at bw xs (dk_output d)"
      fix c moved assume *: "partial_at bw [Before_digest] (dk_partial (d0\<lparr>dk_partial := Some arch\<rparr>)) = Some c"
        "accepted (bw_verify_partial bw (partial_at bw [Before_digest, Before_verifier] (dk_partial (d0\<lparr>dk_partial := Some arch\<rparr>))))"
        "partial_at bw [Before_digest, Before_verifier, Before_check, Before_replace] (dk_partial (d0\<lparr>dk_partial := Some arch\<rparr>)) = Some moved"
        "confirm_output sha bw (length expected) (sha_hex sha c) \<lparr>dk_partial = None, dk_output = Some moved\<rparr> = (r, d')"
      assume or: "\<not> ba_overwrite ba \<longrightarrow> output_at bw [Before_digest, Before_verifier, Before_check] (dk_output (d0\<lparr>dk_partial := Some arch\<rparr>)) = None"
      have p: "?P [Before_digest] = Some c" "accepted (bw_verify_partial bw (?P [Before_digest, Before_verifier]))"
          "?P [Before_digest, Before_verifier, Before_check, Before_replace] = Some moved"
        using *(1-3) by simp_all
      have q: "ba_overwrite ba \<or> dk_output d = None \<and> ?O until_check = None"
        using or preflight_Inr [OF pre] o by (auto simp: until_check_def output_at_def)
      have id: "(\<forall>m f. bw_others_partial bw m f = f) \<longrightarrow> moved = arch"
      proof
        assume "\<forall>m f. bw_others_partial bw m f = f"
        then show "moved = arch" using p(3) by (simp add: partial_at_def)
      qed
      note k = confirm_output_cases [OF *(4), unfolded disk.simps]
      have res: "r = Inr res \<longrightarrow> br_entries res = length expected
          \<and> accepted (bw_verify_output bw (output_at bw [Before_flush, Before_verify_output] (Some moved)))
          \<and> (\<exists>c c'. ?P [Before_digest] = Some c \<and> dk_output d' = Some c' \<and> sha_hex sha c' = sha_hex sha c \<and> br_sha256 res = sha_hex sha c)" for res
        using k(2) [of res] p(1) by (auto simp: build_result.simps)
      show ?thesis
        using plan plan_Inr(1) [OF plan] ms(1) p(2,3) q id k(1) res unfolding ms(2) by blast
    qed
  qed
qed

text \<open>A verifier run that passes the archive of the two files and nothing else.\<close>

definition two_run :: "bytes option \<Rightarrow> verifier_run" where
  "two_run f = \<lparr>vr_lstat = Some file_status, vr_completed = Some (if f = Some two_archive then 0 else 1, Some (f = Some two_archive))\<rparr>"

definition two_arguments :: build_arguments where
  "two_arguments = \<lparr>ba_source = [lit ''src''], ba_output = [lit ''out'', lit ''r.zip''], ba_allowlist = [lit ''list''], ba_overwrite = False\<rparr>"

definition two_world :: build_world where
  "two_world = \<lparr>bw_root_lstat = Some dir_status, bw_allowlist_lstat = Some file_status, bw_parent_lstat = Some dir_status,
     bw_output_lstat = None, bw_allowlist_lstat_again = Some file_status, bw_allowlist = Some (render_allowlist two_files),
     bw_root_lstat_again = Some dir_status, bw_tree = two_files_tree, bw_first = two_reads, bw_second = two_reads,
     bw_create_ok = True, bw_flush_ok = True, bw_leftover = [], bw_read_partial_ok = True, bw_verify_partial = two_run,
     bw_replace_ok = True, bw_fsync_ok = True, bw_verify_output = two_run, bw_read_output_ok = True,
     bw_others_partial = (\<lambda>m f. f), bw_others_output = (\<lambda>m f. f)\<rparr>"

text \<open>The same, but another process creates the output after it was looked for and before \<open>os.replace\<close>.\<close>

definition two_race :: build_world where
  "two_race = two_world\<lparr>bw_others_output := (\<lambda>m f. if m = Before_replace then Some [1] else f)\<rparr>"

definition empty_disk :: disk where
  "empty_disk = \<lparr>dk_partial = None, dk_output = None\<rparr>"

lemma two_preflight: "preflight ascii_tables two_arguments two_world empty_disk = Inr ()"
proof -
  have suffix: "lower ascii_tables (path_suffix (lit ''r.zip'')) = lit ''.zip''" by code_simp
  have within: "\<not> is_within [lit ''out'', lit ''r.zip''] [lit ''src'']" "\<not> is_within [lit ''list''] [lit ''src'']"
    "\<not> is_within (partial_path [lit ''out'', lit ''r.zip'']) [lit ''src'']"
    by (simp_all add: is_within_def partial_path_def lit_def)
  show ?thesis
    by (simp add: preflight_def two_arguments_def two_world_def empty_disk_def within suffix guard_def boundary_def
        require_plain_directory_def require_plain_file_def is_link_def file_status_def dir_status_def)
qed

lemma two_plan: "plan ascii_tables zero_sha two_world = Inr two_files"
proof -
  have "read_allowlist ascii_tables two_world = Inr two_files"
    using parse_render [OF two_files_listing]
    by (simp add: read_allowlist_def two_world_def require_plain_file_def is_link_def file_status_def dir_status_def)
  moreover have "inspect_source ascii_tables (bw_root_lstat_again two_world) (bw_tree two_world) = Inr [lit ''a.txt'', lit ''b/run.py'']"
  proof -
    have "inspect_source ascii_tables (Some dir_status) two_files_tree = Inr [lit ''a.txt'', lit ''b/run.py'']" by code_simp
    then show ?thesis by (simp add: two_world_def)
  qed
  moreover have "bw_first two_world = two_reads" by (simp add: two_world_def)
  moreover have "filter (\<lambda>n. n \<notin> set [lit ''a.txt'', lit ''b/run.py'']) (map fst two_files) = []"
    "filter (\<lambda>n. n \<notin> set (map fst two_files)) [lit ''a.txt'', lit ''b/run.py''] = []"
    by (simp_all add: two_files_def)
  ultimately show ?thesis by (simp add: plan_def two_files_names two_reads_stable del: filter.simps list.set)
qed

lemma two_race_reads:
  "preflight ascii_tables two_arguments two_race empty_disk = preflight ascii_tables two_arguments two_world empty_disk"
  "plan ascii_tables zero_sha two_race = plan ascii_tables zero_sha two_world"
  by (simp_all add: preflight_def plan_def read_allowlist_def two_race_def cong: if_cong)

lemma two_build:
  assumes "W = two_world \<or> W = two_race"
  shows "build_main ascii_tables zero_sha id two_arguments W empty_disk =
     (Inr \<lparr>br_entries = 2, br_sha256 = sha_hex zero_sha two_archive\<rparr>, \<lparr>dk_partial = None, dk_output = Some two_archive\<rparr>)"
proof -
  have n: "length two_files = 2" by (simp add: two_files_def)
  have "preflight ascii_tables two_arguments W empty_disk = Inr ()" "plan ascii_tables zero_sha W = Inr two_files"
    "write_partial ascii_tables zero_sha id (bw_second W) two_files = Inr two_archive"
    using assms two_files_written by (auto simp: two_preflight two_plan two_race_reads) (simp_all add: two_race_def two_world_def)
  moreover have "bw_create_ok W" "bw_flush_ok W" "others W Before_create empty_disk = empty_disk"
    using assms by (auto simp: two_race_def two_world_def others_def empty_disk_def)
  moreover have "publish zero_sha two_arguments W 2 (empty_disk\<lparr>dk_partial := Some two_archive\<rparr>) =
     (Inr \<lparr>br_entries = 2, br_sha256 = sha_hex zero_sha two_archive\<rparr>, \<lparr>dk_partial = None, dk_output = Some two_archive\<rparr>)"
  proof -
    have "bw_read_partial_ok W" "bw_replace_ok W" "bw_fsync_ok W" "bw_read_output_ok W" "bw_verify_partial W = two_run" "bw_verify_output W = two_run"
      "bw_others_partial W = (\<lambda>m f. f)" "\<And>m f. m \<noteq> Before_replace \<Longrightarrow> bw_others_output W m f = f"
      using assms by (auto simp: two_race_def two_world_def)
    then show ?thesis
      by (simp add: publish_def replace_output_def confirm_output_def Let_def digest_def os_call_def others_def invoke_independent_verifier_def
          two_run_def boundary_def require_plain_file_def is_link_def file_status_def dir_status_def two_arguments_def empty_disk_def)
  qed
  moreover have "dk_partial empty_disk = None" by (simp add: empty_disk_def)
  ultimately show ?thesis by (simp add: build_main_def boundary_def n)
qed

theorem build_publishes_verified_witness:
  "(\<exists>expected ms. plan ascii_tables zero_sha two_world = Inr expected
     \<and> dk_output (snd (build_main ascii_tables zero_sha id two_arguments two_world empty_disk)) = Some (archive_bytes id ms)
     \<and> length expected = 2)
   \<and> \<not> ba_overwrite two_arguments \<and> bw_others_output two_race Before_replace None = Some [1]
   \<and> build_main ascii_tables zero_sha id two_arguments two_race empty_disk = build_main ascii_tables zero_sha id two_arguments two_world empty_disk"
proof -
  have undisturbed: "fold (\<lambda>m f. f) xs y = y" for xs :: "moment list" and y :: "bytes option" by (induction xs) simp_all
  have o: "bw_others_output two_world = (\<lambda>m f. f)" "bw_others_partial two_world = (\<lambda>m f. f)" by (simp_all add: two_world_def)
  have "\<exists>expected ms. plan ascii_tables zero_sha two_world = Inr expected
     \<and> dk_output (snd (build_main ascii_tables zero_sha id two_arguments two_world empty_disk)) = Some (archive_bytes id ms)
     \<and> length expected = 2"
    using build_publishes_verified [OF two_build [OF disjI1 [OF refl]]]
    by (auto simp: two_build partial_at_def output_at_def o undisturbed)
  moreover have "\<not> ba_overwrite two_arguments \<and> bw_others_output two_race Before_replace None = Some [1]"
    by (simp add: two_arguments_def two_race_def)
  ultimately show ?thesis by (simp add: two_build)
qed

end
