(* ===== verification/Compare.thy ===== *)
theory Compare
  imports Evidence_S5 Evidence_S6
begin

text \<open>
  The comparison tool \<open>tools/compare_experiment_categories.py\<close>: two raw files, row by row, on the fields
  that do not depend on the host.  The rows are kept in a dict by mechanism, case and repetition, here an
  association list in the order of insertion with keys up to Python's equality.
\<close>

section \<open>The tool\<close>

definition FIELDS :: "string list" where
  "FIELDS = [''schema'', ''effect_count'', ''double_effect'', ''delivered_exactly_once'', ''delivery_lost'',
     ''deterministic_terminal'', ''replay_accepted'', ''cross_generation_accepted'', ''altered_signature_accepted'',
     ''disposition'', ''network_calls'', ''real_effect'', ''ambiguous_post_effect'', ''pre_effect_uncertainty'',
     ''effect_expected'', ''sink_profile'', ''sink_idempotency_supported'', ''sink_query_supported'',
     ''sink_transaction_supported'', ''b3_idempotency_request_honored'']"

text \<open>
  The lines of a file opened as text: CR and CR LF count as LF.  The line end itself, white space to
  \<open>json.loads\<close>, is left out.
\<close>

fun text_lines :: "string \<Rightarrow> string \<Rightarrow> string list" where
  "text_lines acc [] = (if acc = [] then [] else [rev acc])"
| "text_lines acc (c # cs) =
     (if c = CHR 0x0D \<and> cs \<noteq> [] \<and> hd cs = CHR 0x0A then rev acc # text_lines [] (tl cs)
      else if c = CHR 0x0A \<or> c = CHR 0x0D then rev acc # text_lines [] cs
      else text_lines (c # acc) cs)"

type_synonym tuples = "((pyval \<times> pyval \<times> pyval) \<times> pyval list) list"

definition compare_key :: "row \<Rightarrow> exn + pyval \<times> pyval \<times> pyval" where
  "compare_key r =
     res_bind (row_get r ''mechanism'') (\<lambda>m.
     res_bind (row_get r ''case'') (\<lambda>c.
     res_bind (row_get r ''repetition'') (\<lambda>n.
       if hashable m \<and> hashable c \<and> hashable n then Inr (canon m, canon c, canon n)
       else Inl (TypeError ''unhashable type''))))"

text \<open>The message of a duplicate, without the repr of its key.\<close>

fun compare_rows :: "string \<Rightarrow> nat \<Rightarrow> tuples \<Rightarrow> string list \<Rightarrow> exn + tuples" where
  "compare_rows path line_number rows [] = Inr rows"
| "compare_rows path line_number rows (line # lines) =
     res_bind (res_map row_of_json (json_loads line)) (\<lambda>r.
     res_bind (compare_key r) (\<lambda>key.
       if key \<in> fst ` set rows
       then Inl (SystemExit (''duplicate tuple at '' @ path @ '':'' @ str_nat line_number))
       else res_bind (res_map_list (row_get r) FIELDS) (\<lambda>values.
         compare_rows path (line_number + 1) (rows @ [(key, values)]) lines)))"

definition compare_load :: "string \<Rightarrow> bytes \<Rightarrow> exn + tuples" where
  "compare_load path raw = (case utf8_text raw of
     None \<Rightarrow> Inl (ValueError ''UnicodeDecodeError'')
   | Some s \<Rightarrow> compare_rows path 1 [] (text_lines [] s))"

record comparison =
  categorical_mismatches :: int
  extra_tuples :: int
  missing_tuples :: int
  comparison_pass :: bool
  rerun_rows :: int
  sealed_rows :: int

definition compare_main :: "string \<times> bytes \<Rightarrow> string \<times> bytes \<Rightarrow> exn + nat \<times> comparison" where
  "compare_main sealed_path rerun_path =
     res_bind (compare_load (fst sealed_path) (snd sealed_path)) (\<lambda>sealed.
     res_bind (compare_load (fst rerun_path) (snd rerun_path)) (\<lambda>rerun. (let
         missing = filter (\<lambda>k. map_of rerun k = None) (map fst sealed);
         extra = filter (\<lambda>k. map_of sealed k = None) (map fst rerun);
         mismatches = filter (\<lambda>(k, v). case map_of rerun k of None \<Rightarrow> False | Some w \<Rightarrow> \<not> list_all2 py_eq v w) sealed;
         passed = (missing = [] \<and> extra = [] \<and> mismatches = [])
       in Inr (if passed then 0 else 1,
            \<lparr>categorical_mismatches = int (length mismatches), extra_tuples = int (length extra),
             missing_tuples = int (length missing), comparison_pass = passed,
             rerun_rows = int (length rerun), sealed_rows = int (length sealed)\<rparr>))))"

section \<open>What a pass means\<close>

text \<open>The content of a file to the tool: for every key its fields, up to Python's equality.\<close>

definition view :: "tuples \<Rightarrow> pyval \<times> pyval \<times> pyval \<Rightarrow> pyval list option" where
  "view rows = map_of (map (map_prod id (map canon)) rows)"

lemma view_eq: "view rows k = map_option (map canon) (map_of rows k)"
  by (induction rows) (auto simp: view_def)

lemma list_all2_py_eq: "list_all2 py_eq v w \<longleftrightarrow> map canon v = map canon w"
  by (auto simp: list_all2_conv_all_nth list_eq_iff_nth_eq py_eq_def)

lemma compare_rows_distinct:
  "compare_rows path n rows ls = Inr rows' \<Longrightarrow> distinct (map fst rows) \<Longrightarrow> distinct (map fst rows')"
  by (induction path n rows ls rule: compare_rows.induct) (auto simp: res_bind_Inr_iff split: if_splits)

lemma compare_load_distinct: "compare_load path raw = Inr rows \<Longrightarrow> distinct (map fst rows)"
  by (auto simp: compare_load_def split: option.splits dest: compare_rows_distinct)

lemma no_mismatch_view:
  assumes "distinct (map fst A)"
  shows "filter (\<lambda>k. map_of B k = None) (map fst A) = [] \<and> filter (\<lambda>k. map_of A k = None) (map fst B) = []
     \<and> filter (\<lambda>(k, v). case map_of B k of None \<Rightarrow> False | Some w \<Rightarrow> \<not> list_all2 py_eq v w) A = []
   \<longleftrightarrow> view A = view B"
proof -
  have dom: "map_of M k = None \<longleftrightarrow> k \<notin> fst ` set M" for M :: tuples and k by (simp add: map_of_eq_None_iff)
  have mem: "(k, v) \<in> set A \<longleftrightarrow> map_of A k = Some v" for k v using assms by (simp add: map_of_eq_Some_iff)
  show ?thesis (is "?m \<and> ?e \<and> ?c \<longleftrightarrow> _")
  proof
    assume h: "?m \<and> ?e \<and> ?c"
    show "view A = view B"
    proof
      fix k
      show "view A k = view B k"
      proof (cases "map_of A k")
        case None
        then have "map_of B k = None" using h dom by (auto simp: filter_empty_conv)
        then show ?thesis using None by (simp add: view_eq)
      next
        case (Some v)
        then have "(k, v) \<in> set A" using mem by simp
        then have "k \<in> set (map fst A)" by force
        then obtain w where w: "map_of B k = Some w" using h by (auto simp: filter_empty_conv)
        moreover have "list_all2 py_eq v w" using h \<open>(k, v) \<in> set A\<close> w by (auto simp: filter_empty_conv)
        ultimately show ?thesis using Some by (simp add: view_eq list_all2_py_eq)
      qed
    qed
  next
    assume e: "view A = view B"
    then have v: "map_option (map canon) (map_of A k) = map_option (map canon) (map_of B k)" for k
      unfolding view_eq [symmetric] by simp
    have n: "map_of A k = None \<longleftrightarrow> map_of B k = None" for k
      using v [of k] by (cases "map_of A k"; cases "map_of B k") simp_all
    have "\<not> (case map_of B k of None \<Rightarrow> False | Some w \<Rightarrow> \<not> list_all2 py_eq v' w)" if "(k, v') \<in> set A" for k v'
      using v [of k] that mem by (auto simp: list_all2_py_eq split: option.splits)
    then have ?c by (auto simp: filter_empty_conv)
    moreover have ?m ?e using n by (auto simp: filter_empty_conv map_of_eq_None_iff)
    ultimately show "?m \<and> ?e \<and> ?c" by blast
  qed
qed

lemma compare_main_view:
  assumes "compare_load p raw = Inr A" and "compare_load q raw' = Inr B"
  shows "\<exists>c. compare_main (p, raw) (q, raw') = Inr (if view A = view B then 0 else 1, c)
    \<and> comparison_pass c = (view A = view B) \<and> sealed_rows c = int (length A) \<and> rerun_rows c = int (length B)"
  using no_mismatch_view [OF compare_load_distinct [OF assms(1)], of B]
  by (simp add: compare_main_def assms Let_def del: filter_empty_conv)

section \<open>Reruns of a campaign\<close>

lemma text_lines_line:
  "(\<And>c. c \<in> set l \<Longrightarrow> \<not> line_break c) \<Longrightarrow> text_lines acc (l @ CHR 0x0A # t) = (rev acc @ l) # text_lines [] t"
proof (induction l arbitrary: acc)
  case (Cons c l)
  have "\<not> line_break c" using Cons.prems by simp
  then have "c \<noteq> CHR 0x0D" "c \<noteq> CHR 0x0A" by (auto simp: line_break_def)
  then show ?case using Cons by simp
qed simp

lemma text_lines_lines:
  "(\<And>l c. l \<in> set ls \<Longrightarrow> c \<in> set l \<Longrightarrow> \<not> line_break c) \<Longrightarrow> text_lines [] (lines_text ls) = ls"
proof (induction ls)
  case (Cons l ls)
  have "\<not> line_break c" if "c \<in> set l" for c using Cons.prems that by auto
  moreover have "text_lines [] (lines_text ls) = ls" by (rule Cons.IH) (use Cons.prems in auto)
  ultimately show ?case using text_lines_line [of l "[]" "lines_text ls"] by (simp add: lines_text_def)
qed (simp add: lines_text_def)

definition tuple_of :: "dict \<Rightarrow> (pyval \<times> pyval \<times> pyval) \<times> pyval list" where
  "tuple_of d = (identity d, map (dict_get d) FIELDS)"

lemma row_get_dict: "row_get (Row d) k = Inr (dict_get d k)"
  by (simp add: dict_get_def split: option.splits)

lemma gets_dict: "res_map_list (row_get (Row d)) ks = Inr (map (dict_get d) ks)"
  by (rule res_map_list_ok) (rule row_get_dict)

definition keyed :: "dict \<Rightarrow> bool" where
  "keyed d \<longleftrightarrow> hashable (dict_get d ''mechanism'') \<and> hashable (dict_get d ''case'') \<and> hashable (dict_get d ''repetition'')"

lemma compare_key_dict: "keyed d \<Longrightarrow> compare_key (Row d) = Inr (identity d)"
  unfolding compare_key_def row_get_dict res_bind.simps by (simp add: keyed_def identity_def)

lemma compare_rows_flat:
  assumes "\<And>m. m \<in> set ms \<Longrightarrow> flat_row m \<and> keyed (map_of m)"
    and "distinct (map fst rows @ map (identity \<circ> map_of) ms)"
  shows "compare_rows path n rows (map line_of ms) = Inr (rows @ map (tuple_of \<circ> map_of) ms)"
  using assms
proof (induction ms arbitrary: n rows)
  case (Cons m ms)
  have m: "flat_row m" "keyed (map_of m)" using Cons.prems(1) by simp_all
  have "identity (map_of m) \<notin> fst ` set rows" using Cons.prems(2) by auto
  then have "compare_rows path n rows (map line_of (m # ms)) =
      compare_rows path (n + 1) (rows @ [tuple_of (map_of m)]) (map line_of ms)"
    by (simp add: flat_line(3) [OF m(1)] compare_key_dict [OF m(2)] gets_dict tuple_of_def del: row_get.simps)
  then show ?case using Cons.IH [of "rows @ [tuple_of (map_of m)]" "n + 1"] Cons.prems by (simp add: tuple_of_def)
qed simp

lemma compare_load_flat:
  assumes "\<And>m. m \<in> set ms \<Longrightarrow> flat_row m \<and> keyed (map_of m)" and "distinct (map (identity \<circ> map_of) ms)"
  shows "compare_load path (raw_bytes (map line_of ms)) = Inr (map (tuple_of \<circ> map_of) ms)"
proof -
  have f: "\<And>m. m \<in> set ms \<Longrightarrow> flat_row m" using assms(1) by blast
  have "text_lines [] (lines_text (map line_of ms)) = map line_of ms"
    by (rule text_lines_lines) (use f flat_line(2) printable_no_break in auto)
  moreover have "compare_rows path 1 [] (map line_of ms) = Inr ([] @ map (tuple_of \<circ> map_of) ms)"
    by (rule compare_rows_flat) (use assms in auto)
  ultimately show ?thesis by (simp add: compare_load_def written_text [OF f])
qed

lemma view_set:
  assumes "distinct (map fst A)" and "distinct (map fst B)"
    and "map_prod id (map canon) ` set A = map_prod id (map canon) ` set B"
  shows "view A = view B"
  unfolding view_def by (subst map_of_inject_set) (use assms in \<open>simp_all add: comp_def\<close>)

text \<open>One campaign: the tuples the tool reads depend neither on clocks, meters, keys nor on the order of the runs.\<close>

lemma s5_dicts_set:
  assumes "world_ok W"
  shows "set (s5_dicts W) = (\<lambda>(m, ic, r). s5_dict W m ic r) ` (set MECHANISMS5 \<times> set (enumerate 0 CASES5) \<times> {1..30})"
  unfolding s5_dicts_rows s5_rows_grid grid_def using s5_order_perm(1) [OF assms]
  by (force simp: unrow_s5 REPETITIONS5_def image_iff)

lemma s6_dicts_set:
  assumes "world_ok W"
  shows "set (s6_dicts W) = (\<lambda>(m, ic, r). s6_dict W m ic r) ` (set MECHANISMS6 \<times> set (enumerate 0 CASES6) \<times> {1..30})"
  unfolding s6_dicts_rows s6_rows_grid grid_def using s6_order_perm(1) [OF assms]
  by (force simp: unrow_s6 REPETITIONS6_def image_iff)

text \<open>Two rows that differ in measured fields only have the same tuple.\<close>

definition measured_fields :: "string list" where
  "measured_fields = [''wall_ns'', ''cpu_ns'', ''python_heap_peak_bytes'', ''rss_delta_bytes'', ''artifact_bytes'']"

definition same_but_measured :: "string \<times> pyval \<Rightarrow> string \<times> pyval \<Rightarrow> bool" where
  "same_but_measured kv kv' \<longleftrightarrow> fst kv = fst kv' \<and> (snd kv = snd kv' \<or> fst kv \<in> set measured_fields)"

lemma same_but_measured_map:
  "list_all2 same_but_measured xs ys \<Longrightarrow> k \<notin> set measured_fields \<Longrightarrow> map_of xs k = map_of ys k"
  by (induction xs ys rule: list_all2_induct) (auto simp: same_but_measured_def split: prod.splits)

lemma compared_not_measured:
  "list_all (\<lambda>k. k \<notin> set measured_fields) (''mechanism'' # ''case'' # ''repetition'' # FIELDS)"
  unfolding measured_fields_def FIELDS_def by code_simp

lemma same_tuple:
  assumes "list_all2 same_but_measured xs ys"
  shows "tuple_of (map_of xs) = tuple_of (map_of ys)"
proof -
  have "dict_get (map_of xs) k = dict_get (map_of ys) k" if "k \<in> set (''mechanism'' # ''case'' # ''repetition'' # FIELDS)" for k
    using same_but_measured_map [OF assms] compared_not_measured that unfolding dict_get_def list_all_iff by metis
  then show ?thesis by (simp add: tuple_of_def identity_def)
qed

lemma s5_tuple: "tuple_of (s5_dict W m ic r) = tuple_of (s5_dict W' m ic r)"
  unfolding s5_dict_def s5_expected_def
  by (rule same_tuple) (simp add: s5_record_def same_but_measured_def measured_fields_def)

lemma s6_tuple: "tuple_of (s6_dict W m ic r) = tuple_of (s6_dict W' m ic r)"
  unfolding s6_dict_def s6_expected_def
  by (rule same_tuple) (simp add: s6_record_def same_but_measured_def measured_fields_def)

text \<open>The raw file of a campaign as the tool loads it.\<close>

lemma campaign_compare_load:
  assumes "\<And>m. m \<in> set ms \<Longrightarrow> flat_row m" and "\<And>m. m \<in> set ms \<Longrightarrow> keyed (map_of m)"
    and "distinct (map identity (map map_of ms))"
  shows "compare_load path (raw_bytes (map line_of ms)) = Inr (map tuple_of (map map_of ms))"
  using compare_load_flat [of ms path] assms by (simp add: comp_def)

lemma s5_compare_load:
  assumes "world_ok W"
  shows "compare_load path (raw_bytes (s5_lines W)) = Inr (map tuple_of (s5_dicts W))"
  unfolding s5_lines_def s5_dicts_def
proof (rule campaign_compare_load)
  show "distinct (map identity (map map_of (s5_all W)))" using s5_identities [OF assms] by (simp add: s5_dicts_def)
  show "keyed (map_of m)" if "m \<in> set (s5_all W)" for m
    using s5_dicts_mem [OF assms, of "map_of m"] that by (auto simp: s5_dicts_def keyed_def s5_dict_fields)
qed (rule s5_all_flat)

lemma s6_compare_load:
  assumes "world_ok W"
  shows "compare_load path (raw_bytes (s6_lines W)) = Inr (map tuple_of (s6_dicts W))"
  unfolding s6_lines_def s6_dicts_def
proof (rule campaign_compare_load)
  show "distinct (map identity (map map_of (s6_all W)))" using s6_identities [OF assms] by (simp add: s6_dicts_def)
  show "keyed (map_of m)" if "m \<in> set (s6_all W)" for m
    using s6_dicts_mem [OF assms, of "map_of m"] that by (auto simp: s6_dicts_def keyed_def s6_dict_fields)
qed (rule s6_all_flat)

text \<open>Two sets of rows over the same grid, cell by cell with the same tuple.\<close>

lemma grid_view:
  assumes "distinct (map identity D)" "distinct (map identity D')"
    and "set D = (\<lambda>(m, ic, r). f m ic r) ` G" "set D' = (\<lambda>(m, ic, r). f' m ic r) ` G"
    and "\<And>m ic r. tuple_of (f m ic r) = tuple_of (f' m ic r)"
  shows "view (map tuple_of D) = view (map tuple_of D')"
proof (rule view_set)
  show "distinct (map fst (map tuple_of D))" "distinct (map fst (map tuple_of D'))"
    using assms(1,2) by (simp_all add: comp_def tuple_of_def)
  have "tuple_of ` set D = tuple_of ` set D'"
    unfolding assms(3,4) image_image by (rule image_cong) (auto simp: assms(5))
  then show "map_prod id (map canon) ` set (map tuple_of D) = map_prod id (map canon) ` set (map tuple_of D')"
    by simp
qed

lemma s5_view: "world_ok W \<Longrightarrow> world_ok W' \<Longrightarrow> view (map tuple_of (s5_dicts W)) = view (map tuple_of (s5_dicts W'))"
  by (rule grid_view) (rule s5_identities s5_dicts_set s5_tuple, assumption?)+

lemma s6_view: "world_ok W \<Longrightarrow> world_ok W' \<Longrightarrow> view (map tuple_of (s6_dicts W)) = view (map tuple_of (s6_dicts W'))"
  by (rule grid_view) (rule s6_identities s6_dicts_set s6_tuple, assumption?)+

text \<open>The raw files of two campaigns, in any two worlds.\<close>

lemma s5_reruns:
  assumes "world_ok W" "world_ok W'"
  shows "\<exists>c. compare_main (p, raw_bytes (s5_lines W)) (q, raw_bytes (s5_lines W')) = Inr (0, c) \<and> comparison_pass c
    \<and> sealed_rows c = 1200 \<and> rerun_rows c = 1200"
  using compare_main_view [OF s5_compare_load [OF assms(1)] s5_compare_load [OF assms(2)], of p q]
    s5_view [OF assms] s5_all_length [OF assms(1)] s5_all_length [OF assms(2)] by (auto simp: s5_dicts_def)

lemma s6_reruns:
  assumes "world_ok W" "world_ok W'"
  shows "\<exists>c. compare_main (p, raw_bytes (s6_lines W)) (q, raw_bytes (s6_lines W')) = Inr (0, c) \<and> comparison_pass c
    \<and> sealed_rows c = 1500 \<and> rerun_rows c = 1500"
  using compare_main_view [OF s6_compare_load [OF assms(1)] s6_compare_load [OF assms(2)], of p q]
    s6_view [OF assms] s6_all_length [OF assms(1)] s6_all_length [OF assms(2)] by (auto simp: s6_dicts_def)

end
