(* ===== verification/Json_Pretty.thy ===== *)
theory Json_Pretty
  imports Pyval Portable
begin

text \<open>
  The text of \<open>json.dumps(value, indent=2, sort_keys=True, ensure_ascii=False) + "\n"\<close>, encoded in UTF-8,
  which the release tools write, and its round trip through the reader of theory \<open>Json\<close>.
\<close>

section \<open>Writing\<close>

definition raw_char :: "char \<Rightarrow> string" where
  "raw_char c = (if 126 < (of_char c :: nat) then [c] else esc_char c)"

definition raw_str :: "string \<Rightarrow> string" where
  "raw_str s = concat (map raw_char s) @ [CHR 0x22]"

text \<open>A new line, indented to a level.\<close>

definition nl :: "nat \<Rightarrow> string" where
  "nl n = CHR 0x0A # replicate (2 * n) (CHR '' '')"

fun pretty :: "nat \<Rightarrow> json \<Rightarrow> string"
  and pretty_items :: "nat \<Rightarrow> json list \<Rightarrow> string"
  and pretty_members :: "nat \<Rightarrow> (string \<times> json) list \<Rightarrow> string" where
  "pretty n JNull = ''null''"
| "pretty n (JBool b) = (if b then ''true'' else ''false'')"
| "pretty n (JInt i) = str_int i"
| "pretty n (JStr s) = CHR 0x22 # raw_str s"
| "pretty n (JList []) = ''[]''"
| "pretty n (JList (v # vs)) = CHR ''['' # nl (n + 1) @ pretty (n + 1) v @ pretty_items n vs"
| "pretty n (JObj []) = ''{}''"
| "pretty n (JObj ((k, v) # kvs)) =
     CHR ''{'' # nl (n + 1) @ CHR 0x22 # raw_str k @ CHR '':'' # CHR '' '' # pretty (n + 1) v @ pretty_members n kvs"
| "pretty_items n [] = nl n @ '']''"
| "pretty_items n (v # vs) = CHR '','' # nl (n + 1) @ pretty (n + 1) v @ pretty_items n vs"
| "pretty_members n [] = nl n @ ''}''"
| "pretty_members n ((k, v) # kvs) =
     CHR '','' # nl (n + 1) @ CHR 0x22 # raw_str k @ CHR '':'' # CHR '' '' # pretty (n + 1) v @ pretty_members n kvs"

definition json_text :: "json \<Rightarrow> string" where
  "json_text v = pretty 0 (sort_members v) @ [CHR 0x0A]"

definition json_file :: "json \<Rightarrow> bytes" where
  "json_file v = utf8_encode (lit (json_text v))"

section \<open>Reading back\<close>

lemma read_chars_raw_char: "read_chars (raw_char c @ t) = map_option (map_prod ((#) c) id) (read_chars t)"
proof (cases "126 < (of_char c :: nat)")
  case True
  then have "c \<noteq> CHR 0x22" "c \<noteq> CHR 0x5C" by auto
  then show ?thesis using True by (simp add: raw_char_def)
next
  case False
  then show ?thesis by (simp add: raw_char_def read_chars_esc_char)
qed

lemma read_chars_raw_str: "read_chars (raw_str s @ r) = Some (s, r)"
proof (induction s)
  case (Cons c s)
  have "raw_str (c # s) @ r = raw_char c @ (raw_str s @ r)" by (simp add: raw_str_def)
  then show ?case using Cons.IH by (simp only: read_chars_raw_char) simp
qed (simp add: raw_str_def)

lemma drop_nl: "dropWhile json_ws (nl n @ s) = dropWhile json_ws s"
proof -
  have "dropWhile json_ws (replicate k (CHR '' '') @ s) = dropWhile json_ws s" for k
    by (induction k) (simp_all add: json_ws_def)
  then show ?thesis by (simp add: nl_def json_ws_def)
qed

lemma read_value_skip:
  assumes "dropWhile json_ws s = dropWhile json_ws t"
  shows "read_value h f s = read_value h f t"
  using assms by (cases f) simp_all

lemma read_member_skip:
  assumes "dropWhile json_ws s = dropWhile json_ws t"
  shows "read_member h f s = read_member h f t"
  using assms by (cases f) simp_all

lemmas read_nl = read_value_skip [OF drop_nl] read_member_skip [OF drop_nl]

lemma read_value_space: "read_value h f (CHR '' '' # s) = read_value h f s"
  by (rule read_value_skip) (simp add: json_ws_def)

lemma pretty_first: "\<exists>c cs. pretty n v = c # cs \<and> \<not> json_ws c \<and> c \<noteq> CHR '']'' \<and> c \<noteq> CHR ''}''"
proof (cases v)
  case (JInt i)
  then show ?thesis using str_int_hd [of i] by (auto simp: json_ws_def is_digit_def)
next
  case (JList vs)
  then show ?thesis by (cases vs) (auto simp: json_ws_def)
next
  case (JObj kvs)
  then show ?thesis by (cases kvs) (auto simp: json_ws_def)
qed (auto simp: json_ws_def)

lemma drop_pretty: "dropWhile json_ws (pretty n v @ r) = pretty n v @ r"
  using pretty_first [of n v] by (metis append_Cons dropWhile.simps(2))

lemma read_member_raw:
  "read_member h (Suc g) (CHR 0x22 # raw_str k @ CHR '':'' # t) = map_option (map_prod (Pair k) id) (read_value h g t)"
  by (simp add: read_chars_raw_str)

lemma ends_number_pretty: "ends_number (pretty_items n vs @ r)" "ends_number (pretty_members n kvs @ r)"
  by (cases vs, simp_all add: is_digit_def nl_def) (cases kvs, auto simp: is_digit_def nl_def)

lemma read_pretty:
  assumes h: "plain_hook h"
  shows "wf_json v \<Longrightarrow> length (pretty n v) \<le> f \<Longrightarrow> ends_number r \<Longrightarrow> read_value h f (pretty n v @ r) = Some (v, r)"
  "list_all wf_json vs \<Longrightarrow> length (pretty_items n vs) \<le> f \<Longrightarrow> read_items h f (pretty_items n vs @ r) = Some (vs, r)"
  "list_all (\<lambda>kv. wf_json (snd kv)) kvs \<Longrightarrow> length (pretty_members n kvs) \<le> f \<Longrightarrow>
     read_members h f (pretty_members n kvs @ r) = Some (kvs, r)"
proof (induction n v and n vs and n kvs arbitrary: f r and f r and f r
    rule: pretty_pretty_items_pretty_members.induct)
  case (1 n)
  then show ?case by (cases f) (simp_all add: json_ws_def)
next
  case (2 n b)
  then show ?case by (cases f; cases b) (simp_all add: json_ws_def)
next
  case (3 n i)
  then have "0 < f" using str_int_hd [of i] by auto
  then show ?case using 3 by (simp add: read_value_int)
next
  case (4 n s)
  then show ?case by (cases f) (simp_all add: read_chars_raw_str)
next
  case (5 n)
  then show ?case by (cases f) simp_all
next
  case (6 n v vs)
  then obtain g where f: "f = Suc g" by (cases f) auto
  let ?r = "pretty_items n vs @ r"
  have v: "read_value h g (pretty (n + 1) v @ ?r) = Some (v, ?r)"
    using "6.IH"(1) "6.prems" f ends_number_pretty(1) by simp
  have vs: "read_items h g ?r = Some (vs, r)" using "6.IH"(2) "6.prems" f by simp
  obtain c cs where c: "pretty (n + 1) v = c # cs" "c \<noteq> CHR '']''" using pretty_first [of "n + 1" v] by blast
  have d: "dropWhile json_ws (nl (n + 1) @ pretty (n + 1) v @ ?r) = c # (cs @ ?r)"
    unfolding drop_nl drop_pretty unfolding c(1) by simp
  show ?case using v vs c(2) by (simp only: f pretty.simps append_Cons append_assoc read_value.simps(2) dropWhile.simps(2) json_ws_seps if_False list.case d) (simp add: c(1) [simplified])
next
  case (7 n)
  have "h [] = Some (JObj [])" using h by (simp add: plain_hook_def)
  then show ?case using 7 by (cases f) simp_all
next
  case (8 n k v kvs)
  then obtain g where f: "f = Suc (Suc g)" by (cases f; cases "f - 1") auto
  let ?r = "pretty_members n kvs @ r"
  let ?t = "CHR 0x22 # raw_str k @ CHR '':'' # CHR '' '' # pretty (n + 1) v @ ?r"
  have v: "read_value h g (pretty (n + 1) v @ ?r) = Some (v, ?r)"
    using "8.IH"(1) "8.prems" f ends_number_pretty(2) by simp
  have kvs: "read_members h (Suc g) ?r = Some (kvs, r)"
    using "8.IH"(2) "8.prems" f by (simp del: read_members.simps)
  have m: "read_member h (Suc g) ?t = Some ((k, v), ?r)"
    unfolding read_member_raw read_value_space v by simp
  have d: "h ((k, v) # kvs) = Some (JObj ((k, v) # kvs))" using "8.prems" h by (simp add: plain_hook_def)
  have w: "dropWhile json_ws (nl (n + 1) @ ?t) = ?t" unfolding drop_nl by simp
  have q: "pretty n (JObj ((k, v) # kvs)) @ r = CHR ''{'' # nl (n + 1) @ ?t" by simp
  show ?case unfolding q f using m kvs d
    by (simp only: read_value.simps(2) dropWhile.simps(2) json_ws_seps if_False list.case w) simp
next
  case (9 n)
  then obtain g where f: "f = Suc g" by (cases f) auto
  show ?case by (simp add: f drop_nl)
next
  case (10 n v vs)
  then obtain g where f: "f = Suc g" by (cases f) auto
  have v: "read_value h g (pretty (n + 1) v @ (pretty_items n vs @ r)) = Some (v, pretty_items n vs @ r)"
    using "10.IH"(1) "10.prems" f ends_number_pretty(1) by simp
  have vs: "read_items h g (pretty_items n vs @ r) = Some (vs, r)"
    using "10.IH"(2) "10.prems" f by simp
  show ?case using v vs f by (simp add: read_nl)
next
  case (11 n)
  then obtain g where f: "f = Suc g" by (cases f) auto
  show ?case by (simp add: f drop_nl)
next
  case (12 n k v kvs)
  then obtain g where f: "f = Suc (Suc g)" by (cases f; cases "f - 1") auto
  let ?r = "pretty_members n kvs @ r"
  let ?t = "CHR 0x22 # raw_str k @ CHR '':'' # CHR '' '' # pretty (n + 1) v @ ?r"
  have v: "read_value h g (pretty (n + 1) v @ ?r) = Some (v, ?r)"
    using "12.IH"(1) "12.prems" f ends_number_pretty(2) by simp
  have kvs: "read_members h (Suc g) ?r = Some (kvs, r)"
    using "12.IH"(2) "12.prems" f by (simp del: read_members.simps)
  have m: "read_member h (Suc g) (nl (n + 1) @ ?t) = Some ((k, v), ?r)"
    unfolding read_nl read_member_raw read_value_space v by simp
  have q: "pretty_members n ((k, v) # kvs) @ r = CHR '','' # nl (n + 1) @ ?t" by simp
  show ?case unfolding q f using m kvs
    by (simp only: read_members.simps(2) dropWhile.simps(2) json_ws_seps if_False list.case) simp
qed

theorem json_loads_text:
  assumes "plain_hook h" "wf_json v"
  shows "json_loads_with h (json_text v) = Inr (sort_members v)"
  using read_pretty(1) [OF assms(1) wf_sort_members [OF assms(2)], of 0 "2 * length (json_text v) + 2" "[CHR 0x0A]"]
  by (simp add: json_loads_with_def json_text_def is_digit_def json_ws_def)

text \<open>UTF-8 of text with code points below 256.\<close>

lemma utf8_text_encode: "utf8_text (utf8_encode (lit s)) = Some s"
proof (induction s)
  case (Cons c s)
  let ?n = "of_char c :: nat"
  have n: "?n < 256" by (rule of_char_lt_256)
  have b: "unat (word_of_nat k :: byte) = k" if "k < 256" for k
    using that by (simp add: unat_of_nat take_bit_nat_eq_self)
  show ?case
  proof (cases "?n < 128")
    case True
    then show ?thesis using Cons by (simp add: utf8_encode_def lit_def utf8_char_def b)
  next
    case False
    define q where "q = ?n div 64"
    define m where "m = ?n mod 64"
    have "k div 64 = 2 \<or> k div 64 = 3" if "128 \<le> k" "k < 256" for k :: nat using that by linarith
    then have q: "q = 2 \<or> q = 3" using False n unfolding q_def not_less by blast
    have m: "m < 64" "64 * q + m = ?n" by (simp_all add: m_def q_def)
    have "utf8_char ?n = [word_of_nat (192 + q), word_of_nat (128 + m)]" using False less_trans [OF n, of 2048] by (simp add: utf8_char_def q_def m_def)
    then have e: "utf8_encode (lit (c # s)) = word_of_nat (192 + q) # word_of_nat (128 + m) # utf8_encode (lit s)"
      by (simp add: utf8_encode_def lit_def)
    have u: "unat (word_of_nat (192 + q) :: byte) = 192 + q" "unat (word_of_nat (128 + m) :: byte) = 128 + m"
      by (rule b, use q m(1) in fastforce)+
    have two: "utf8_text (w1 # w2 # r) = map_option ((#) (char_of (64 * q + m))) (utf8_text r)"
      if "unat w1 = 192 + q" "unat w2 = 128 + m" for w1 w2 r
      using q m(1) that by auto
    have "utf8_text (utf8_encode (lit (c # s))) = map_option ((#) (char_of (64 * q + m))) (utf8_text (utf8_encode (lit s)))"
      unfolding e by (rule two [OF u])
    then show ?thesis unfolding m(2) Cons by simp
  qed
qed (simp add: utf8_encode_def lit_def)

corollary json_file_reads_back:
  assumes "plain_hook h" "wf_json v"
  shows "\<exists>s. utf8_text (json_file v) = Some s \<and> json_loads_with h s = Inr (sort_members v)"
  using json_loads_text [OF assms] by (simp add: json_file_def utf8_text_encode)

end
