(* ===== verification/Release_Files.thy ===== *)
theory Release_Files
  imports Json_Pretty Verify_Experiments
begin

text \<open>
  A release tree as the metadata tools see it: the regular files below ROOT by relative path in posix form,
  and which paths are symbolic links or reparse points.  Paths are texts over code points below 256; the
  Unicode tables and both hash functions are parameters.
\<close>

section \<open>The tree\<close>

record site =
  site_files :: "(string \<times> bytes) list"
  site_link :: "string list \<Rightarrow> bool"  \<comment> \<open>\<open>has_reparse_or_symlink\<close>, by the parts below ROOT\<close>

definition is_file :: "site \<Rightarrow> string \<Rightarrow> bool" where
  "is_file s p \<longleftrightarrow> path_file (site_files s) p \<noteq> None"

text \<open>The digest of a file that is opened: an OSError when there is none.\<close>

definition file_digest :: "(bytes \<Rightarrow> bytes) \<Rightarrow> site \<Rightarrow> string \<Rightarrow> exn + string" where
  "file_digest h s p = (case path_file (site_files s) p of
     None \<Rightarrow> Inl (OSError ''no such file'') | Some b \<Rightarrow> Inr (sha_hex h b))"

definition put_file :: "string \<Rightarrow> bytes \<Rightarrow> site \<Rightarrow> site" where
  "put_file p data s = s\<lparr>site_files := AList.update p data (site_files s), site_link := (site_link s)(path_parts p := False)\<rparr>"

section \<open>The public files\<close>

definition EXCLUDED :: "string list" where
  "EXCLUDED = [''.git'', ''target'', ''__pycache__'', ''.pytest_cache'', ''.mypy_cache'', ''.ruff_cache'']"

definition INDEXES :: "string list" where
  "INDEXES = [''PUBLIC_MANIFEST.sha256'', ''PUBLIC_ALLOWLIST.txt'']"

definition bytecode :: "string \<Rightarrow> bool" where
  "bytecode p \<longleftrightarrow> py_suffix p \<in> {''.pyc'', ''.pyo''}"

definition public_name :: "string list \<Rightarrow> string \<Rightarrow> bool" where
  "public_name excluded p \<longleftrightarrow>
     \<not> list_ex (\<lambda>c. c \<in> set EXCLUDED) (path_parts p) \<and> p \<notin> set excluded \<and> \<not> bytecode p"

definition all_files :: "string list \<Rightarrow> site \<Rightarrow> string list" where
  "all_files exclude_names s = sort (filter (public_name (INDEXES @ exclude_names)) (map fst (site_files s)))"

text \<open>The release verifier has the function under its own name.\<close>

definition public_files :: "site \<Rightarrow> string list" where
  "public_files s = sort (filter (public_name INDEXES) (map fst (site_files s)))"

lemma public_files_all: "public_files s = all_files [] s"
  by (simp add: public_files_def all_files_def)

text \<open>A path, all its parents and ROOT itself.\<close>

definition checked_paths :: "string \<Rightarrow> string list list" where
  "checked_paths p = map (\<lambda>n. take n (path_parts p)) [0..<length (path_parts p) + 1]"

definition linked :: "site \<Rightarrow> string \<Rightarrow> bool" where
  "linked s p \<longleftrightarrow> list_ex (site_link s) (checked_paths p)"

definition unsafe_public :: "string \<Rightarrow> bool" where
  "unsafe_public p \<longleftrightarrow> p = [] \<or> hd p = CHR ''/'' \<or> ''..'' \<in> set (path_parts p) \<or> CHR 0x5C \<in> set p"

definition collision_key :: "unicode \<Rightarrow> string \<Rightarrow> ustr" where
  "collision_key U p = casefold U (nfc U (lit p))"

fun check_paths :: "site \<Rightarrow> string list \<Rightarrow> exn + unit" where
  "check_paths s [] = Inr ()"
| "check_paths s (p # ps) =
     (if unsafe_public p then Inl (SystemExit (''unsafe public path: '' @ p))
      else if linked s p then Inl (SystemExit (''symlink or reparse point in public path: '' @ p))
      else check_paths s ps)"

definition validate_release_paths :: "unicode \<Rightarrow> site \<Rightarrow> string list \<Rightarrow> exn + string list" where
  "validate_release_paths U s ps = res_bind (check_paths s ps) (\<lambda>_.
     if \<not> distinct (map (collision_key U) ps)
     then Inl (SystemExit ''casefold or Unicode-normalization public-path collision'')
     else Inr ps)"

section \<open>The reviewed allowlist\<close>

definition joined_lines :: "string list \<Rightarrow> string" where
  "joined_lines rows = concat (map (\<lambda>r. r @ [CHR 0x0A]) rows)"

definition unsafe_reviewed :: "string \<Rightarrow> bool" where
  "unsafe_reviewed p \<longleftrightarrow> unsafe_public p \<or> p \<in> set INDEXES \<or> list_ex (\<lambda>c. c \<in> set EXCLUDED) (path_parts p)"

definition parse_canonical_allowlist :: "unicode \<Rightarrow> bytes \<Rightarrow> exn + string list" where
  "parse_canonical_allowlist U raw = (case utf8_text raw of
     None \<Rightarrow> Inl (SystemExit ''reviewed allowlist is not UTF-8'')
   | Some s \<Rightarrow> (let rows = splitlines s in
       if rows = [] \<or> s \<noteq> joined_lines rows
       then Inl (SystemExit ''reviewed allowlist must be non-empty canonical UTF-8 with LF and final newline'')
       else if rows \<noteq> sort rows \<or> \<not> distinct rows
       then Inl (SystemExit ''reviewed allowlist must be ordinal-sorted and unique'')
       else if list_ex unsafe_reviewed rows then Inl (SystemExit ''unsafe reviewed allowlist path'')
       else if \<not> distinct (map (collision_key U) rows)
       then Inl (SystemExit ''reviewed allowlist has a casefold or Unicode-normalization collision'')
       else Inr rows))"

section \<open>Licenses and provenance\<close>

definition py_ends :: "string \<Rightarrow> string \<Rightarrow> bool" where
  "py_ends p e = py_prefix (rev e) (rev p)"

definition license_for :: "string \<Rightarrow> string" where
  "license_for rel =
     (if rel \<in> {''LICENSE'', ''LICENSES/Apache-2.0.txt''} then ''Apache-2.0''
      else if rel = ''LICENSES/MIT.txt'' then ''MIT''
      else if rel = ''LICENSES/CC-BY-4.0.txt'' then ''CC-BY-4.0''
      else if rel = ''Cargo.lock'' \<or> rel = ''Cargo.toml'' \<or> py_prefix ''src/'' rel \<or> py_prefix ''tests/'' rel
      then ''Apache-2.0 OR MIT''
      else if rel \<in> {''.gitattributes'', ''.gitignore'', ''SBOM.spdx.json''} \<or> py_prefix ''tools/'' rel \<or> py_prefix ''schemas/'' rel
      then ''Apache-2.0''
      else if py_prefix ''experiments/'' rel \<and> py_ends rel ''.py'' then ''Apache-2.0''
      else ''CC-BY-4.0'')"

definition provenance_for :: "string \<Rightarrow> string" where
  "provenance_for rel =
     (if rel = ''Cargo.lock'' \<or> rel = ''Cargo.toml'' \<or> py_prefix ''src/'' rel \<or> py_prefix ''tests/'' rel
      then ''verified historical source''
      else if py_prefix ''experiments/'' rel \<and> py_in ''/results/'' rel then ''sealed S5/S6 result''
      else if py_prefix ''paper/v0.3/'' rel then ''v0.3 historical article''
      else if py_prefix ''paper/v0.4/'' rel then ''v0.4 article input''
      else ''v0.2 publication candidate'')"

definition source_suffixes :: "string list" where
  "source_suffixes = [''.rs'', ''.py'', ''.ps1'', ''.sh'', ''.tex'', ''.bib'', ''.toml'', ''.json'', ''.md'', ''.cff'']"

definition file_types :: "unicode \<Rightarrow> string \<Rightarrow> pyval" where
  "file_types U rel = (let suffix = lower U (lit (py_suffix rel)) in VList
     (if suffix \<in> set (map lit source_suffixes) then [VStr ''SOURCE'']
      else if suffix = lit ''.pdf'' then [VStr ''BINARY''] else [VStr ''OTHER'']))"

section \<open>Trees without surprises\<close>

text \<open>Names are in the form \<open>as_posix\<close> gives, and a tree has every name once.\<close>

definition canonical_name :: "string \<Rightarrow> bool" where
  "canonical_name p \<longleftrightarrow> p \<noteq> [] \<and> py_join ''/'' (path_parts p) = p"

definition site_ok :: "site \<Rightarrow> bool" where
  "site_ok s \<longleftrightarrow> distinct (map fst (site_files s)) \<and> list_all canonical_name (map fst (site_files s))"

lemma path_file_canonical: "canonical_name p \<Longrightarrow> path_file t p = map_of t p"
  by (simp add: canonical_name_def path_file_def)

lemma put_names:
  "p \<in> fst ` set (site_files s) \<Longrightarrow> map fst (site_files (put_file p data s)) = map fst (site_files s)"
  by (simp add: put_file_def update_keys)

lemma put_lookup: "map_of (site_files (put_file p data s)) q = (if q = p then Some data else map_of (site_files s) q)"
  by (simp add: put_file_def update_conv)

lemma put_site_ok: "site_ok s \<Longrightarrow> canonical_name p \<Longrightarrow> site_ok (put_file p data s)"
  by (simp add: site_ok_def put_file_def distinct_update update_keys)

end
