(* ===== verification/Rebuild_Metadata.thy ===== *)
theory Rebuild_Metadata
  imports Release_Files
begin

text \<open>
  \<open>tools/rebuild_release_metadata.py\<close>: the checks before the first write, then the experiment manifest, the
  claims ledger, the SBOM, the license inventory, the allowlist (when one is adopted) and the public
  manifest, each written to a temporary file and renamed.  What the writes of the operating system answer
  is a parameter: for every path, success, or failure with the temporary file left behind or not.
\<close>

section \<open>Arguments\<close>

text \<open>
  The external allowlist: whether it is a plain file, whether it resolves below ROOT, and its bytes in the
  two reads (for the digest and for the text).
\<close>

record external =
  ex_plain :: bool
  ex_inside :: bool
  ex_hashed :: "bytes option"
  ex_read :: "bytes option"

record rebuild_arguments =
  adopt :: "external option"
  adopt_sha256 :: "string option"

definition hex64 :: "string \<Rightarrow> bool" where
  "hex64 s \<longleftrightarrow> length s = 64 \<and> list_all is_lower_hex s"

definition check_arguments :: "rebuild_arguments \<Rightarrow> exn + unit" where
  "check_arguments ra =
     (if (adopt ra = None) \<noteq> (adopt_sha256 ra = None)
      then Inl (SystemExit ''--adopt-reviewed-allowlist and --adopt-reviewed-allowlist-sha256 are required together'')
      else (case adopt_sha256 ra of
          None \<Rightarrow> Inr ()
        | Some h \<Rightarrow> if hex64 h then Inr ()
            else Inl (SystemExit ''reviewed allowlist SHA-256 must be 64 lowercase hexadecimal characters'')))"

section \<open>Before the first write\<close>

definition need_read :: "'a option \<Rightarrow> exn + 'a" where
  "need_read x = (case x of None \<Rightarrow> Inl (OSError ''cannot read'') | Some b \<Rightarrow> Inr b)"

definition adopted_allowlist :: "unicode \<Rightarrow> (bytes \<Rightarrow> bytes) \<Rightarrow> external \<Rightarrow> string \<Rightarrow> exn + string list" where
  "adopted_allowlist U sha ex expected =
     (if \<not> ex_plain ex
      then Inl (SystemExit ''out-of-tree project-reviewed allowlist must be an existing regular non-reparse file'')
      else if ex_inside ex then Inl (SystemExit ''project-reviewed allowlist must be outside ROOT'')
      else res_bind (need_read (ex_hashed ex)) (\<lambda>hashed.
           if sha_hex sha hashed \<noteq> expected then Inl (SystemExit ''project-reviewed allowlist SHA-256 mismatch'')
           else res_bind (need_read (ex_read ex)) (parse_canonical_allowlist U)))"

definition own_allowlist :: "unicode \<Rightarrow> site \<Rightarrow> exn + string list" where
  "own_allowlist U s =
     (if \<not> is_file s ''PUBLIC_ALLOWLIST.txt'' \<or> site_link s [''PUBLIC_ALLOWLIST.txt'']
      then Inl (SystemExit ''PUBLIC_ALLOWLIST.txt is missing or unsafe; adoption requires an out-of-tree project-reviewed allowlist and pinned SHA-256'')
      else parse_canonical_allowlist U (the (path_file (site_files s) ''PUBLIC_ALLOWLIST.txt'')))"

definition reviewed_list :: "unicode \<Rightarrow> (bytes \<Rightarrow> bytes) \<Rightarrow> rebuild_arguments \<Rightarrow> site \<Rightarrow> exn + string list" where
  "reviewed_list U sha ra s = (case adopt ra of
     Some ex \<Rightarrow> adopted_allowlist U sha ex (the (adopt_sha256 ra))
   | None \<Rightarrow> own_allowlist U s)"

definition membership_check :: "unicode \<Rightarrow> (bytes \<Rightarrow> bytes) \<Rightarrow> rebuild_arguments \<Rightarrow> site \<Rightarrow> exn + string list" where
  "membership_check U sha ra s =
     res_bind (check_arguments ra) (\<lambda>_.
     res_bind (validate_release_paths U s (all_files [] s)) (\<lambda>relative.
     res_bind (reviewed_list U sha ra s) (\<lambda>reviewed.
       if reviewed \<noteq> relative then Inl (SystemExit ''reviewed allowlist drift'') else Inr relative)))"

section \<open>Writing\<close>

text \<open>\<open>None\<close>: the write succeeds; otherwise what is left in the temporary file, if anything.\<close>

type_synonym faults = "string \<Rightarrow> bytes option option"

definition tmp_name :: "string \<Rightarrow> string" where
  "tmp_name p = p @ ''.tmp''"

definition atomic_write :: "faults \<Rightarrow> string \<Rightarrow> bytes \<Rightarrow> (site, unit) act" where
  "atomic_write io p data s =
     (if is_file s (tmp_name p) then (Inl (SystemExit (''stale atomic-write checkpoint: '' @ tmp_name p)), s)
      else case io p of
        None \<Rightarrow> (Inr (), put_file p data s)
      | Some None \<Rightarrow> (Inl (OSError ''write failed''), s)
      | Some (Some rest) \<Rightarrow> (Inl (OSError ''write failed''), put_file (tmp_name p) rest s))"

text \<open>A value computed from the tree; \<open>text.encode("ascii")\<close>.\<close>

definition from_site :: "(site \<Rightarrow> exn + 'a) \<Rightarrow> (site, 'a) act" where
  "from_site f s = (f s, s)"

definition ascii_encode :: "string \<Rightarrow> exn + bytes" where
  "ascii_encode t = (if list_all (\<lambda>c. (of_char c :: nat) < 128) t then Inr (ascii t)
     else Inl (ValueError ''UnicodeEncodeError''))"

definition write_ascii :: "faults \<Rightarrow> string \<Rightarrow> (site \<Rightarrow> exn + string) \<Rightarrow> (site, unit) act" where
  "write_ascii io p f =
     act_bind (from_site (\<lambda>s. res_bind (f s) ascii_encode)) (atomic_write io p)"

definition write_json :: "faults \<Rightarrow> string \<Rightarrow> (site \<Rightarrow> exn + pyval) \<Rightarrow> (site, unit) act" where
  "write_json io p f =
     act_bind (from_site (\<lambda>s. res_bind (f s) (\<lambda>v. case to_json v of
         None \<Rightarrow> Inl (TypeError ''float in a document'') | Some j \<Rightarrow> Inr (json_file j)))) (atomic_write io p)"

section \<open>The documents\<close>

text \<open>The lines of a digest manifest; names are relative to a directory given by its prefix.\<close>

definition manifest_row :: "(bytes \<Rightarrow> bytes) \<Rightarrow> site \<Rightarrow> string \<Rightarrow> string \<Rightarrow> exn + string" where
  "manifest_row sha s prefix p = res_map (\<lambda>h. h @ ''  '' @ p @ [CHR 0x0A]) (file_digest sha s (prefix @ p))"

definition manifest_text :: "(bytes \<Rightarrow> bytes) \<Rightarrow> string \<Rightarrow> string list \<Rightarrow> site \<Rightarrow> exn + string" where
  "manifest_text sha prefix ps s = res_map concat (res_map_list (manifest_row sha s prefix) ps)"

definition experiments_dir :: string where "experiments_dir = ''experiments/''"

definition experiment_files :: "site \<Rightarrow> string list" where
  "experiment_files s = sort (filter (public_name [''MANIFEST.sha256''])
     (map (drop (length experiments_dir)) (filter (py_prefix experiments_dir) (map fst (site_files s)))))"

definition claim_spec ::
    "string \<Rightarrow> string \<Rightarrow> string \<Rightarrow> string \<Rightarrow> string list \<Rightarrow> string list
      \<Rightarrow> string \<times> string \<times> string \<times> string \<times> string list \<times> string list" where
  "claim_spec claim_id wording scope confidence evidence exclusions =
     (claim_id, wording, scope, confidence, evidence, exclusions)"

definition claim_specs :: "(string \<times> string \<times> string \<times> string \<times> string list \<times> string list) list" where
  "claim_specs = [
      claim_spec ''CL-001''
        ''Operational Artificial System Intelligence (OASI) is the canonical name of a research program for developmental OS-AI integration under one versioned causal history.''
        ''Program definition and terminology.'' ''DEFINITION''
        [''OASI_PHILOSOPHY.md'']
        [''Operational does not mean production-ready; no achieved general or superintelligence, consciousness, deployment, external-validation, superiority, or legal-priority claim.''],
      claim_spec ''CL-002''
        ''The shipped Rust crate implements a bounded user-space AERA reference mechanism.''
        ''Shipped source and finite public tests.'' ''IMPLEMENTED_AND_TESTED_LOCAL''
        [''Cargo.toml'', ''src/runtime.rs'', ''tests/authority_transaction.rs'']
        [''No kernel, hypervisor, hardware, production, or universal security claim.''],
      claim_spec ''CL-003''
        ''The tested design binds authority to body, epoch, generation, certificate, principal, resource, action and revalidates it at commit.''
        ''Finite user-space reference model.'' ''IMPLEMENTED_AND_TESTED_LOCAL''
        [''AERA_SPECIFICATION.md'', ''src/model.rs'', ''tests/authority_transaction.rs'']
        [''Not a formal proof for all environments.''],
      claim_spec ''CL-004''
        ''T4 produced a negative result: shared state alone did not establish decision superiority in the frozen task.''
        ''Historical frozen T4 domain.'' ''VERIFIED_HISTORICAL_AUDIT''
        [''public_evidence/T4_SCIENCE_SUMMARY.json'']
        [''No general theorem about all organismic architectures.''],
      claim_spec ''CL-005''
        ''T4 had construct-validity limits and did not operationalize broad organismic non-separability.''
        ''Historical causal/source audit.'' ''VERIFIED_HISTORICAL_AUDIT''
        [''public_evidence/T4_SCIENCE_SUMMARY.json'']
        [''Does not convert a negative result into positive OASI evidence.''],
      claim_spec ''CL-006''
        ''The broad OASI thesis remains neither demonstrated nor refuted.''
        ''Inference from the bounded experimental design.'' ''BOUNDED_INFERENCE''
        [''public_evidence/T4_SCIENCE_SUMMARY.json'', ''KNOWN_LIMITATIONS.md'']
        [''No feasibility or superiority claim.''],
      claim_spec ''CL-007''
        ''G039 is immutable HOLD/NO-REPLAY history.''
        ''Pinned G039/G040 report summary.'' ''PINNED_EVIDENCE''
        [''public_evidence/G039_G040_SUMMARY.json'']
        [''No repaired or replayed G039 claim.''],
      claim_spec ''CL-008''
        ''G040 is prepared-only technical closure.''
        ''Pinned G040 report summary.'' ''PINNED_EVIDENCE''
        [''public_evidence/G039_G040_SUMMARY.json'']
        [''No build, QEMU, Stage 7, performance, science, production, or publication.''],
      claim_spec ''CL-009''
        ''A green internal gate catalogue can omit decisive adversarial cases.''
        ''Sanitized G116 fixture-only methodological summary.'' ''INTERNAL_METHOD_REEXECUTION''
        [''public_evidence/G116_METHOD_SUMMARY.json'']
        [''No carrier validation, real build, QEMU, production, or scientific-success claim.''],
      claim_spec ''CL-010''
        ''S5 did not establish an OASI mechanism advantage over a cooperative idempotent receiver.''
        ''1,200 deterministic local fixture records.'' ''LOCAL_DETERMINISTIC_NEGATIVE''
        [''public_evidence/S5_SCIENCE_SUMMARY.json'', ''experiments/s5/results/RAW_RUNS.jsonl'']
        [''No real fault, population, QEMU/guest, production, or external-replication claim.''],
      claim_spec ''CL-011''
        ''S6 observed a duplicate/omission tradeoff between redispatch and no-redispatch policies.''
        ''1,500 deterministic local fixture records and adversarial source audit.'' ''BOUNDED_DIAGNOSTIC''
        [''public_evidence/S6_SCIENCE_SUMMARY.json'', ''experiments/s6/results/RAW_RUNS.jsonl'', ''paper/v0.4/INTERNAL_ADVERSARIAL_REVIEW_V0_4.md'']
        [''No OASI-specific attribution, inferential probability, real fault, universal exactly-once, or general-superiority claim.'']]"

definition evidence_row :: "(bytes \<Rightarrow> bytes) \<Rightarrow> site \<Rightarrow> string \<Rightarrow> exn + pyval" where
  "evidence_row sha s rel =
     (if \<not> is_file s rel then Inl (SystemExit (''missing claim evidence: '' @ rel))
      else res_map (\<lambda>h. VDict [(''path'', VStr rel), (''sha256'', VStr h)]) (file_digest sha s rel))"

definition claim_row ::
    "(bytes \<Rightarrow> bytes) \<Rightarrow> site \<Rightarrow> string \<times> string \<times> string \<times> string \<times> string list \<times> string list \<Rightarrow> exn + pyval" where
  "claim_row sha s spec = (case spec of (claim_id, wording, scope, confidence, paths, exclusions) \<Rightarrow>
     res_map (\<lambda>evidence. VDict
       [(''confidence'', VStr confidence), (''evidence'', VList evidence),
        (''exclusions'', VList (map VStr exclusions)), (''id'', VStr claim_id), (''scope'', VStr scope),
        (''wording'', VStr wording)]) (res_map_list (evidence_row sha s) paths))"

definition claims_ledger :: "(bytes \<Rightarrow> bytes) \<Rightarrow> site \<Rightarrow> exn + pyval" where
  "claims_ledger sha s = res_map (\<lambda>claims. VDict
     [(''claims'', VList claims), (''forbidden_claims_reviewed'', VBool True),
      (''schema'', VStr ''oasi.public.claims-evidence.v2'')]) (res_map_list (claim_row sha s) claim_specs)"

definition zero_pad :: "nat \<Rightarrow> nat \<Rightarrow> string" where
  "zero_pad width n = (let d = str_nat n in replicate (width - length d) (CHR ''0'') @ d)"

definition file_id :: "nat \<Rightarrow> string" where
  "file_id index = ''SPDXRef-File-'' @ zero_pad 4 index"

definition noassertion :: pyval where "noassertion = VStr ''NOASSERTION''"

definition spdx_row :: "unicode \<Rightarrow> (bytes \<Rightarrow> bytes) \<Rightarrow> (bytes \<Rightarrow> bytes) \<Rightarrow> site \<Rightarrow> nat \<times> string \<Rightarrow> exn + pyval" where
  "spdx_row U sha sha1 s ir = (case ir of (index, rel) \<Rightarrow>
     res_bind (file_digest sha1 s rel) (\<lambda>h1.
     res_bind (file_digest sha s rel) (\<lambda>h2. Inr (VDict
       [(''SPDXID'', VStr (file_id index)),
        (''checksums'', VList
           [VDict [(''algorithm'', VStr ''SHA1''), (''checksumValue'', VStr h1)],
            VDict [(''algorithm'', VStr ''SHA256''), (''checksumValue'', VStr h2)]]),
        (''copyrightText'', noassertion), (''fileName'', VStr (''./'' @ rel)), (''fileTypes'', file_types U rel),
        (''licenseConcluded'', VStr (license_for rel)), (''licenseInfoInFiles'', VList [VStr (license_for rel)])]))))"

definition relationship :: "nat \<Rightarrow> pyval" where
  "relationship index = VDict [(''relatedSpdxElement'', VStr (file_id index)),
     (''relationshipType'', VStr ''CONTAINS''), (''spdxElementId'', VStr ''SPDXRef-Package-OASI'')]"

definition verification_code :: "(bytes \<Rightarrow> bytes) \<Rightarrow> string list \<Rightarrow> site \<Rightarrow> exn + string" where
  "verification_code sha1 ps s =
     res_map (\<lambda>hs. sha_hex sha1 (ascii (concat (sort hs)))) (res_map_list (file_digest sha1 s) ps)"

definition project_name :: string where
  "project_name = ''OASI/AERA: Operational Artificial System Intelligence Research Preview''"

definition project_package :: "string \<Rightarrow> pyval" where
  "project_package code = VDict
     [(''SPDXID'', VStr ''SPDXRef-Package-OASI''), (''copyrightText'', noassertion),
      (''downloadLocation'', noassertion), (''filesAnalyzed'', VBool True), (''licenseConcluded'', noassertion),
      (''licenseDeclared'', noassertion), (''name'', VStr project_name),
      (''packageVerificationCode'', VDict [(''packageVerificationCodeValue'', VStr code)]),
      (''versionInfo'', VStr ''0.2.1-research-preview'')]"

definition tool_versions :: "(string \<times> string) list" where
  "tool_versions =
    [(''Qualification Python'', ''3.12.3''),
     (''Qualification PyYAML'', ''6.0.1''),
     (''Qualification cryptography'', ''41.0.7''),
     (''Qualification SQLite'', ''3.45.1''),
     (''Qualification Rust'', ''1.97.1''),
     (''Qualification Cargo'', ''1.97.1''),
     (''Publication Python'', ''3.11.9''),
     (''Publication PyYAML'', ''6.0.3''),
     (''Publication cryptography'', ''50.0.1''),
     (''Publication SQLite'', ''3.45.1''),
     (''Publication zlib'', ''1.3.1''),
     (''Git for Windows'', ''2.55.0.windows.5''),
     (''MiKTeX-pdfTeX'', ''4.23''),
     (''Biber'', ''2.21''),
     (''Poppler-pdfinfo'', ''26.05.0''),
     (''Poppler-pdffonts'', ''24.04.0''),
     (''Poppler-pdftotext'', ''24.04.0''),
     (''Poppler-pdftocairo'', ''24.04.0'')]"

definition tool_package :: "nat \<times> string \<times> string \<Rightarrow> pyval" where
  "tool_package x = (case x of (index, name, version) \<Rightarrow> VDict
     [(''SPDXID'', VStr (''SPDXRef-Tool-'' @ zero_pad 2 index)), (''copyrightText'', noassertion),
      (''downloadLocation'', noassertion), (''filesAnalyzed'', VBool False), (''licenseConcluded'', noassertion),
      (''licenseDeclared'', noassertion), (''name'', VStr name), (''versionInfo'', VStr version)])"

definition sbom_files :: "site \<Rightarrow> string list" where
  "sbom_files s = all_files [''SBOM.spdx.json'', ''LICENSE_INVENTORY.json''] s"

definition sbom_document :: "unicode \<Rightarrow> (bytes \<Rightarrow> bytes) \<Rightarrow> (bytes \<Rightarrow> bytes) \<Rightarrow> site \<Rightarrow> exn + pyval" where
  "sbom_document U sha sha1 s = (let ps = sbom_files s; numbered = enumerate 1 ps in
     res_bind (res_map_list (spdx_row U sha sha1 s) numbered) (\<lambda>rows.
     res_bind (verification_code sha1 ps s) (\<lambda>code. Inr (VDict
       [(''SPDXID'', VStr ''SPDXRef-DOCUMENT''),
        (''creationInfo'', VDict [(''created'', VStr ''2026-09-02T00:00:00Z''),
           (''creators'', VList [VStr ''Tool: OASI deterministic metadata builder''])]),
        (''dataLicense'', VStr ''CC0-1.0''),
        (''documentNamespace'', VStr ''https://spdx.org/spdxdocs/oasi-aera-v0.2.1-research-preview''),
        (''files'', VList rows), (''name'', VStr ''OASI-AERA-v0.2.1-research-preview-SBOM''),
        (''packages'', VList (project_package code # map tool_package (enumerate 1 tool_versions))),
        (''relationships'', VList (map (\<lambda>ir. relationship (fst ir)) numbered)),
        (''spdxVersion'', VStr ''SPDX-2.3'')]))))"

definition inventory_files :: "site \<Rightarrow> string list" where
  "inventory_files s = all_files [''LICENSE_INVENTORY.json''] s"

definition inventory_row :: "(bytes \<Rightarrow> bytes) \<Rightarrow> site \<Rightarrow> string \<Rightarrow> exn + pyval" where
  "inventory_row sha s rel = res_map (\<lambda>h. VDict
     [(''copyright'', noassertion), (''license'', VStr (license_for rel)), (''path'', VStr rel),
      (''provenance'', VStr (provenance_for rel)), (''sha256'', VStr h)]) (file_digest sha s rel)"

definition inventory_metadata :: "(string \<times> pyval) list" where
  "inventory_metadata =
     [(''git_dependencies'', VList []),
      (''preferred_future_code_license'', VStr ''AGPL-3.0-only optional for a future clean-slate generation after a fresh chain-of-title and compatibility audit''),
      (''registry_dependencies'', VList []), (''schema'', VStr ''oasi.public.license-inventory.v2''),
      (''status'', VStr ''PASS_OWNER_REPRESENTATION_ACCEPTED_FOR_V0_2_RELEASE''),
      (''third_party_source_vendored'', VBool False)]"

definition license_inventory :: "(bytes \<Rightarrow> bytes) \<Rightarrow> site \<Rightarrow> exn + pyval" where
  "license_inventory sha s = res_map (\<lambda>rows. VDict ((''files'', VList rows) # inventory_metadata))
     (res_map_list (inventory_row sha s) (inventory_files s))"

section \<open>The script\<close>

definition LEDGER_REL :: string where "LEDGER_REL = ''public_evidence/CLAIMS_EVIDENCE_LEDGER.json''"

definition rebuild_writes ::
    "unicode \<Rightarrow> (bytes \<Rightarrow> bytes) \<Rightarrow> (bytes \<Rightarrow> bytes) \<Rightarrow> faults \<Rightarrow> bool \<Rightarrow> string list \<Rightarrow> (site, unit) act list" where
  "rebuild_writes U sha sha1 io adopting relative =
     [write_ascii io ''experiments/MANIFEST.sha256'' (\<lambda>s. manifest_text sha experiments_dir (experiment_files s) s),
      write_json io LEDGER_REL (claims_ledger sha),
      write_json io ''SBOM.spdx.json'' (sbom_document U sha sha1),
      write_json io ''LICENSE_INVENTORY.json'' (license_inventory sha)]
     @ (if adopting then [atomic_write io ''PUBLIC_ALLOWLIST.txt'' (utf8_encode (lit (joined_lines relative)))] else [])
     @ [write_ascii io ''PUBLIC_MANIFEST.sha256'' (manifest_text sha [] relative)]"

definition rebuild ::
    "unicode \<Rightarrow> (bytes \<Rightarrow> bytes) \<Rightarrow> (bytes \<Rightarrow> bytes) \<Rightarrow> faults \<Rightarrow> rebuild_arguments \<Rightarrow> (site, unit) act" where
  "rebuild U sha sha1 io ra =
     act_bind (from_site (membership_check U sha ra)) (\<lambda>relative.
       act_seq (rebuild_writes U sha sha1 io (adopt ra \<noteq> None) relative))"

end
