(* ===== verification/Verify_Release.thy ===== *)
theory Verify_Release
  imports Rebuild_Metadata
begin

text \<open>
  The sections of \<open>tools/verify_release.py\<close> on the generated metadata: the manifest and the allowlist, the
  paths, the JSON files and the license inventory.  A section returns the messages it appends to ERRORS, or
  the exception that ends the program.
\<close>

section \<open>Reading\<close>

definition note_if :: "bool \<Rightarrow> string \<Rightarrow> string list" where
  "note_if b message = (if b then [message] else [])"

lemma note_if_Nil [simp]: "note_if b m = [] \<longleftrightarrow> \<not> b" "[] = note_if b m \<longleftrightarrow> \<not> b"
  by (simp_all add: note_if_def)

definition strict_json :: "site \<Rightarrow> string \<Rightarrow> pyval \<times> string list" where
  "strict_json s p = (let failed = (VDict [], [''invalid strict JSON: '' @ p]) in
     case path_file (site_files s) p of None \<Rightarrow> failed
     | Some raw \<Rightarrow> (case utf8_text raw of None \<Rightarrow> failed
       | Some t \<Rightarrow> (case json_loads_with unique_hook t of Inl e \<Rightarrow> failed | Inr j \<Rightarrow> (of_json j, []))))"

text \<open>\<open>value.get(key)\<close>, \<open>isinstance(value, dict) and set(value) == keys\<close>.\<close>

definition py_get :: "pyval \<Rightarrow> string \<Rightarrow> exn + pyval" where
  "py_get v k = (case v of VDict kvs \<Rightarrow> Inr (dict_get (map_of kvs) k) | _ \<Rightarrow> Inl (AttributeError ''get''))"

definition has_keys :: "pyval \<Rightarrow> string list \<Rightarrow> bool" where
  "has_keys v keys \<longleftrightarrow> (case v of VDict kvs \<Rightarrow> fst ` set kvs = set keys | _ \<Rightarrow> False)"

fun is_dict :: "pyval \<Rightarrow> bool" where
  "is_dict (VDict _) = True"
| "is_dict _ = False"

fun is_list :: "pyval \<Rightarrow> bool" where
  "is_list (VList _) = True"
| "is_list _ = False"

fun list_items :: "pyval \<Rightarrow> pyval list" where
  "list_items (VList vs) = vs"
| "list_items _ = []"

text \<open>\<open>sorted(values)\<close> of hashable values: texts, or numbers, or at most one value; else a TypeError.\<close>

fun text_of :: "pyval \<Rightarrow> string" where
  "text_of (VStr t) = t"
| "text_of _ = []"

fun is_text :: "pyval \<Rightarrow> bool" where
  "is_text (VStr _) = True"
| "is_text _ = False"

fun number_of :: "pyval \<Rightarrow> rat" where
  "number_of (VInt i) = of_int i"
| "number_of (VBool b) = (if b then 1 else 0)"
| "number_of (VFloat q) = q"
| "number_of _ = 0"

fun is_number :: "pyval \<Rightarrow> bool" where
  "is_number (VInt _) = True"
| "is_number (VBool _) = True"
| "is_number (VFloat _) = True"
| "is_number _ = False"

definition py_sorted :: "pyval list \<Rightarrow> exn + pyval list" where
  "py_sorted vs =
     (if list_all is_text vs then Inr (sort_key text_of vs)
      else if list_all is_number vs then Inr (sort_key number_of vs)
      else if length vs \<le> 1 then Inr vs
      else Inl (TypeError ''< not supported''))"

section \<open>Portable paths\<close>

definition drive_text :: "string \<Rightarrow> bool" where
  "drive_text p = drive_letter (lit p)"

definition as_posix :: "string \<Rightarrow> string" where
  "as_posix p = (if path_parts p = [] then ''.'' else py_join ''/'' (path_parts p))"

definition portable_public_relative_path :: "unicode \<Rightarrow> pyval \<Rightarrow> bool" where
  "portable_public_relative_path U v = (case v of
     VStr p \<Rightarrow>
       if p = [] \<or> CHR 0x5C \<in> set p \<or> CHR 0x00 \<in> set p then False
       else if nfc U (lit p) \<noteq> lit p \<or> drive_text p then False
       else hd p \<noteq> CHR ''/'' \<and> as_posix p = p \<and> list_all (\<lambda>c. c \<notin> {[], ''.'', ''..''}) (path_parts p)
   | _ \<Rightarrow> False)"

definition v_license_for :: "string \<Rightarrow> string" where
  "v_license_for rel =
     (if rel \<in> {''LICENSE'', ''LICENSES/Apache-2.0.txt''} then ''Apache-2.0''
      else if rel = ''LICENSES/MIT.txt'' then ''MIT''
      else if rel = ''LICENSES/CC-BY-4.0.txt'' then ''CC-BY-4.0''
      else if rel \<in> {''Cargo.lock'', ''Cargo.toml''} \<or> py_prefix ''src/'' rel \<or> py_prefix ''tests/'' rel
      then ''Apache-2.0 OR MIT''
      else if rel \<in> {''.gitattributes'', ''.gitignore'', ''SBOM.spdx.json''} \<or> py_prefix ''tools/'' rel \<or> py_prefix ''schemas/'' rel
      then ''Apache-2.0''
      else if py_prefix ''experiments/'' rel \<and> py_ends rel ''.py'' then ''Apache-2.0''
      else ''CC-BY-4.0'')"

definition v_provenance_for :: "string \<Rightarrow> string" where
  "v_provenance_for rel =
     (if rel \<in> {''Cargo.lock'', ''Cargo.toml''} \<or> py_prefix ''src/'' rel \<or> py_prefix ''tests/'' rel
      then ''verified historical source''
      else if py_prefix ''experiments/'' rel \<and> py_in ''/results/'' rel then ''sealed S5/S6 result''
      else if py_prefix ''paper/v0.3/'' rel then ''v0.3 historical article''
      else if py_prefix ''paper/v0.4/'' rel then ''v0.4 article input''
      else ''v0.2 publication candidate'')"

lemma same_policies: "v_license_for rel = license_for rel" "v_provenance_for rel = provenance_for rel"
  by (simp_all add: v_license_for_def license_for_def v_provenance_for_def provenance_for_def)

section \<open>Manifest and allowlist\<close>

text \<open>\<open>line.split("  ", 1)\<close>: the parts around the first two spaces.\<close>

fun split_once :: "string \<Rightarrow> string \<Rightarrow> (string \<times> string) option" where
  "split_once acc [] = None"
| "split_once acc (c # cs) =
     (if c = CHR '' '' \<and> cs \<noteq> [] \<and> hd cs = CHR '' '' then Some (rev acc, tl cs) else split_once (c # acc) cs)"

fun release_manifest :: "(string \<times> string) list \<Rightarrow> string list \<Rightarrow> (string \<times> string) list \<times> string list" where
  "release_manifest manifest [] = (manifest, [])"
| "release_manifest manifest (l # ls) = (case split_once [] l of
     None \<Rightarrow> (case release_manifest manifest ls of (m, es) \<Rightarrow> (m, ''invalid manifest grammar'' # es))
   | Some (h, p) \<Rightarrow>
       if \<not> hex64 h then (case release_manifest manifest ls of (m, es) \<Rightarrow> (m, ''invalid manifest grammar'' # es))
       else (case release_manifest (AList.update p h manifest) ls of
           (m, es) \<Rightarrow> (m, note_if (p \<in> fst ` set manifest) ''duplicate manifest path'' @ es)))"

definition ascii_text :: "bytes \<Rightarrow> exn + string" where
  "ascii_text raw = (if list_all (\<lambda>b. unat b < 128) raw then Inr (map (\<lambda>b. char_of (unat b)) raw)
     else Inl (ValueError ''UnicodeDecodeError''))"

definition utf8_read :: "bytes \<Rightarrow> exn + string" where
  "utf8_read raw = (case utf8_text raw of None \<Rightarrow> Inl (ValueError ''UnicodeDecodeError'') | Some t \<Rightarrow> Inr t)"

definition manifest_section :: "(bytes \<Rightarrow> bytes) \<Rightarrow> site \<Rightarrow> exn + string list" where
  "manifest_section sha s =
     (if \<not> is_file s ''PUBLIC_MANIFEST.sha256'' \<or> \<not> is_file s ''PUBLIC_ALLOWLIST.txt''
      then Inr [''manifest or allowlist missing'']
      else
        res_bind (res_map_list (\<lambda>p. res_map (Pair p) (file_digest sha s p)) (public_files s)) (\<lambda>observed.
        res_bind (ascii_text (the (path_file (site_files s) ''PUBLIC_MANIFEST.sha256''))) (\<lambda>text.
        res_bind (utf8_read (the (path_file (site_files s) ''PUBLIC_ALLOWLIST.txt''))) (\<lambda>listed. (let
            (manifest, errors) = release_manifest [] (splitlines text);
            allowlist = splitlines listed
          in Inr (errors
            @ note_if (map_of manifest \<noteq> map_of observed) ''manifest does not equal observed public files''
            @ note_if (allowlist \<noteq> sort (map fst observed) \<or> \<not> distinct allowlist)
                ''allowlist does not equal sorted unique public files''))))))"

section \<open>Paths\<close>

definition path_errors :: "site \<Rightarrow> string \<Rightarrow> string list" where
  "path_errors s p =
     note_if (hd p = CHR ''/'' \<or> ''..'' \<in> set (path_parts p) \<or> CHR 0x5C \<in> set p) (''unsafe path: '' @ p)
     @ note_if (linked s p) (''symlink or reparse path: '' @ p)"

definition path_section :: "unicode \<Rightarrow> site \<Rightarrow> string list" where
  "path_section U s = (let
       portable_paths = filter (is_file s) (public_files s @ INDEXES)
     in concat (map (path_errors s) portable_paths)
        @ note_if (\<not> distinct (map (collision_key U) portable_paths)) ''casefold or Unicode-normalization path collision'')"

definition json_section :: "unicode \<Rightarrow> site \<Rightarrow> string list" where
  "json_section U s = concat (map (\<lambda>p. snd (strict_json s p))
     (filter (\<lambda>p. lower U (lit (py_suffix p)) = lit ''.json'') (public_files s)))"

section \<open>The license inventory\<close>

definition row_keys :: "string list" where
  "row_keys = [''copyright'', ''license'', ''path'', ''provenance'', ''sha256'']"

definition inventory_row_errors ::
    "unicode \<Rightarrow> (bytes \<Rightarrow> bytes) \<Rightarrow> site \<Rightarrow> string list \<Rightarrow> nat \<times> pyval \<Rightarrow> string list" where
  "inventory_row_errors U sha s expected x = (case x of (index, row) \<Rightarrow>
     if \<not> has_keys row row_keys then [''license inventory row property set mismatch: '' @ str_nat index]
     else (case row of VDict kvs \<Rightarrow> (let get = dict_get (map_of kvs); rel = get ''path''; p = text_of rel in
       if \<not> portable_public_relative_path U rel \<or> p \<notin> set expected
       then [''license inventory path is not a public relative file: '' @ str_nat index]
       else note_if (\<not> py_eq (get ''license'') (VStr (v_license_for p))) (''license inventory license mismatch: '' @ p)
         @ note_if (\<not> py_eq (get ''provenance'') (VStr (v_provenance_for p))) (''license inventory provenance mismatch: '' @ p)
         @ note_if (\<not> py_eq (get ''copyright'') (VStr ''NOASSERTION'')) (''license inventory copyright mismatch: '' @ p)
         @ note_if (case file_digest sha s p of Inl e \<Rightarrow> True | Inr h \<Rightarrow> \<not> py_eq (VStr h) (get ''sha256''))
             (''license inventory hash mismatch: '' @ p))
     | _ \<Rightarrow> []))"

definition metadata_errors :: "pyval \<Rightarrow> exn + string list" where
  "metadata_errors inventory = res_map concat (res_map_list (\<lambda>(field, expected).
     res_map (\<lambda>v. note_if (\<not> py_eq v expected) (''license inventory metadata mismatch: '' @ field)) (py_get inventory field))
     inventory_metadata)"

definition inventory_rows :: "pyval \<Rightarrow> exn + pyval" where
  "inventory_rows inventory = (case inventory of
     VDict kvs \<Rightarrow> Inr (case map_of kvs ''files'' of None \<Rightarrow> VList [] | Some v \<Rightarrow> v)
   | _ \<Rightarrow> Inl (AttributeError ''get''))"

definition mapped_path_errors :: "pyval list \<Rightarrow> nat \<Rightarrow> string list \<Rightarrow> exn + string list" where
  "mapped_path_errors mapped_paths rows expected =
     (if \<not> list_all hashable mapped_paths then Inl (TypeError ''unhashable type'')
      else res_bind (py_sorted mapped_paths) (\<lambda>ordered. Inr (
          note_if (rows \<noteq> length expected \<or> length mapped_paths \<noteq> rows) ''license inventory file-row cardinality mismatch''
          @ note_if (\<not> distinct (map canon mapped_paths)) ''license inventory file paths are duplicated''
          @ note_if (map canon mapped_paths \<noteq> map canon ordered) ''license inventory file paths are not ordinally sorted''
          @ note_if (canon ` set mapped_paths \<noteq> VStr ` set expected)
              ''license inventory does not cover exact public file set'')))"

definition inventory_section :: "unicode \<Rightarrow> (bytes \<Rightarrow> bytes) \<Rightarrow> site \<Rightarrow> exn + string list" where
  "inventory_section U sha s = (case strict_json s ''LICENSE_INVENTORY.json'' of (inventory, errors) \<Rightarrow>
     res_bind (metadata_errors inventory) (\<lambda>metadata.
     res_bind (inventory_rows inventory) (\<lambda>files. (let
         rows = list_items files;
         mapped_paths = map (\<lambda>row. case row of VDict kvs \<Rightarrow> dict_get (map_of kvs) ''path'' | _ \<Rightarrow> VNone) (filter is_dict rows);
         expected = filter (\<lambda>p. p \<noteq> ''LICENSE_INVENTORY.json'') (public_files s)
       in res_bind (mapped_path_errors mapped_paths (length rows) expected) (\<lambda>mapped. Inr (
            errors
            @ note_if (\<not> has_keys inventory (''files'' # map fst inventory_metadata))
                ''license inventory top-level property set mismatch''
            @ metadata
            @ note_if (\<not> is_list files) ''license inventory files must be a list''
            @ mapped
            @ concat (map (inventory_row_errors U sha s expected) (enumerate 0 rows))))))))"

end
