(* ===== verification/Claim_Schema.thy ===== *)
theory Claim_Schema
  imports Verify_Release
begin

text \<open>
  The JSON-Schema subset of \<open>tools/verify_release.py\<close>: local references, the recursive validator with the
  depth of calls that the interpreter allows, its self-test, and the section on the claims ledger.  Of \<open>re\<close>
  the patterns of a fixed length between \<open>^\<close> and \<open>$\<close> are modelled; what \<open>re.search\<close> answers for any other
  pattern is a parameter.
\<close>

section \<open>Texts\<close>

text \<open>\<open>text.replace(old, new)\<close> for an old text of two characters.\<close>

fun replace_pair :: "char \<Rightarrow> char \<Rightarrow> char \<Rightarrow> string \<Rightarrow> string" where
  "replace_pair a b new (c # d # cs) =
     (if c = a \<and> d = b then new # replace_pair a b new cs else c # replace_pair a b new (d # cs))"
| "replace_pair a b new cs = cs"

section \<open>Patterns of fixed length\<close>

type_synonym char_class = "(char \<times> char) list"

definition in_class :: "char_class \<Rightarrow> char \<Rightarrow> bool" where
  "in_class k c \<longleftrightarrow> list_ex (\<lambda>(a, b). (of_char a :: nat) \<le> of_char c \<and> (of_char c :: nat) \<le> of_char b) k"

definition re_plain :: "char \<Rightarrow> bool" where
  "re_plain c \<longleftrightarrow> in_class [(CHR ''0'', CHR ''9''), (CHR ''A'', CHR ''Z''), (CHR ''a'', CHR ''z'')] c"

text \<open>A class of ranges after its bracket, and a count of repetitions.\<close>

fun class_ranges :: "nat \<Rightarrow> string \<Rightarrow> (char_class \<times> string) option" where
  "class_ranges 0 s = None"
| "class_ranges (Suc f) s =
     (if length s \<ge> 4 \<and> re_plain (s ! 0) \<and> s ! 1 = CHR ''-'' \<and> re_plain (s ! 2) \<and> (of_char (s ! 0) :: nat) \<le> of_char (s ! 2)
      then if s ! 3 = CHR '']'' then Some ([(s ! 0, s ! 2)], drop 4 s)
        else map_option (\<lambda>(k, r). ((s ! 0, s ! 2) # k, r)) (class_ranges f (drop 3 s))
      else None)"

definition re_count :: "string \<Rightarrow> (nat \<times> string) option" where
  "re_count s = (if s \<noteq> [] \<and> hd s = CHR ''{''
     then let ds = takeWhile is_digit (tl s); r = dropWhile is_digit (tl s)
       in if ds \<noteq> [] \<and> r \<noteq> [] \<and> hd r = CHR ''}'' then Some (nat_of_digits 0 ds, tl r) else None
     else Some (1, s))"

text \<open>Plain characters, hyphens and classes, each with its count, up to the final \<open>$\<close>.\<close>

fun re_items :: "nat \<Rightarrow> string \<Rightarrow> char_class list option" where
  "re_items 0 s = None"
| "re_items (Suc f) s = (if s = [] then None else if s = ''$'' then Some [] else
     (case if hd s = CHR ''['' then class_ranges (length s) (tl s)
           else if re_plain (hd s) \<or> hd s = CHR ''-'' then Some ([(hd s, hd s)], tl s) else None of
        None \<Rightarrow> None
      | Some (k, r) \<Rightarrow> (case re_count r of None \<Rightarrow> None
         | Some (n, r') \<Rightarrow> map_option ((@) (replicate n k)) (re_items f r'))))"

definition fixed_pattern :: "string \<Rightarrow> char_class list option" where
  "fixed_pattern p = (if p \<noteq> [] \<and> hd p = CHR ''^'' then re_items (length p) (tl p) else None)"

type_synonym regex = "string \<Rightarrow> string \<Rightarrow> exn + bool"

text \<open>\<open>re.search(pattern, value) is not None\<close>; \<open>$\<close> also matches before a newline at the end.\<close>

definition re_search :: "regex \<Rightarrow> string \<Rightarrow> string \<Rightarrow> exn + bool" where
  "re_search re pattern v = (case fixed_pattern pattern of
     None \<Rightarrow> re pattern v
   | Some ks \<Rightarrow> Inr (length ks \<le> length v \<and> list_all2 in_class ks (take (length ks) v)
       \<and> drop (length ks) v \<in> {[], [CHR 0x0A]}))"

section \<open>The validator\<close>

fun resolve_parts :: "pyval \<Rightarrow> string list \<Rightarrow> pyval option" where
  "resolve_parts current [] = Some current"
| "resolve_parts current (raw_part # parts) = (case current of
     VDict kvs \<Rightarrow> (case map_of kvs (replace_pair (CHR ''~'') (CHR ''0'') (CHR ''~'') (replace_pair (CHR ''~'') (CHR ''1'') (CHR ''/'') raw_part)) of
         None \<Rightarrow> None | Some v \<Rightarrow> resolve_parts v parts)
   | _ \<Rightarrow> None)"

definition resolve_local_json_pointer :: "pyval \<Rightarrow> string \<Rightarrow> pyval option" where
  "resolve_local_json_pointer root_schema reference =
     (if \<not> py_prefix ''#/'' reference then None
      else case resolve_parts root_schema (split_slash [] (drop 2 reference)) of
        Some VNone \<Rightarrow> None | r \<Rightarrow> r)"

fun has_type :: "string \<Rightarrow> pyval \<Rightarrow> bool" where
  "has_type t v \<longleftrightarrow> t = ''object'' \<and> is_dict v \<or> t = ''array'' \<and> is_list v \<or> t = ''string'' \<and> is_text v
     \<or> t = ''integer'' \<and> (case v of VInt _ \<Rightarrow> True | _ \<Rightarrow> False)
     \<or> t = ''number'' \<and> (case v of VInt _ \<Rightarrow> True | VFloat _ \<Rightarrow> True | _ \<Rightarrow> False)
     \<or> t = ''boolean'' \<and> (case v of VBool _ \<Rightarrow> True | _ \<Rightarrow> False) \<or> t = ''null'' \<and> v = VNone"

text \<open>\<open>value in container\<close>\<close>

fun py_member :: "pyval \<Rightarrow> pyval \<Rightarrow> exn + bool" where
  "py_member v (VList vs) = Inr (list_ex (py_eq v) vs)"
| "py_member v (VStr t) = (case v of VStr s \<Rightarrow> Inr (py_in s t) | _ \<Rightarrow> Inl (TypeError ''in <string> requires string''))"
| "py_member v (VDict kvs) = (if \<not> hashable v then Inl (TypeError ''unhashable type'') else Inr (v \<in> VStr ` fst ` set kvs))"
| "py_member v _ = Inl (TypeError ''argument is not iterable'')"

definition enum_errors :: "(string \<times> pyval) list \<Rightarrow> pyval \<Rightarrow> string \<Rightarrow> exn + string list" where
  "enum_errors schema v location = (case map_of schema ''enum'' of
     None \<Rightarrow> Inr []
   | Some choices \<Rightarrow> res_map (\<lambda>b. note_if (\<not> b) (location @ '': value outside enum'')) (py_member v choices))"

fun below_minimum :: "nat \<Rightarrow> pyval \<Rightarrow> bool" where
  "below_minimum n (VInt i) = (int n < i)"
| "below_minimum n (VBool b) = (n = 0 \<and> b)"
| "below_minimum n _ = False"

definition text_errors :: "regex \<Rightarrow> (string \<times> pyval) list \<Rightarrow> pyval \<Rightarrow> string \<Rightarrow> exn + string list" where
  "text_errors re schema v location = (case v of
     VStr t \<Rightarrow> (let get = dict_get (map_of schema); short = note_if (below_minimum (length t) (get ''minLength'')) (location @ '': string shorter than minLength'')
       in case get ''pattern'' of
         VStr p \<Rightarrow> res_map (\<lambda>b. short @ note_if (\<not> b) (location @ '': string does not match pattern'')) (re_search re p t)
       | _ \<Rightarrow> Inr short)
   | _ \<Rightarrow> Inr [])"

definition required_errors :: "(string \<times> pyval) list \<Rightarrow> (string \<times> pyval) list \<Rightarrow> string \<Rightarrow> string list" where
  "required_errors schema kvs location = concat (map (\<lambda>field. case field of
       VStr f \<Rightarrow> note_if (map_of kvs f = None) (location @ '': missing required property '' @ f) | _ \<Rightarrow> [])
     (case map_of schema ''required'' of None \<Rightarrow> [] | Some r \<Rightarrow> list_items r))"

definition schema_properties :: "(string \<times> pyval) list \<Rightarrow> (string \<times> pyval) list" where
  "schema_properties schema = (case map_of schema ''properties'' of Some (VDict ps) \<Rightarrow> ps | _ \<Rightarrow> [])"

definition additional_errors :: "(string \<times> pyval) list \<Rightarrow> (string \<times> pyval) list \<Rightarrow> string \<Rightarrow> string list" where
  "additional_errors schema kvs location =
     (if dict_get (map_of schema) ''additionalProperties'' = VBool False \<and> (case map_of schema ''properties'' of None \<Rightarrow> True | Some p \<Rightarrow> is_dict p)
      then concat (map (\<lambda>(f, _). note_if (map_of (schema_properties schema) f = None) (location @ '': additional property '' @ f)) kvs)
      else [])"

text \<open>
  One node without a reference, for the function that validates the nodes below; then the validator, whose
  first argument is the number of nested calls that the interpreter still allows.
\<close>

definition item_errors :: "(pyval \<Rightarrow> pyval \<Rightarrow> string \<Rightarrow> exn + string list) \<Rightarrow> pyval \<Rightarrow> pyval list \<Rightarrow> string \<Rightarrow> exn + string list" where
  "item_errors below item_schema vs location =
     (if item_schema = VNone then Inr []
      else res_map concat (res_map_list (\<lambda>(index, item). below item item_schema (location @ ''['' @ str_nat index @ '']''))
        (enumerate 0 vs)))"

definition member_errors ::
    "(pyval \<Rightarrow> pyval \<Rightarrow> string \<Rightarrow> exn + string list) \<Rightarrow> (string \<times> pyval) list \<Rightarrow> (string \<times> pyval) list \<Rightarrow> string \<Rightarrow> exn + string list" where
  "member_errors below properties kvs location =
     res_map concat (res_map_list (\<lambda>(field, child). case map_of kvs field of
         None \<Rightarrow> Inr [] | Some member \<Rightarrow> below member child (location @ ''.'' @ field)) properties)"

definition node_errors ::
    "(pyval \<Rightarrow> pyval \<Rightarrow> string \<Rightarrow> exn + string list) \<Rightarrow> regex \<Rightarrow> (string \<times> pyval) list \<Rightarrow> pyval \<Rightarrow> string \<Rightarrow> exn + string list" where
  "node_errors below re s v location = (let get = dict_get (map_of s) in
     if is_text (get ''type'') \<and> \<not> has_type (text_of (get ''type'')) v
     then Inr [location @ '': expected type '' @ text_of (get ''type'')]
     else
       res_bind (enum_errors s v location) (\<lambda>in_enum.
       res_bind (text_errors re s v location) (\<lambda>in_text.
       res_map (\<lambda>in_members. in_enum @ in_text @ in_members)
         (case v of
            VList vs \<Rightarrow> res_map ((@) (note_if (below_minimum (length vs) (get ''minItems'')) (location @ '': array shorter than minItems'')))
                (item_errors below (get ''items'') vs location)
          | VDict kvs \<Rightarrow> res_map ((@) (required_errors s kvs location @ additional_errors s kvs location))
                (member_errors below (schema_properties s) kvs location)
          | _ \<Rightarrow> Inr []))))"

definition reference_target :: "pyval \<Rightarrow> pyval \<Rightarrow> pyval option" where
  "reference_target root_schema reference = (case reference of VStr r \<Rightarrow> resolve_local_json_pointer root_schema r | _ \<Rightarrow> None)"

fun json_schema_violations :: "nat \<Rightarrow> regex \<Rightarrow> pyval \<Rightarrow> pyval \<Rightarrow> pyval \<Rightarrow> string \<Rightarrow> exn + string list" where
  "json_schema_violations 0 re root_schema v schema location = Inl RecursionError"
| "json_schema_violations (Suc n) re root_schema v schema location = (case schema of
     VDict s \<Rightarrow> (case map_of s ''$ref'' of
         Some reference \<Rightarrow> (case reference_target root_schema reference of
              None \<Rightarrow> Inr [location @ '': unresolved local schema reference'']
            | Some target \<Rightarrow> json_schema_violations n re root_schema v target location)
       | None \<Rightarrow> node_errors (\<lambda>w child l. json_schema_violations n re root_schema w child l) re s v location)
   | _ \<Rightarrow> Inr [location @ '': schema node is not an object''])"

section \<open>The claim schema\<close>

text \<open>\<open>schemas/claim.schema.json\<close> as parsed.\<close>

definition claim_schema :: pyval where
  "claim_schema = VDict
     [(''$schema'', VStr ''https://json-schema.org/draft/2020-12/schema''),
      (''$id'', VStr ''https://example.invalid/oasi/schemas/claim.schema.json''),
      (''title'', VStr ''OASI bounded public claim''),
      (''type'', VStr ''object''),
      (''required'', VList [VStr ''id'', VStr ''wording'', VStr ''evidence'', VStr ''scope'', VStr ''exclusions'', VStr ''confidence'']),
      (''properties'', VDict
        [(''id'', VDict [(''type'', VStr ''string''), (''pattern'', VStr ''^CL-[0-9]{3}$'')]),
         (''wording'', VDict [(''type'', VStr ''string''), (''minLength'', VInt 1)]),
         (''evidence'', VDict [(''type'', VStr ''array''), (''minItems'', VInt 1),
            (''items'', VDict [(''$ref'', VStr ''#/$defs/evidence'')])]),
         (''scope'', VDict [(''type'', VStr ''string''), (''minLength'', VInt 1)]),
         (''exclusions'', VDict [(''type'', VStr ''array''), (''minItems'', VInt 1),
            (''items'', VDict [(''type'', VStr ''string'')])]),
         (''confidence'', VDict [(''enum'', VList [VStr ''DEFINITION'', VStr ''IMPLEMENTED_AND_TESTED_LOCAL'',
            VStr ''VERIFIED_HISTORICAL_AUDIT'', VStr ''PINNED_EVIDENCE'', VStr ''BOUNDED_INFERENCE'',
            VStr ''INTERNAL_METHOD_REEXECUTION'', VStr ''LOCAL_DETERMINISTIC_NEGATIVE'', VStr ''BOUNDED_DIAGNOSTIC''])])]),
      (''additionalProperties'', VBool False),
      (''$defs'', VDict [(''evidence'', VDict
        [(''type'', VStr ''object''), (''required'', VList [VStr ''path'', VStr ''sha256'']),
         (''properties'', VDict
           [(''path'', VDict [(''type'', VStr ''string''), (''minLength'', VInt 1)]),
            (''sha256'', VDict [(''type'', VStr ''string''), (''pattern'', VStr ''^[0-9a-f]{64}$'')])]),
         (''additionalProperties'', VBool False)])])]"

lemma claim_patterns:
  "fixed_pattern ''^CL-[0-9]{3}$'' = Some (map (\<lambda>c. [(c, c)]) ''CL-'' @ replicate 3 [(CHR ''0'', CHR ''9'')])"
  "fixed_pattern ''^[0-9a-f]{64}$'' = Some (replicate 64 [(CHR ''0'', CHR ''9''), (CHR ''a'', CHR ''f'')])"
  by code_simp+

section \<open>The self-test\<close>

definition valid_fixture :: "(string \<times> pyval) list" where
  "valid_fixture =
     [(''id'', VStr ''CL-999''), (''wording'', VStr ''Synthetic validator self-test claim.''),
      (''evidence'', VList [VDict [(''path'', VStr ''fixture.txt''), (''sha256'', VStr (replicate 64 (CHR ''0'')))]]),
      (''scope'', VStr ''Validator self-test only.''), (''exclusions'', VList [VStr ''Not publication evidence.'']),
      (''confidence'', VStr ''DEFINITION'')]"

definition mutant_fixtures :: "(string \<times> pyval) list list" where
  "mutant_fixtures =
     [AList.update ''id'' (VStr ''invalid'') valid_fixture, AList.update ''confidence'' (VStr ''UNDECLARED'') valid_fixture,
      AList.update ''exclusions'' (VList []) valid_fixture, AList.update ''unexpected'' (VBool True) valid_fixture,
      AList.update ''evidence'' (VList [VDict [(''path'', VStr ''fixture.txt''), (''sha256'', VStr ''ABC'')]]) valid_fixture]"

definition invalid_paths :: "string list" where
  "invalid_paths = [''../fixture.json'', ''/fixture.json'', ''C:/fixture.json'', ''a'' @ [CHR 0x5C] @ ''fixture.json'', ''a//fixture.json'']"

definition claim_schema_validator_self_test :: "nat \<Rightarrow> regex \<Rightarrow> unicode \<Rightarrow> pyval \<Rightarrow> exn + string list" where
  "claim_schema_validator_self_test limit re U schema =
     res_bind (json_schema_violations limit re schema (VDict valid_fixture) schema ''self-test.valid'') (\<lambda>rejected.
     if rejected \<noteq> [] then Inr [''claim schema validator rejected its valid self-test fixture'']
     else res_map (\<lambda>accepted. concat accepted
         @ note_if (\<not> portable_public_relative_path U (VStr ''public_evidence/fixture.json''))
             ''portable public-path validator rejected its valid self-test path''
         @ concat (map (\<lambda>(index, p). note_if (portable_public_relative_path U (VStr p))
             (''portable public-path validator accepted invalid self-test path '' @ str_nat index)) (enumerate 1 invalid_paths)))
       (res_map_list (\<lambda>(index, m). res_map (\<lambda>vs. note_if (vs = [])
           (''claim schema validator accepted invalid self-test mutant '' @ str_nat index))
         (json_schema_violations limit re schema (VDict m) schema (''self-test.mutant['' @ str_nat index @ '']'')))
         (enumerate 1 mutant_fixtures)))"

section \<open>The claims ledger\<close>

text \<open>\<open>for x in value\<close>\<close>

fun py_iter :: "pyval \<Rightarrow> exn + pyval list" where
  "py_iter (VList vs) = Inr vs"
| "py_iter (VStr t) = Inr (map (\<lambda>c. VStr [c]) t)"
| "py_iter (VDict kvs) = Inr (map (VStr \<circ> fst) kvs)"
| "py_iter _ = Inl (TypeError ''object is not iterable'')"

text \<open>The rows of the ledger; without the expected shape there are none.\<close>

definition ledger_rows :: "pyval \<Rightarrow> string list \<times> pyval list" where
  "ledger_rows claims =
     (if \<not> has_keys claims [''claims'', ''forbidden_claims_reviewed'', ''schema'']
      then ([''claims ledger top-level property set mismatch''], [])
      else case claims of VDict kvs \<Rightarrow> (let get = dict_get (map_of kvs); rows = list_items (get ''claims'') in
        (note_if (\<not> py_eq (get ''schema'') (VStr ''oasi.public.claims-evidence.v2'')) ''claims ledger schema identifier mismatch''
         @ note_if (get ''forbidden_claims_reviewed'' \<noteq> VBool True) ''claims ledger forbidden-claims review is not true''
         @ note_if (\<not> is_list (get ''claims'') \<or> rows = []) ''claims ledger claims must be a non-empty array'', rows))
      | _ \<Rightarrow> ([], []))"

text \<open>The id of a row in a message: its text; the repr of another value is left out.\<close>

definition evidence_errors :: "unicode \<Rightarrow> (bytes \<Rightarrow> bytes) \<Rightarrow> site \<Rightarrow> string \<Rightarrow> pyval \<Rightarrow> string list" where
  "evidence_errors U sha s row_id evidence = (case evidence of
     VDict kvs \<Rightarrow> (let p = dict_get (map_of kvs) ''path'' in
       if \<not> portable_public_relative_path U p then [''claim evidence path is not portable and relative: '' @ row_id]
       else if text_of p \<notin> set (public_files s) then [''claim evidence is outside the public artifact set: '' @ row_id]
       else note_if (case file_digest sha s (text_of p) of Inl e \<Rightarrow> True | Inr h \<Rightarrow> \<not> py_eq (VStr h) (dict_get (map_of kvs) ''sha256''))
         (''claim evidence mismatch: '' @ row_id))
   | _ \<Rightarrow> [])"

definition claim_row_errors ::
    "nat \<Rightarrow> regex \<Rightarrow> unicode \<Rightarrow> (bytes \<Rightarrow> bytes) \<Rightarrow> site \<Rightarrow> pyval \<Rightarrow> nat \<times> pyval \<Rightarrow> exn + string list" where
  "claim_row_errors limit re U sha s schema x = (case x of (index, row) \<Rightarrow>
     res_bind (json_schema_violations limit re schema row schema (''claims['' @ str_nat index @ '']'')) (\<lambda>vs. (let
         in_schema = map (\<lambda>v. ''claim schema violation: '' @ v) vs
       in case row of
         VDict kvs \<Rightarrow> res_map (\<lambda>es. in_schema @ concat (map (evidence_errors U sha s (text_of (dict_get (map_of kvs) ''id''))) es))
           (py_iter (case map_of kvs ''evidence'' of None \<Rightarrow> VList [] | Some e \<Rightarrow> e))
       | _ \<Rightarrow> Inr in_schema)))"

definition claim_ids :: "pyval list \<Rightarrow> pyval list" where
  "claim_ids rows = concat (map (\<lambda>row. case row of VDict kvs \<Rightarrow> [dict_get (map_of kvs) ''id''] | _ \<Rightarrow> []) rows)"

definition ids_invalid :: "pyval list \<Rightarrow> exn + bool" where
  "ids_invalid rows = (let ids = claim_ids rows in
     if length ids \<noteq> length rows then Inr True
     else if \<not> list_all hashable ids then Inl (TypeError ''unhashable type'')
     else Inr (\<not> distinct (map canon ids)))"

definition claims_section :: "nat \<Rightarrow> regex \<Rightarrow> unicode \<Rightarrow> (bytes \<Rightarrow> bytes) \<Rightarrow> site \<Rightarrow> exn + string list" where
  "claims_section limit re U sha s =
     (if \<not> is_file s LEDGER_REL then Inr [''claims ledger missing'']
      else case strict_json s LEDGER_REL of (claims, errors) \<Rightarrow>
        case strict_json s ''schemas/claim.schema.json'' of (schema, schema_errors) \<Rightarrow>
          res_bind (claim_schema_validator_self_test limit re U schema) (\<lambda>self_test.
          case ledger_rows claims of (shape, rows) \<Rightarrow>
            res_bind (ids_invalid rows) (\<lambda>invalid.
            res_map (\<lambda>in_rows. errors @ schema_errors @ self_test @ shape
                @ note_if invalid ''claim IDs missing or duplicated'' @ concat in_rows)
              (res_map_list (claim_row_errors limit re U sha s schema) (enumerate 0 rows)))))"

end
