(* ===== verification/Sbom_Check.thy ===== *)
theory Sbom_Check
  imports Claim_Schema
begin

text \<open>
  The section of \<open>tools/verify_release.py\<close> on \<open>SBOM.spdx.json\<close>: the document, the file rows, the packages and
  the relationships.  A file name of a row is joined to ROOT as \<open>pathlib\<close> does; what lies outside the tree, and
  the name of ROOT itself, are parameters.
\<close>

record surroundings =
  outside_file :: "string \<Rightarrow> bytes option"  \<comment> \<open>a file by an absolute name or one with two dots\<close>
  root_name :: string

definition SBOM_EXCLUDED :: "string list" where
  "SBOM_EXCLUDED = INDEXES @ [''SBOM.spdx.json'', ''LICENSE_INVENTORY.json'']"

definition expected_sbom_order :: "site \<Rightarrow> string list" where
  "expected_sbom_order s = sort (filter (\<lambda>p. p \<notin> set SBOM_EXCLUDED) (public_files s))"

section \<open>The document\<close>

definition document_keys :: "string list" where
  "document_keys = [''SPDXID'', ''creationInfo'', ''dataLicense'', ''documentNamespace'', ''files'', ''name'', ''packages'',
     ''relationships'', ''spdxVersion'']"

definition document_fields :: "(string \<times> pyval) list" where
  "document_fields =
     [(''SPDXID'', VStr ''SPDXRef-DOCUMENT''), (''dataLicense'', VStr ''CC0-1.0''),
      (''documentNamespace'', VStr ''https://spdx.org/spdxdocs/oasi-aera-v0.2.1-research-preview''),
      (''name'', VStr ''OASI-AERA-v0.2.1-research-preview-SBOM''), (''spdxVersion'', VStr ''SPDX-2.3'')]"

definition creation_info :: pyval where
  "creation_info = VDict [(''created'', VStr ''2026-09-02T00:00:00Z''),
     (''creators'', VList [VStr ''Tool: OASI deterministic metadata builder''])]"

definition document_errors :: "(string \<times> pyval) list \<Rightarrow> string list" where
  "document_errors kvs = (let get = dict_get (map_of kvs) in
     note_if (fst ` set kvs \<noteq> set document_keys) ''SBOM document exact property set mismatch''
     @ concat (map (\<lambda>(f, v). note_if (\<not> py_eq (get f) v) (''SBOM document field mismatch: '' @ f)) document_fields)
     @ note_if (\<not> py_eq (get ''creationInfo'') creation_info) ''SBOM creationInfo mismatch'')"

section \<open>The file rows\<close>

definition file_row_keys :: "string list" where
  "file_row_keys = [''SPDXID'', ''checksums'', ''copyrightText'', ''fileName'', ''fileTypes'', ''licenseConcluded'', ''licenseInfoInFiles'']"

definition row_file :: "(string \<times> pyval) list \<Rightarrow> string" where
  "row_file kvs = (case dict_get (map_of kvs) ''fileName'' of
     VStr t \<Rightarrow> if py_prefix ''./'' t then drop 2 t else [] | _ \<Rightarrow> [])"

definition joined_file :: "surroundings \<Rightarrow> site \<Rightarrow> string \<Rightarrow> bytes option" where
  "joined_file e s rel =
     (if rel \<noteq> [] \<and> (hd rel = CHR ''/'' \<or> ''..'' \<in> set (path_parts rel)) then outside_file e rel
      else path_file (site_files s) rel)"

definition digest_matches :: "(bytes \<Rightarrow> bytes) \<Rightarrow> surroundings \<Rightarrow> site \<Rightarrow> string \<Rightarrow> pyval \<Rightarrow> bool" where
  "digest_matches h e s rel v \<longleftrightarrow> rel \<noteq> [] \<and> (case joined_file e s rel of None \<Rightarrow> False | Some b \<Rightarrow> py_eq v (VStr (sha_hex h b)))"

text \<open>The dict of checksums by algorithm, its keys up to Python's equality.\<close>

fun checksum_loop :: "string \<Rightarrow> (pyval \<times> pyval) list \<Rightarrow> pyval list \<Rightarrow> exn + (pyval \<times> pyval) list \<times> string list" where
  "checksum_loop shown table [] = Inr (table, [])"
| "checksum_loop shown table (c # cs) =
     (if \<not> has_keys c [''algorithm'', ''checksumValue'']
      then res_map (map_prod id ((#) (''SBOM checksum property set mismatch: '' @ shown))) (checksum_loop shown table cs)
      else case c of VDict kvs \<Rightarrow> (let get = dict_get (map_of kvs); a = canon (get ''algorithm'') in
          if \<not> hashable (get ''algorithm'') then Inl (TypeError ''unhashable type'')
          else res_map (map_prod id ((@) (note_if (a \<in> fst ` set table) (''SBOM duplicate checksum algorithm: '' @ shown))))
            (checksum_loop shown (AList.update a (get ''checksumValue'') table) cs))
        | _ \<Rightarrow> checksum_loop shown table cs)"

definition row_checksums :: "string \<Rightarrow> (string \<times> pyval) list \<Rightarrow> exn + (pyval \<times> pyval) list \<times> string list" where
  "row_checksums shown kvs = (case map_of kvs ''checksums'' of
     Some (VList cs) \<Rightarrow> if length cs = 2 then checksum_loop shown [] cs
       else Inr ([], [''SBOM checksum cardinality mismatch: '' @ shown])
   | _ \<Rightarrow> Inr ([], [''SBOM checksum cardinality mismatch: '' @ shown]))"

definition expected_types :: "unicode \<Rightarrow> surroundings \<Rightarrow> string \<Rightarrow> pyval" where
  "expected_types U e rel =
     (if rel = [] then VList [VStr ''OTHER'']
      else if hd rel \<noteq> CHR ''/'' \<and> path_parts rel = [] then file_types U (root_name e)
      else file_types U rel)"

definition lookup_checksum :: "(pyval \<times> pyval) list \<Rightarrow> string \<Rightarrow> pyval" where
  "lookup_checksum table a = (case map_of table (VStr a) of None \<Rightarrow> VNone | Some v \<Rightarrow> v)"

definition sbom_row_errors ::
    "unicode \<Rightarrow> (bytes \<Rightarrow> bytes) \<Rightarrow> (bytes \<Rightarrow> bytes) \<Rightarrow> surroundings \<Rightarrow> site \<Rightarrow> string list \<Rightarrow> nat \<Rightarrow> (string \<times> pyval) list \<Rightarrow> exn + string list" where
  "sbom_row_errors U sha sha1 e s order index kvs = (let
       get = dict_get (map_of kvs); rel = row_file kvs; shown = (if rel \<noteq> [] then rel else str_nat index)
     in res_map (\<lambda>(table, in_checksums).
         note_if (fst ` set kvs \<noteq> set file_row_keys) (''SBOM file row property set mismatch: '' @ str_nat index)
         @ note_if (\<not> py_eq (get ''SPDXID'') (VStr (file_id index))) (''SBOM file SPDXID/order mismatch: '' @ shown)
         @ note_if (index \<le> length order \<and> rel \<noteq> order ! (index - 1)) (''SBOM file ordinal order mismatch: '' @ shown)
         @ in_checksums
         @ note_if (fst ` set table \<noteq> {VStr ''SHA1'', VStr ''SHA256''}) (''SBOM checksum algorithm set mismatch: '' @ shown)
         @ note_if (\<not> digest_matches sha e s rel (lookup_checksum table ''SHA256'')) (''SBOM hash mismatch: '' @ shown)
         @ note_if (\<not> digest_matches sha1 e s rel (lookup_checksum table ''SHA1'')) (''SBOM SHA1 mismatch: '' @ shown)
         @ note_if (\<not> py_eq (get ''fileTypes'') (expected_types U e rel)) (''SBOM fileTypes mismatch: '' @ shown)
         @ note_if (\<not> py_eq (get ''licenseConcluded'') (VStr (v_license_for rel))
             \<or> \<not> py_eq (get ''licenseInfoInFiles'') (VList [VStr (v_license_for rel)])) (''SBOM file license mismatch: '' @ shown)
         @ note_if (\<not> py_eq (get ''copyrightText'') noassertion) (''SBOM file copyright mismatch: '' @ shown))
       (row_checksums shown kvs))"

definition dict_rows :: "pyval list \<Rightarrow> (nat \<times> (string \<times> pyval) list) list" where
  "dict_rows rows = concat (map (\<lambda>(index, row). case row of VDict kvs \<Rightarrow> [(index, kvs)] | _ \<Rightarrow> []) (enumerate 1 rows))"

definition hash_all :: "pyval list \<Rightarrow> exn + pyval list" where
  "hash_all vs = (if list_all hashable vs then Inr (map canon vs) else Inl (TypeError ''unhashable type''))"

definition sbom_files_errors ::
    "unicode \<Rightarrow> (bytes \<Rightarrow> bytes) \<Rightarrow> (bytes \<Rightarrow> bytes) \<Rightarrow> surroundings \<Rightarrow> site \<Rightarrow> pyval \<Rightarrow> exn + string list" where
  "sbom_files_errors U sha sha1 e s files = (let
       rows = list_items files; order = expected_sbom_order s; names = map (\<lambda>(_, kvs). row_file kvs) (dict_rows rows)
     in res_bind (res_map_list (\<lambda>(index, row). case row of
              VDict kvs \<Rightarrow> sbom_row_errors U sha sha1 e s order index kvs
            | _ \<Rightarrow> Inr [''SBOM file row '' @ str_nat index @ '' is not an object'']) (enumerate 1 rows)) (\<lambda>in_rows.
        res_map (\<lambda>ids. note_if (\<not> is_list files) ''SBOM files must be a list''
            @ note_if (length rows \<noteq> length order) ''SBOM file-row cardinality mismatch''
            @ concat in_rows
            @ note_if (names \<noteq> order \<or> \<not> distinct names) ''SBOM does not contain each expected file exactly once in ordinal order''
            @ note_if (\<not> distinct ids) ''SBOM duplicate file SPDXID'')
          (hash_all (map (\<lambda>(_, kvs). case map_of kvs ''SPDXID'' of None \<Rightarrow> VStr [] | Some v \<Rightarrow> v) (dict_rows rows)))))"

section \<open>The packages\<close>

definition expected_tool_packages :: "(string \<times> string) list" where
  "expected_tool_packages =
    [(''Qualification Python'', ''3.12.3''),
     (''Qualification PyYAML'', ''6.0.1''),
     (''Qualification cryptography'', ''41.0.7''),
     (''Qualification SQLite'', ''3.45.1''),
     (''Qualification Rust'', ''1.97.1''),
     (''Qualification Cargo'', ''1.97.1''),
     (''Publication Python'', ''3.11.9''),
     (''Publication PyYAML'', ''6.0.3''),
     (''Publication cryptography'', ''50.0.1''),
     (''Publication SQLite'', ''3.45.1''),
     (''Publication zlib'', ''1.3.1''),
     (''Git for Windows'', ''2.55.0.windows.5''),
     (''MiKTeX-pdfTeX'', ''4.23''),
     (''Biber'', ''2.21''),
     (''Poppler-pdfinfo'', ''26.05.0''),
     (''Poppler-pdffonts'', ''24.04.0''),
     (''Poppler-pdftotext'', ''24.04.0''),
     (''Poppler-pdftocairo'', ''24.04.0'')]"

definition project_fields :: "(string \<times> pyval) list" where
  "project_fields =
     [(''SPDXID'', VStr ''SPDXRef-Package-OASI''), (''copyrightText'', noassertion), (''downloadLocation'', noassertion),
      (''filesAnalyzed'', VBool True), (''licenseConcluded'', noassertion), (''licenseDeclared'', noassertion),
      (''name'', VStr project_name), (''versionInfo'', VStr ''0.2.1-research-preview'')]"

definition packages_named :: "pyval list \<Rightarrow> string \<Rightarrow> (string \<times> pyval) list list" where
  "packages_named rows n = filter (\<lambda>kvs. py_eq (dict_get (map_of kvs) ''name'') (VStr n)) (map snd (dict_rows rows))"

definition package_lists :: "pyval list \<Rightarrow> exn + string list" where
  "package_lists rows = (let of_rows = (\<lambda>k. map (\<lambda>(_, kvs). dict_get (map_of kvs) k) (dict_rows rows)) in
     res_bind (if length rows \<noteq> length (dict_rows rows) then Inr True else res_map (\<lambda>ids. \<not> distinct ids) (hash_all (of_rows ''SPDXID''))) (\<lambda>bad.
     res_map (\<lambda>names. note_if bad ''SBOM package rows or SPDXIDs are invalid/duplicated''
         @ note_if (\<not> distinct names) ''SBOM duplicate package name'') (hash_all (of_rows ''name''))))"

definition code_holder :: "(string \<times> pyval) list \<Rightarrow> pyval" where
  "code_holder kvs = (case map_of kvs ''packageVerificationCode'' of None \<Rightarrow> VDict [] | Some v \<Rightarrow> v)"

definition tool_row_errors :: "pyval list \<Rightarrow> nat \<times> string \<times> string \<Rightarrow> string list" where
  "tool_row_errors rows x = (case x of (index, name, version) \<Rightarrow> (case packages_named rows name of
     [kvs] \<Rightarrow> note_if (\<not> py_eq (VDict kvs) (VDict
         [(''SPDXID'', VStr (''SPDXRef-Tool-'' @ zero_pad 2 index)), (''copyrightText'', noassertion),
          (''downloadLocation'', noassertion), (''filesAnalyzed'', VBool False), (''licenseConcluded'', noassertion),
          (''licenseDeclared'', noassertion), (''name'', VStr name), (''versionInfo'', VStr version)]))
       (''SBOM tool package mismatch: '' @ name @ '' '' @ version)
   | _ \<Rightarrow> [''SBOM tool package cardinality mismatch: '' @ name]))"

definition sbom_packages_errors :: "(bytes \<Rightarrow> bytes) \<Rightarrow> site \<Rightarrow> pyval \<Rightarrow> exn + string list" where
  "sbom_packages_errors sha1 s packages = (let
       rows = list_items packages; matches = packages_named rows project_name;
       project = (case matches of [kvs] \<Rightarrow> kvs | _ \<Rightarrow> [])
     in res_bind (package_lists rows) (\<lambda>in_lists.
        res_bind (verification_code sha1 (expected_sbom_order s) s) (\<lambda>expected_code.
        res_map (\<lambda>actual. note_if (\<not> is_list packages) ''SBOM packages must be a list''
            @ in_lists
            @ note_if (length matches \<noteq> 1) ''SBOM must contain exactly one OASI project package''
            @ note_if (\<not> py_eq actual (VStr expected_code)) ''SBOM package verification code mismatch''
            @ note_if (length rows \<noteq> 1 + length expected_tool_packages) ''SBOM package cardinality mismatch''
            @ note_if (fst ` set project \<noteq> insert ''packageVerificationCode'' (fst ` set project_fields)) ''SBOM project package property set mismatch''
            @ note_if (project \<noteq> [] \<and> \<not> list_all (\<lambda>(f, v). py_eq (dict_get (map_of project) f) v) project_fields) ''SBOM project package fields mismatch''
            @ note_if (\<not> has_keys (code_holder project) [''packageVerificationCodeValue'']) ''SBOM packageVerificationCode property set mismatch''
            @ concat (map (tool_row_errors rows) (enumerate 1 expected_tool_packages)))
          (py_get (code_holder project) ''packageVerificationCodeValue''))))"

section \<open>The relationships\<close>

definition relation_keys :: "string list" where
  "relation_keys = [''spdxElementId'', ''relationshipType'', ''relatedSpdxElement'']"

definition sbom_relations_errors :: "pyval \<Rightarrow> nat list \<Rightarrow> exn + string list" where
  "sbom_relations_errors relationships indexes = (let
       rows = enumerate 1 (list_items relationships);
       wrong = concat (map (\<lambda>(index, row). note_if (\<not> has_keys row relation_keys)
         (''SBOM relationship property set mismatch: '' @ str_nat index)) rows);
       triples = map (\<lambda>(_, row). case row of VDict kvs \<Rightarrow> map (dict_get (map_of kvs)) relation_keys | _ \<Rightarrow> [])
         (filter (\<lambda>(_, row). has_keys row relation_keys) rows)
     in if \<not> list_all (list_all hashable) triples then Inl (TypeError ''unhashable type'')
        else Inr (note_if (\<not> is_list relationships) ''SBOM relationships must be a list'' @ wrong
          @ note_if (\<not> distinct (map (map canon) triples) \<or> set (map (map canon) triples)
                \<noteq> set (map (\<lambda>i. [VStr ''SPDXRef-Package-OASI'', VStr ''CONTAINS'', VStr (file_id i)]) indexes))
              ''SBOM CONTAINS relationships are missing, duplicated, or unexpected''))"

section \<open>The section\<close>

definition sbom_section ::
    "unicode \<Rightarrow> (bytes \<Rightarrow> bytes) \<Rightarrow> (bytes \<Rightarrow> bytes) \<Rightarrow> surroundings \<Rightarrow> site \<Rightarrow> exn + string list" where
  "sbom_section U sha sha1 e s = (case strict_json s ''SBOM.spdx.json'' of (sbom, errors) \<Rightarrow> (case sbom of
     VDict kvs \<Rightarrow> (let or_empty = (\<lambda>k. case map_of kvs k of None \<Rightarrow> VList [] | Some v \<Rightarrow> v) in
       res_bind (sbom_files_errors U sha sha1 e s (or_empty ''files'')) (\<lambda>in_files.
       res_bind (sbom_packages_errors sha1 s (or_empty ''packages'')) (\<lambda>in_packages.
       res_map (\<lambda>in_relations. errors @ document_errors kvs @ in_files @ in_packages @ in_relations)
         (sbom_relations_errors (or_empty ''relationships'') (map fst (dict_rows (list_items (or_empty ''files'')))))))
     )
   | VList vs \<Rightarrow> Inl (if list_all hashable vs then AttributeError ''get'' else TypeError ''unhashable type'')
   | VStr _ \<Rightarrow> Inl (AttributeError ''get'')
   | _ \<Rightarrow> Inl (TypeError ''object is not iterable'')))"

end
