(* ===== verification/Json_Values.thy ===== *)
theory Json_Values
  imports Json_Pretty Evidence
begin

text \<open>
  JSON documents as Python values: reading with unique keys gives well-formed values, Python's equality of
  dicts is equality member by member, and a written value reads back equal.
\<close>

section \<open>Reading with unique keys\<close>

definition wf_hook :: "hook \<Rightarrow> bool" where
  "wf_hook h \<longleftrightarrow> (\<forall>kvs v. list_all (\<lambda>kv. wf_json (snd kv)) kvs \<longrightarrow> h kvs = Some v \<longrightarrow> wf_json v)"

lemma read_wf_all:
  assumes h: "wf_hook h"
  shows "(\<forall>s v r. read_value h f s = Some (v, r) \<longrightarrow> wf_json v)
    \<and> (\<forall>s vs r. read_items h f s = Some (vs, r) \<longrightarrow> list_all wf_json vs)
    \<and> (\<forall>s kv r. read_member h f s = Some (kv, r) \<longrightarrow> wf_json (snd kv))
    \<and> (\<forall>s kvs r. read_members h f s = Some (kvs, r) \<longrightarrow> list_all (\<lambda>kv. wf_json (snd kv)) kvs)"
proof (induction f)
  case (Suc f)
  have V: "\<And>s v r. read_value h f s = Some (v, r) \<Longrightarrow> wf_json v"
    and I: "\<And>s vs r. read_items h f s = Some (vs, r) \<Longrightarrow> list_all wf_json vs"
    and M: "\<And>s kv r. read_member h f s = Some (kv, r) \<Longrightarrow> wf_json (snd kv)"
    and Ms: "\<And>s kvs r. read_members h f s = Some (kvs, r) \<Longrightarrow> list_all (\<lambda>kv. wf_json (snd kv)) kvs"
    using Suc.IH by blast+
  have H: "wf_json v" if "h kvs = Some v" "list_all (\<lambda>kv. wf_json (snd kv)) kvs" for kvs v
    using h that by (auto simp: wf_hook_def)
  have "wf_json v" if e: "read_value h (Suc f) s = Some (v, r)" for s v r
  proof (cases "dropWhile json_ws s")
    case (Cons c cs)
    note e' = e [unfolded read_value.simps Cons list.case]
    consider "c = CHR ''[''" | "c = CHR ''{''" | "c \<noteq> CHR ''[''" "c \<noteq> CHR ''{''" by blast
    then show ?thesis
    proof cases
      case 1
      then show ?thesis using e' by (auto split: list.splits if_splits option.splits prod.splits dest: V I)
    next
      case 2
      obtain d ds where d: "dropWhile json_ws cs = d # ds" using e' 2 by (auto split: list.splits)
      show ?thesis
      proof (cases "d = CHR ''}''")
        case True
        then show ?thesis using e' 2 d H [of "[]"] by auto
      next
        case False
        then obtain kv r1 kvs r2 where k: "read_member h f (d # ds) = Some (kv, r1)" "read_members h f r1 = Some (kvs, r2)"
            "h (kv # kvs) = Some v"
          using e' 2 d by (auto split: option.splits prod.splits)
        then show ?thesis using H [OF k(3)] M [OF k(1)] Ms [OF k(2)] by simp
      qed
    next
      case 3
      then show ?thesis using e' by (auto split: if_splits)
    qed
  next
    case Nil
    show ?thesis using e [unfolded read_value.simps Nil list.case] by simp
  qed
  moreover have "list_all wf_json vs" if "read_items h (Suc f) s = Some (vs, r)" for s vs r
    using that by (auto split: list.splits if_splits option.splits prod.splits dest: V I)
  moreover have "wf_json (snd kv)" if "read_member h (Suc f) s = Some (kv, r)" for s kv r
    using that by (auto split: list.splits if_splits option.splits prod.splits dest: V)
  moreover have "list_all (\<lambda>kv. wf_json (snd kv)) kvs" if "read_members h (Suc f) s = Some (kvs, r)" for s kvs r
    using that by (auto split: list.splits if_splits option.splits prod.splits) (use M Ms in fastforce)+
  ultimately show ?case by blast
qed simp

lemma unique_object_names:
  "unique_object result pairs = Inr kvs \<Longrightarrow> distinct (map fst result) \<Longrightarrow> kvs = result @ pairs \<and> distinct (map fst kvs)"
proof (induction result pairs rule: unique_object.induct)
  case (2 result key v pairs)
  then have n: "key \<notin> fst ` set result" by (metis Inr_Inl_False unique_object.simps(2))
  have u: "unique_object (result @ [(key, v)]) pairs = Inr kvs" using "2.prems"(1) n by simp
  have "kvs = (result @ [(key, v)]) @ pairs \<and> distinct (map fst kvs)"
    by (rule "2.IH" [OF n u]) (use n "2.prems"(2) in simp)
  then have k: "kvs = result @ (key, v) # pairs" and d: "distinct (map fst kvs)" by (simp, blast)
  show ?case using k d by (rule conjI)
qed simp

lemma wf_unique_hook: "wf_hook unique_hook"
  using unique_object_names [of "[]"] by (fastforce simp: wf_hook_def unique_hook_def split: sum.splits)

lemma json_loads_unique_wf: "json_loads_with unique_hook t = Inr j \<Longrightarrow> wf_json j"
proof -
  assume "json_loads_with unique_hook t = Inr j"
  then obtain r where "read_value unique_hook (2 * length t + 2) t = Some (j, r)"
    by (auto simp del: read_value.simps simp: json_loads_with_def split: option.splits if_splits)
  then show ?thesis using read_wf_all [OF wf_unique_hook] by blast
qed

section \<open>Equality of dicts\<close>

fun wf_value :: "pyval \<Rightarrow> bool" where
  "wf_value (VList vs) = list_all wf_value vs"
| "wf_value (VDict kvs) = (distinct (map fst kvs) \<and> list_all (\<lambda>kv. wf_value (snd kv)) kvs)"
| "wf_value v = True"

lemma wf_of_json: "wf_json j \<Longrightarrow> wf_value (of_json j)"
  by (induction j rule: of_json.induct) (auto simp: list_all_iff comp_def)

lemma sort_key_same_map:
  assumes "distinct (map fst xs)" "distinct (map fst ys)" "map_of xs = map_of ys"
  shows "sort_key fst xs = sort_key fst (ys :: ('a :: linorder \<times> 'b) list)"
proof -
  have "set xs = set ys" using assms by (simp add: map_of_inject_set)
  moreover have "distinct xs" "distinct ys" using assms(1,2) by (simp_all add: distinct_map)
  ultimately have "mset xs = mset (sort_key fst ys)" by (simp add: set_eq_iff_mset_eq_distinct)
  moreover have "inj_on fst (set xs)" using assms(1) by (simp add: distinct_map)
  ultimately show ?thesis by (rule sort_key_inj_key_eq) simp
qed

lemma py_eq_dict:
  assumes "distinct (map fst xs)" "distinct (map fst ys)"
  shows "py_eq (VDict xs) (VDict ys) \<longleftrightarrow> (\<forall>k. rel_option py_eq (map_of xs k) (map_of ys k))"
proof -
  let ?c = "map (map_prod id canon)"
  have lookup: "map_of (?c zs) k = map_option canon (map_of zs k)" for zs :: "(string \<times> pyval) list" and k
    by (induction zs) auto
  have keys: "distinct (map fst (?c zs)) \<longleftrightarrow> distinct (map fst zs)" for zs :: "(string \<times> pyval) list"
    by (simp add: comp_def)
  have rel: "rel_option py_eq u w \<longleftrightarrow> map_option canon u = map_option canon w" for u w
    by (cases u; cases w) (simp_all add: py_eq_def)
  have "py_eq (VDict xs) (VDict ys) \<longleftrightarrow> sort_key fst (?c xs) = sort_key fst (?c ys)" by (simp add: py_eq_def)
  also have "\<dots> \<longleftrightarrow> map_of (?c xs) = map_of (?c ys)"
    using sort_key_same_map [of "?c xs" "?c ys"] assms keys map_of_sort_key [of "?c xs"] map_of_sort_key [of "?c ys"] by metis
  also have "\<dots> \<longleftrightarrow> (\<forall>k. rel_option py_eq (map_of xs k) (map_of ys k))"
    unfolding fun_eq_iff lookup rel ..
  finally show ?thesis .
qed

lemma py_eq_list: "py_eq (VList vs) (VList ws) \<longleftrightarrow> list_all2 py_eq vs ws"
  by (auto simp: py_eq_def list_all2_conv_all_nth list_eq_iff_nth_eq)

lemma py_eq_text: "py_eq v (VStr t) \<longleftrightarrow> v = VStr t" "py_eq (VStr t) v \<longleftrightarrow> v = VStr t"
  by (cases v; auto simp: py_eq_def)+

lemma py_eq_shape:
  "py_eq v (VDict ys) \<Longrightarrow> \<exists>xs. v = VDict xs" "py_eq v (VList ws) \<Longrightarrow> \<exists>vs. v = VList vs"
  by (cases v; simp add: py_eq_def)+

section \<open>Written and read back\<close>

lemma canon_sort_members: "canon (of_json (sort_members j)) = canon (of_json j)"
proof (induction j rule: sort_members.induct)
  case (2 kvs)
  let ?f = "\<lambda>j. canon (of_json j)"
  have "canon (of_json (sort_members (JObj kvs)))
      = VDict (sort_key fst (sort_key fst (map (map_prod id (\<lambda>j. ?f (sort_members j))) kvs)))"
    by (simp add: sort_key_map_prod [unfolded id_def] prod.map_comp comp_def id_def)
  also have "map (map_prod id (\<lambda>j. ?f (sort_members j))) kvs = map (map_prod id ?f) kvs"
    using 2 by (intro map_cong) (auto simp: prod_set_simps)
  finally show ?case by (simp add: prod.map_comp comp_def id_def sort_key_id_if_sorted)
qed auto

lemma of_to_json:
  "to_json v = Some j \<Longrightarrow> of_json j = v"
  "to_items vs = Some js \<Longrightarrow> map of_json js = vs"
  "to_members kvs = Some kjs \<Longrightarrow> map (map_prod id of_json) kjs = kvs"
  by (induction v and vs and kvs arbitrary: j and js and kjs rule: to_json_to_items_to_members.induct)
    (auto split: option.splits)

lemma to_json_wf:
  "to_json v = Some j \<Longrightarrow> wf_value v \<Longrightarrow> wf_json j"
  "to_items vs = Some js \<Longrightarrow> list_all wf_value vs \<Longrightarrow> list_all wf_json js"
  "to_members kvs = Some kjs \<Longrightarrow> list_all (\<lambda>kv. wf_value (snd kv)) kvs \<Longrightarrow>
     list_all (\<lambda>kv. wf_json (snd kv)) kjs \<and> map fst kjs = map fst kvs"
  by (induction v and vs and kvs arbitrary: j and js and kjs rule: to_json_to_items_to_members.induct)
    (auto split: option.splits)

theorem written_value_reads_back:
  assumes "to_json v = Some j" "wf_value v"
  shows "\<exists>t j'. utf8_text (json_file j) = Some t \<and> json_loads_with unique_hook t = Inr j'
    \<and> wf_value (of_json j') \<and> py_eq (of_json j') v"
proof -
  have wf: "wf_json j" using to_json_wf(1) assms by blast
  obtain t where "utf8_text (json_file j) = Some t" "json_loads_with unique_hook t = Inr (sort_members j)"
    using json_file_reads_back [OF plain_unique_hook wf] by blast
  moreover have "wf_value (of_json (sort_members j))" by (rule wf_of_json [OF wf_sort_members [OF wf]])
  moreover have "py_eq (of_json (sort_members j)) v"
    by (simp add: py_eq_def canon_sort_members of_to_json(1) [OF assms(1)])
  ultimately show ?thesis by blast
qed

end
