(* ===== verification/Inventory_Props.thy ===== *)
theory Inventory_Props
  imports Verify_Release Json_Values
begin

text \<open>
  The license inventory: the verifier's section has no error exactly when the file is, up to Python's
  equality, the document that the rebuild would write for the same tree.
\<close>

lemma py_eq_dict_keys:
  assumes "distinct (map fst xs)" "distinct (map fst ys)"
  shows "py_eq (VDict xs) (VDict ys) \<longleftrightarrow>
    fst ` set xs = fst ` set ys \<and> (\<forall>(k, v) \<in> set ys. py_eq (dict_get (map_of xs) k) v)"
proof -
  have y: "map_of ys k = Some v \<longleftrightarrow> (k, v) \<in> set ys" for k v using assms(2) by simp
  have x: "map_of xs k = None \<longleftrightarrow> k \<notin> fst ` set xs" for k by (simp add: map_of_eq_None_iff)
  have y': "map_of ys k = None \<longleftrightarrow> k \<notin> fst ` set ys" for k by (simp add: map_of_eq_None_iff)
  show ?thesis unfolding py_eq_dict [OF assms]
  proof (intro iffI conjI ballI allI; (elim conjE)?)
    assume r: "\<forall>k. rel_option py_eq (map_of xs k) (map_of ys k)"
    have "map_of xs k = None \<longleftrightarrow> map_of ys k = None" for k
      using r [rule_format, of k] by (cases "map_of xs k"; cases "map_of ys k") simp_all
    then show "fst ` set xs = fst ` set ys" unfolding x y' by blast
    fix kv assume "kv \<in> set ys"
    then have "map_of ys (fst kv) = Some (snd kv)" using y by simp
    then show "case kv of (k, v) \<Rightarrow> py_eq (dict_get (map_of xs) k) v"
      using r [rule_format, of "fst kv"] by (cases kv; cases "map_of xs (fst kv)") (simp_all add: dict_get_def)
  next
    fix k
    assume s: "fst ` set xs = fst ` set ys" and r: "\<forall>(k, v) \<in> set ys. py_eq (dict_get (map_of xs) k) v"
    show "rel_option py_eq (map_of xs k) (map_of ys k)"
    proof (cases "map_of ys k")
      case None
      then have "map_of xs k = None" unfolding x y' s .
      then show ?thesis using None by simp
    next
      case (Some v)
      then have "k \<in> fst ` set ys" unfolding y by force
      then obtain w where "map_of xs k = Some w" using x [of k] s by (cases "map_of xs k") auto
      moreover have "py_eq (dict_get (map_of xs) k) v" using r Some y by fastforce
      ultimately show ?thesis using Some by (simp add: dict_get_def)
    qed
  qed
qed

section \<open>Paths of the rows\<close>

lemma mapped_texts:
  assumes "canon ` set vs = VStr ` set ps"
  shows "\<exists>ts. vs = map VStr ts \<and> set ts = set ps"
proof -
  have t: "\<exists>t. v = VStr t" if "v \<in> set vs" for v
  proof -
    have "canon v \<in> VStr ` set ps" using that assms by blast
    then show ?thesis by (cases v) auto
  qed
  have v: "map VStr (map text_of vs) = vs"
    unfolding map_map by (rule map_idI) (use t in force)
  have "canon ` set vs = VStr ` set (map text_of vs)" by (subst v [symmetric]) (simp add: image_image)
  then have "set (map text_of vs) = set ps" unfolding assms by (simp add: inj_image_eq_iff inj_def)
  moreover have "vs = map VStr (map text_of vs)" by (rule v [symmetric])
  ultimately show ?thesis by blast
qed

lemma mapped_path_errors_clean:
  assumes "sorted ps" "distinct ps"
  shows "mapped_path_errors vs n ps = Inr [] \<longleftrightarrow> vs = map VStr ps \<and> n = length ps"
proof
  assume c: "mapped_path_errors vs n ps = Inr []"
  obtain ordered where o: "py_sorted vs = Inr ordered" "n = length ps" "distinct (map canon vs)"
      "map canon vs = map canon ordered" "canon ` set vs = VStr ` set ps"
    using c by (auto simp: mapped_path_errors_def res_bind_Inr_iff split: if_splits)
  obtain ts where ts: "vs = map VStr ts" "set ts = set ps" using mapped_texts [OF o(5)] by blast
  have "ordered = sort_key text_of vs" using o(1) by (simp add: py_sorted_def ts(1) list_all_iff)
  then have "ordered = map VStr (sort ts)"
  proof -
    have "sort_key text_of (map VStr ts) = map VStr (sort ts)"
    proof -
      have i: "map VStr (insort x ys) = insort_key text_of (VStr x) (map VStr ys)" for x ys by (induction ys) auto
      show ?thesis by (induction ts) (simp_all add: i)
    qed
    with \<open>ordered = sort_key text_of vs\<close> ts(1) show ?thesis by simp
  qed
  then have "map VStr ts = map VStr (sort ts)" using o(4) by (simp add: ts(1) comp_def)
  then have "ts = sort ts" by (simp add: inj_map_eq_map inj_def)
  then have "sorted ts" by (metis sorted_sort)
  moreover have "distinct ts" using o(3) by (simp add: ts(1) comp_def distinct_map inj_on_def)
  ultimately have "ts = ps" using ts(2) assms by (metis sorted_distinct_set_unique)
  then show "vs = map VStr ps \<and> n = length ps" using ts(1) o(2) by simp
next
  assume r: "vs = map VStr ps \<and> n = length ps"
  have "sort_key text_of (map VStr ps) = map VStr ps"
    by (rule sort_key_id_if_sorted) (simp add: comp_def assms(1))
  then show "mapped_path_errors vs n ps = Inr []"
    using r assms(2) by (simp add: mapped_path_errors_def py_sorted_def list_all_iff comp_def distinct_map inj_on_def image_image)
qed

section \<open>One row\<close>

definition inventory_entry :: "string \<Rightarrow> string \<Rightarrow> (string \<times> pyval) list" where
  "inventory_entry p h = [(''copyright'', noassertion), (''license'', VStr (license_for p)), (''path'', VStr p),
     (''provenance'', VStr (provenance_for p)), (''sha256'', VStr h)]"

lemma inventory_row_entry: "inventory_row sha s p = res_map (\<lambda>h. VDict (inventory_entry p h)) (file_digest sha s p)"
  by (simp add: inventory_row_def inventory_entry_def)

lemma inventory_entry_keys: "distinct (map fst (inventory_entry p h))" "fst ` set (inventory_entry p h) = set row_keys"
  by (simp_all add: inventory_entry_def row_keys_def)

lemma inventory_row_clean:
  assumes "wf_value row" and "p \<in> set expected" and "portable_public_relative_path U (VStr p)"
    and "file_digest sha s p = Inr h"
  shows "is_dict row \<and> (\<forall>kvs. row = VDict kvs \<longrightarrow> dict_get (map_of kvs) ''path'' = VStr p)
      \<and> inventory_row_errors U sha s expected (i, row) = []
    \<longleftrightarrow> py_eq row (VDict (inventory_entry p h))"
proof (cases row)
  case (VDict kvs)
  have d: "distinct (map fst kvs)" using assms(1) VDict by simp
  show ?thesis
    unfolding VDict py_eq_dict_keys [OF d inventory_entry_keys(1)] inventory_entry_keys(2)
    using assms(2-) by (auto simp: inventory_row_errors_def has_keys_def Let_def inventory_entry_def same_policies
        py_eq_text noassertion_def)
qed (simp_all add: py_eq_def)

section \<open>The section\<close>

lemma strict_json_wf:
  assumes "strict_json s p = (v, es)"
  shows "wf_value v"
  using assms json_loads_unique_wf wf_of_json
  by (fastforce simp: strict_json_def Let_def split: option.splits sum.splits)

lemma inventory_files_public:
  "filter (\<lambda>p. p \<noteq> ''LICENSE_INVENTORY.json'') (public_files s) = inventory_files s"
  unfolding inventory_files_def public_files_def all_files_def filter_sort filter_filter
  by (rule arg_cong [where f = sort], rule filter_cong) (auto simp: public_name_def)

lemma inventory_files_facts:
  assumes "site_ok s"
  shows "sorted (inventory_files s)" "distinct (inventory_files s)"
    "p \<in> set (inventory_files s) \<Longrightarrow> canonical_name p \<and> p \<in> fst ` set (site_files s)"
  using assms by (auto simp: inventory_files_def all_files_def site_ok_def list_all_iff)

definition path_member :: "pyval \<Rightarrow> pyval" where
  "path_member row = (case row of VDict kvs \<Rightarrow> dict_get (map_of kvs) ''path'' | _ \<Rightarrow> VNone)"

lemma filter_same_length: "length (filter P xs) = length xs \<Longrightarrow> filter P xs = xs"
  by (metis filter_id_conv length_filter_less less_irrefl)

lemma rows_clean:
  assumes "\<And>p. p \<in> set ps \<Longrightarrow> portable_public_relative_path U (VStr p) \<and> file_digest sha s p = Inr (h p)"
    and "list_all wf_value rows" and "sorted ps" "distinct ps"
  shows "mapped_path_errors (map path_member (filter is_dict rows)) (length rows) ps = Inr []
      \<and> concat (map (inventory_row_errors U sha s ps) (enumerate 0 rows)) = []
    \<longleftrightarrow> list_all2 py_eq rows (map (\<lambda>p. VDict (inventory_entry p (h p))) ps)"
    (is "?m \<and> ?e \<longleftrightarrow> ?eq")
proof -
  have row: "is_dict r \<and> (\<forall>kvs. r = VDict kvs \<longrightarrow> dict_get (map_of kvs) ''path'' = VStr p)
      \<and> inventory_row_errors U sha s ps (i, r) = [] \<longleftrightarrow> py_eq r (VDict (inventory_entry p (h p)))"
    if "p \<in> set ps" "r \<in> set rows" for p r i
    by (rule inventory_row_clean) (use assms(1,2) that in \<open>auto simp: list_all_iff\<close>)
  have path: "is_dict r \<Longrightarrow> path_member r = VStr p \<longleftrightarrow> (\<forall>kvs. r = VDict kvs \<longrightarrow> dict_get (map_of kvs) ''path'' = VStr p)" for r p
    by (cases r) (simp_all add: path_member_def)
  have e: "?e \<longleftrightarrow> (\<forall>i < length rows. inventory_row_errors U sha s ps (i, rows ! i) = [])"
  proof -
    have "set (enumerate 0 rows) = (\<lambda>i. (i, rows ! i)) ` {..<length rows}"
      by (auto simp: in_set_enumerate_eq image_iff)
    then show ?thesis by auto
  qed
  have m: "?m \<longleftrightarrow> map path_member (filter is_dict rows) = map VStr ps \<and> length rows = length ps"
    by (rule mapped_path_errors_clean [OF assms(3,4)])
  show ?thesis
  proof
    assume l: "?m \<and> ?e"
    then have mp: "map path_member (filter is_dict rows) = map VStr ps" and n: "length rows = length ps" using m by simp_all
    have "length (filter is_dict rows) = length rows" using arg_cong [OF mp, of length] n by simp
    then have all: "filter is_dict rows = rows" by (rule filter_same_length)
    show ?eq unfolding list_all2_conv_all_nth
    proof (intro conjI allI impI)
      show "length rows = length (map (\<lambda>p. VDict (inventory_entry p (h p))) ps)" using n by simp
      fix i assume i: "i < length rows"
      then have "rows ! i \<in> set rows" "ps ! i \<in> set ps" using n by simp_all
      moreover have "is_dict (rows ! i)" using all nth_mem [OF i] by (simp add: filter_id_conv)
      moreover have "path_member (rows ! i) = VStr (ps ! i)"
        using arg_cong [OF mp, of "\<lambda>xs. xs ! i"] i n all by simp
      ultimately have "py_eq (rows ! i) (VDict (inventory_entry (ps ! i) (h (ps ! i))))"
        using row [of "ps ! i" "rows ! i" i] path [of "rows ! i" "ps ! i"] l e i by simp
      then show "py_eq (rows ! i) (map (\<lambda>p. VDict (inventory_entry p (h p))) ps ! i)" using i n by simp
    qed
  next
    assume l: ?eq
    then have n: "length rows = length ps" by (auto dest: list_all2_lengthD)
    have r: "is_dict (rows ! i) \<and> path_member (rows ! i) = VStr (ps ! i) \<and> inventory_row_errors U sha s ps (j, rows ! i) = []"
      if i: "i < length rows" for i j
    proof -
      have "py_eq (rows ! i) (VDict (inventory_entry (ps ! i) (h (ps ! i))))" using list_all2_nthD [OF l i] i n by simp
      then show ?thesis using row [of "ps ! i" "rows ! i" j] path [of "rows ! i" "ps ! i"] i n by simp
    qed
    have "filter is_dict rows = rows" using r by (auto simp: filter_id_conv in_set_conv_nth)
    moreover have "map path_member rows = map VStr ps" using r n by (intro nth_equalityI) simp_all
    ultimately show "?m \<and> ?e" unfolding m e using r n by simp
  qed
qed

theorem inventory_section_exact:
  assumes "site_ok s" and "\<And>p. p \<in> set (inventory_files s) \<Longrightarrow> portable_public_relative_path U (VStr p)"
  shows "inventory_section U sha s = Inr [] \<longleftrightarrow>
    (\<exists>v w. strict_json s ''LICENSE_INVENTORY.json'' = (v, []) \<and> license_inventory sha s = Inr w \<and> py_eq v w)"
proof -
  let ?ps = "inventory_files s"
  define h where "h p = sha_hex sha (the (map_of (site_files s) p))" for p
  have dig: "file_digest sha s p = Inr (h p)" if "p \<in> set ?ps" for p
  proof -
    have c: "canonical_name p" and m: "p \<in> fst ` set (site_files s)"
      using inventory_files_facts(3) [OF assms(1) that] by simp_all
    then obtain b where "map_of (site_files s) p = Some b" by (metis map_of_eq_None_iff not_None_eq)
    then show ?thesis using path_file_canonical [OF c] by (simp add: file_digest_def h_def)
  qed
  define ws where "ws = map (\<lambda>p. VDict (inventory_entry p (h p))) ?ps"
  have w: "license_inventory sha s = Inr (VDict ((''files'', VList ws) # inventory_metadata))"
    by (simp add: license_inventory_def inventory_row_entry ws_def res_map_list_ok [of _ _ "\<lambda>p. VDict (inventory_entry p (h p))"] dig)
  have dw: "distinct (map fst ((''files'', VList ws) # inventory_metadata))" by (simp add: inventory_metadata_def)
  have kw: "fst ` set ((''files'', VList ws) # inventory_metadata) = set (''files'' # map fst inventory_metadata)" by simp
  obtain v es where v: "strict_json s ''LICENSE_INVENTORY.json'' = (v, es)" by fastforce
  have wf: "wf_value v" by (rule strict_json_wf [OF v])
  note sd = inventory_files_facts(1,2) [OF assms(1)]
  show ?thesis
  proof (cases v)
    case (VDict kvs)
    have dk: "distinct (map fst kvs)" and wk: "list_all (\<lambda>kv. wf_value (snd kv)) kvs" using wf VDict by simp_all
    define files where "files = (case map_of kvs ''files'' of None \<Rightarrow> VList [] | Some f \<Rightarrow> f)"
    have wr: "list_all wf_value (list_items files)"
      using wk map_of_SomeD [of kvs "''files''"] by (cases files) (fastforce simp: files_def list_all_iff split: option.splits)+
    have meta: "metadata_errors v = Inr (concat (map (\<lambda>(f, e). note_if (\<not> py_eq (dict_get (map_of kvs) f) e)
        (''license inventory metadata mismatch: '' @ f)) inventory_metadata))"
      unfolding metadata_errors_def VDict
      by (subst res_map_list_ok [of _ _ "\<lambda>(f, e). note_if (\<not> py_eq (dict_get (map_of kvs) f) e)
        (''license inventory metadata mismatch: '' @ f)"]) (auto simp: py_get_def)
    have "inventory_section U sha s = Inr [] \<longleftrightarrow>
        es = [] \<and> fst ` set kvs = set (''files'' # map fst inventory_metadata)
        \<and> (\<forall>(f, e) \<in> set inventory_metadata. py_eq (dict_get (map_of kvs) f) e) \<and> is_list files
        \<and> mapped_path_errors (map path_member (filter is_dict (list_items files))) (length (list_items files)) ?ps = Inr []
        \<and> concat (map (inventory_row_errors U sha s ?ps) (enumerate 0 (list_items files))) = []"
      unfolding inventory_section_def v prod.case meta res_bind.simps inventory_files_public path_member_def
      by (auto simp: VDict inventory_rows_def files_def [symmetric] res_bind_Inr_iff has_keys_def Let_def split: prod.splits)
    also have "\<dots> \<longleftrightarrow> es = [] \<and> fst ` set kvs = set (''files'' # map fst inventory_metadata)
        \<and> (\<forall>(f, e) \<in> set inventory_metadata. py_eq (dict_get (map_of kvs) f) e) \<and> is_list files
        \<and> list_all2 py_eq (list_items files) ws"
      using rows_clean [of ?ps U sha s h "list_items files"] assms(2) dig wr sd unfolding ws_def by blast
    also have "\<dots> \<longleftrightarrow> es = [] \<and> py_eq v (VDict ((''files'', VList ws) # inventory_metadata))"
    proof -
      have "is_list files \<and> list_all2 py_eq (list_items files) ws \<longleftrightarrow> py_eq files (VList ws)"
        using py_eq_shape(2) [of files ws] by (cases files) (auto simp: py_eq_list)
      moreover have "dict_get (map_of kvs) ''files'' = files" if "fst ` set kvs = set (''files'' # map fst inventory_metadata)"
        using that by (cases "map_of kvs ''files''") (auto simp: files_def dict_get_def map_of_eq_None_iff)
      ultimately show ?thesis unfolding VDict py_eq_dict_keys [OF dk dw] kw by auto
    qed
    finally show ?thesis using v w by simp
  qed (use v w in \<open>simp_all add: inventory_section_def metadata_errors_def inventory_metadata_def py_get_def py_eq_def\<close>)
qed

end
