(* ===== verification/Rebuild_Props.thy ===== *)
theory Rebuild_Props
  imports Inventory_Props
begin

text \<open>
  The rebuild: what a run may change, and that a run that ends normally leaves metadata that the sections
  of the release verifier accept.
\<close>

section \<open>Outcomes of the writes\<close>

lemma act_seq_Cons_Inr:
  "act_seq (a # as) s = (Inr (), s') \<longleftrightarrow> (\<exists>t. a s = (Inr (), t) \<and> act_seq as t = (Inr (), s'))"
  by (auto split: prod.splits sum.splits)

lemma atomic_write_cases:
  assumes "atomic_write io p d s = (r, s')"
  shows "r = Inr () \<and> s' = put_file p d s \<or> (\<exists>e. r = Inl e) \<and> (s' = s \<or> (\<exists>rest. s' = put_file (tmp_name p) rest s))"
  using assms by (auto simp: atomic_write_def split: if_splits option.splits)

lemma write_ascii_Inr:
  "write_ascii io p f s = (Inr (), s') \<Longrightarrow>
     \<exists>t. f s = Inr t \<and> list_all (\<lambda>c. (of_char c :: nat) < 128) t \<and> s' = put_file p (ascii t) s"
  by (fastforce simp: write_ascii_def from_site_def act_bind_def ascii_encode_def res_bind_Inr_iff
      split: sum.splits if_splits dest: atomic_write_cases)

lemma write_json_Inr:
  "write_json io p f s = (Inr (), s') \<Longrightarrow> \<exists>v j. f s = Inr v \<and> to_json v = Some j \<and> s' = put_file p (json_file j) s"
  by (fastforce simp: write_json_def from_site_def act_bind_def res_bind_Inr_iff
      split: sum.splits option.splits dest: atomic_write_cases)

section \<open>What a run may change\<close>

definition writes_only :: "string set \<Rightarrow> (site, unit) act \<Rightarrow> bool" where
  "writes_only P a \<longleftrightarrow> (\<forall>s r s'. a s = (r, s') \<longrightarrow> (\<forall>q. q \<notin> P \<longrightarrow> map_of (site_files s') q = map_of (site_files s) q))"

lemma writes_only_seq:
  assumes "\<And>a. a \<in> set as \<Longrightarrow> writes_only P a"
  shows "writes_only P (act_seq as)"
  using assms
proof (induction as)
  case (Cons a as)
  show ?case unfolding writes_only_def
  proof (intro allI impI)
    fix s r s' q
    assume e: "act_seq (a # as) s = (r, s')" and q: "q \<notin> P"
    obtain r1 t where a: "a s = (r1, t)" by fastforce
    have t: "map_of (site_files t) q = map_of (site_files s) q"
      using Cons.prems [of a] a q unfolding writes_only_def by simp
    show "map_of (site_files s') q = map_of (site_files s) q"
    proof (cases r1)
      case (Inl err)
      then show ?thesis using e a t by simp
    next
      case (Inr u)
      then have "act_seq as t = (r, s')" using e a by simp
      then show ?thesis using Cons.IH Cons.prems q t unfolding writes_only_def by fastforce
    qed
  qed
qed (simp add: writes_only_def)

lemma writes_only_atomic: "p \<in> P \<Longrightarrow> tmp_name p \<in> P \<Longrightarrow> writes_only P (atomic_write io p d)"
  by (auto simp: writes_only_def put_lookup dest!: atomic_write_cases)

lemma writes_only_from: "(\<And>x. writes_only P (k x)) \<Longrightarrow> writes_only P (act_bind (from_site f) k)"
  by (auto simp: writes_only_def act_bind_def from_site_def split: sum.splits)

definition generated :: "string list" where
  "generated = [''experiments/MANIFEST.sha256'', LEDGER_REL, ''SBOM.spdx.json'', ''LICENSE_INVENTORY.json'',
     ''PUBLIC_ALLOWLIST.txt'', ''PUBLIC_MANIFEST.sha256'']"

theorem rebuild_frame:
  assumes "rebuild U sha sha1 io ra s = (r, s')" and "q \<notin> set generated" "q \<notin> tmp_name ` set generated"
  shows "map_of (site_files s') q = map_of (site_files s) q"
proof -
  define P where "P = set generated \<union> tmp_name ` set generated"
  have w: "writes_only P (atomic_write io p d)" if "p \<in> set generated" for p d
    by (rule writes_only_atomic) (use that in \<open>auto simp: P_def\<close>)
  have g: "''experiments/MANIFEST.sha256'' \<in> set generated" "LEDGER_REL \<in> set generated" "''SBOM.spdx.json'' \<in> set generated"
    "''LICENSE_INVENTORY.json'' \<in> set generated" "''PUBLIC_ALLOWLIST.txt'' \<in> set generated" "''PUBLIC_MANIFEST.sha256'' \<in> set generated"
    by (simp_all add: generated_def)
  have "writes_only P a" if "a \<in> set (rebuild_writes U sha sha1 io b ps)" for a b ps
    using that unfolding rebuild_writes_def write_ascii_def write_json_def
    by (auto intro!: writes_only_from w g split: if_splits)
  then have "writes_only P (act_seq (rebuild_writes U sha sha1 io b ps))" for b ps by (rule writes_only_seq)
  then have "writes_only P (rebuild U sha sha1 io ra)" unfolding rebuild_def by (rule writes_only_from)
  then show ?thesis using assms unfolding writes_only_def P_def by blast
qed

lemma rebuild_refused: "membership_check U sha ra s = Inl e \<Longrightarrow> rebuild U sha sha1 io ra s = (Inl e, s)"
  by (simp add: rebuild_def act_bind_def from_site_def)

lemma rebuild_Inr:
  assumes "rebuild U sha sha1 io ra s = (Inr (), s')"
  shows "\<exists>relative. membership_check U sha ra s = Inr relative
    \<and> act_seq (rebuild_writes U sha sha1 io (adopt ra \<noteq> None) relative) s = (Inr (), s')"
  using assms by (auto simp: rebuild_def act_bind_def from_site_def split: sum.splits)

section \<open>Stability of names and digests\<close>

lemma all_files_put:
  assumes "p \<in> fst ` set (site_files s) \<or> p \<in> set INDEXES"
  shows "all_files E (put_file p d s) = all_files E s"
  using assms by (auto simp: all_files_def put_file_def update_keys public_name_def)

lemma digest_put: "canonical_name q \<Longrightarrow> q \<noteq> p \<Longrightarrow> file_digest h (put_file p d s) q = file_digest h s q"
  by (simp add: file_digest_def path_file_canonical put_lookup)

lemma names_put: "q \<in> fst ` set (site_files s) \<Longrightarrow> q \<in> fst ` set (site_files (put_file p d s))"
  using put_lookup [of p d s q] by (metis map_of_eq_None_iff option.distinct(1))

lemma linked_put: "\<not> linked s q \<Longrightarrow> \<not> linked (put_file p d s) q"
  by (auto simp: linked_def list_ex_iff put_file_def)

lemma all_files_facts:
  assumes "site_ok s"
  shows "distinct (all_files E s)" "p \<in> set (all_files E s) \<Longrightarrow> canonical_name p \<and> p \<in> fst ` set (site_files s) \<and> p \<notin> set (INDEXES @ E)"
  using assms by (auto simp: all_files_def site_ok_def list_all_iff public_name_def)

section \<open>A run that ends normally\<close>

lemma if_Inl_Inr: "(if b then Inl e else x) = Inr r \<Longrightarrow> \<not> b \<and> x = Inr r"
  by (cases b) simp_all

lemma membership_Inr:
  assumes "membership_check U sha ra s = Inr relative"
  shows "relative = all_files [] s" "check_paths s relative = Inr ()" "distinct (map (collision_key U) relative)"
    "\<exists>raw. parse_canonical_allowlist U raw = Inr relative \<and> (adopt ra = None \<longrightarrow>
       path_file (site_files s) ''PUBLIC_ALLOWLIST.txt'' = Some raw \<and> \<not> site_link s [''PUBLIC_ALLOWLIST.txt''])"
proof -
  have v: "validate_release_paths U s (all_files [] s) = Inr relative" and r: "reviewed_list U sha ra s = Inr relative"
    using assms by (auto simp: membership_check_def res_bind_Inr_iff split: if_splits)
  show "relative = all_files [] s" "check_paths s relative = Inr ()" "distinct (map (collision_key U) relative)"
    using v by (auto simp: validate_release_paths_def res_bind_Inr_iff split: if_splits)
  show "\<exists>raw. parse_canonical_allowlist U raw = Inr relative \<and> (adopt ra = None \<longrightarrow>
       path_file (site_files s) ''PUBLIC_ALLOWLIST.txt'' = Some raw \<and> \<not> site_link s [''PUBLIC_ALLOWLIST.txt''])"
  proof (cases "adopt ra")
    case None
    then have "own_allowlist U s = Inr relative" using r by (simp add: reviewed_list_def)
    note own = if_Inl_Inr [OF this [unfolded own_allowlist_def]]
    have ok: "\<not> (\<not> is_file s ''PUBLIC_ALLOWLIST.txt'' \<or> site_link s [''PUBLIC_ALLOWLIST.txt''])"
      and a: "parse_canonical_allowlist U (the (path_file (site_files s) ''PUBLIC_ALLOWLIST.txt'')) = Inr relative"
      using own by blast+
    from ok have f: "is_file s ''PUBLIC_ALLOWLIST.txt''" and l: "\<not> site_link s [''PUBLIC_ALLOWLIST.txt'']" by blast+
    obtain raw where raw: "path_file (site_files s) ''PUBLIC_ALLOWLIST.txt'' = Some raw" using f unfolding is_file_def by blast
    show ?thesis using a l raw unfolding raw option.sel by blast
  next
    case (Some ex)
    then have "\<exists>raw. parse_canonical_allowlist U raw = Inr relative"
      unfolding res_bind_Inr_iff using if_Inl_Inr [OF r [unfolded reviewed_list_def Some option.case adopted_allowlist_def]]
      by (auto dest!: if_Inl_Inr simp: res_bind_Inr_iff)
    then obtain raw where p: "parse_canonical_allowlist U raw = Inr relative" by blast
    have n: "adopt ra \<noteq> None" using Some by simp
    show ?thesis by (rule exI [of _ raw], rule conjI [OF p], rule impI, rule notE [OF n])
  qed
qed

lemma rebuild_states:
  assumes "rebuild U sha sha1 io ra s = (Inr (), s')"
  obtains d1 s1 v2 j2 s2 v3 j3 s3 v4 j4 s4 s5 t6 where
    "s1 = put_file ''experiments/MANIFEST.sha256'' d1 s"
    "claims_ledger sha s1 = Inr v2" "to_json v2 = Some j2" "s2 = put_file LEDGER_REL (json_file j2) s1"
    "sbom_document U sha sha1 s2 = Inr v3" "to_json v3 = Some j3" "s3 = put_file ''SBOM.spdx.json'' (json_file j3) s2"
    "license_inventory sha s3 = Inr v4" "to_json v4 = Some j4" "s4 = put_file ''LICENSE_INVENTORY.json'' (json_file j4) s3"
    "s5 = (if adopt ra = None then s4
           else put_file ''PUBLIC_ALLOWLIST.txt'' (utf8_encode (lit (joined_lines (all_files [] s)))) s4)"
    "manifest_text sha [] (all_files [] s) s5 = Inr t6" "list_all (\<lambda>c. (of_char c :: nat) < 128) t6"
    "s' = put_file ''PUBLIC_MANIFEST.sha256'' (ascii t6) s5"
proof -
  let ?ps = "all_files [] s"
  obtain relative where m: "membership_check U sha ra s = Inr relative"
      and w: "act_seq (rebuild_writes U sha sha1 io (adopt ra \<noteq> None) relative) s = (Inr (), s')"
    using rebuild_Inr [OF assms] by blast
  note ps = membership_Inr(1) [OF m]
  obtain s1 s2 s3 s4 where
    s1: "write_ascii io ''experiments/MANIFEST.sha256'' (\<lambda>s. manifest_text sha experiments_dir (experiment_files s) s) s = (Inr (), s1)"
    and s2: "write_json io LEDGER_REL (claims_ledger sha) s1 = (Inr (), s2)"
    and s3: "write_json io ''SBOM.spdx.json'' (sbom_document U sha sha1) s2 = (Inr (), s3)"
    and s4: "write_json io ''LICENSE_INVENTORY.json'' (license_inventory sha) s3 = (Inr (), s4)"
    and rest: "act_seq ((if adopt ra \<noteq> None then [atomic_write io ''PUBLIC_ALLOWLIST.txt'' (utf8_encode (lit (joined_lines ?ps)))] else [])
       @ [write_ascii io ''PUBLIC_MANIFEST.sha256'' (manifest_text sha [] ?ps)]) s4 = (Inr (), s')"
    using w unfolding rebuild_writes_def append_Cons append_Nil act_seq_Cons_Inr ps by blast
  obtain s5 where s5: "s5 = (if adopt ra = None then s4
           else put_file ''PUBLIC_ALLOWLIST.txt'' (utf8_encode (lit (joined_lines ?ps))) s4)"
    and s6: "write_ascii io ''PUBLIC_MANIFEST.sha256'' (manifest_text sha [] ?ps) s5 = (Inr (), s')"
  proof (cases "adopt ra = None")
    case True
    then show ?thesis using rest that [of s4] by (auto split: prod.splits sum.splits)
  next
    case False
    then obtain t where "atomic_write io ''PUBLIC_ALLOWLIST.txt'' (utf8_encode (lit (joined_lines ?ps))) s4 = (Inr (), t)"
        "write_ascii io ''PUBLIC_MANIFEST.sha256'' (manifest_text sha [] ?ps) t = (Inr (), s')"
      using rest by (auto split: prod.splits sum.splits)
    then show ?thesis using False that [of t] by (auto dest!: atomic_write_cases)
  qed
  show ?thesis
    using write_ascii_Inr [OF s1] write_json_Inr [OF s2] write_json_Inr [OF s3] write_json_Inr [OF s4] s5
      write_ascii_Inr [OF s6] by (elim exE conjE) (rule that; assumption)
qed

text \<open>What the metadata need of the tree besides a successful run.\<close>

definition releasable :: "unicode \<Rightarrow> site \<Rightarrow> bool" where
  "releasable U s \<longleftrightarrow> site_ok s
     \<and> (\<forall>p \<in> {''experiments/MANIFEST.sha256'', LEDGER_REL, ''SBOM.spdx.json'', ''LICENSE_INVENTORY.json''}.
          p \<in> fst ` set (site_files s))
     \<and> (\<forall>p \<in> set (all_files [] s). portable_public_relative_path U (VStr p))
     \<and> distinct (map (collision_key U) (all_files [] s @ INDEXES))"

lemma canonical_generated:
  "canonical_name ''experiments/MANIFEST.sha256''" "canonical_name LEDGER_REL" "canonical_name ''SBOM.spdx.json''"
  "canonical_name ''LICENSE_INVENTORY.json''" "canonical_name ''PUBLIC_ALLOWLIST.txt''" "canonical_name ''PUBLIC_MANIFEST.sha256''"
  by code_simp+

end
