(* ===== verification/Rebuild_Sound.thy ===== *)
theory Rebuild_Sound
  imports Rebuild_Props
begin

text \<open>
  After a rebuild that ends normally, the sections of the release verifier on the manifest, the allowlist, the
  paths and the license inventory report no error.
\<close>

section \<open>Lines of a digest manifest\<close>

definition no_break :: "string \<Rightarrow> bool" where
  "no_break l \<longleftrightarrow> list_all (\<lambda>c. \<not> line_break c) l"

lemma splitlines_from_no_break:
  "no_break acc \<Longrightarrow> list_all no_break (splitlines_from acc s)"
  by (induction acc s rule: splitlines_from.induct) (auto simp: no_break_def)

lemma splitlines_no_break: "list_all no_break (splitlines s)"
  unfolding splitlines_def by (rule splitlines_from_no_break) (simp add: no_break_def)

lemma splitlines_joined: "list_all no_break ls \<Longrightarrow> splitlines (joined_lines ls) = ls"
  unfolding joined_lines_def by (rule splitlines_lines) (auto simp: no_break_def list_all_iff)

lemma parsed_allowlist_text:
  assumes "parse_canonical_allowlist U raw = Inr rows"
  shows "utf8_text raw = Some (joined_lines rows)" "splitlines (joined_lines rows) = rows" "rows \<noteq> []" "list_all no_break rows"
proof -
  obtain t where t: "utf8_text raw = Some t"
    using assms unfolding parse_canonical_allowlist_def by (cases "utf8_text raw") simp_all
  note r = assms [unfolded parse_canonical_allowlist_def t option.case Let_def]
  note r1 = if_Inl_Inr [OF r] note r2 = if_Inl_Inr [OF r1 [THEN conjunct2]] note r3 = if_Inl_Inr [OF r2 [THEN conjunct2]]
  have "rows = splitlines t" using if_Inl_Inr [OF r3 [THEN conjunct2]] by (metis sum.inject(2))
  moreover have "splitlines t \<noteq> []" "t = joined_lines (splitlines t)" using r1 by blast+
  ultimately show "utf8_text raw = Some (joined_lines rows)" "splitlines (joined_lines rows) = rows" "rows \<noteq> []"
    "list_all no_break rows" using t splitlines_no_break [of t] by metis+
qed

lemma lower_hex_char: "is_lower_hex c \<Longrightarrow> c \<noteq> CHR '' '' \<and> \<not> line_break c"
  unfolding is_lower_hex_def list.set by (elim insertE emptyE; hypsubst; code_simp)

lemma hex_digest: "digest32 sha \<Longrightarrow> hex64 (sha_hex sha b)"
  unfolding hex64_def is_lower_hex_def list_all_iff sha_hex_def digest32_def length_hex_of
  using set_hex_of [of "sha b"] by (intro conjI) (simp, blast)

lemma split_once_hex: "list_all (\<lambda>c. c \<noteq> CHR '' '') h \<Longrightarrow> split_once acc (h @ CHR '' '' # CHR '' '' # p) = Some (rev acc @ h, p)"
  by (induction h arbitrary: acc) auto

lemma hex_no_space: "hex64 h \<Longrightarrow> list_all (\<lambda>c. c \<noteq> CHR '' '') h" "hex64 h \<Longrightarrow> no_break h"
  unfolding hex64_def no_break_def list_all_iff using lower_hex_char by blast+

lemma update_new: "k \<notin> fst ` set m \<Longrightarrow> AList.update k v m = m @ [(k, v)]"
  by (induction m) auto

lemma release_manifest_rows:
  assumes "\<And>p. p \<in> set ps \<Longrightarrow> hex64 (h p)" "distinct (map fst m @ ps)"
  shows "release_manifest m (map (\<lambda>p. h p @ ''  '' @ p) ps) = (m @ map (\<lambda>p. (p, h p)) ps, [])"
  using assms
proof (induction ps arbitrary: m)
  case (Cons p ps)
  have n: "p \<notin> fst ` set m" using Cons.prems(2) by auto
  have s: "split_once [] (h p @ ''  '' @ p) = Some (h p, p)"
    using split_once_hex [OF hex_no_space(1), of "h p" "[]" p] Cons.prems(1) by simp
  have "release_manifest (m @ [(p, h p)]) (map (\<lambda>p. h p @ ''  '' @ p) ps) = ((m @ [(p, h p)]) @ map (\<lambda>p. (p, h p)) ps, [])"
    by (rule Cons.IH) (use Cons.prems in auto)
  then show ?case using n s Cons.prems(1) by (simp add: update_new)
qed simp

section \<open>The manifest section\<close>

lemma manifest_text_rows:
  assumes "manifest_text sha [] ps s = Inr t"
  obtains h where "\<And>p. p \<in> set ps \<Longrightarrow> file_digest sha s p = Inr (h p)" "t = joined_lines (map (\<lambda>p. h p @ ''  '' @ p) ps)"
proof -
  define h where "h p = (case file_digest sha s p of Inl e \<Rightarrow> [] | Inr x \<Rightarrow> x)" for p
  obtain rows where rows: "res_map_list (manifest_row sha s []) ps = Inr rows" and t: "t = concat rows"
    using assms unfolding manifest_text_def by (cases "res_map_list (manifest_row sha s []) ps") simp_all
  have d: "file_digest sha s p = Inr (h p)" if "p \<in> set ps" for p
  proof -
    obtain i where "i < length ps" "ps ! i = p" using \<open>p \<in> set ps\<close> by (auto simp: in_set_conv_nth)
    then have "manifest_row sha s [] p = Inr (rows ! i)" using rows unfolding res_map_list_Inr by blast
    then show ?thesis by (cases "file_digest sha s p") (simp_all add: manifest_row_def h_def)
  qed
  have "res_map_list (manifest_row sha s []) ps = Inr (map (\<lambda>p. h p @ ''  '' @ p @ [CHR 0x0A]) ps)"
    by (rule res_map_list_ok) (simp add: manifest_row_def d)
  then have "t = joined_lines (map (\<lambda>p. h p @ ''  '' @ p) ps)"
    using rows t by (simp add: joined_lines_def comp_def)
  then show ?thesis using that [of h] d by blast
qed

lemma ascii_text_ascii: "list_all (\<lambda>c. (of_char c :: nat) < 128) t \<Longrightarrow> ascii_text (ascii t) = Inr t"
  by (induction t) (auto simp: ascii_text_def ascii_def unat_of_nat split: if_splits)

lemma digest_is_hex: "digest32 sha \<Longrightarrow> file_digest sha s p = Inr h \<Longrightarrow> hex64 h"
  by (auto simp: file_digest_def hex_digest split: option.splits)

lemma manifest_section_clean:
  assumes "digest32 sha" and "\<And>p. p \<in> set ps \<Longrightarrow> file_digest sha s p = Inr (h p)"
    and ps: "public_files s = ps" "distinct ps" "list_all no_break ps"
    and m: "path_file (site_files s) ''PUBLIC_MANIFEST.sha256'' = Some (ascii t)" "list_all (\<lambda>c. (of_char c :: nat) < 128) t"
      "t = joined_lines (map (\<lambda>p. h p @ ''  '' @ p) ps)"
    and a: "path_file (site_files s) ''PUBLIC_ALLOWLIST.txt'' = Some raw" "utf8_text raw = Some (joined_lines ps)"
  shows "manifest_section sha s = Inr []"
proof -
  have hex: "hex64 (h p)" if "p \<in> set ps" for p using digest_is_hex assms(1,2) that by blast
  have sp: "no_break ''  ''" by (simp add: no_break_def line_break_def)
  have "list_all no_break (map (\<lambda>p. h p @ ''  '' @ p) ps)"
    using hex_no_space(2) [OF hex] ps(3) sp unfolding list_all_iff no_break_def by (auto simp: list_all_iff)
  then have lines: "splitlines t = map (\<lambda>p. h p @ ''  '' @ p) ps" unfolding m(3) by (rule splitlines_joined)
  have mf: "release_manifest [] (splitlines t) = (map (\<lambda>p. (p, h p)) ps, [])"
    unfolding lines using release_manifest_rows [of ps h "[]"] hex ps(2) by simp
  have obs: "res_map_list (\<lambda>p. res_map (Pair p) (file_digest sha s p)) ps = Inr (map (\<lambda>p. (p, h p)) ps)"
    by (rule res_map_list_ok) (simp add: assms(2))
  have f: "\<not> (\<not> is_file s ''PUBLIC_MANIFEST.sha256'' \<or> \<not> is_file s ''PUBLIC_ALLOWLIST.txt'')"
    unfolding is_file_def using m(1) a(1) by blast
  have u: "utf8_read raw = Inr (joined_lines ps)" by (simp add: utf8_read_def a(2))
  have so: "sort ps = ps" unfolding ps(1) [symmetric] public_files_def by (rule sort_key_id_if_sorted) simp
  show ?thesis
    unfolding manifest_section_def if_not_P [OF f] m(1) a(1) option.sel ps(1) obs ascii_text_ascii [OF m(2)] u
    by (simp add: mf splitlines_joined [OF ps(3)] comp_def so ps(2))
qed

section \<open>The path section\<close>

lemma check_paths_clean: "check_paths s ps = Inr () \<longleftrightarrow> (\<forall>p \<in> set ps. \<not> unsafe_public p \<and> \<not> linked s p)"
  by (induction s ps rule: check_paths.induct) auto

lemma linked_root: "\<not> linked s p \<Longrightarrow> \<not> site_link s []"
proof -
  have "[] \<in> set (checked_paths p)" unfolding checked_paths_def by (force intro: image_eqI [of _ _ 0])
  then show "\<not> linked s p \<Longrightarrow> \<not> site_link s []" unfolding linked_def list_ex_iff by blast
qed

lemma linked_index:
  assumes "p \<in> set INDEXES"
  shows "linked s p \<longleftrightarrow> site_link s [] \<or> site_link s [p]"
proof -
  have "path_parts p = [p]" using assms unfolding INDEXES_def list.set by (elim insertE emptyE; hypsubst; code_simp)
  then show ?thesis by (simp add: linked_def checked_paths_def)
qed

lemma safe_index: "p \<in> set INDEXES \<Longrightarrow> \<not> unsafe_public p"
  unfolding INDEXES_def list.set by (elim insertE emptyE; hypsubst; code_simp)

lemma path_errors_clean: "\<not> unsafe_public p \<Longrightarrow> \<not> linked s p \<Longrightarrow> path_errors s p = []"
  by (auto simp: path_errors_def unsafe_public_def)

lemma path_section_clean:
  assumes "\<And>p. p \<in> set (public_files s @ INDEXES) \<Longrightarrow> is_file s p \<and> \<not> unsafe_public p \<and> \<not> linked s p"
    and "distinct (map (collision_key U) (public_files s @ INDEXES))"
  shows "path_section U s = []"
proof -
  have "filter (is_file s) (public_files s @ INDEXES) = public_files s @ INDEXES"
    unfolding filter_id_conv using assms(1) by blast
  moreover have "concat (map (path_errors s) (public_files s @ INDEXES)) = []"
    unfolding concat_eq_Nil_conv set_map using assms(1) path_errors_clean by blast
  ultimately show ?thesis using assms(2) unfolding path_section_def Let_def by (simp add: note_if_def)
qed

section \<open>The license inventory\<close>

lemma inventory_rewritten:
  assumes "license_inventory sha s3 = Inr v" "to_json v = Some j"
    and "path_file (site_files s) ''LICENSE_INVENTORY.json'' = Some (json_file j)"
    and "inventory_files s = inventory_files s3"
    and "\<And>p. p \<in> set (inventory_files s) \<Longrightarrow> file_digest sha s p = file_digest sha s3 p"
    and "site_ok s" "\<And>p. p \<in> set (inventory_files s) \<Longrightarrow> portable_public_relative_path U (VStr p)"
  shows "inventory_section U sha s = Inr []"
proof -
  have same: "license_inventory sha s = license_inventory sha s3"
    unfolding license_inventory_def
    by (rule arg_cong [where f = "res_map _"], rule res_map_list_cong) (simp_all add: assms(4,5) inventory_row_def)
  obtain rows where rows: "res_map_list (inventory_row sha s3) (inventory_files s3) = Inr rows"
      and v: "v = VDict ((''files'', VList rows) # inventory_metadata)"
    using assms(1) unfolding license_inventory_def by (cases "res_map_list (inventory_row sha s3) (inventory_files s3)") simp_all
  have "wf_value r" if "inventory_row sha s3 p = Inr r" for p r
    using that by (cases "file_digest sha s3 p") (auto simp: inventory_row_def noassertion_def)
  then have "list_all wf_value rows" using rows unfolding res_map_list_Inr list_all_length by metis
  then have "wf_value v" by (simp add: v inventory_metadata_def)
  then obtain t j' where "utf8_text (json_file j) = Some t" "json_loads_with unique_hook t = Inr j'" "py_eq (of_json j') v"
    using written_value_reads_back [OF assms(2)] by blast
  then have "strict_json s ''LICENSE_INVENTORY.json'' = (of_json j', [])" "py_eq (of_json j') v"
    unfolding strict_json_def assms(3) by simp_all
  moreover have "license_inventory sha s = Inr v" unfolding same by (rule assms(1))
  ultimately show ?thesis using inventory_section_exact [OF assms(6,7), where sha = sha] by blast
qed

section \<open>The whole run\<close>

lemma generated_names_differ:
  "''LICENSE_INVENTORY.json'' \<noteq> ''PUBLIC_ALLOWLIST.txt''" "''LICENSE_INVENTORY.json'' \<noteq> ''PUBLIC_MANIFEST.sha256''"
  "''PUBLIC_ALLOWLIST.txt'' \<noteq> ''PUBLIC_MANIFEST.sha256''" "''PUBLIC_ALLOWLIST.txt'' \<noteq> ''experiments/MANIFEST.sha256''"
  "''PUBLIC_ALLOWLIST.txt'' \<noteq> LEDGER_REL" "''PUBLIC_ALLOWLIST.txt'' \<noteq> ''SBOM.spdx.json''"
  by code_simp+

lemma path_put: "canonical_name q \<Longrightarrow> path_file (site_files (put_file p d s)) q = (if q = p then Some d else path_file (site_files s) q)"
  by (simp add: path_file_canonical put_lookup)

text \<open>Up to the SBOM a run only overwrites files that the tree has.\<close>

definition same_tree :: "site \<Rightarrow> site \<Rightarrow> bool" where
  "same_tree s t \<longleftrightarrow> site_ok t \<and> (\<forall>E. all_files E t = all_files E s) \<and> (\<forall>p. \<not> linked s p \<longrightarrow> \<not> linked t p)"

lemma same_tree_put:
  assumes "same_tree s t" "canonical_name p" "p \<in> fst ` set (site_files t) \<or> p \<in> set INDEXES"
  shows "same_tree s (put_file p d t)"
  using assms all_files_put [OF assms(3)] linked_put unfolding same_tree_def by (metis put_site_ok)

lemma rebuild_middle:
  assumes r: "rebuild U sha sha1 io ra s = (Inr (), s')" and rel: "releasable U s"
  obtains s3 v4 j4 s4 s5 t6 where "same_tree s s3" "''LICENSE_INVENTORY.json'' \<in> fst ` set (site_files s3)"
    "path_file (site_files s3) ''PUBLIC_ALLOWLIST.txt'' = path_file (site_files s) ''PUBLIC_ALLOWLIST.txt''"
    "\<not> site_link s [''PUBLIC_ALLOWLIST.txt''] \<longrightarrow> \<not> site_link s3 [''PUBLIC_ALLOWLIST.txt'']"
    "license_inventory sha s3 = Inr v4" "to_json v4 = Some j4" "s4 = put_file ''LICENSE_INVENTORY.json'' (json_file j4) s3"
    "s5 = (if adopt ra = None then s4
           else put_file ''PUBLIC_ALLOWLIST.txt'' (utf8_encode (lit (joined_lines (all_files [] s)))) s4)"
    "manifest_text sha [] (all_files [] s) s5 = Inr t6" "list_all (\<lambda>c. (of_char c :: nat) < 128) t6"
    "s' = put_file ''PUBLIC_MANIFEST.sha256'' (ascii t6) s5"
proof (rule rebuild_states [OF r])
  fix d1 s1 j2 s2 j3 s3 v4 j4 s4 s5 t6
  assume s1: "s1 = put_file ''experiments/MANIFEST.sha256'' d1 s" and s2: "s2 = put_file LEDGER_REL (json_file j2) s1"
    and s3: "s3 = put_file ''SBOM.spdx.json'' (json_file j3) s2"
    and rest: "license_inventory sha s3 = Inr v4" "to_json v4 = Some j4" "s4 = put_file ''LICENSE_INVENTORY.json'' (json_file j4) s3"
    "s5 = (if adopt ra = None then s4
           else put_file ''PUBLIC_ALLOWLIST.txt'' (utf8_encode (lit (joined_lines (all_files [] s)))) s4)"
    "manifest_text sha [] (all_files [] s) s5 = Inr t6" "list_all (\<lambda>c. (of_char c :: nat) < 128) t6"
    "s' = put_file ''PUBLIC_MANIFEST.sha256'' (ascii t6) s5"
  have in_s: "p \<in> fst ` set (site_files s)"
    if "p \<in> {''experiments/MANIFEST.sha256'', LEDGER_REL, ''SBOM.spdx.json'', ''LICENSE_INVENTORY.json''}" for p
    using rel that unfolding releasable_def by blast
  have "same_tree s s" using rel by (simp add: same_tree_def releasable_def)
  then have same: "same_tree s s3" unfolding s3 s2 s1
    by (intro same_tree_put canonical_generated disjI1 names_put in_s insertI1 insertI2)
  have inv: "''LICENSE_INVENTORY.json'' \<in> fst ` set (site_files s3)" unfolding s3 s2 s1 by (intro names_put in_s insertI1 insertI2)
  have al: "path_file (site_files s3) ''PUBLIC_ALLOWLIST.txt'' = path_file (site_files s) ''PUBLIC_ALLOWLIST.txt''"
    unfolding s3 s2 s1 path_put [OF canonical_generated(5)] using generated_names_differ(4-6) by (simp only: if_False)
  have "\<not> site_link (put_file p d t) q" if "\<not> site_link t q" for p d t q using that by (simp add: put_file_def)
  then have li: "\<not> site_link s [''PUBLIC_ALLOWLIST.txt''] \<longrightarrow> \<not> site_link s3 [''PUBLIC_ALLOWLIST.txt'']"
    unfolding s3 s2 s1 by blast
  show thesis by (rule that [OF same inv al li rest])
qed

lemma digest_same_tree:
  assumes "same_tree s t" "p \<in> set (all_files E s)" "q \<in> set (INDEXES @ E)"
  shows "file_digest h (put_file q d t) p = file_digest h t p"
proof -
  have "p \<in> set (all_files E t)" "site_ok t" using assms(1,2) by (simp_all add: same_tree_def)
  from all_files_facts(2) [OF this(2,1)] show ?thesis using assms(3) by (metis digest_put)
qed

lemma same_tree_facts:
  assumes "same_tree s t"
  shows "site_ok t" "all_files E t = all_files E s" "public_files t = all_files [] s" "inventory_files t = inventory_files s"
    "distinct (all_files [] s)" "\<not> linked s p \<Longrightarrow> \<not> linked t p"
  using assms all_files_facts(1) [of t "[]"] by (auto simp: same_tree_def public_files_all inventory_files_def)

lemma final_manifest:
  assumes "digest32 sha" and same: "same_tree s s5" and t6: "manifest_text sha [] (all_files [] s) s5 = Inr t6"
      "list_all (\<lambda>c. (of_char c :: nat) < 128) t6"
    and s': "s' = put_file ''PUBLIC_MANIFEST.sha256'' (ascii t6) s5" and same': "same_tree s s'"
    and raw: "path_file (site_files s') ''PUBLIC_ALLOWLIST.txt'' = Some raw" "utf8_text raw = Some (joined_lines (all_files [] s))"
    and nb: "list_all no_break (all_files [] s)"
  shows "manifest_section sha s' = Inr []"
proof -
  obtain h where h: "\<And>p. p \<in> set (all_files [] s) \<Longrightarrow> file_digest sha s5 p = Inr (h p)"
      and t: "t6 = joined_lines (map (\<lambda>p. h p @ ''  '' @ p) (all_files [] s))"
    using manifest_text_rows [OF t6(1)] by blast
  have idx: "''PUBLIC_MANIFEST.sha256'' \<in> set (INDEXES @ [])" unfolding INDEXES_def by (simp only: set_append list.set) blast
  have d: "file_digest sha s' p = Inr (h p)" if "p \<in> set (all_files [] s)" for p
    unfolding s' digest_same_tree [OF same that idx] by (rule h [OF that])
  have m: "path_file (site_files s') ''PUBLIC_MANIFEST.sha256'' = Some (ascii t6)"
    unfolding s' path_put [OF canonical_generated(6)] by (rule if_P) (rule refl)
  show ?thesis
    by (rule manifest_section_clean [OF assms(1) d same_tree_facts(3) [OF same'] same_tree_facts(5) [OF same'] nb m t6(2) t raw])
qed

lemma final_paths:
  assumes same': "same_tree s s'" and ok: "check_paths s (all_files [] s) = Inr ()" "all_files [] s \<noteq> []"
    and keys: "distinct (map (collision_key U) (all_files [] s @ INDEXES))"
    and idx: "\<And>p. p \<in> set INDEXES \<Longrightarrow> is_file s' p \<and> \<not> site_link s' [p]"
  shows "path_section U s' = []"
proof (rule path_section_clean, unfold same_tree_facts(3) [OF same'])
  have root: "\<not> site_link s' []"
    using linked_root same_tree_facts(6) [OF same'] ok unfolding check_paths_clean by (metis list.set_sel(1))
  fix p assume p: "p \<in> set (all_files [] s @ INDEXES)"
  show "is_file s' p \<and> \<not> unsafe_public p \<and> \<not> linked s' p"
  proof (cases "p \<in> set INDEXES")
    case True
    show ?thesis unfolding linked_index [OF True] using idx [OF True] safe_index [OF True] root by blast
  next
    case False
    then have a: "p \<in> set (all_files [] s)" using p by simp
    then have "p \<in> set (all_files [] s')" unfolding same_tree_facts(2) [OF same'] .
    note f = all_files_facts(2) [OF same_tree_facts(1) [OF same'] this]
    have "is_file s' p" unfolding is_file_def path_file_canonical [OF conjunct1 [OF f]] map_of_eq_None_iff using f by blast
    then show ?thesis using ok(1) a same_tree_facts(6) [OF same'] unfolding check_paths_clean by blast
  qed
qed (rule keys)

lemma final_inventory:
  assumes same3: "same_tree s s3" and same': "same_tree s s'" and v4: "license_inventory sha s3 = Inr v4" "to_json v4 = Some j4"
    and written: "path_file (site_files s') ''LICENSE_INVENTORY.json'' = Some (json_file j4)"
    and digests: "\<And>p. p \<in> set (all_files [''LICENSE_INVENTORY.json''] s) \<Longrightarrow> file_digest sha s' p = file_digest sha s3 p"
    and portable: "\<And>p. p \<in> set (all_files [] s) \<Longrightarrow> portable_public_relative_path U (VStr p)"
  shows "inventory_section U sha s' = Inr []"
proof (rule inventory_rewritten [OF v4 written])
  show "inventory_files s' = inventory_files s3" unfolding same_tree_facts(4) [OF same3] same_tree_facts(4) [OF same'] ..
  show "site_ok s'" by (rule same_tree_facts(1) [OF same'])
  fix p assume "p \<in> set (inventory_files s')"
  then have p: "p \<in> set (all_files [''LICENSE_INVENTORY.json''] s)" unfolding inventory_files_def same_tree_facts(2) [OF same'] .
  then show "file_digest sha s' p = file_digest sha s3 p" by (rule digests)
  have "p \<in> set (all_files [] s)" using p by (auto simp: all_files_def public_name_def)
  then show "portable_public_relative_path U (VStr p)" by (rule portable)
qed

text \<open>The last three writes.\<close>

lemma index_parts: "path_parts ''PUBLIC_ALLOWLIST.txt'' = [''PUBLIC_ALLOWLIST.txt'']"
  "path_parts ''PUBLIC_MANIFEST.sha256'' = [''PUBLIC_MANIFEST.sha256'']"
  by code_simp+

lemma index_members: "''PUBLIC_ALLOWLIST.txt'' \<in> set (INDEXES @ E)" "''PUBLIC_MANIFEST.sha256'' \<in> set (INDEXES @ E)"
  unfolding INDEXES_def by (simp_all only: set_append list.set) blast+

lemma put_unlinked: "\<not> site_link s q \<Longrightarrow> \<not> site_link (put_file p d s) q" "\<not> site_link (put_file p d s) (path_parts p)"
  by (simp_all add: put_file_def)

lemma rebuild_end:
  assumes same3: "same_tree s s3" and inv: "''LICENSE_INVENTORY.json'' \<in> fst ` set (site_files s3)"
    and s4: "s4 = put_file ''LICENSE_INVENTORY.json'' d4 s3" and s5: "s5 = s4 \<or> s5 = put_file ''PUBLIC_ALLOWLIST.txt'' d5 s4"
    and s': "s' = put_file ''PUBLIC_MANIFEST.sha256'' d6 s5"
  shows "same_tree s s5" "same_tree s s'" "path_file (site_files s') ''LICENSE_INVENTORY.json'' = Some d4"
    "\<And>p. p \<in> set (all_files [''LICENSE_INVENTORY.json''] s) \<Longrightarrow> file_digest sha s' p = file_digest sha s3 p"
    "is_file s' ''PUBLIC_MANIFEST.sha256''" "\<not> site_link s' [''PUBLIC_MANIFEST.sha256'']"
proof -
  let ?E = "[''LICENSE_INVENTORY.json'']"
  note idx = index_members [where E = "[]", unfolded append_Nil2]
  have same4: "same_tree s s4" unfolding s4 by (rule same_tree_put [OF same3 canonical_generated(4) disjI1 [OF inv]])
  then show same5: "same_tree s s5"
    using s5 same_tree_put [OF same4 canonical_generated(5) disjI2 [OF idx(1)]] by blast
  then show "same_tree s s'" unfolding s' by (rule same_tree_put [OF _ canonical_generated(6) disjI2 [OF idx(2)]])
  have "path_file (site_files s4) ''LICENSE_INVENTORY.json'' = Some d4"
    unfolding s4 path_put [OF canonical_generated(4)] by (rule if_P) (rule refl)
  then have "path_file (site_files s5) ''LICENSE_INVENTORY.json'' = Some d4"
    using s5 path_put [OF canonical_generated(4)] generated_names_differ(1) by metis
  then show "path_file (site_files s') ''LICENSE_INVENTORY.json'' = Some d4"
    unfolding s' path_put [OF canonical_generated(4)] using generated_names_differ(2) by metis
  show "file_digest sha s' p = file_digest sha s3 p" if p: "p \<in> set (all_files ?E s)" for p
  proof -
    have "''LICENSE_INVENTORY.json'' \<in> set (INDEXES @ ?E)" by (simp only: set_append list.set) blast
    then have "file_digest sha s4 p = file_digest sha s3 p" unfolding s4 by (rule digest_same_tree [OF same3 p])
    moreover have "file_digest sha s5 p = file_digest sha s4 p"
      using s5 digest_same_tree [OF same4 p index_members(1)] by metis
    moreover have "file_digest sha s' p = file_digest sha s5 p" unfolding s' by (rule digest_same_tree [OF same5 p index_members(2)])
    ultimately show ?thesis by simp
  qed
  have "path_file (site_files s') ''PUBLIC_MANIFEST.sha256'' = Some d6"
    unfolding s' path_put [OF canonical_generated(6)] by (rule if_P) (rule refl)
  then show "is_file s' ''PUBLIC_MANIFEST.sha256''" unfolding is_file_def by blast
  show "\<not> site_link s' [''PUBLIC_MANIFEST.sha256'']"
    unfolding s' using put_unlinked(2) [of "''PUBLIC_MANIFEST.sha256''" d6 s5] unfolding index_parts .
qed

lemma rebuild_allowlist:
  assumes own: "a = None \<longrightarrow> path_file (site_files s4) ''PUBLIC_ALLOWLIST.txt'' = Some raw0 \<and> \<not> site_link s4 [''PUBLIC_ALLOWLIST.txt'']"
    and parsed: "utf8_text raw0 = Some t"
    and s5: "s5 = (if a = None then s4 else put_file ''PUBLIC_ALLOWLIST.txt'' (utf8_encode (lit t)) s4)"
    and s': "s' = put_file ''PUBLIC_MANIFEST.sha256'' d6 s5"
  shows "\<exists>raw. path_file (site_files s') ''PUBLIC_ALLOWLIST.txt'' = Some raw \<and> utf8_text raw = Some t"
    "\<not> site_link s' [''PUBLIC_ALLOWLIST.txt'']"
proof -
  have "(\<exists>raw. path_file (site_files s5) ''PUBLIC_ALLOWLIST.txt'' = Some raw \<and> utf8_text raw = Some t)
      \<and> \<not> site_link s5 [''PUBLIC_ALLOWLIST.txt'']"
  proof (cases a)
    case None
    note o = own [THEN mp, OF None]
    have s5': "s5 = s4" unfolding s5 by (rule if_P) (rule None)
    show ?thesis unfolding s5' by (rule conjI, rule exI, rule conjI [OF conjunct1 [OF o] parsed], rule conjunct2 [OF o])
  next
    case (Some x)
    then have s5': "s5 = put_file ''PUBLIC_ALLOWLIST.txt'' (utf8_encode (lit t)) s4" unfolding s5 by simp
    show ?thesis unfolding s5' path_put [OF canonical_generated(5)]
      using utf8_text_encode [of t] put_unlinked(2) [of "''PUBLIC_ALLOWLIST.txt''" "utf8_encode (lit t)" s4]
      unfolding index_parts if_P [OF refl] by blast
  qed
  then show "\<exists>raw. path_file (site_files s') ''PUBLIC_ALLOWLIST.txt'' = Some raw \<and> utf8_text raw = Some t"
    "\<not> site_link s' [''PUBLIC_ALLOWLIST.txt'']"
    unfolding s' path_put [OF canonical_generated(5)] using put_unlinked(1) generated_names_differ(3) by metis+
qed

theorem rebuilt_metadata:
  assumes sha: "digest32 sha" and rel: "releasable U s" and r: "rebuild U sha sha1 io ra s = (Inr (), s')"
  shows "manifest_section sha s' = Inr [] \<and> path_section U s' = [] \<and> inventory_section U sha s' = Inr []
    \<and> public_files s' = public_files s"
proof (rule rebuild_middle [OF r rel])
  let ?ps = "all_files [] s" and ?al = "''PUBLIC_ALLOWLIST.txt''" and ?pm = "''PUBLIC_MANIFEST.sha256''"
    and ?li = "''LICENSE_INVENTORY.json''"
  obtain relative where m: "membership_check U sha ra s = Inr relative" using rebuild_Inr [OF r] by blast
  note ps = membership_Inr(1) [OF m]
  obtain raw0 where parsed: "parse_canonical_allowlist U raw0 = Inr ?ps"
      and own: "adopt ra = None \<longrightarrow> path_file (site_files s) ?al = Some raw0 \<and> \<not> site_link s [?al]"
    using membership_Inr(4) [OF m] unfolding ps by (elim exE conjE) (rule that)
  note listed = parsed_allowlist_text [OF parsed]
  fix s3 v4 j4 s4 s5 t6
  assume same3: "same_tree s s3" and inv: "?li \<in> fst ` set (site_files s3)"
    and al: "path_file (site_files s3) ?al = path_file (site_files s) ?al"
    and li: "\<not> site_link s [?al] \<longrightarrow> \<not> site_link s3 [?al]"
    and v4: "license_inventory sha s3 = Inr v4" "to_json v4 = Some j4" and s4: "s4 = put_file ?li (json_file j4) s3"
    and s5: "s5 = (if adopt ra = None then s4 else put_file ?al (utf8_encode (lit (joined_lines ?ps))) s4)"
    and t6: "manifest_text sha [] ?ps s5 = Inr t6" "list_all (\<lambda>c. (of_char c :: nat) < 128) t6"
    and s': "s' = put_file ?pm (ascii t6) s5"
  have s5': "s5 = s4 \<or> s5 = put_file ?al (utf8_encode (lit (joined_lines ?ps))) s4"
    unfolding s5 by (cases "adopt ra = None") simp_all
  note e = rebuild_end [OF same3 inv s4 s5' s']
  have al4: "path_file (site_files s4) ?al = path_file (site_files s) ?al"
    unfolding s4 path_put [OF canonical_generated(5)] al using generated_names_differ(1) by metis
  have own4: "adopt ra = None \<longrightarrow> path_file (site_files s4) ?al = Some raw0 \<and> \<not> site_link s4 [?al]"
    unfolding al4 unfolding s4 using own li put_unlinked(1) by metis
  note allow = rebuild_allowlist [OF own4 listed(1) s5 s']
  obtain raw where raw: "path_file (site_files s') ?al = Some raw" "utf8_text raw = Some (joined_lines ?ps)"
    using allow(1) by blast
  have "manifest_section sha s' = Inr []" by (rule final_manifest [OF sha e(1) t6 s' e(2) raw listed(4)])
  moreover have "path_section U s' = []"
  proof (rule final_paths [OF e(2) _ listed(3)])
    show "check_paths s ?ps = Inr ()" using membership_Inr(2) [OF m] unfolding ps .
    show "distinct (map (collision_key U) (?ps @ INDEXES))" using rel unfolding releasable_def by (elim conjE)
    have listed': "is_file s' ?al" unfolding is_file_def raw(1) by (rule option.distinct(2))
    fix p assume "p \<in> set INDEXES"
    then have "p = ?pm \<or> p = ?al" unfolding INDEXES_def by (simp only: list.set insert_iff empty_iff simp_thms)
    then show "is_file s' p \<and> \<not> site_link s' [p]"
      by (elim disjE; hypsubst) (rule conjI [OF e(5,6)], rule conjI [OF listed' allow(2)])
  qed
  moreover have "inventory_section U sha s' = Inr []"
    by (rule final_inventory [OF same3 e(2) v4 e(3) e(4)]) (use rel in \<open>auto simp: releasable_def\<close>)
  moreover have "public_files s' = public_files s" unfolding same_tree_facts(3) [OF e(2)] by (simp only: public_files_all)
  ultimately show ?thesis by blast
qed

end
