(* ===== verification/Rebuild_Live.thy ===== *)
theory Rebuild_Live
  imports Rebuild_Sound
begin

text \<open>
  When a rebuild comes to its end: on a tree whose names the tool accepts, with the claim evidence in place,
  no temporary file left over and a disk that takes the writes, \<open>rebuild\<close> returns normally.
\<close>

section \<open>Documents without floats\<close>

definition plain :: "pyval \<Rightarrow> bool" where
  "plain v \<longleftrightarrow> to_json v \<noteq> None"

lemma plain_items: "to_items vs \<noteq> None \<longleftrightarrow> list_all plain vs"
  by (induction vs) (auto simp: plain_def split: option.splits)

lemma plain_members: "to_members kvs \<noteq> None \<longleftrightarrow> list_all (\<lambda>kv. plain (snd kv)) kvs"
  by (induction kvs) (auto simp: plain_def split: option.splits)

lemma plain_simps [simp]:
  "plain (VStr t)" "plain (VBool b)" "plain noassertion" "plain (VList vs) \<longleftrightarrow> list_all plain vs"
  "plain (VDict kvs) \<longleftrightarrow> list_all (\<lambda>kv. plain (snd kv)) kvs"
  using plain_items [of vs] plain_members [of kvs] by (auto simp: plain_def noassertion_def split: option.splits)

section \<open>Documents of a tree that has the files\<close>

lemma digest_exists: "is_file s p \<Longrightarrow> \<exists>h. file_digest sha s p = Inr h"
  by (auto simp: is_file_def file_digest_def)

lemma res_map_list_exists:
  "(\<And>x. x \<in> set xs \<Longrightarrow> \<exists>y. f x = Inr y \<and> P y) \<Longrightarrow> \<exists>ys. res_map_list f xs = Inr ys \<and> list_all P ys"
  by (induction xs) fastforce+

lemma claims_exist:
  assumes "\<And>spec p. spec \<in> set claim_specs \<Longrightarrow> p \<in> set (fst (snd (snd (snd (snd spec))))) \<Longrightarrow> is_file s p"
  shows "\<exists>v. claims_ledger sha s = Inr v \<and> plain v"
proof -
  have e: "\<exists>v. evidence_row sha s p = Inr v \<and> plain v" if "is_file s p" for p
    using digest_exists [OF that, of sha] that by (auto simp: evidence_row_def)
  have "\<exists>v. claim_row sha s spec = Inr v \<and> plain v" if "spec \<in> set claim_specs" for spec
  proof -
    obtain i w sc c ps ex where spec: "spec = (i, w, sc, c, ps, ex)" by (cases spec)
    have "\<exists>vs. res_map_list (evidence_row sha s) ps = Inr vs \<and> list_all plain vs"
      by (rule res_map_list_exists) (rule e, rule assms [OF that], simp add: spec)
    then obtain vs where "res_map_list (evidence_row sha s) ps = Inr vs" "list_all plain vs" by blast
    then show ?thesis by (simp add: claim_row_def spec list_all_iff)
  qed
  then obtain vs where "res_map_list (claim_row sha s) claim_specs = Inr vs" "list_all plain vs"
    using res_map_list_exists [of claim_specs "claim_row sha s" plain] by blast
  then show ?thesis by (simp add: claims_ledger_def)
qed

lemma inventory_exists:
  assumes "\<And>p. p \<in> set (inventory_files s) \<Longrightarrow> is_file s p"
  shows "\<exists>v. license_inventory sha s = Inr v \<and> plain v"
proof -
  have "\<exists>v. inventory_row sha s p = Inr v \<and> plain v" if "p \<in> set (inventory_files s)" for p
    using digest_exists [OF assms [OF that], of sha] by (auto simp: inventory_row_def)
  then obtain vs where "res_map_list (inventory_row sha s) (inventory_files s) = Inr vs" "list_all plain vs"
    using res_map_list_exists [of "inventory_files s" "inventory_row sha s" plain] by blast
  then show ?thesis by (simp add: license_inventory_def inventory_metadata_def)
qed

lemma plain_file_types: "plain (file_types U rel)"
  by (simp add: file_types_def Let_def)

lemma sbom_exists:
  assumes "\<And>p. p \<in> set (sbom_files s) \<Longrightarrow> is_file s p"
  shows "\<exists>v. sbom_document U sha sha1 s = Inr v \<and> plain v"
proof -
  have "\<exists>v. spdx_row U sha sha1 s (i, p) = Inr v \<and> plain v" if "p \<in> set (sbom_files s)" for i p
    using digest_exists [OF assms [OF that], of sha] digest_exists [OF assms [OF that], of sha1]
    by (auto simp: spdx_row_def plain_file_types)
  then have "\<exists>v. spdx_row U sha sha1 s x = Inr v \<and> plain v" if "x \<in> set (enumerate 1 (sbom_files s))" for x
    using that by (cases x) (metis (no_types) in_set_enumerate_eq nth_mem fst_conv snd_conv add_diff_inverse_nat less_diff_conv2 not_less)
  then obtain rows where rows: "res_map_list (spdx_row U sha sha1 s) (enumerate 1 (sbom_files s)) = Inr rows" "list_all plain rows"
    using res_map_list_exists [of "enumerate 1 (sbom_files s)" "spdx_row U sha sha1 s" plain] by blast
  obtain hs where "res_map_list (file_digest sha1 s) (sbom_files s) = Inr hs"
    using res_map_list_exists [of "sbom_files s" "file_digest sha1 s" "\<lambda>_. True"] digest_exists [OF assms] by metis
  then obtain code where code: "verification_code sha1 (sbom_files s) s = Inr code" by (simp add: verification_code_def)
  have t: "plain (tool_package x)" for x by (cases x) (simp add: tool_package_def)
  have r: "plain (relationship i)" for i by (simp add: relationship_def)
  show ?thesis
    unfolding sbom_document_def Let_def rows(1) code res_bind.simps
    using rows(2) by (simp add: project_package_def list_all_iff t r)
qed

section \<open>Steps that succeed\<close>

definition tidy :: "site \<Rightarrow> bool" where
  "tidy s \<longleftrightarrow> (\<forall>p \<in> set generated. \<not> is_file s (tmp_name p))"

lemma canonical_tmp: "p \<in> set generated \<Longrightarrow> canonical_name (tmp_name p) \<and> tmp_name p \<notin> set generated"
  unfolding generated_def list.set by (elim insertE emptyE; hypsubst; code_simp)

lemma tidy_put: "tidy s \<Longrightarrow> p \<in> set generated \<Longrightarrow> tidy (put_file p d s)"
  unfolding tidy_def is_file_def using canonical_tmp path_put by metis

lemma is_file_put: "canonical_name q \<Longrightarrow> is_file s q \<Longrightarrow> is_file (put_file p d s) q"
  by (simp add: is_file_def path_put)

lemma write_ascii_ok:
  "f s = Inr t \<Longrightarrow> list_all (\<lambda>c. (of_char c :: nat) < 128) t \<Longrightarrow> tidy s \<Longrightarrow> p \<in> set generated \<Longrightarrow>
     write_ascii (\<lambda>_. None) p f s = (Inr (), put_file p (ascii t) s)"
  by (simp add: write_ascii_def act_bind_def from_site_def ascii_encode_def atomic_write_def tidy_def)

lemma write_json_ok:
  "f s = Inr v \<Longrightarrow> plain v \<Longrightarrow> tidy s \<Longrightarrow> p \<in> set generated \<Longrightarrow>
     \<exists>d. write_json (\<lambda>_. None) p f s = (Inr (), put_file p d s)"
  by (auto simp: write_json_def act_bind_def from_site_def plain_def atomic_write_def tidy_def)

lemma lower_hex_ascii: "is_lower_hex c \<Longrightarrow> (of_char c :: nat) < 128"
  unfolding is_lower_hex_def list.set by (elim insertE emptyE; hypsubst; code_simp)

lemma manifest_ascii:
  assumes "\<And>p. p \<in> set ps \<Longrightarrow> is_file s (prefix @ p) \<and> list_all (\<lambda>c. (of_char c :: nat) < 128) p" "digest32 sha"
  shows "\<exists>t. manifest_text sha prefix ps s = Inr t \<and> list_all (\<lambda>c. (of_char c :: nat) < 128) t"
proof -
  have "\<exists>r. manifest_row sha s prefix p = Inr r \<and> list_all (\<lambda>c. (of_char c :: nat) < 128) r" if m: "p \<in> set ps" for p
  proof -
    obtain h where h: "file_digest sha s (prefix @ p) = Inr h" using digest_exists [OF conjunct1 [OF assms(1) [OF m]]] by blast
    have "list_all (\<lambda>c. (of_char c :: nat) < 128) h"
      using digest_is_hex [OF assms(2) h] lower_hex_ascii unfolding hex64_def list_all_iff by blast
    then show ?thesis using h assms(1) [OF m] by (simp add: manifest_row_def)
  qed
  then obtain rs where "res_map_list (manifest_row sha s prefix) ps = Inr rs" "list_all (list_all (\<lambda>c. (of_char c :: nat) < 128)) rs"
    using res_map_list_exists [of ps "manifest_row sha s prefix" "list_all (\<lambda>c. (of_char c :: nat) < 128)"] by blast
  then show ?thesis by (simp add: manifest_text_def list_all_iff)
qed

lemma public_is_file: "site_ok t \<Longrightarrow> p \<in> set (all_files E t) \<Longrightarrow> is_file t p"
  using all_files_facts(2) [of t p E] by (metis is_file_def map_of_eq_None_iff path_file_canonical)

lemma prefix_drop: "py_prefix a b \<Longrightarrow> a @ drop (length a) b = b"
  by (induction a b rule: py_prefix.induct) simp_all

lemma experiment_is_file: "site_ok s \<Longrightarrow> p \<in> set (experiment_files s) \<Longrightarrow>
  is_file s (experiments_dir @ p) \<and> experiments_dir @ p \<in> set (map fst (site_files s))"
proof -
  assume ok: "site_ok s" and "p \<in> set (experiment_files s)"
  then obtain q where q: "q \<in> set (map fst (site_files s))" "py_prefix experiments_dir q" "p = drop (length experiments_dir) q"
    by (auto simp: experiment_files_def)
  have e: "experiments_dir @ p = q"
    unfolding q(3) by (rule prefix_drop [OF q(2)])
  have "canonical_name q" using ok q(1) by (simp only: site_ok_def list_all_iff)
  then show ?thesis unfolding e using q(1) by (simp add: is_file_def path_file_canonical map_of_eq_None_iff)
qed

section \<open>The whole run\<close>

definition evidence_paths :: "string list" where
  "evidence_paths = concat (map (\<lambda>spec. fst (snd (snd (snd (snd spec))))) claim_specs)"

lemma evidence_canonical: "list_all canonical_name evidence_paths"
  by code_simp

text \<open>The tree of \<open>s\<close> on the way: nothing left over, every file still there.\<close>

definition on_way :: "site \<Rightarrow> site \<Rightarrow> bool" where
  "on_way s t \<longleftrightarrow> same_tree s t \<and> tidy t \<and> fst ` set (site_files s) \<subseteq> fst ` set (site_files t)"

lemma generated_canonical: "p \<in> set generated \<Longrightarrow> canonical_name p"
  unfolding generated_def list.set by (elim insertE emptyE; hypsubst; rule canonical_generated)

lemma on_way_put:
  assumes "on_way s t" "p \<in> set generated" "p \<in> fst ` set (site_files s) \<or> p \<in> set INDEXES"
  shows "on_way s (put_file p d t)"
proof -
  have "p \<in> fst ` set (site_files t) \<or> p \<in> set INDEXES" using assms(1,3) unfolding on_way_def by blast
  from same_tree_put [OF _ generated_canonical [OF assms(2)] this] show ?thesis
    using assms(1,2) tidy_put names_put unfolding on_way_def by (meson subset_iff)
qed

lemma on_way_files:
  assumes "on_way s t"
  shows "p \<in> set (all_files E t) \<Longrightarrow> is_file t p" "is_file s q \<Longrightarrow> canonical_name q \<Longrightarrow> is_file t q" "tidy t"
  using assms public_is_file [of t p E] same_tree_facts(1) [of s t]
  by (auto simp: on_way_def is_file_def path_file_canonical map_of_eq_None_iff)

lemma step_ascii:
  assumes "on_way s t" "\<exists>x. f t = Inr x \<and> list_all (\<lambda>c. (of_char c :: nat) < 128) x" "p \<in> set generated"
    "p \<in> fst ` set (site_files s) \<or> p \<in> set INDEXES"
  shows "\<exists>t'. write_ascii (\<lambda>_. None) p f t = (Inr (), t') \<and> on_way s t'"
  using assms write_ascii_ok [of f t _ p] on_way_put on_way_files(3) by metis

lemma step_json:
  assumes "on_way s t" "\<exists>v. f t = Inr v \<and> plain v" "p \<in> set generated"
    "p \<in> fst ` set (site_files s) \<or> p \<in> set INDEXES"
  shows "\<exists>t'. write_json (\<lambda>_. None) p f t = (Inr (), t') \<and> on_way s t'"
  using assms write_json_ok [of f t _ p] on_way_put on_way_files(3) by metis

lemma step_plain:
  assumes "on_way s t" "p \<in> set generated" "p \<in> fst ` set (site_files s) \<or> p \<in> set INDEXES"
  shows "\<exists>t'. atomic_write (\<lambda>_. None) p d t = (Inr (), t') \<and> on_way s t'"
  using on_way_put [OF assms] on_way_files(3) [OF assms(1)] assms(2) by (simp add: atomic_write_def tidy_def)

lemma act_seq_on_way:
  assumes "on_way s t" "\<And>a u. a \<in> set as \<Longrightarrow> on_way s u \<Longrightarrow> \<exists>u'. a u = (Inr (), u') \<and> on_way s u'"
  shows "\<exists>t'. act_seq as t = (Inr (), t')"
  using assms
proof (induction as arbitrary: t)
  case (Cons a as)
  obtain u where u: "a t = (Inr (), u)" "on_way s u" using Cons.prems by (meson list.set_intros(1))
  obtain t' where "act_seq as u = (Inr (), t')" using Cons.IH [OF u(2)] Cons.prems(2) by (meson list.set_intros(2))
  then show ?case using u(1) by simp
qed simp

lemma generated_members:
  "''experiments/MANIFEST.sha256'' \<in> set generated" "LEDGER_REL \<in> set generated" "''SBOM.spdx.json'' \<in> set generated"
  "''LICENSE_INVENTORY.json'' \<in> set generated" "''PUBLIC_ALLOWLIST.txt'' \<in> set generated" "''PUBLIC_MANIFEST.sha256'' \<in> set generated"
  by (simp_all add: generated_def)

lemma on_way_ledger:
  assumes "on_way s u" "list_all (is_file s) evidence_paths"
  shows "\<exists>v. claims_ledger sha u = Inr v \<and> plain v"
proof (rule claims_exist)
  fix spec p assume "spec \<in> set claim_specs" "p \<in> set (fst (snd (snd (snd (snd spec)))))"
  then have "p \<in> set evidence_paths" unfolding evidence_paths_def set_concat set_map by blast
  then show "is_file u p" using on_way_files(2) [OF assms(1)] assms(2) evidence_canonical unfolding list_all_iff by blast
qed

lemma on_way_manifest:
  assumes "on_way s u" "site_ok s" "digest32 sha" "list_all (list_all (\<lambda>c. (of_char c :: nat) < 128)) (map fst (site_files s))"
  shows "\<exists>t. manifest_text sha [] (all_files [] s) u = Inr t \<and> list_all (\<lambda>c. (of_char c :: nat) < 128) t"
proof (rule manifest_ascii [OF _ assms(3)], unfold append_Nil)
  fix p assume p: "p \<in> set (all_files [] s)"
  then have "p \<in> set (all_files [] u)" using same_tree_facts(2) assms(1) unfolding on_way_def by metis
  then show "is_file u p \<and> list_all (\<lambda>c. (of_char c :: nat) < 128) p"
    using on_way_files(1) [OF assms(1)] all_files_facts(2) [OF assms(2) p] assms(4) by (auto simp: list_all_iff)
qed

lemma experiment_manifest_ascii:
  assumes ok: "site_ok s" and sha: "digest32 sha" and asc: "list_all (list_all (\<lambda>c. (of_char c :: nat) < 128)) (map fst (site_files s))"
  shows "\<exists>t. manifest_text sha experiments_dir (experiment_files s) s = Inr t \<and> list_all (\<lambda>c. (of_char c :: nat) < 128) t"
proof (rule manifest_ascii [OF _ sha])
  fix p assume "p \<in> set (experiment_files s)"
  from experiment_is_file [OF ok this] show "is_file s (experiments_dir @ p) \<and> list_all (\<lambda>c. (of_char c :: nat) < 128) p"
    using asc unfolding list_all_iff by (metis UnCI set_append)
qed

lemma on_way_writes:
  assumes a: "a \<in> set (tl (rebuild_writes U sha sha1 (\<lambda>_. None) b (all_files [] s)))" and u: "on_way s u"
    and ok: "site_ok s" and sha: "digest32 sha" and ev: "list_all (is_file s) evidence_paths"
    and asc: "list_all (list_all (\<lambda>c. (of_char c :: nat) < 128)) (map fst (site_files s))"
    and in_s: "LEDGER_REL \<in> fst ` set (site_files s)"
      "''SBOM.spdx.json'' \<in> fst ` set (site_files s)" "''LICENSE_INVENTORY.json'' \<in> fst ` set (site_files s)"
  shows "\<exists>u'. a u = (Inr (), u') \<and> on_way s u'"
proof -
  note idx = index_members [where E = "[]", unfolded append_Nil2]
  have files: "is_file u p" if "p \<in> set (all_files E u)" for p E using on_way_files(1) [OF u] that by blast
  consider "a = write_json (\<lambda>_. None) LEDGER_REL (claims_ledger sha)"
    | "a = write_json (\<lambda>_. None) ''SBOM.spdx.json'' (sbom_document U sha sha1)"
    | "a = write_json (\<lambda>_. None) ''LICENSE_INVENTORY.json'' (license_inventory sha)"
    | "a = atomic_write (\<lambda>_. None) ''PUBLIC_ALLOWLIST.txt'' (utf8_encode (lit (joined_lines (all_files [] s))))"
    | "a = write_ascii (\<lambda>_. None) ''PUBLIC_MANIFEST.sha256'' (manifest_text sha [] (all_files [] s))"
    using a unfolding rebuild_writes_def by (cases b) (simp_all, blast+)
  then show ?thesis
  proof cases
    case 1
    show ?thesis unfolding 1 by (rule step_json [where f = "claims_ledger sha", OF u on_way_ledger [OF u ev] generated_members(2) disjI1 [OF in_s(1)]])
  next
    case 2
    show ?thesis unfolding 2
      by (rule step_json [where f = "sbom_document U sha sha1", OF u sbom_exists generated_members(3) disjI1 [OF in_s(2)]]) (unfold sbom_files_def, rule files)
  next
    case 3
    show ?thesis unfolding 3
      by (rule step_json [where f = "license_inventory sha", OF u inventory_exists generated_members(4) disjI1 [OF in_s(3)]]) (unfold inventory_files_def, rule files)
  next
    case 4
    show ?thesis unfolding 4 by (rule step_plain [OF u generated_members(5) disjI2 [OF idx(1)]])
  next
    case 5
    show ?thesis unfolding 5
      by (rule step_ascii [where f = "manifest_text sha [] (all_files [] s)", OF u on_way_manifest [OF u ok sha asc] generated_members(6) disjI2 [OF idx(2)]])
  qed
qed

theorem rebuild_completes:
  assumes sha: "digest32 sha" and rel: "releasable U s" and m: "membership_check U sha ra s = Inr ps"
    and ev: "list_all (is_file s) evidence_paths" and tidy: "tidy s"
    and asc: "list_all (list_all (\<lambda>c. (of_char c :: nat) < 128)) (map fst (site_files s))"
  shows "\<exists>s'. rebuild U sha sha1 (\<lambda>_. None) ra s = (Inr (), s')"
proof -
  have ps: "ps = all_files [] s" by (rule membership_Inr(1) [OF m])
  have ok: "site_ok s" using rel by (simp add: releasable_def)
  then have start: "on_way s s" using tidy by (simp add: on_way_def same_tree_def)
  have in_s: "''experiments/MANIFEST.sha256'' \<in> fst ` set (site_files s)" "LEDGER_REL \<in> fst ` set (site_files s)"
      "''SBOM.spdx.json'' \<in> fst ` set (site_files s)" "''LICENSE_INVENTORY.json'' \<in> fst ` set (site_files s)"
    using rel unfolding releasable_def by blast+
  obtain s1 where first: "write_ascii (\<lambda>_. None) ''experiments/MANIFEST.sha256''
        (\<lambda>s. manifest_text sha experiments_dir (experiment_files s) s) s = (Inr (), s1)" and s1: "on_way s s1"
    using step_ascii [where f = "\<lambda>s. manifest_text sha experiments_dir (experiment_files s) s",
        OF start experiment_manifest_ascii [OF ok sha asc] generated_members(1) disjI1 [OF in_s(1)]] by blast
  have "\<exists>s'. act_seq (tl (rebuild_writes U sha sha1 (\<lambda>_. None) (adopt ra \<noteq> None) (all_files [] s))) s1 = (Inr (), s')"
    by (rule act_seq_on_way [OF s1]) (rule on_way_writes [OF _ _ ok sha ev asc in_s(2-4)])
  then obtain s' where "act_seq (tl (rebuild_writes U sha sha1 (\<lambda>_. None) (adopt ra \<noteq> None) ps)) s1 = (Inr (), s')"
    unfolding ps by blast
  then have "act_seq (rebuild_writes U sha sha1 (\<lambda>_. None) (adopt ra \<noteq> None) ps) s = (Inr (), s')"
    using first unfolding rebuild_writes_def append_Cons list.sel act_seq_Cons_Inr by blast
  then show ?thesis by (simp add: rebuild_def act_bind_def from_site_def m)
qed

end
