(* ===== verification/Claim_Props.thy ===== *)
theory Claim_Props
  imports Claim_Schema Rebuild_Live
begin

text \<open>
  The schema validator: how deep its calls go, what the claim schema accepts, its self-test; and the claims
  ledger that the rebuild writes.
\<close>

section \<open>Depth of the calls\<close>

text \<open>The schemas of the nested calls, and the schemas whose calls end after n levels whatever the value.\<close>

definition node_schemas :: "(string \<times> pyval) list \<Rightarrow> pyval list" where
  "node_schemas s = (if dict_get (map_of s) ''items'' = VNone then [] else [dict_get (map_of s) ''items''])
     @ map snd (schema_properties s)"

definition called_schemas :: "pyval \<Rightarrow> pyval \<Rightarrow> pyval list" where
  "called_schemas whole schema = (case schema of
     VDict s \<Rightarrow> (case map_of s ''$ref'' of
         Some reference \<Rightarrow> (case reference_target whole reference of None \<Rightarrow> [] | Some target \<Rightarrow> [target])
       | None \<Rightarrow> node_schemas s)
   | _ \<Rightarrow> [])"

fun ends_within :: "nat \<Rightarrow> pyval \<Rightarrow> pyval \<Rightarrow> bool" where
  "ends_within 0 whole schema = False"
| "ends_within (Suc n) whole schema = list_all (ends_within n whole) (called_schemas whole schema)"

lemma res_map_list_not: "(\<And>x. x \<in> set xs \<Longrightarrow> f x \<noteq> Inl e) \<Longrightarrow> res_map_list f xs \<noteq> Inl e"
proof (induction xs)
  case (Cons x xs)
  have "f x \<noteq> Inl e" "res_map_list f xs \<noteq> Inl e" using Cons by simp_all
  then show ?case by (cases "f x"; cases "res_map_list f xs") auto
qed simp

lemma res_bind_not: "r \<noteq> Inl e \<Longrightarrow> (\<And>x. k x \<noteq> Inl e) \<Longrightarrow> res_bind r k \<noteq> Inl e"
  by (cases r) auto

lemma res_map_not: "r \<noteq> Inl e \<Longrightarrow> res_map k r \<noteq> Inl e"
  by (cases r) auto

lemma errors_no_recursion:
  "enum_errors s v loc \<noteq> Inl RecursionError"
  "(\<And>p t. re p t \<noteq> Inl RecursionError) \<Longrightarrow> text_errors re s v loc \<noteq> Inl RecursionError"
proof -
  have m: "py_member v w \<noteq> Inl RecursionError" for w by (cases w; cases v) simp_all
  then show "enum_errors s v loc \<noteq> Inl RecursionError" by (auto simp: enum_errors_def res_map_not split: option.splits)
  assume "\<And>p t. re p t \<noteq> Inl RecursionError"
  then have "re_search re p t \<noteq> Inl RecursionError" for p t by (simp add: re_search_def split: option.splits)
  then show "text_errors re s v loc \<noteq> Inl RecursionError"
    by (auto simp: text_errors_def Let_def res_map_not split: pyval.splits)
qed

lemma node_errors_cong:
  assumes "\<And>w t l. t \<in> set (node_schemas s) \<Longrightarrow> below w t l = below' w t l"
  shows "node_errors below re s v loc = node_errors below' re s v loc"
proof -
  have "item_errors below (dict_get (map_of s) ''items'') vs l = item_errors below' (dict_get (map_of s) ''items'') vs l" for vs l
    using assms by (auto simp: item_errors_def node_schemas_def)
  moreover have "member_errors below (schema_properties s) kvs l = member_errors below' (schema_properties s) kvs l" for kvs l
    unfolding member_errors_def
    by (rule arg_cong [where f = "res_map concat"], rule res_map_list_cong)
      (use assms in \<open>force simp: node_schemas_def split: option.splits\<close>)+
  ultimately show ?thesis unfolding node_errors_def Let_def by (simp only:)
qed

lemma node_errors_not:
  assumes "\<And>w t l. t \<in> set (node_schemas s) \<Longrightarrow> below w t l \<noteq> Inl RecursionError"
    and "\<And>p t. re p t \<noteq> Inl RecursionError"
  shows "node_errors below re s v loc \<noteq> Inl RecursionError"
proof -
  have i: "item_errors below (dict_get (map_of s) ''items'') vs l \<noteq> Inl RecursionError" for vs l
    unfolding item_errors_def
    using assms(1) by (auto simp: node_schemas_def intro!: res_map_not res_map_list_not)
  have m: "member_errors below (schema_properties s) kvs l \<noteq> Inl RecursionError" for kvs l
    unfolding member_errors_def
    by (rule res_map_not, rule res_map_list_not) (use assms(1) in \<open>force simp: node_schemas_def split: option.splits\<close>)
  have "(case v of
            VList vs \<Rightarrow> res_map ((@) (note_if (below_minimum (length vs) (dict_get (map_of s) ''minItems'')) (loc @ '': array shorter than minItems'')))
                (item_errors below (dict_get (map_of s) ''items'') vs loc)
          | VDict kvs \<Rightarrow> res_map ((@) (required_errors s kvs loc @ additional_errors s kvs loc))
                (member_errors below (schema_properties s) kvs loc)
          | _ \<Rightarrow> Inr []) \<noteq> Inl RecursionError"
    using i m by (cases v) (simp_all add: res_map_not)
  note members = res_map_not [OF this]
  have "(if b then Inr x else y) \<noteq> Inl RecursionError" if "y \<noteq> Inl RecursionError" for b and x :: "string list" and y
    using that by simp
  then show ?thesis
    unfolding node_errors_def Let_def
    by (elim meta_allE) (erule meta_mp, rule res_bind_not [OF errors_no_recursion(1)],
      rule res_bind_not [OF errors_no_recursion(2) [of re, OF assms(2)]], rule members)
qed

lemma violations_limit:
  "ends_within n whole schema \<Longrightarrow> n \<le> limit \<Longrightarrow>
     json_schema_violations limit re whole v schema loc = json_schema_violations n re whole v schema loc"
proof (induction n arbitrary: limit v schema loc)
  case (Suc n)
  obtain l where l: "limit = Suc l" "n \<le> l" using Suc.prems(2) by (cases limit) auto
  have c: "json_schema_violations l re whole w t loc' = json_schema_violations n re whole w t loc'"
    if "t \<in> set (called_schemas whole schema)" for w t loc'
    using Suc.IH [OF _ l(2)] Suc.prems(1) that by (simp add: list_all_iff)
  show ?case
  proof (cases schema)
    case (VDict s)
    show ?thesis
    proof (cases "map_of s ''$ref''")
      case None
      have "node_errors (\<lambda>w t l'. json_schema_violations l re whole w t l') re s v loc
          = node_errors (\<lambda>w t l'. json_schema_violations n re whole w t l') re s v loc"
        by (rule node_errors_cong, rule c) (simp add: called_schemas_def VDict None)
      then show ?thesis unfolding l(1) VDict json_schema_violations.simps pyval.case None option.case .
    next
      case (Some reference)
      then show ?thesis using c unfolding l(1) VDict by (auto simp: called_schemas_def split: option.splits)
    qed
  qed (simp_all add: l(1))
qed simp

lemma violations_end:
  assumes "\<And>p t. re p t \<noteq> Inl RecursionError"
  shows "ends_within n whole schema \<Longrightarrow> json_schema_violations n re whole v schema loc \<noteq> Inl RecursionError"
proof (induction n arbitrary: v schema loc)
  case (Suc n)
  have c: "json_schema_violations n re whole w t loc' \<noteq> Inl RecursionError"
    if "t \<in> set (called_schemas whole schema)" for w t loc'
    using Suc.IH Suc.prems that by (simp add: list_all_iff)
  show ?case
  proof (cases schema)
    case (VDict s)
    show ?thesis
    proof (cases "map_of s ''$ref''")
      case None
      show ?thesis unfolding VDict json_schema_violations.simps pyval.case None option.case
        by (rule node_errors_not [OF _ assms], rule c) (simp add: called_schemas_def VDict None)
    next
      case (Some reference)
      then show ?thesis using c unfolding VDict by (auto simp: called_schemas_def split: option.splits)
    qed
  qed simp_all
qed simp

lemma claim_schema_ends: "ends_within 5 claim_schema claim_schema"
  by code_simp

section \<open>What a node accepts\<close>

lemma res_map_Nil: "res_map f r = Inr [] \<longleftrightarrow> (\<exists>x. r = Inr x \<and> f x = [])"
  by (cases r) auto

lemma res_map_concat_Nil: "res_map concat (res_map_list f xs) = Inr [] \<longleftrightarrow> (\<forall>x \<in> set xs. f x = Inr [])"
proof (induction xs)
  case (Cons x xs)
  then show ?case by (cases "f x"; cases "res_map_list f xs") (auto simp: list_all_iff)
qed simp

lemma member_errors_clean:
  "member_errors below ps kvs loc = Inr [] \<longleftrightarrow>
     (\<forall>(f, child) \<in> set ps. case map_of kvs f of None \<Rightarrow> True | Some w \<Rightarrow> below w child (loc @ ''.'' @ f) = Inr [])"
  unfolding member_errors_def res_map_concat_Nil by (intro ball_cong) (auto split: option.splits)

lemma object_clean:
  assumes "dict_get (map_of s) ''type'' = VStr ''object''" "map_of s ''enum'' = None" "map_of s ''properties'' = Some (VDict ps)"
    and "dict_get (map_of s) ''additionalProperties'' = VBool False" "map_of s ''required'' = Some (VList (map VStr fs))"
    and fs: "set fs = fst ` set ps"
  shows "node_errors below re s v loc = Inr [] \<longleftrightarrow> (\<exists>kvs. v = VDict kvs \<and> fst ` set kvs = set fs
    \<and> (\<forall>(f, child) \<in> set ps. below (dict_get (map_of kvs) f) child (loc @ ''.'' @ f) = Inr []))"
proof (cases v)
  case (VDict kvs)
  have p: "schema_properties s = ps" by (simp add: schema_properties_def assms(3))
  have r: "required_errors s kvs loc = [] \<longleftrightarrow> set fs \<subseteq> fst ` set kvs"
    by (auto simp: required_errors_def assms(5) map_of_eq_None_iff comp_def)
  have a: "additional_errors s kvs loc = [] \<longleftrightarrow> fst ` set kvs \<subseteq> set fs"
    by (force simp: additional_errors_def assms(3,4) p fs map_of_eq_None_iff)
  have m: "member_errors below ps kvs loc = Inr [] \<longleftrightarrow> (\<forall>(f, child) \<in> set ps. below (dict_get (map_of kvs) f) child (loc @ ''.'' @ f) = Inr [])"
    if k: "fst ` set kvs = set fs"
  proof -
    have "\<exists>w. map_of kvs f = Some w" if "(f, child) \<in> set ps" for f child
      using that k fs map_of_eq_None_iff [of kvs f] by force
    then show ?thesis unfolding member_errors_clean by (intro ball_cong) (force simp: dict_get_def split: option.splits)+
  qed
  have "node_errors below re s v loc = Inr [] \<longleftrightarrow> fst ` set kvs = set fs \<and> member_errors below ps kvs loc = Inr []"
    unfolding node_errors_def Let_def VDict assms(1)
    by (simp add: enum_errors_def assms(2) text_errors_def p res_map_Nil) (use r a in blast)
  then show ?thesis using m VDict by auto
qed (simp_all add: node_errors_def assms(1) Let_def)

lemma array_clean:
  assumes "dict_get (map_of s) ''type'' = VStr ''array''" "map_of s ''enum'' = None"
    and "dict_get (map_of s) ''minItems'' = VInt 1" "dict_get (map_of s) ''items'' = child" "child \<noteq> VNone"
  shows "node_errors below re s v loc = Inr [] \<longleftrightarrow> (\<exists>vs. v = VList vs \<and> vs \<noteq> []
    \<and> (\<forall>i < length vs. below (vs ! i) child (loc @ ''['' @ str_nat i @ '']'') = Inr []))"
proof (cases v)
  case (VList vs)
  have "item_errors below child vs loc = Inr [] \<longleftrightarrow> (\<forall>i < length vs. below (vs ! i) child (loc @ ''['' @ str_nat i @ '']'') = Inr [])"
  proof -
    have "set (enumerate 0 vs) = (\<lambda>i. (i, vs ! i)) ` {..<length vs}" by (force simp: in_set_enumerate_eq)
    then show ?thesis using assms(5) unfolding item_errors_def by (simp add: res_map_concat_Nil lessThan_def)
  qed
  then show ?thesis unfolding node_errors_def Let_def VList assms(1,3,4)
    by (auto simp: enum_errors_def assms(2) text_errors_def res_map_Nil Suc_le_eq)
qed (simp_all add: node_errors_def assms(1) Let_def)

lemma text_clean:
  assumes "dict_get (map_of s) ''type'' = VStr ''string''" "map_of s ''enum'' = None"
  shows "node_errors below re s v loc = Inr [] \<longleftrightarrow> (\<exists>t. v = VStr t \<and> \<not> below_minimum (length t) (dict_get (map_of s) ''minLength'')
    \<and> (case dict_get (map_of s) ''pattern'' of VStr p \<Rightarrow> re_search re p t = Inr True | _ \<Rightarrow> True))"
proof (cases v)
  case (VStr t)
  then show ?thesis unfolding node_errors_def Let_def assms(1)
    by (cases "dict_get (map_of s) ''pattern''")
      (auto simp: enum_errors_def assms(2) text_errors_def Let_def res_map_Nil res_bind_Inr_iff note_if_def)
qed (simp_all add: node_errors_def assms(1) Let_def)

section \<open>What the claim schema accepts\<close>

definition nonempty_text :: "pyval \<Rightarrow> bool" where
  "nonempty_text v \<longleftrightarrow> (\<exists>t. v = VStr t \<and> t \<noteq> [])"

text \<open>Of a pattern that ends in \<open>$\<close> a newline at the end is left over.\<close>

definition up_to_newline :: "(string \<Rightarrow> bool) \<Rightarrow> pyval \<Rightarrow> bool" where
  "up_to_newline P v \<longleftrightarrow> (\<exists>t. P t \<and> (v = VStr t \<or> v = VStr (t @ [CHR 0x0A])))"

definition claim_number :: "string \<Rightarrow> bool" where
  "claim_number t \<longleftrightarrow> (\<exists>ds. t = ''CL-'' @ ds \<and> length ds = 3 \<and> list_all is_digit ds)"

definition well_formed_evidence :: "pyval \<Rightarrow> bool" where
  "well_formed_evidence v \<longleftrightarrow> (\<exists>kvs. v = VDict kvs \<and> fst ` set kvs = {''path'', ''sha256''}
     \<and> nonempty_text (dict_get (map_of kvs) ''path'') \<and> up_to_newline hex64 (dict_get (map_of kvs) ''sha256''))"

definition confidences :: "string list" where
  "confidences = [''DEFINITION'', ''IMPLEMENTED_AND_TESTED_LOCAL'', ''VERIFIED_HISTORICAL_AUDIT'', ''PINNED_EVIDENCE'',
     ''BOUNDED_INFERENCE'', ''INTERNAL_METHOD_REEXECUTION'', ''LOCAL_DETERMINISTIC_NEGATIVE'', ''BOUNDED_DIAGNOSTIC'']"

definition well_formed_claim :: "pyval \<Rightarrow> bool" where
  "well_formed_claim v \<longleftrightarrow> (\<exists>kvs. v = VDict kvs
     \<and> fst ` set kvs = {''id'', ''wording'', ''evidence'', ''scope'', ''exclusions'', ''confidence''}
     \<and> (let get = dict_get (map_of kvs) in
         up_to_newline claim_number (get ''id'') \<and> nonempty_text (get ''wording'')
         \<and> (\<exists>es. get ''evidence'' = VList es \<and> es \<noteq> [] \<and> list_all well_formed_evidence es)
         \<and> nonempty_text (get ''scope'')
         \<and> (\<exists>xs. get ''exclusions'' = VList xs \<and> xs \<noteq> [] \<and> list_all is_text xs)
         \<and> get ''confidence'' \<in> VStr ` set confidences))"

text \<open>The members of a class, one by one.\<close>

definition class_chars :: "char_class \<Rightarrow> char list" where
  "class_chars k = concat (map (\<lambda>(a, b). map char_of [of_char a ..< Suc (of_char b :: nat)]) k)"

lemma in_class_chars: "in_class k c \<longleftrightarrow> c \<in> set (class_chars k)"
proof -
  have "c \<in> set (map char_of [of_char a ..< Suc (of_char b :: nat)]) \<longleftrightarrow> (of_char a :: nat) \<le> of_char c \<and> (of_char c :: nat) \<le> of_char b"
    for a b
  proof
    assume "c \<in> set (map char_of [of_char a ..< Suc (of_char b :: nat)])"
    then obtain n where n: "c = char_of n" "(of_char a :: nat) \<le> n" "n \<le> of_char b" by auto
    moreover have "n mod 256 = n" by (rule mod_less, rule le_less_trans [OF n(3) of_char_lt_256])
    ultimately show "(of_char a :: nat) \<le> of_char c \<and> (of_char c :: nat) \<le> of_char b" by simp
  next
    assume "(of_char a :: nat) \<le> of_char c \<and> (of_char c :: nat) \<le> of_char b"
    then have "(of_char c :: nat) \<in> set [of_char a ..< Suc (of_char b :: nat)]" unfolding set_upt atLeastLessThan_iff by linarith
    then show "c \<in> set (map char_of [of_char a ..< Suc (of_char b :: nat)])" by (metis char_of_char image_eqI set_map)
  qed
  then show ?thesis by (auto simp: in_class_def class_chars_def list_ex_iff)
qed

lemma classes:
  "class_chars [(CHR ''0'', CHR ''9'')] = ''0123456789''" "class_chars [(CHR ''0'', CHR ''9''), (CHR ''a'', CHR ''f'')] = ''0123456789abcdef''"
  "class_chars [(CHR ''C'', CHR ''C'')] = ''C''" "class_chars [(CHR ''L'', CHR ''L'')] = ''L''" "class_chars [(CHR ''-'', CHR ''-'')] = ''-''"
  by code_simp+

lemma in_class_digit: "in_class [(CHR ''0'', CHR ''9'')] c \<longleftrightarrow> is_digit c"
  unfolding in_class_chars classes is_digit_def ..

lemma in_class_hex: "in_class [(CHR ''0'', CHR ''9''), (CHR ''a'', CHR ''f'')] c \<longleftrightarrow> is_lower_hex c"
  unfolding in_class_chars classes is_lower_hex_def ..

lemma fixed_search:
  assumes "fixed_pattern p = Some ks" and "\<And>t. length t = length ks \<Longrightarrow> list_all2 in_class ks t \<longleftrightarrow> P t"
    and "\<And>t. P t \<Longrightarrow> length t = length ks"
  shows "re_search re p t = Inr True \<longleftrightarrow> up_to_newline P (VStr t)"
proof -
  have "length ks \<le> length t \<and> list_all2 in_class ks (take (length ks) t) \<and> drop (length ks) t \<in> {[], [CHR 0x0A]} \<longleftrightarrow> up_to_newline P (VStr t)"
  proof
    assume h: "length ks \<le> length t \<and> list_all2 in_class ks (take (length ks) t) \<and> drop (length ks) t \<in> {[], [CHR 0x0A]}"
    then have "P (take (length ks) t)" using assms(2) [of "take (length ks) t"] by simp
    moreover have "t = take (length ks) t \<or> t = take (length ks) t @ [CHR 0x0A]"
      using h append_take_drop_id [of "length ks" t] by (metis append_Nil2 insertE singletonD)
    ultimately show "up_to_newline P (VStr t)" unfolding up_to_newline_def by metis
  next
    assume "up_to_newline P (VStr t)"
    then obtain t' where "P t'" "t = t' \<or> t = t' @ [CHR 0x0A]" by (auto simp: up_to_newline_def)
    then show "length ks \<le> length t \<and> list_all2 in_class ks (take (length ks) t) \<and> drop (length ks) t \<in> {[], [CHR 0x0A]}"
      using assms(2,3) [of t'] by auto
  qed
  then show ?thesis by (simp add: re_search_def assms(1))
qed

lemma list_all2_replicate: "length t = n \<Longrightarrow> list_all2 R (replicate n k) t \<longleftrightarrow> list_all (R k) t"
  by (induction t arbitrary: n) auto

lemma search_digest: "re_search re ''^[0-9a-f]{64}$'' t = Inr True \<longleftrightarrow> up_to_newline hex64 (VStr t)"
  by (rule fixed_search [OF claim_patterns(2)])
    (auto simp: hex64_def list_all2_replicate in_class_hex [abs_def])

lemma search_claim: "re_search re ''^CL-[0-9]{3}$'' t = Inr True \<longleftrightarrow> up_to_newline claim_number (VStr t)"
proof (rule fixed_search [OF claim_patterns(1)])
  fix t :: string
  assume l: "length t = length (map (\<lambda>c. [(c, c)]) ''CL-'' @ replicate 3 [(CHR ''0'', CHR ''9'')])"
  have "list_all2 in_class (map (\<lambda>c. [(c, c)]) ''CL-'' @ replicate 3 [(CHR ''0'', CHR ''9'')]) t \<longleftrightarrow>
      (\<exists>ds. t = ''CL-'' @ ds \<and> list_all2 in_class (replicate 3 [(CHR ''0'', CHR ''9'')]) ds)"
    by (auto simp: list_all2_append1 list_all2_Cons1 in_class_chars classes)
  also have "\<dots> \<longleftrightarrow> claim_number t"
    using l by (auto simp: claim_number_def list_all2_replicate in_class_digit [abs_def])
  finally show "list_all2 in_class (map (\<lambda>c. [(c, c)]) ''CL-'' @ replicate 3 [(CHR ''0'', CHR ''9'')]) t \<longleftrightarrow> claim_number t" .
qed (auto simp: claim_number_def)

lemma violations_dict:
  "map_of s ''$ref'' = None \<Longrightarrow> json_schema_violations (Suc n) re whole v (VDict s) loc =
     node_errors (\<lambda>w child l. json_schema_violations n re whole w child l) re s v loc"
  by simp

lemma nonempty_text_schema:
  "json_schema_violations (Suc n) re whole v (VDict [(''type'', VStr ''string''), (''minLength'', VInt 1)]) loc = Inr [] \<longleftrightarrow> nonempty_text v"
  by (simp add: violations_dict text_clean dict_get_def nonempty_text_def Suc_le_eq del: json_schema_violations.simps)

lemma text_schema:
  "json_schema_violations (Suc n) re whole v (VDict [(''type'', VStr ''string'')]) loc = Inr [] \<longleftrightarrow> is_text v"
  by (cases v) (simp_all add: violations_dict text_clean dict_get_def del: json_schema_violations.simps)

lemma pattern_schema:
  assumes "\<And>t. re_search re p t = Inr True \<longleftrightarrow> up_to_newline P (VStr t)"
  shows "json_schema_violations (Suc n) re whole v (VDict [(''type'', VStr ''string''), (''pattern'', VStr p)]) loc = Inr [] \<longleftrightarrow> up_to_newline P v"
  using assms by (cases v) (simp_all add: violations_dict text_clean dict_get_def up_to_newline_def del: json_schema_violations.simps)

lemma enum_schema:
  "json_schema_violations (Suc n) re whole v (VDict [(''enum'', VList (map VStr cs))]) loc = Inr [] \<longleftrightarrow> v \<in> VStr ` set cs"
proof -
  have "list_ex (py_eq v) (map VStr cs) \<longleftrightarrow> v \<in> VStr ` set cs" by (auto simp: list_ex_iff py_eq_text)
  moreover have "node_errors below re [(''enum'', VList (map VStr cs))] v loc = Inr [] \<longleftrightarrow> list_ex (py_eq v) (map VStr cs)" for below
    by (cases v) (auto simp: node_errors_def dict_get_def enum_errors_def text_errors_def Let_def note_if_def item_errors_def
        member_errors_def required_errors_def additional_errors_def schema_properties_def)
  ultimately show ?thesis by (simp add: violations_dict del: json_schema_violations.simps)
qed

definition evidence_schema :: pyval where
  "evidence_schema = VDict
        [(''type'', VStr ''object''), (''required'', VList [VStr ''path'', VStr ''sha256'']),
         (''properties'', VDict
           [(''path'', VDict [(''type'', VStr ''string''), (''minLength'', VInt 1)]),
            (''sha256'', VDict [(''type'', VStr ''string''), (''pattern'', VStr ''^[0-9a-f]{64}$'')])]),
         (''additionalProperties'', VBool False)]"

lemma evidence_target: "reference_target claim_schema (VStr ''#/$defs/evidence'') = Some evidence_schema"
  by code_simp

lemma evidence_schema_exact:
  "json_schema_violations (Suc (Suc n)) re whole v evidence_schema loc = Inr [] \<longleftrightarrow> well_formed_evidence v"
  unfolding evidence_schema_def
  by (subst violations_dict, simp, subst object_clean [where fs = "[''path'', ''sha256'']"
      and ps = "[(''path'', VDict [(''type'', VStr ''string''), (''minLength'', VInt 1)]),
            (''sha256'', VDict [(''type'', VStr ''string''), (''pattern'', VStr ''^[0-9a-f]{64}$'')])]"])
    (simp_all add: dict_get_def [of _ "''type''"] dict_get_def [of _ "''additionalProperties''"] nonempty_text_schema
      pattern_schema [OF search_digest] well_formed_evidence_def list.set del: json_schema_violations.simps)

lemma evidence_items:
  "json_schema_violations (Suc (Suc (Suc (Suc n)))) re claim_schema v (VDict [(''type'', VStr ''array''), (''minItems'', VInt 1),
      (''items'', VDict [(''$ref'', VStr ''#/$defs/evidence'')])]) loc = Inr [] \<longleftrightarrow>
    (\<exists>es. v = VList es \<and> es \<noteq> [] \<and> list_all well_formed_evidence es)"
proof -
  have "json_schema_violations (Suc (Suc (Suc n))) re claim_schema w (VDict [(''$ref'', VStr ''#/$defs/evidence'')]) l = Inr []
      \<longleftrightarrow> well_formed_evidence w" for w l
    using evidence_schema_exact [of n re claim_schema w l] by (simp add: evidence_target)
  then show ?thesis
    by (subst violations_dict, simp, subst array_clean [where child = "VDict [(''$ref'', VStr ''#/$defs/evidence'')]"])
      (simp_all add: dict_get_def list_all_length del: json_schema_violations.simps)
qed

lemma exclusion_items:
  "json_schema_violations (Suc (Suc n)) re whole v (VDict [(''type'', VStr ''array''), (''minItems'', VInt 1),
      (''items'', VDict [(''type'', VStr ''string'')])]) loc = Inr [] \<longleftrightarrow> (\<exists>xs. v = VList xs \<and> xs \<noteq> [] \<and> list_all is_text xs)"
  by (subst violations_dict, simp, subst array_clean [where child = "VDict [(''type'', VStr ''string'')]"])
    (simp_all add: dict_get_def [of _ "''type''"] dict_get_def [of _ "''minItems''"] dict_get_def [of _ "''items''"] list_all_length
      text_schema del: json_schema_violations.simps)

lemma claim_schema_exact:
  "json_schema_violations (Suc (Suc (Suc (Suc (Suc n))))) re claim_schema v claim_schema loc = Inr [] \<longleftrightarrow> well_formed_claim v"
proof -
  let ?jsv = "\<lambda>w child l. json_schema_violations (Suc (Suc (Suc (Suc n)))) re claim_schema w child l"
  define ps where "ps =
        [(''id'', VDict [(''type'', VStr ''string''), (''pattern'', VStr ''^CL-[0-9]{3}$'')]),
         (''wording'', VDict [(''type'', VStr ''string''), (''minLength'', VInt 1)]),
         (''evidence'', VDict [(''type'', VStr ''array''), (''minItems'', VInt 1),
            (''items'', VDict [(''$ref'', VStr ''#/$defs/evidence'')])]),
         (''scope'', VDict [(''type'', VStr ''string''), (''minLength'', VInt 1)]),
         (''exclusions'', VDict [(''type'', VStr ''array''), (''minItems'', VInt 1),
            (''items'', VDict [(''type'', VStr ''string'')])]),
         (''confidence'', VDict [(''enum'', VList (map VStr confidences))])]"
  obtain s where s: "claim_schema = VDict s" and t: "dict_get (map_of s) ''type'' = VStr ''object''" "map_of s ''enum'' = None"
      "map_of s ''$ref'' = None" "map_of s ''properties'' = Some (VDict ps)" "dict_get (map_of s) ''additionalProperties'' = VBool False"
      "map_of s ''required'' = Some (VList (map VStr [''id'', ''wording'', ''evidence'', ''scope'', ''exclusions'', ''confidence'']))"
    by (rule that [unfolded claim_schema_def, OF refl]) (simp_all add: dict_get_def ps_def confidences_def)
  have fs: "set [''id'', ''wording'', ''evidence'', ''scope'', ''exclusions'', ''confidence''] = fst ` set ps"
    by (simp add: ps_def)
  have A: "json_schema_violations (Suc (Suc (Suc (Suc (Suc n))))) re claim_schema v claim_schema loc
      = node_errors ?jsv re s v loc"
    by (subst (2) s, rule violations_dict [OF t(3)])
  have B: "node_errors ?jsv re s v loc = Inr [] \<longleftrightarrow> (\<exists>kvs. v = VDict kvs
      \<and> fst ` set kvs = set [''id'', ''wording'', ''evidence'', ''scope'', ''exclusions'', ''confidence'']
      \<and> (\<forall>(f, child) \<in> set ps. ?jsv (dict_get (map_of kvs) f) child (loc @ ''.'' @ f) = Inr []))"
    by (rule object_clean [OF t(1,2,4,5,6) fs])
  have C: "(\<exists>kvs. v = VDict kvs
      \<and> fst ` set kvs = set [''id'', ''wording'', ''evidence'', ''scope'', ''exclusions'', ''confidence'']
      \<and> (\<forall>(f, child) \<in> set ps. ?jsv (dict_get (map_of kvs) f) child (loc @ ''.'' @ f) = Inr [])) \<longleftrightarrow> well_formed_claim v"
    unfolding well_formed_claim_def Let_def ps_def
    by (simp only: list.set ball_simps prod.case simp_thms pattern_schema [OF search_claim] nonempty_text_schema evidence_items
        exclusion_items enum_schema)
  show ?thesis unfolding A B by (rule C)
qed

section \<open>The self-test\<close>

lemma fixture_accepted: "json_schema_violations 5 re claim_schema (VDict valid_fixture) claim_schema loc = Inr []"
  by code_simp

lemma mutants_rejected:
  "res_map_list (\<lambda>(index, m). res_map (\<lambda>vs. note_if (vs = [])
           (''claim schema validator accepted invalid self-test mutant '' @ str_nat index))
         (json_schema_violations 5 re claim_schema (VDict m) claim_schema (''self-test.mutant['' @ str_nat index @ '']'')))
         (enumerate 1 mutant_fixtures) = Inr (replicate 5 [])"
  by code_simp

end
