(* ===== verification/Claim_Ledger.thy ===== *)
theory Claim_Ledger
  imports Claim_Props
begin

text \<open>
  Documents as they read back: with the members of every dict in the order of their names.  The claims
  ledger that the rebuild writes passes the section on it.
\<close>

section \<open>Documents read back\<close>

lemma map_prod_pair: "map_prod id f = (\<lambda>x. (fst x, f (snd x)))"
  by (auto simp: map_prod_def)

lemmas sort_key_pairs = sort_key_map_prod [unfolded map_prod_pair]

fun sort_dicts :: "pyval \<Rightarrow> pyval" where
  "sort_dicts (VList vs) = VList (map sort_dicts vs)"
| "sort_dicts (VDict kvs) = VDict (sort_key fst (map (map_prod id sort_dicts) kvs))"
| "sort_dicts v = v"

lemma of_json_sort_members: "of_json (sort_members j) = sort_dicts (of_json j)"
proof (induction j rule: sort_members.induct)
  case (2 kvs)
  have e: "map (\<lambda>x. (fst x, of_json (sort_members (snd x)))) kvs = map (\<lambda>x. (fst x, sort_dicts (of_json (snd x)))) kvs"
    using 2 by (intro map_cong) (auto simp: prod_set_simps)
  show ?case
    using arg_cong [OF e, where f = "\<lambda>xs. VDict (sort_key fst xs)"]
    by (simp only: sort_members.simps of_json.simps sort_dicts.simps map_prod_pair sort_key_pairs map_map comp_def fst_conv snd_conv)
qed auto

lemma written_reads_back:
  assumes "to_json v = Some j" "wf_value v" "path_file (site_files s) p = Some (json_file j)"
  shows "strict_json s p = (sort_dicts v, [])"
proof -
  have wf: "wf_json j" using to_json_wf(1) assms(1,2) by blast
  obtain t where "utf8_text (json_file j) = Some t" "json_loads_with unique_hook t = Inr (sort_members j)"
    using json_file_reads_back [OF plain_unique_hook wf] by blast
  then show ?thesis unfolding strict_json_def assms(3) by (simp add: of_json_sort_members of_to_json(1) [OF assms(1)])
qed

lemma sorted_keys: "fst ` set (sort_key fst (map (map_prod id f) kvs)) = fst ` set kvs"
  by (force simp: image_iff)

lemma sorted_get:
  assumes "distinct (map fst kvs)"
  shows "dict_get (map_of (sort_key fst (map (map_prod id sort_dicts) kvs))) k = sort_dicts (dict_get (map_of kvs) k)"
proof -
  have "map_of (map (map_prod id sort_dicts) kvs) k = map_option sort_dicts (map_of kvs k)" by (induction kvs) auto
  moreover have "distinct (map fst (map (map_prod id sort_dicts) kvs))" using assms by (simp add: comp_def)
  ultimately show ?thesis using map_of_sort_key [of "map (map_prod id sort_dicts) kvs"] by (simp add: dict_get_def split: option.splits)
qed

section \<open>The self-test passes\<close>

text \<open>The documented behaviour of NFC on ASCII text.\<close>

definition keeps_ascii :: "unicode \<Rightarrow> bool" where
  "keeps_ascii U \<longleftrightarrow> (\<forall>t. list_all (\<lambda>c. (of_char c :: nat) < 128) t \<longrightarrow> nfc U (lit t) = lit t)"

definition plain_relative :: "string \<Rightarrow> bool" where
  "plain_relative p \<longleftrightarrow> p \<noteq> [] \<and> CHR 0x5C \<notin> set p \<and> CHR 0x00 \<notin> set p \<and> \<not> drive_text p \<and> hd p \<noteq> CHR ''/'' \<and> as_posix p = p
     \<and> list_all (\<lambda>c. c \<notin> {[], ''.'', ''..''}) (path_parts p)"

lemma portable_plain: "portable_public_relative_path U (VStr p) \<longleftrightarrow> plain_relative p \<and> nfc U (lit p) = lit p"
  by (auto simp: portable_public_relative_path_def plain_relative_def)

lemma fixture_path: "plain_relative ''public_evidence/fixture.json''"
  "list_all (\<lambda>c. (of_char c :: nat) < 128) ''public_evidence/fixture.json''"
  by code_simp+

lemma invalid_paths_refused: "list_all (\<lambda>p. \<not> plain_relative p) invalid_paths"
  by code_simp

lemma claim_violations:
  "5 \<le> limit \<Longrightarrow> json_schema_violations limit re claim_schema v claim_schema loc = json_schema_violations 5 re claim_schema v claim_schema loc"
  by (rule violations_limit [OF claim_schema_ends])

lemma enumerate_mem: "(i, x) \<in> set (enumerate n xs) \<Longrightarrow> x \<in> set xs"
  using image_eqI [of x snd "(i, x)" "set (enumerate n xs)"] unfolding set_map [symmetric] map_snd_enumerate by simp

lemma self_test_passes:
  assumes "5 \<le> limit" "keeps_ascii U"
  shows "claim_schema_validator_self_test limit re U claim_schema = Inr []"
proof -
  have v: "portable_public_relative_path U (VStr ''public_evidence/fixture.json'')"
    unfolding portable_plain using fixture_path assms(2) unfolding keeps_ascii_def by blast
  have "\<not> portable_public_relative_path U (VStr p)" if "p \<in> set invalid_paths" for p
    using that invalid_paths_refused unfolding portable_plain list_all_iff by blast
  then have "note_if (portable_public_relative_path U (VStr p)) m = []" if "(i, p) \<in> set (enumerate 1 invalid_paths)" for i p m
    using enumerate_mem [OF that] by (simp add: note_if_def)
  then have i: "concat (map (\<lambda>(index, p). note_if (portable_public_relative_path U (VStr p))
             (''portable public-path validator accepted invalid self-test path '' @ str_nat index)) (enumerate 1 invalid_paths)) = []"
    unfolding concat_eq_Nil_conv by fastforce
  show ?thesis
    unfolding claim_schema_validator_self_test_def claim_violations [OF assms(1)] fixture_accepted mutants_rejected i
    using v by (simp add: note_if_def)
qed

section \<open>The ledger written by the rebuild\<close>

lemma claim_specs_checked:
  "list_all (\<lambda>(i, w, sc, c, ps, ex). take 3 i = ''CL-'' \<and> length i = 6 \<and> list_all is_digit (drop 3 i) \<and> w \<noteq> [] \<and> sc \<noteq> []
     \<and> c \<in> set confidences \<and> ps \<noteq> [] \<and> ex \<noteq> []) claim_specs"
  "distinct (map fst claim_specs)"
  by code_simp+

lemma evidence_paths_checked:
  "list_all (\<lambda>p. p \<noteq> [] \<and> public_name INDEXES p \<and> p \<notin> set generated \<and> p \<notin> set (map tmp_name generated)) evidence_paths"
  by code_simp

text \<open>A row of the ledger for the digests of its evidence; it reads back as it is.\<close>

definition claim_value :: "(string \<Rightarrow> string) \<Rightarrow> string \<times> string \<times> string \<times> string \<times> string list \<times> string list \<Rightarrow> pyval" where
  "claim_value h spec = (case spec of (i, w, sc, c, ps, ex) \<Rightarrow>
     VDict [(''confidence'', VStr c), (''evidence'', VList (map (\<lambda>p. VDict [(''path'', VStr p), (''sha256'', VStr (h p))]) ps)),
        (''exclusions'', VList (map VStr ex)), (''id'', VStr i), (''scope'', VStr sc), (''wording'', VStr w)])"

lemma claim_row_shape:
  assumes "claim_row sha s (i, w, sc, c, ps, ex) = Inr row" and sha: "digest32 sha"
  obtains h where "\<And>p. p \<in> set ps \<Longrightarrow> file_digest sha s p = Inr (h p)" "\<And>p. p \<in> set ps \<Longrightarrow> hex64 (h p)"
    "row = claim_value h (i, w, sc, c, ps, ex)"
proof -
  define h where "h p = (case file_digest sha s p of Inl e \<Rightarrow> [] | Inr x \<Rightarrow> x)" for p
  obtain es where es: "res_map_list (evidence_row sha s) ps = Inr es" and row: "row =
      VDict [(''confidence'', VStr c), (''evidence'', VList es), (''exclusions'', VList (map VStr ex)), (''id'', VStr i), (''scope'', VStr sc), (''wording'', VStr w)]"
    using assms(1) unfolding claim_row_def by (cases "res_map_list (evidence_row sha s) ps") simp_all
  have d: "file_digest sha s p = Inr (h p)" if m: "p \<in> set ps" for p
  proof -
    obtain k where "k < length ps" "ps ! k = p" using m by (auto simp: in_set_conv_nth)
    then have "evidence_row sha s p = Inr (es ! k)" using es unfolding res_map_list_Inr by blast
    then show ?thesis by (cases "file_digest sha s p") (auto simp: evidence_row_def h_def split: if_splits)
  qed
  have "is_file s p" if "p \<in> set ps" for p using d [OF that] by (auto simp: is_file_def file_digest_def split: option.splits)
  then have "res_map_list (evidence_row sha s) ps = Inr (map (\<lambda>p. VDict [(''path'', VStr p), (''sha256'', VStr (h p))]) ps)"
    by (intro res_map_list_ok) (simp add: evidence_row_def d)
  then have "es = map (\<lambda>p. VDict [(''path'', VStr p), (''sha256'', VStr (h p))]) ps" using es by simp
  then have "row = claim_value h (i, w, sc, c, ps, ex)" using row by (simp add: claim_value_def)
  then show ?thesis using that [of h] d digest_is_hex [OF sha] by blast
qed

lemma sorted_entry: "sort_dicts (VDict [(''path'', VStr p), (''sha256'', VStr h)]) = VDict [(''path'', VStr p), (''sha256'', VStr h)]"
proof -
  have "sorted [''path'', ''sha256'']" by code_simp
  then show ?thesis by (simp add: sort_key_id_if_sorted del: sorted_simps sort_key_simps)
qed

lemma sorted_claim:
  "sort_dicts (claim_value h spec) = claim_value h spec"
proof -
  have "sorted [''confidence'', ''evidence'', ''exclusions'', ''id'', ''scope'', ''wording'']" by code_simp
  then show ?thesis
    by (cases spec) (simp add: claim_value_def sort_key_id_if_sorted comp_def sorted_entry del: sorted_simps sort_key_simps)
qed

lemma claim_row_well_formed:
  assumes "(i, w, sc, c, ps, ex) \<in> set claim_specs" and "\<And>p. p \<in> set ps \<Longrightarrow> hex64 (h p)"
  shows "well_formed_claim (claim_value h (i, w, sc, c, ps, ex))"
proof -
  have spec: "take 3 i = ''CL-''" "length i = 6" "list_all is_digit (drop 3 i)" "w \<noteq> []" "sc \<noteq> []" "c \<in> set confidences" "ps \<noteq> []" "ex \<noteq> []"
    using claim_specs_checked(1) assms(1) unfolding list_all_iff by fastforce+
  have "claim_number i" unfolding claim_number_def
    by (rule exI [of _ "drop 3 i"]) (use spec(1-3) append_take_drop_id [of 3 i] in simp)
  moreover have "well_formed_evidence (VDict [(''path'', VStr p), (''sha256'', VStr (h p))])" if "p \<in> set ps" for p
  proof -
    have "p \<in> set evidence_paths" using assms(1) that unfolding evidence_paths_def by force
    then have "p \<noteq> []" using evidence_paths_checked unfolding list_all_iff by blast
    then show ?thesis using assms(2) [OF that]
      by (auto simp: well_formed_evidence_def nonempty_text_def up_to_newline_def dict_get_def)
  qed
  ultimately show ?thesis using spec(4-8)
    by (auto simp: claim_value_def well_formed_claim_def Let_def dict_get_def up_to_newline_def nonempty_text_def list_all_iff)
qed

lemma wf_claim: "wf_value (claim_value h spec)"
  by (cases spec) (simp add: claim_value_def list_all_iff)

lemma claims_ledger_rows:
  assumes "claims_ledger sha s = Inr v" and sha: "digest32 sha"
  shows "\<exists>rows. v = VDict [(''claims'', VList rows), (''forbidden_claims_reviewed'', VBool True), (''schema'', VStr ''oasi.public.claims-evidence.v2'')]
    \<and> sort_dicts v = v \<and> wf_value v
    \<and> list_all2 (\<lambda>spec row. \<exists>h. row = claim_value h spec \<and> (\<forall>p \<in> set (fst (snd (snd (snd (snd spec))))).
         file_digest sha s p = Inr (h p) \<and> hex64 (h p))) claim_specs rows"
proof -
  obtain rows where rows: "res_map_list (claim_row sha s) claim_specs = Inr rows"
      and v: "v = VDict [(''claims'', VList rows), (''forbidden_claims_reviewed'', VBool True), (''schema'', VStr ''oasi.public.claims-evidence.v2'')]"
    using assms(1) unfolding claims_ledger_def by (cases "res_map_list (claim_row sha s) claim_specs") simp_all
  have "list_all2 (\<lambda>spec row. claim_row sha s spec = Inr row) claim_specs rows"
    using rows unfolding res_map_list_Inr list_all2_conv_all_nth by metis
  then have shape: "list_all2 (\<lambda>spec row. \<exists>h. row = claim_value h spec \<and> (\<forall>p \<in> set (fst (snd (snd (snd (snd spec))))).
         file_digest sha s p = Inr (h p) \<and> hex64 (h p))) claim_specs rows"
  proof (rule list_all2_mono)
    fix spec row assume r: "claim_row sha s spec = Inr row"
    obtain i w sc c ps ex where spec: "spec = (i, w, sc, c, ps, ex)" by (cases spec)
    show "\<exists>h. row = claim_value h spec \<and> (\<forall>p \<in> set (fst (snd (snd (snd (snd spec))))). file_digest sha s p = Inr (h p) \<and> hex64 (h p))"
      using claim_row_shape [OF r [unfolded spec] sha] unfolding spec fst_conv snd_conv by metis
  qed
  have sorted: "sorted [''claims'', ''forbidden_claims_reviewed'', ''schema'']" by code_simp
  have "row \<in> set rows \<Longrightarrow> \<exists>h spec. row = claim_value h spec" for row
    using shape unfolding list_all2_conv_all_nth by (metis in_set_conv_nth)
  then have "map sort_dicts rows = rows" "list_all wf_value rows"
    unfolding list_all_iff using sorted_claim wf_claim by (metis map_idI, metis)
  then show ?thesis using shape v sorted
    by (auto simp: sort_key_id_if_sorted simp del: sorted_simps sort_key_simps)
qed

section \<open>The section on it\<close>

lemma claim_schema_accepts: "json_schema_violations 5 re claim_schema v claim_schema loc = Inr [] \<longleftrightarrow> well_formed_claim v"
proof -
  have five: "(5 :: nat) = Suc (Suc (Suc (Suc (Suc 0))))" by simp
  show ?thesis unfolding five by (rule claim_schema_exact)
qed

lemma claim_row_passes:
  assumes "5 \<le> limit" and spec: "spec \<in> set claim_specs"
    and h: "\<And>p. p \<in> set (fst (snd (snd (snd (snd spec))))) \<Longrightarrow> hex64 (h p) \<and> file_digest sha s p = Inr (h p)
      \<and> p \<in> set (public_files s) \<and> portable_public_relative_path U (VStr p)"
  shows "claim_row_errors limit re U sha s claim_schema (k, claim_value h spec) = Inr []"
proof -
  obtain i w sc c ps ex where e: "spec = (i, w, sc, c, ps, ex)" by (cases spec)
  have "well_formed_claim (claim_value h spec)" unfolding e by (rule claim_row_well_formed) (use spec h e in auto)
  then have schema: "json_schema_violations limit re claim_schema (claim_value h spec) claim_schema loc = Inr []" for loc
    unfolding claim_violations [OF assms(1)] claim_schema_accepts .
  have "evidence_errors U sha s row_id (VDict [(''path'', VStr p), (''sha256'', VStr (h p))]) = []" if "p \<in> set ps" for p row_id
    using h [of p] that by (simp add: e evidence_errors_def dict_get_def note_if_def)
  then show ?thesis
    unfolding claim_row_errors_def prod.case schema by (simp add: claim_value_def e comp_def)
qed

lemma claim_ids_of:
  assumes "list_all2 (\<lambda>spec row. \<exists>h. row = claim_value h spec) specs rows"
  shows "claim_ids rows = map (VStr \<circ> fst) specs"
  using assms
proof (induction specs rows rule: list_all2_induct)
  case (Cons spec specs row rows)
  then show ?case by (cases spec) (auto simp: claim_ids_def claim_value_def dict_get_def)
qed (simp add: claim_ids_def)

lemma ledger_rows_of:
  "rows \<noteq> [] \<Longrightarrow> ledger_rows (VDict [(''claims'', VList rows), (''forbidden_claims_reviewed'', VBool True),
     (''schema'', VStr ''oasi.public.claims-evidence.v2'')]) = ([], rows)"
  by (simp add: ledger_rows_def has_keys_def dict_get_def)

lemma claims_section_clean:
  assumes "5 \<le> limit" "keeps_ascii U" "digest32 sha" and ledger: "claims_ledger sha s1 = Inr v"
    and written: "strict_json s LEDGER_REL = (v, [])" "is_file s LEDGER_REL"
    and schema: "strict_json s ''schemas/claim.schema.json'' = (claim_schema, [])"
    and ev: "\<And>p. p \<in> set evidence_paths \<Longrightarrow> file_digest sha s p = file_digest sha s1 p
      \<and> (is_file s1 p \<longrightarrow> p \<in> set (public_files s) \<and> portable_public_relative_path U (VStr p))"
  shows "claims_section limit re U sha s = Inr []"
proof -
  obtain rows where v: "v = VDict [(''claims'', VList rows), (''forbidden_claims_reviewed'', VBool True), (''schema'', VStr ''oasi.public.claims-evidence.v2'')]"
    and shape: "list_all2 (\<lambda>spec row. \<exists>h. row = claim_value h spec \<and> (\<forall>p \<in> set (fst (snd (snd (snd (snd spec))))).
         file_digest sha s1 p = Inr (h p) \<and> hex64 (h p))) claim_specs rows"
    using claims_ledger_rows [OF ledger assms(3)] by blast
  have n: "length rows = length claim_specs" using shape by (simp add: list_all2_lengthD)
  have "claim_row_errors limit re U sha s claim_schema (j, rows ! k) = Inr []" if k: "k < length rows" for k j
  proof -
    obtain h where h: "rows ! k = claim_value h (claim_specs ! k)"
        "\<And>p. p \<in> set (fst (snd (snd (snd (snd (claim_specs ! k)))))) \<Longrightarrow> file_digest sha s1 p = Inr (h p) \<and> hex64 (h p)"
      using shape k n unfolding list_all2_conv_all_nth by metis
    have spec: "claim_specs ! k \<in> set claim_specs" using k n by simp
    show ?thesis unfolding h(1)
    proof (rule claim_row_passes [OF assms(1) spec])
      fix p assume p: "p \<in> set (fst (snd (snd (snd (snd (claim_specs ! k))))))"
      then have "p \<in> set evidence_paths" using spec unfolding evidence_paths_def by auto
      moreover have "is_file s1 p" using h(2) [OF p] by (auto simp: is_file_def file_digest_def split: option.splits)
      ultimately show "hex64 (h p) \<and> file_digest sha s p = Inr (h p) \<and> p \<in> set (public_files s) \<and> portable_public_relative_path U (VStr p)"
        using ev h(2) [OF p] by metis
    qed
  qed
  then have "res_map_list (claim_row_errors limit re U sha s claim_schema) (enumerate 0 rows) = Inr (map (\<lambda>_. []) (enumerate 0 rows))"
    by (intro res_map_list_ok) (auto simp: in_set_enumerate_eq)
  moreover have "claim_ids rows = map (VStr \<circ> fst) claim_specs"
    by (rule claim_ids_of, rule list_all2_mono [OF shape]) blast
  then have "ids_invalid rows = Inr False"
    using claim_specs_checked(2) by (simp add: ids_invalid_def n list_all_iff distinct_map comp_def inj_on_def)
  moreover have "rows \<noteq> []" using n unfolding claim_specs_def by auto
  ultimately show ?thesis
    unfolding claims_section_def written(1) schema prod.case v self_test_passes [OF assms(1,2)] res_bind.simps
    using written(2) by (simp add: ledger_rows_of note_if_def concat_eq_Nil_conv)
qed

section \<open>After a rebuild\<close>

lemma not_generated:
  "list_all (\<lambda>p. canonical_name p \<and> p \<notin> set generated \<and> p \<notin> set (map tmp_name generated)) (''schemas/claim.schema.json'' # evidence_paths)"
  by code_simp

lemma ledger_name_differs:
  "LEDGER_REL \<noteq> ''SBOM.spdx.json''" "LEDGER_REL \<noteq> ''LICENSE_INVENTORY.json''" "LEDGER_REL \<noteq> ''PUBLIC_ALLOWLIST.txt''"
  "LEDGER_REL \<noteq> ''PUBLIC_MANIFEST.sha256''"
  by code_simp+

lemma rebuild_keeps_file:
  assumes "rebuild U sha sha1 io ra s = (r, s')" "p \<in> set (''schemas/claim.schema.json'' # evidence_paths)"
  shows "path_file (site_files s') p = path_file (site_files s) p"
proof -
  have p: "canonical_name p" "p \<notin> set generated" "p \<notin> tmp_name ` set generated"
    using not_generated assms(2) unfolding list_all_iff set_map by blast+
  show ?thesis unfolding path_file_canonical [OF p(1)] by (rule rebuild_frame [OF assms(1) p(2,3)])
qed

lemma evidence_facts:
  assumes p: "p \<in> set evidence_paths"
  shows "canonical_name p" "p \<notin> set generated" "public_name INDEXES p"
proof -
  have "canonical_name p \<and> p \<notin> set generated \<and> p \<notin> set (map tmp_name generated)"
    by (rule bspec [OF not_generated [unfolded list_all_iff] list.set_intros(2) [OF p]])
  from conjunct1 [OF this] conjunct1 [OF conjunct2 [OF this]] show "canonical_name p" "p \<notin> set generated" .
  have "p \<noteq> [] \<and> public_name INDEXES p \<and> p \<notin> set generated \<and> p \<notin> set (map tmp_name generated)"
    by (rule bspec [OF evidence_paths_checked [unfolded list_all_iff] p])
  from conjunct1 [OF conjunct2 [OF this]] show "public_name INDEXES p" .
qed

lemma is_file_name: "canonical_name p \<Longrightarrow> is_file s p \<longleftrightarrow> p \<in> fst ` set (site_files s)"
  by (simp add: is_file_def path_file_canonical map_of_eq_None_iff)

text \<open>The writes after the ledger leave it as it is.\<close>

lemma ledger_survives:
  assumes s2: "s2 = put_file LEDGER_REL d s1" and s3: "s3 = put_file ''SBOM.spdx.json'' d3 s2"
    and s4: "s4 = put_file ''LICENSE_INVENTORY.json'' d4 s3" and s5: "s5 = (if b then s4 else put_file ''PUBLIC_ALLOWLIST.txt'' d5 s4)"
    and s': "s' = put_file ''PUBLIC_MANIFEST.sha256'' d6 s5"
  shows "path_file (site_files s') LEDGER_REL = Some d"
proof -
  have w: "path_file (site_files s2) LEDGER_REL = Some d" unfolding s2 path_put [OF canonical_generated(2)] by (rule if_P) (rule refl)
  have w4: "path_file (site_files s4) LEDGER_REL = Some d"
    unfolding s4 s3 path_put [OF canonical_generated(2)] if_not_P [OF ledger_name_differs(1)] if_not_P [OF ledger_name_differs(2)] by (rule w)
  have "path_file (site_files s5) LEDGER_REL = Some d"
  proof (cases b)
    case True
    show ?thesis unfolding s5 if_P [OF True] by (rule w4)
  next
    case False
    show ?thesis unfolding s5 if_not_P [OF False] path_put [OF canonical_generated(2)] if_not_P [OF ledger_name_differs(3)] by (rule w4)
  qed
  then show ?thesis unfolding s' path_put [OF canonical_generated(2)] if_not_P [OF ledger_name_differs(4)] .
qed

theorem rebuilt_claims:
  assumes "5 \<le> limit" "keeps_ascii U" and sha: "digest32 sha" and rel: "releasable U s" and r: "rebuild U sha sha1 io ra s = (Inr (), s')"
    and schema: "strict_json s ''schemas/claim.schema.json'' = (claim_schema, [])"
  shows "claims_section limit re U sha s' = Inr []"
proof (rule rebuild_states [OF r])
  fix d1 s1 v2 j2 s2 j3 s3 j4 s4 s5 t6
  assume s1: "s1 = put_file ''experiments/MANIFEST.sha256'' d1 s"
    and ledger: "claims_ledger sha s1 = Inr v2" "to_json v2 = Some j2" "s2 = put_file LEDGER_REL (json_file j2) s1"
    and s3: "s3 = put_file ''SBOM.spdx.json'' (json_file j3) s2" and s4: "s4 = put_file ''LICENSE_INVENTORY.json'' (json_file j4) s3"
    and s5: "s5 = (if adopt ra = None then s4
           else put_file ''PUBLIC_ALLOWLIST.txt'' (utf8_encode (lit (joined_lines (all_files [] s)))) s4)"
    and s': "s' = put_file ''PUBLIC_MANIFEST.sha256'' (ascii t6) s5"
  note w' = ledger_survives [OF ledger(3) s3 s4 s5 s']
  have sorted: "sort_dicts v2 = v2" "wf_value v2" using claims_ledger_rows [OF ledger(1) sha] by blast+
  have read: "strict_json s' LEDGER_REL = (v2, [])" using written_reads_back [OF ledger(2) sorted(2) w'] unfolding sorted(1) .
  have there: "is_file s' LEDGER_REL" unfolding is_file_def w' by (rule option.distinct(2))
  have pub: "public_files s' = all_files [] s" using rebuilt_metadata [OF sha rel r] unfolding public_files_all by blast
  show ?thesis
  proof (rule claims_section_clean [OF assms(1,2) sha ledger(1) read there])
    show "strict_json s' ''schemas/claim.schema.json'' = (claim_schema, [])"
      using schema rebuild_keeps_file [OF r list.set_intros(1)] unfolding strict_json_def by (simp only:)
    fix p assume p: "p \<in> set evidence_paths"
    note c = evidence_facts [OF p]
    have n: "p \<noteq> ''experiments/MANIFEST.sha256''" using c(2) generated_members(1) by metis
    have same: "path_file (site_files s1) p = path_file (site_files s) p" unfolding s1 path_put [OF c(1)] by (rule if_not_P [OF n])
    have d: "file_digest sha s' p = file_digest sha s1 p"
      unfolding file_digest_def same rebuild_keeps_file [OF r list.set_intros(2) [OF p]] ..
    have "p \<in> set (public_files s') \<and> portable_public_relative_path U (VStr p)" if "is_file s1 p"
    proof -
      have "is_file s p" using that unfolding is_file_def same .
      then have "p \<in> fst ` set (site_files s)" unfolding is_file_name [OF c(1)] .
      then have "p \<in> set (all_files [] s)" using c(3) by (simp add: all_files_def)
      then show ?thesis using rel unfolding pub releasable_def by blast
    qed
    then show "file_digest sha s' p = file_digest sha s1 p
      \<and> (is_file s1 p \<longrightarrow> p \<in> set (public_files s') \<and> portable_public_relative_path U (VStr p))" using d by blast
  qed
qed

end
