(* ===== verification/Sbom_Props.thy ===== *)
theory Sbom_Props
  imports Sbom_Check Claim_Ledger
begin

text \<open>
  The SBOM that the rebuild writes passes the release verifier's section on it.
\<close>

section \<open>Values in order\<close>

text \<open>Values whose dicts have their members in the order of their names: they read back as they are.\<close>

fun in_order :: "pyval \<Rightarrow> bool" where
  "in_order (VList vs) = list_all in_order vs"
| "in_order (VDict kvs) = (sorted (map fst kvs) \<and> distinct (map fst kvs) \<and> list_all (\<lambda>kv. in_order (snd kv)) kvs)"
| "in_order v = True"

lemma in_order_same: "in_order v \<Longrightarrow> sort_dicts v = v \<and> wf_value v"
proof (induction v rule: sort_dicts.induct)
  case (1 vs)
  then show ?case by (auto simp: list_all_iff intro!: map_idI)
next
  case (2 kvs)
  have "map (map_prod id sort_dicts) kvs = kvs"
    using 2 by (intro map_idI) (auto simp: list_all_iff map_prod_def prod_set_simps)
  then show ?case using 2 by (auto simp: list_all_iff sort_key_id_if_sorted prod_set_simps)
qed simp_all

section \<open>Numbers with leading zeros\<close>

lemma nat_of_zeros: "nat_of_digits 0 (replicate k (CHR ''0'') @ d) = nat_of_digits 0 d"
proof (induction k)
  case (Suc k)
  have "digit_val (CHR ''0'') = 0" by code_simp
  then show ?case using Suc by simp
qed simp

lemma zero_pad_inj: "zero_pad w m = zero_pad w n \<Longrightarrow> m = n"
  unfolding zero_pad_def Let_def using nat_of_zeros nat_of_str_nat by metis

lemma file_id_inj: "file_id i = file_id j \<longleftrightarrow> i = j"
  using zero_pad_inj [of 4 i j] by (auto simp: file_id_def)

section \<open>The file rows\<close>

definition file_value :: "unicode \<Rightarrow> (string \<Rightarrow> string) \<Rightarrow> (string \<Rightarrow> string) \<Rightarrow> nat \<Rightarrow> string \<Rightarrow> (string \<times> pyval) list" where
  "file_value U h1 h2 index rel =
       [(''SPDXID'', VStr (file_id index)),
        (''checksums'', VList
           [VDict [(''algorithm'', VStr ''SHA1''), (''checksumValue'', VStr (h1 rel))],
            VDict [(''algorithm'', VStr ''SHA256''), (''checksumValue'', VStr (h2 rel))]]),
        (''copyrightText'', noassertion), (''fileName'', VStr (''./'' @ rel)), (''fileTypes'', file_types U rel),
        (''licenseConcluded'', VStr (license_for rel)), (''licenseInfoInFiles'', VList [VStr (license_for rel)])]"

lemma file_value_in_order: "in_order (VDict (file_value U h1 h2 i p))"
proof -
  have "sorted [''SPDXID'', ''checksums'', ''copyrightText'', ''fileName'', ''fileTypes'', ''licenseConcluded'', ''licenseInfoInFiles'']"
    "sorted [''algorithm'', ''checksumValue'']" by code_simp+
  then show ?thesis
    by (simp add: file_value_def noassertion_def file_types_def Let_def del: sorted_simps)
qed

lemma file_value_gets:
  "row_file (file_value U h1 h2 i p) = p" "fst ` set (file_value U h1 h2 i p) = set file_row_keys"
  "dict_get (map_of (file_value U h1 h2 i p)) ''SPDXID'' = VStr (file_id i)" "map_of (file_value U h1 h2 i p) ''SPDXID'' = Some (VStr (file_id i))"
  "dict_get (map_of (file_value U h1 h2 i p)) ''fileTypes'' = file_types U p"
  "dict_get (map_of (file_value U h1 h2 i p)) ''licenseConcluded'' = VStr (license_for p)"
  "dict_get (map_of (file_value U h1 h2 i p)) ''licenseInfoInFiles'' = VList [VStr (license_for p)]"
  "dict_get (map_of (file_value U h1 h2 i p)) ''copyrightText'' = noassertion"
  "row_checksums shown (file_value U h1 h2 i p) = Inr ([(VStr ''SHA1'', VStr (h1 p)), (VStr ''SHA256'', VStr (h2 p))], [])"
  by (simp_all add: file_value_def row_file_def dict_get_def file_row_keys_def row_checksums_def has_keys_def note_if_def)

lemma expected_order: "expected_sbom_order s = sbom_files s"
  unfolding expected_sbom_order_def sbom_files_def public_files_def all_files_def filter_sort filter_filter
  unfolding sorted_sort_id [OF sorted_sort]
  by (rule arg_cong [where f = sort], rule filter_cong) (auto simp: public_name_def SBOM_EXCLUDED_def)

text \<open>A name whose row the section can check: a file of the tree below ROOT.\<close>

definition inside :: "string \<Rightarrow> bool" where
  "inside p \<longleftrightarrow> p \<noteq> [] \<and> hd p \<noteq> CHR ''/'' \<and> ''..'' \<notin> set (path_parts p) \<and> path_parts p \<noteq> []"

lemma portable_inside:
  assumes "portable_public_relative_path U (VStr p)" "canonical_name p"
  shows "inside p"
proof -
  have "path_parts p \<noteq> []" using assms(2) by (auto simp: canonical_name_def)
  then show ?thesis using assms(1)
    by (auto simp: inside_def portable_public_relative_path_def list_all_iff split: if_splits)
qed

lemma digest_passes:
  assumes "inside p" "file_digest h s p = Inr d"
  shows "digest_matches h e s p (VStr d)"
  using assms by (auto simp: digest_matches_def joined_file_def inside_def file_digest_def split: option.splits)

lemma row_passes:
  assumes "inside p" "file_digest sha1 s p = Inr (h1 p)" "file_digest sha s p = Inr (h2 p)"
    and "i \<le> length order \<Longrightarrow> order ! (i - 1) = p"
  shows "sbom_row_errors U sha sha1 e s order i (file_value U h1 h2 i p) = Inr []"
proof -
  have in_table: "lookup_checksum [(VStr ''SHA1'', VStr (h1 p)), (VStr ''SHA256'', VStr (h2 p))] ''SHA1'' = VStr (h1 p)"
    "lookup_checksum [(VStr ''SHA1'', VStr (h1 p)), (VStr ''SHA256'', VStr (h2 p))] ''SHA256'' = VStr (h2 p)"
    by (simp_all add: lookup_checksum_def)
  have types: "expected_types U e p = file_types U p" using assms(1) by (simp add: expected_types_def inside_def)
  show ?thesis
    unfolding sbom_row_errors_def Let_def file_value_gets res_map.simps prod.case in_table types same_policies
    using digest_passes [OF assms(1,2)] digest_passes [OF assms(1,3)] assms(4) by (auto simp: note_if_def py_eq_text)
qed

section \<open>The rows of the document\<close>

lemma enumerate_again: "enumerate n (map f (enumerate n ps)) = map (\<lambda>x. (fst x, f x)) (enumerate n ps)"
proof (induction ps arbitrary: n)
  case (Cons p ps)
  show ?case unfolding enumerate_simps list.map Cons by simp
qed simp

lemma dict_rows_of: "dict_rows (map (\<lambda>x. VDict (F x)) (enumerate 1 ps)) = map (\<lambda>x. (fst x, F x)) (enumerate 1 ps)"
proof -
  have "concat (map (\<lambda>(index, row). case row of VDict kvs \<Rightarrow> [(index, kvs)] | _ \<Rightarrow> []) (map (\<lambda>x. (fst x, VDict (F x))) xs))
      = map (\<lambda>x. (fst x, F x)) xs" for xs :: "(nat \<times> 'a) list"
    by (induction xs) simp_all
  then show ?thesis unfolding dict_rows_def enumerate_again .
qed

abbreviation file_rows :: "unicode \<Rightarrow> (string \<Rightarrow> string) \<Rightarrow> (string \<Rightarrow> string) \<Rightarrow> string list \<Rightarrow> pyval list" where
  "file_rows U h1 h2 ps \<equiv> map (\<lambda>x. VDict (file_value U h1 h2 (fst x) (snd x))) (enumerate 1 ps)"

lemma files_pass:
  assumes "\<And>p. p \<in> set (expected_sbom_order s) \<Longrightarrow> inside p \<and> file_digest sha1 s p = Inr (h1 p) \<and> file_digest sha s p = Inr (h2 p)"
    and d: "distinct (expected_sbom_order s)"
  shows "sbom_files_errors U sha sha1 e s (VList (file_rows U h1 h2 (expected_sbom_order s))) = Inr []"
proof -
  let ?ps = "expected_sbom_order s" and ?F = "\<lambda>x. file_value U h1 h2 (fst x) (snd x)"
  have rows: "res_map_list (\<lambda>(index, row). case row of VDict kvs \<Rightarrow> sbom_row_errors U sha sha1 e s ?ps index kvs
        | _ \<Rightarrow> Inr [''SBOM file row '' @ str_nat index @ '' is not an object'']) (enumerate 1 (file_rows U h1 h2 ?ps))
      = Inr (map (\<lambda>_. []) (enumerate 1 (file_rows U h1 h2 ?ps)))"
  proof (rule res_map_list_ok, unfold enumerate_again)
    fix x :: "nat \<times> pyval" assume "x \<in> set (map (\<lambda>x. (fst x, VDict (?F x))) (enumerate 1 ?ps))"
    then obtain i where i: "i < length ?ps" "x = (Suc i, VDict (file_value U h1 h2 (Suc i) (?ps ! i)))"
      by (auto simp: in_set_enumerate_eq in_set_conv_nth nth_enumerate_eq)
    then show "(case x of (index, row) \<Rightarrow> (case row of VDict kvs \<Rightarrow> sbom_row_errors U sha sha1 e s ?ps index kvs
        | _ \<Rightarrow> Inr [''SBOM file row '' @ str_nat index @ '' is not an object''])) = Inr []"
      unfolding i(2) prod.case pyval.case using assms(1) [of "?ps ! i"] by (intro row_passes) simp_all
  qed
  have names: "map (\<lambda>(_, kvs). row_file kvs) (dict_rows (file_rows U h1 h2 ?ps)) = ?ps"
    unfolding dict_rows_of by (simp add: comp_def case_prod_unfold file_value_gets)
  have ids: "map (\<lambda>(_, kvs). case map_of kvs ''SPDXID'' of None \<Rightarrow> VStr [] | Some v \<Rightarrow> v) (dict_rows (file_rows U h1 h2 ?ps))
      = map (\<lambda>x. VStr (file_id (fst x))) (enumerate 1 ?ps)"
    unfolding dict_rows_of by (simp add: comp_def case_prod_unfold file_value_gets)
  have "map (\<lambda>x. VStr (file_id (fst x))) (enumerate 1 ?ps) = map (VStr \<circ> file_id) (map fst (enumerate 1 ?ps))"
    by (simp only: map_map comp_def)
  moreover have "distinct (map (VStr \<circ> file_id) (map fst (enumerate 1 ?ps)))"
    by (simp add: distinct_map inj_on_def file_id_inj)
  ultimately have di: "distinct (map (\<lambda>x. VStr (file_id (fst x))) (enumerate 1 ?ps))" by (simp only:)
  have hash: "hash_all (map (\<lambda>x. VStr (file_id (fst x))) (enumerate 1 ?ps)) = Inr (map (\<lambda>x. VStr (file_id (fst x))) (enumerate 1 ?ps))"
    by (simp add: hash_all_def list_all_iff)
  show ?thesis
    unfolding sbom_files_errors_def Let_def list_items.simps is_list.simps rows names ids hash res_bind.simps res_map.simps
    using d di by (simp add: note_if_def)
qed

section \<open>The packages\<close>

lemma same_tool_versions: "expected_tool_packages = tool_versions"
  unfolding expected_tool_packages_def tool_versions_def ..

definition tool_value :: "nat \<times> string \<times> string \<Rightarrow> (string \<times> pyval) list" where
  "tool_value x = (case x of (index, name, version) \<Rightarrow>
     [(''SPDXID'', VStr (''SPDXRef-Tool-'' @ zero_pad 2 index)), (''copyrightText'', noassertion),
      (''downloadLocation'', noassertion), (''filesAnalyzed'', VBool False), (''licenseConcluded'', noassertion),
      (''licenseDeclared'', noassertion), (''name'', VStr name), (''versionInfo'', VStr version)])"

definition project_value :: "string \<Rightarrow> (string \<times> pyval) list" where
  "project_value code =
     [(''SPDXID'', VStr ''SPDXRef-Package-OASI''), (''copyrightText'', noassertion),
      (''downloadLocation'', noassertion), (''filesAnalyzed'', VBool True), (''licenseConcluded'', noassertion),
      (''licenseDeclared'', noassertion), (''name'', VStr project_name),
      (''packageVerificationCode'', VDict [(''packageVerificationCodeValue'', VStr code)]),
      (''versionInfo'', VStr ''0.2.1-research-preview'')]"

definition package_values :: "string \<Rightarrow> (string \<times> pyval) list list" where
  "package_values code = project_value code # map tool_value (enumerate 1 tool_versions)"

lemma package_rows: "project_package code # map tool_package (enumerate 1 tool_versions) = map VDict (package_values code)"
  by (simp only: package_values_def list.map map_map) (auto simp: project_package_def project_value_def tool_package_def tool_value_def)

lemma package_names:
  "dict_get (map_of (tool_value x)) ''name'' = VStr (fst (snd x))" "dict_get (map_of (project_value code)) ''name'' = VStr project_name"
  "dict_get (map_of (tool_value x)) ''SPDXID'' = VStr (''SPDXRef-Tool-'' @ zero_pad 2 (fst x))"
  "dict_get (map_of (project_value code)) ''SPDXID'' = VStr ''SPDXRef-Package-OASI''"
  by (simp_all add: tool_value_def project_value_def dict_get_def case_prod_unfold)

lemma snd_dict_rows: "map snd (dict_rows (map VDict kss)) = kss" "length (dict_rows (map VDict kss)) = length kss"
proof -
  have "map snd (concat (map (\<lambda>(index, row). case row of VDict kvs \<Rightarrow> [(index, kvs)] | _ \<Rightarrow> []) (enumerate n (map VDict kss)))) = kss" for n
    by (induction kss arbitrary: n) simp_all
  then show m: "map snd (dict_rows (map VDict kss)) = kss" unfolding dict_rows_def .
  show "length (dict_rows (map VDict kss)) = length kss" using arg_cong [OF m, where f = length] by simp
qed

lemma of_dict_rows: "map (\<lambda>(_, kvs). f kvs) (dict_rows (map VDict kss)) = map f kss"
  using arg_cong [OF snd_dict_rows(1) [of kss], where f = "map f"] by (simp add: comp_def case_prod_unfold)

lemma filter_unique:
  "y \<in> set ys \<Longrightarrow> distinct (map f ys) \<Longrightarrow> filter (\<lambda>x. f x = f y) ys = [y]"
proof (induction ys)
  case (Cons x ys)
  show ?case
  proof (cases "y \<in> set ys")
    case True
    then have "f x \<noteq> f y" using Cons(3) by auto
    then show ?thesis using Cons True by simp
  next
    case False
    then have "y = x" "filter (\<lambda>z. f z = f x) ys = []" using Cons(2,3) by (auto simp: filter_empty_conv image_iff)
    then show ?thesis by simp
  qed
qed simp

lemma project_not_tool: "distinct (project_name # map fst tool_versions)"
  by code_simp

definition package_name :: "(string \<times> pyval) list \<Rightarrow> string" where
  "package_name kvs = text_of (dict_get (map_of kvs) ''name'')"

lemma package_name_of: "package_name (tool_value x) = fst (snd x)" "package_name (project_value code) = project_name"
  by (simp_all add: package_name_def package_names)

lemma package_names_distinct: "map package_name (package_values code) = project_name # map fst tool_versions"
proof -
  have "map (\<lambda>x. fst (snd x)) (enumerate 1 tool_versions) = map fst (map snd (enumerate 1 tool_versions))" by (simp only: map_map comp_def)
  also have "\<dots> = map fst tool_versions" unfolding map_snd_enumerate ..
  finally show ?thesis by (simp only: package_values_def list.map map_map comp_def package_name_of)
qed

lemma package_texts:
  assumes "kvs \<in> set (package_values code)"
  shows "dict_get (map_of kvs) ''name'' = VStr (package_name kvs)" "\<exists>i. dict_get (map_of kvs) ''SPDXID'' = VStr i"
  using assms package_names by (auto simp: package_values_def package_name_def)

lemma one_package:
  assumes "kvs \<in> set (package_values code)"
  shows "packages_named (map VDict (package_values code)) (package_name kvs) = [kvs]"
proof -
  have "filter (\<lambda>k. py_eq (dict_get (map_of k) ''name'') (VStr (package_name kvs))) (package_values code)
      = filter (\<lambda>k. package_name k = package_name kvs) (package_values code)"
    by (rule filter_cong) (simp_all add: package_texts py_eq_text)
  also have "\<dots> = [kvs]" by (rule filter_unique [OF assms]) (simp only: package_names_distinct project_not_tool)
  finally show ?thesis unfolding packages_named_def snd_dict_rows .
qed

lemma tool_passes:
  assumes "x \<in> set (enumerate 1 tool_versions)"
  shows "tool_row_errors (map VDict (package_values code)) x = []"
proof -
  obtain index name version where x: "x = (index, name, version)" by (cases x)
  have "tool_value x \<in> set (package_values code)" using assms by (simp add: package_values_def)
  from one_package [OF this] have "packages_named (map VDict (package_values code)) name = [tool_value x]"
    by (simp add: package_name_of x)
  then show ?thesis unfolding x by (simp add: tool_row_errors_def tool_value_def note_if_def)
qed

lemma package_ids: "map (\<lambda>kvs. dict_get (map_of kvs) ''SPDXID'') (package_values code)
    = VStr ''SPDXRef-Package-OASI'' # map (\<lambda>i. VStr (''SPDXRef-Tool-'' @ zero_pad 2 i)) (map fst (enumerate 1 tool_versions))"
  by (simp only: package_values_def list.map map_map comp_def package_names)

lemma package_lists_clean: "package_lists (map VDict (package_values code)) = Inr []"
proof -
  let ?kss = "package_values code"
  have "distinct (map (\<lambda>i. VStr (''SPDXRef-Tool-'' @ zero_pad 2 i)) (map fst (enumerate 1 tool_versions)))"
    unfolding distinct_map [of "\<lambda>i. VStr (''SPDXRef-Tool-'' @ zero_pad 2 i)"]
    using zero_pad_inj by (auto simp: inj_on_def distinct_enumerate simp del: enumerate_simps)
  then have di: "distinct (map (\<lambda>kvs. dict_get (map_of kvs) ''SPDXID'') ?kss)"
    unfolding package_ids by (auto simp del: enumerate_simps)
  have ids: "hash_all (map (\<lambda>kvs. dict_get (map_of kvs) ''SPDXID'') ?kss) = Inr (map (\<lambda>kvs. dict_get (map_of kvs) ''SPDXID'') ?kss)"
    using package_texts(2) by (fastforce simp: hash_all_def list_all_iff intro!: map_idI)
  have nm: "map (\<lambda>kvs. dict_get (map_of kvs) ''name'') ?kss = map VStr (map package_name ?kss)"
    by (simp add: package_texts)
  have dn: "distinct (map VStr (map package_name ?kss))"
    unfolding distinct_map [of VStr] package_names_distinct using project_not_tool by (simp only: inj_on_def pyval.inject) blast
  have names: "hash_all (map VStr (map package_name ?kss)) = Inr (map VStr (map package_name ?kss))"
    by (auto simp: hash_all_def list_all_iff)
  show ?thesis
    unfolding package_lists_def Let_def of_dict_rows snd_dict_rows(2) length_map ids nm names
    using di dn by (simp only: simp_thms if_False res_map.simps res_bind.simps note_if_def append_Nil)
qed

lemma project_passes:
  "code_holder (project_value code) = VDict [(''packageVerificationCodeValue'', VStr code)]"
  "fst ` set (project_value code) = insert ''packageVerificationCode'' (fst ` set project_fields)"
  "list_all (\<lambda>(f, v). py_eq (dict_get (map_of (project_value code)) f) v) project_fields"
  by (auto simp: code_holder_def project_value_def project_fields_def dict_get_def)

lemma packages_pass:
  assumes "verification_code sha1 (expected_sbom_order s) s = Inr code"
  shows "sbom_packages_errors sha1 s (VList (map VDict (package_values code))) = Inr []"
proof -
  have one: "packages_named (map VDict (package_values code)) project_name = [project_value code]"
    using one_package [of "project_value code"] by (simp add: package_values_def package_name_of)
  have tools: "concat (map (tool_row_errors (map VDict (package_values code))) (enumerate 1 tool_versions)) = []"
    unfolding concat_eq_Nil_conv using tool_passes by (simp del: enumerate_simps)
  have n: "length (map VDict (package_values code)) = 1 + length tool_versions" by (simp add: package_values_def)
  show ?thesis
    unfolding sbom_packages_errors_def Let_def list_items.simps is_list.simps one list.case package_lists_clean assms project_passes(1)
      py_get_def pyval.case res_bind.simps res_map.simps same_tool_versions tools n
    using project_passes(2,3) by (simp add: note_if_def has_keys_def dict_get_def)
qed

section \<open>The relationships\<close>

lemma relations_pass:
  assumes "distinct is"
  shows "sbom_relations_errors (VList (map (\<lambda>i. relationship i) is)) is = Inr []"
proof -
  have keys: "has_keys (relationship i) relation_keys" for i
    by (auto simp: relationship_def has_keys_def relation_keys_def)
  let ?rows = "enumerate 1 (map (\<lambda>i. relationship i) is)"
  have rel: "\<exists>i. snd x = relationship i" if "x \<in> set ?rows" for x 
  proof -
    have "snd x \<in> set (map snd ?rows)" unfolding set_map by (rule imageI [OF that])
    then show ?thesis unfolding map_snd_enumerate by auto
  qed
  have wrong: "concat (map (\<lambda>(index, row). note_if (\<not> has_keys row relation_keys)
         (''SBOM relationship property set mismatch: '' @ str_nat index)) ?rows) = []"
    using rel keys by (fastforce simp: concat_eq_Nil_conv)
  have all: "filter (\<lambda>(_, row). has_keys row relation_keys) ?rows = ?rows"
    using rel keys by (intro filter_True) fastforce
  define triple where "triple i = [VStr ''SPDXRef-Package-OASI'', VStr ''CONTAINS'', VStr (file_id i)]" for i
  have t: "(case relationship i of VDict kvs \<Rightarrow> map (dict_get (map_of kvs)) relation_keys | _ \<Rightarrow> []) = triple i" for i
    by (simp add: relationship_def relation_keys_def triple_def dict_get_def)
  have triples: "map (\<lambda>(_, row). case row of VDict kvs \<Rightarrow> map (dict_get (map_of kvs)) relation_keys | _ \<Rightarrow> []) ?rows = map triple is"
    using arg_cong [OF map_snd_enumerate [of 1 "map (\<lambda>i. relationship i) is"],
      where f = "map (\<lambda>row. case row of VDict kvs \<Rightarrow> map (dict_get (map_of kvs)) relation_keys | _ \<Rightarrow> [])"]
    by (simp only: map_map comp_def case_prod_unfold t)
  have d: "distinct (map triple is)" using assms by (auto simp: distinct_map inj_on_def triple_def file_id_inj)
  have c: "map (map canon) (map triple is) = map triple is" by (simp add: triple_def)
  have h: "list_all (list_all hashable) (map triple is)" by (simp add: list_all_iff triple_def)
  show ?thesis
    unfolding sbom_relations_errors_def Let_def list_items.simps is_list.simps wrong all triples c
    using h d by (simp add: note_if_def triple_def)
qed

section \<open>The document\<close>

definition file_hash :: "(bytes \<Rightarrow> bytes) \<Rightarrow> site \<Rightarrow> string \<Rightarrow> string" where
  "file_hash h s p = (case file_digest h s p of Inl _ \<Rightarrow> [] | Inr d \<Rightarrow> d)"

definition document_value :: "pyval list \<Rightarrow> pyval list \<Rightarrow> pyval list \<Rightarrow> (string \<times> pyval) list" where
  "document_value files packages relations =
       [(''SPDXID'', VStr ''SPDXRef-DOCUMENT''),
        (''creationInfo'', VDict [(''created'', VStr ''2026-09-02T00:00:00Z''),
           (''creators'', VList [VStr ''Tool: OASI deterministic metadata builder''])]),
        (''dataLicense'', VStr ''CC0-1.0''),
        (''documentNamespace'', VStr ''https://spdx.org/spdxdocs/oasi-aera-v0.2.1-research-preview''),
        (''files'', VList files), (''name'', VStr ''OASI-AERA-v0.2.1-research-preview-SBOM''),
        (''packages'', VList packages), (''relationships'', VList relations), (''spdxVersion'', VStr ''SPDX-2.3'')]"

abbreviation relation_rows :: "string list \<Rightarrow> pyval list" where
  "relation_rows ps \<equiv> map (\<lambda>i. relationship i) (map fst (enumerate 1 ps))"

lemma sbom_document_value:
  assumes "sbom_document U sha sha1 s = Inr v"
  shows "\<exists>code. verification_code sha1 (sbom_files s) s = Inr code
    \<and> (\<forall>p \<in> set (sbom_files s). file_digest sha1 s p = Inr (file_hash sha1 s p) \<and> file_digest sha s p = Inr (file_hash sha s p))
    \<and> v = VDict (document_value (file_rows U (file_hash sha1 s) (file_hash sha s) (sbom_files s)) (map VDict (package_values code))
        (relation_rows (sbom_files s)))"
proof -
  let ?E = "enumerate 1 (sbom_files s)"
  obtain rows code where r: "res_map_list (spdx_row U sha sha1 s) ?E = Inr rows" and c: "verification_code sha1 (sbom_files s) s = Inr code"
      and v: "v = VDict (document_value rows (map VDict (package_values code)) (map (\<lambda>ir. relationship (fst ir)) ?E))"
    using assms unfolding sbom_document_def Let_def res_bind_Inr_iff package_rows document_value_def by blast
  have row: "file_digest sha1 s (snd x) = Inr (file_hash sha1 s (snd x)) \<and> file_digest sha s (snd x) = Inr (file_hash sha s (snd x))
      \<and> y = VDict (file_value U (file_hash sha1 s) (file_hash sha s) (fst x) (snd x))" if "spdx_row U sha sha1 s x = Inr y" for x y
    using that by (auto simp: spdx_row_def res_bind_Inr_iff file_value_def file_hash_def split: prod.splits)
  have len: "length rows = length ?E" and nth: "\<And>i. i < length ?E \<Longrightarrow> spdx_row U sha sha1 s (?E ! i) = Inr (rows ! i)"
    using r unfolding res_map_list_Inr by blast+
  have rows: "rows = file_rows U (file_hash sha1 s) (file_hash sha s) (sbom_files s)"
    by (rule nth_equalityI) (use len row [OF nth] in \<open>simp_all del: enumerate_simps\<close>)
  have "\<exists>x \<in> set ?E. snd x = p" if "p \<in> set (sbom_files s)" for p
    using that map_snd_enumerate [of 1 "sbom_files s"] by (metis (no_types) imageE set_map)
  then have "file_digest sha1 s p = Inr (file_hash sha1 s p) \<and> file_digest sha s p = Inr (file_hash sha s p)"
    if "p \<in> set (sbom_files s)" for p
    using that row res_map_list_mem [OF r] by metis
  then show ?thesis using c v unfolding rows map_map comp_def by blast
qed

lemma document_in_order:
  "in_order (VDict (document_value (file_rows U h1 h2 ps) (map VDict (package_values code)) (relation_rows ps)))"
proof -
  have k: "sorted [''SPDXID'', ''creationInfo'', ''dataLicense'', ''documentNamespace'', ''files'', ''name'', ''packages'',
      ''relationships'', ''spdxVersion'']" "sorted [''created'', ''creators'']"
    "sorted [''SPDXID'', ''copyrightText'', ''downloadLocation'', ''filesAnalyzed'', ''licenseConcluded'', ''licenseDeclared'', ''name'', ''versionInfo'']"
    "sorted [''SPDXID'', ''copyrightText'', ''downloadLocation'', ''filesAnalyzed'', ''licenseConcluded'', ''licenseDeclared'', ''name'',
      ''packageVerificationCode'', ''versionInfo'']" "sorted [''relatedSpdxElement'', ''relationshipType'', ''spdxElementId'']"
    by code_simp+
  have f: "list_all in_order (file_rows U h1 h2 ps)" by (simp only: list_all_iff set_map) (blast intro: file_value_in_order)
  have "in_order (VDict (tool_value x))" for x
    using k(3) by (simp add: tool_value_def noassertion_def case_prod_unfold del: sorted_simps)
  moreover have "in_order (VDict (project_value code))"
    using k(4) by (simp add: project_value_def noassertion_def del: sorted_simps)
  ultimately have p: "list_all in_order (map VDict (package_values code))" by (auto simp: list_all_iff package_values_def simp del: in_order.simps)
  have "in_order (relationship i)" for i using k(5) by (simp add: relationship_def del: sorted_simps)
  then have r: "list_all in_order (relation_rows ps)" by (auto simp: list_all_iff simp del: in_order.simps)
  show ?thesis using k(1,2) f p r by (simp add: document_value_def del: sorted_simps map_map enumerate_simps map_fst_enumerate)
qed

lemma document_clean: "document_errors (document_value a b c) = []"
  by (auto simp: document_errors_def document_value_def document_keys_def document_fields_def creation_info_def dict_get_def note_if_def)

section \<open>After a rebuild\<close>

lemma sbom_section_clean:
  assumes doc: "sbom_document U sha sha1 s2 = Inr v" and read: "strict_json s ''SBOM.spdx.json'' = (v, [])"
    and same: "sbom_files s = sbom_files s2" "distinct (sbom_files s)"
    and d: "\<And>p. p \<in> set (sbom_files s) \<Longrightarrow> inside p \<and> file_digest sha1 s p = file_digest sha1 s2 p \<and> file_digest sha s p = file_digest sha s2 p"
  shows "sbom_section U sha sha1 e s = Inr []"
proof -
  let ?ps = "sbom_files s" and ?h1 = "file_hash sha1 s2" and ?h2 = "file_hash sha s2"
  obtain code where code: "verification_code sha1 (sbom_files s2) s2 = Inr code"
      and h: "\<forall>p \<in> set (sbom_files s2). file_digest sha1 s2 p = Inr (?h1 p) \<and> file_digest sha s2 p = Inr (?h2 p)"
      and v: "v = VDict (document_value (file_rows U ?h1 ?h2 ?ps) (map VDict (package_values code)) (relation_rows ?ps))"
    using sbom_document_value [OF doc] unfolding same(1) by blast
  have files: "sbom_files_errors U sha sha1 e s (VList (file_rows U ?h1 ?h2 ?ps)) = Inr []"
    unfolding expected_order [symmetric]
    by (rule files_pass) (unfold expected_order, use d h same in \<open>simp_all\<close>)
  have "res_map_list (file_digest sha1 s) ?ps = res_map_list (file_digest sha1 s2) ?ps"
    by (rule res_map_list_cong [OF refl]) (use d in blast)
  then have "verification_code sha1 (expected_sbom_order s) s = Inr code"
    using code unfolding verification_code_def expected_order same(1) by simp
  note packages = packages_pass [OF this]
  have ids: "map fst (dict_rows (file_rows U ?h1 ?h2 ?ps)) = map fst (enumerate 1 ?ps)"
    unfolding dict_rows_of by (simp only: map_map comp_def fst_conv)
  have relations: "sbom_relations_errors (VList (relation_rows ?ps)) (map fst (enumerate 1 ?ps)) = Inr []"
    by (rule relations_pass) simp
  have get: "map_of (document_value a b c) ''files'' = Some (VList a)" "map_of (document_value a b c) ''packages'' = Some (VList b)"
    "map_of (document_value a b c) ''relationships'' = Some (VList c)" for a b c
    by (simp_all add: document_value_def)
  show ?thesis
    unfolding sbom_section_def read v prod.case pyval.case Let_def get option.case list_items.simps ids
      files packages relations document_clean res_bind.simps res_map.simps append_Nil ..
qed

lemma sbom_name_differs:
  "''SBOM.spdx.json'' \<noteq> ''LICENSE_INVENTORY.json''" "''SBOM.spdx.json'' \<noteq> ''PUBLIC_ALLOWLIST.txt''"
  "''SBOM.spdx.json'' \<noteq> ''PUBLIC_MANIFEST.sha256''"
  by code_simp+

lemma sbom_survives:
  assumes s3: "s3 = put_file ''SBOM.spdx.json'' d3 s2" and s4: "s4 = put_file ''LICENSE_INVENTORY.json'' d4 s3"
    and s5: "s5 = (if b then s4 else put_file ''PUBLIC_ALLOWLIST.txt'' d5 s4)" and s': "s' = put_file ''PUBLIC_MANIFEST.sha256'' d6 s5"
  shows "path_file (site_files s') ''SBOM.spdx.json'' = Some d3"
proof -
  have "path_file (site_files s3) ''SBOM.spdx.json'' = Some d3" unfolding s3 path_put [OF canonical_generated(3)] by (rule if_P) (rule refl)
  then have w4: "path_file (site_files s4) ''SBOM.spdx.json'' = Some d3"
    unfolding s4 path_put [OF canonical_generated(3)] if_not_P [OF sbom_name_differs(1)] .
  have "path_file (site_files s5) ''SBOM.spdx.json'' = Some d3"
  proof (cases b)
    case True
    show ?thesis unfolding s5 if_P [OF True] by (rule w4)
  next
    case False
    show ?thesis unfolding s5 if_not_P [OF False] path_put [OF canonical_generated(3)] if_not_P [OF sbom_name_differs(2)] by (rule w4)
  qed
  then show ?thesis unfolding s' path_put [OF canonical_generated(3)] if_not_P [OF sbom_name_differs(3)] .
qed

lemma after_sbom:
  assumes same2: "same_tree s s2" and there: "''SBOM.spdx.json'' \<in> fst ` set (site_files s2)" "''LICENSE_INVENTORY.json'' \<in> fst ` set (site_files s2)"
    and s3: "s3 = put_file ''SBOM.spdx.json'' d3 s2" and s4: "s4 = put_file ''LICENSE_INVENTORY.json'' d4 s3"
    and s5: "s5 = (if b then s4 else put_file ''PUBLIC_ALLOWLIST.txt'' d5 s4)" and s': "s' = put_file ''PUBLIC_MANIFEST.sha256'' d6 s5"
  shows "same_tree s s'"
    "\<And>h p. p \<in> set (all_files [''SBOM.spdx.json'', ''LICENSE_INVENTORY.json''] s) \<Longrightarrow> file_digest h s' p = file_digest h s2 p"
proof -
  let ?E = "[''SBOM.spdx.json'', ''LICENSE_INVENTORY.json'']"
  have in_E: "''SBOM.spdx.json'' \<in> set (INDEXES @ ?E)" "''LICENSE_INVENTORY.json'' \<in> set (INDEXES @ ?E)"
    by (simp_all only: set_append list.set) blast+
  note idx = index_members [where E = "[]", unfolded append_Nil2]
  have same3: "same_tree s s3" unfolding s3 by (rule same_tree_put [OF same2 canonical_generated(3) disjI1 [OF there(1)]])
  have same4: "same_tree s s4" unfolding s4 s3
    by (rule same_tree_put [OF same3 [unfolded s3] canonical_generated(4) disjI1 [OF names_put [OF there(2)]]])
  have same5: "same_tree s s5" unfolding s5
    using same4 same_tree_put [OF same4 canonical_generated(5) disjI2 [OF idx(1)]] by (cases b) simp_all
  show "same_tree s s'" unfolding s' by (rule same_tree_put [OF same5 canonical_generated(6) disjI2 [OF idx(2)]])
  fix h p assume p: "p \<in> set (all_files ?E s)"
  note d = digest_same_tree [OF _ p]
  have "file_digest h s5 p = file_digest h s4 p"
    unfolding s5 using d [OF same4 index_members(1)] by (cases b) simp_all
  then show "file_digest h s' p = file_digest h s2 p"
    unfolding s' d [OF same5 index_members(2)] unfolding s4 d [OF same3 in_E(2)] unfolding s3 d [OF same2 in_E(1)] .
qed

theorem rebuilt_sbom:
  assumes rel: "releasable U s" and r: "rebuild U sha sha1 io ra s = (Inr (), s')"
  shows "sbom_section U sha sha1 e s' = Inr []"
proof (rule rebuild_states [OF r])
  let ?E = "[''SBOM.spdx.json'', ''LICENSE_INVENTORY.json'']" and ?sb = "''SBOM.spdx.json''"
  fix d1 s1 v2 j2 s2 v3 j3 s3 j4 s4 s5 t6
  assume s1: "s1 = put_file ''experiments/MANIFEST.sha256'' d1 s" and s2: "s2 = put_file LEDGER_REL (json_file j2) s1"
    and sbom: "sbom_document U sha sha1 s2 = Inr v3" "to_json v3 = Some j3" "s3 = put_file ?sb (json_file j3) s2"
    and s4: "s4 = put_file ''LICENSE_INVENTORY.json'' (json_file j4) s3"
    and s5: "s5 = (if adopt ra = None then s4
           else put_file ''PUBLIC_ALLOWLIST.txt'' (utf8_encode (lit (joined_lines (all_files [] s)))) s4)"
    and s': "s' = put_file ''PUBLIC_MANIFEST.sha256'' (ascii t6) s5"
  have in_s: "p \<in> fst ` set (site_files s)"
    if "p \<in> {''experiments/MANIFEST.sha256'', LEDGER_REL, ?sb, ''LICENSE_INVENTORY.json''}" for p
    using rel that unfolding releasable_def by blast
  have "same_tree s s" using rel by (simp add: same_tree_def releasable_def)
  then have same2: "same_tree s s2" unfolding s2 s1
    by (intro same_tree_put canonical_generated disjI1 names_put in_s insertI1 insertI2)
  have there2: "?sb \<in> fst ` set (site_files s2)" "''LICENSE_INVENTORY.json'' \<in> fst ` set (site_files s2)"
    unfolding s2 s1 by (intro names_put in_s insertI1 insertI2)+
  note same' = after_sbom(1) [OF same2 there2 sbom(3) s4 s5 s'] and digests = after_sbom(2) [OF same2 there2 sbom(3) s4 s5 s']
  have ps: "sbom_files t = all_files ?E s" if "same_tree s t" for t unfolding sbom_files_def same_tree_facts(2) [OF that] ..
  obtain b where v: "v3 = VDict (document_value (file_rows U (file_hash sha1 s2) (file_hash sha s2) (sbom_files s2)) (map VDict (package_values b))
      (relation_rows (sbom_files s2)))"
    using sbom_document_value [OF sbom(1)] by blast
  have order: "sort_dicts v3 = v3 \<and> wf_value v3" unfolding v by (rule in_order_same [OF document_in_order])
  note there = sbom_survives [OF sbom(3) s4 s5 s']
  show ?thesis
  proof (rule sbom_section_clean [OF sbom(1)])
    show "strict_json s' ?sb = (v3, [])" using written_reads_back [OF sbom(2) conjunct2 [OF order] there] unfolding conjunct1 [OF order] .
    show "sbom_files s' = sbom_files s2" unfolding ps [OF same2] ps [OF same'] ..
    show "distinct (sbom_files s')" unfolding ps [OF same'] by (rule all_files_facts(1)) (use rel in \<open>simp add: releasable_def\<close>)
    fix p assume "p \<in> set (sbom_files s')"
    then have p: "p \<in> set (all_files ?E s)" unfolding ps [OF same'] .
    then have "p \<in> set (all_files [] s)" by (auto simp: all_files_def public_name_def)
    then have "portable_public_relative_path U (VStr p)" using rel by (simp add: releasable_def)
    moreover have "canonical_name p" using all_files_facts(2) [OF _ p] rel by (simp add: releasable_def)
    ultimately have "inside p" by (rule portable_inside)
    then show "inside p \<and> file_digest sha1 s' p = file_digest sha1 s2 p \<and> file_digest sha s' p = file_digest sha s2 p"
      using digests [OF p] by blast
  qed
qed

end
