(* ===== verification/Sample_Release.thy ===== *)
theory Sample_Release
  imports Sbom_Props Release_Theorems
begin

text \<open>
  One concrete release tree: the evidence files of the claims and the generated files, all empty, the
  allowlist and the claim schema, over the Unicode tables of ASCII.  Only the witnesses use it.
\<close>

section \<open>Names of printable ASCII characters\<close>

lemma printable_char: "\<not> digit7 c \<and> (digit5 c \<or> digit6 c) \<Longrightarrow> 32 \<le> (of_char c :: nat) \<and> (of_char c :: nat) < 128"
  by (cases c) (auto simp: of_char_def horner_sum_simps)

definition release_char :: "char \<Rightarrow> bool" where
  "release_char c \<longleftrightarrow> \<not> digit7 c \<and> (digit5 c \<or> digit6 c) \<and> c \<noteq> CHR '':'' \<and> c \<noteq> CHR 0x5C"

definition release_name :: "string \<Rightarrow> bool" where
  "release_name p \<longleftrightarrow> list_all release_char p \<and> canonical_name p \<and> hd p \<noteq> CHR ''/''
     \<and> list_all (\<lambda>c. c \<notin> {[], ''.'', ''..''}) (path_parts p)"

lemma release_name_plain:
  assumes "release_name p"
  shows "list_all (\<lambda>c. (of_char c :: nat) < 128) p" "no_break p" "canonical_name p"
    "portable_public_relative_path ascii_tables (VStr p)" "\<not> unsafe_public p"
proof -
  have c: "32 \<le> (of_char c :: nat)" "(of_char c :: nat) < 128" "c \<noteq> CHR '':''" "c \<noteq> CHR 0x5C" if "c \<in> set p" for c
    using assms that printable_char by (auto simp: release_name_def release_char_def list_all_iff)
  show "list_all (\<lambda>c. (of_char c :: nat) < 128) p" using c(2) by (auto simp: list_all_iff)
  show "no_break p" unfolding no_break_def list_all_iff line_break_def Let_def using c(1,2) by fastforce
  show can: "canonical_name p" using assms by (simp add: release_name_def)
  have n: "p \<noteq> []" "py_join ''/'' (path_parts p) = p" using can by (simp_all add: canonical_name_def)
  then have parts: "path_parts p \<noteq> []" by force
  have "CHR 0x00 \<notin> set p" using c(1) [of "CHR 0x00"] by auto
  moreover have "CHR 0x5C \<notin> set p" "CHR '':'' \<notin> set p" using c(3,4) by blast+
  moreover have "\<not> drive_text p"
  proof -
    have "c = CHR '':''" if "(of_char c :: nat) = 58" for c
    proof -
      have "c = char_of (58 :: nat)" using that by (metis char_of_char)
      also have "\<dots> = CHR '':''" by code_simp
      finally show ?thesis .
    qed
    then show ?thesis using \<open>CHR '':'' \<notin> set p\<close>
      by (auto simp: drive_text_def drive_letter_def lit_def split: list.splits)
  qed
  ultimately show "portable_public_relative_path ascii_tables (VStr p)"
    using assms n parts by (simp add: portable_public_relative_path_def ascii_tables_def as_posix_def release_name_def)
  show "\<not> unsafe_public p"
    using assms n \<open>CHR 0x5C \<notin> set p\<close> by (auto simp: unsafe_public_def release_name_def list_all_iff)
qed

section \<open>The tree\<close>

definition release_names :: "string list" where
  "release_names =
    [''AERA_SPECIFICATION.md'', ''Cargo.toml'', ''KNOWN_LIMITATIONS.md'', ''LICENSE_INVENTORY.json'', ''OASI_PHILOSOPHY.md'',
     ''SBOM.spdx.json'', ''experiments/MANIFEST.sha256'', ''experiments/s5/results/RAW_RUNS.jsonl'',
     ''experiments/s6/results/RAW_RUNS.jsonl'', ''paper/v0.4/INTERNAL_ADVERSARIAL_REVIEW_V0_4.md'',
     ''public_evidence/CLAIMS_EVIDENCE_LEDGER.json'', ''public_evidence/G039_G040_SUMMARY.json'',
     ''public_evidence/G116_METHOD_SUMMARY.json'', ''public_evidence/S5_SCIENCE_SUMMARY.json'',
     ''public_evidence/S6_SCIENCE_SUMMARY.json'', ''public_evidence/T4_SCIENCE_SUMMARY.json'', ''schemas/claim.schema.json'', ''src/model.rs'', ''src/runtime.rs'',
     ''tests/authority_transaction.rs'']"

definition release_listing :: bytes where
  "release_listing = utf8_encode (lit (joined_lines (sort release_names)))"

definition release_data :: "string \<Rightarrow> bytes" where
  "release_data p = (if p = ''schemas/claim.schema.json'' then ascii (show_json (the (to_json claim_schema))) else [])"

definition release_site :: site where
  "release_site = \<lparr>site_files = (''PUBLIC_ALLOWLIST.txt'', release_listing) # map (\<lambda>p. (p, release_data p)) release_names,
     site_link = (\<lambda>_. False)\<rparr>"

definition own_arguments :: rebuild_arguments where
  "own_arguments = \<lparr>adopt = None, adopt_sha256 = None\<rparr>"

lemma release_names_plain: "list_all release_name release_names"
  by code_simp

lemma release_names_public: "list_all (public_name INDEXES) release_names"
  by code_simp

lemma release_names_tidy: "list_all (\<lambda>p. \<not> py_ends p ''.tmp'') (''PUBLIC_ALLOWLIST.txt'' # release_names)"
  by code_simp

lemma release_names_apart: "distinct (map (collision_key ascii_tables) (release_names @ INDEXES))"
  by code_simp

lemma release_names_evidence: "list_all (\<lambda>p. p \<in> set release_names) evidence_paths"
  by code_simp

lemma release_names_generated: "list_all (\<lambda>p. p \<in> set release_names)
     [''experiments/MANIFEST.sha256'', LEDGER_REL, ''SBOM.spdx.json'', ''LICENSE_INVENTORY.json'']"
  by code_simp

lemma generated_tmp: "p \<in> set generated \<Longrightarrow> py_ends (tmp_name p) ''.tmp''"
  unfolding generated_def list.set by (elim insertE emptyE; hypsubst; code_simp)

lemma index_not_public: "\<not> public_name INDEXES ''PUBLIC_ALLOWLIST.txt''"
  by code_simp

lemma release_files: "all_files [] release_site = sort release_names"
proof -
  have "filter (public_name INDEXES) release_names = release_names"
    using release_names_public by (simp only: filter_id_conv list_all_iff)
  then show ?thesis by (simp add: all_files_def release_site_def comp_def index_not_public)
qed

lemma release_names_distinct: "distinct release_names"
  using release_names_apart unfolding map_append distinct_append distinct_map by (elim conjE)

lemma release_site_names: "map fst (site_files release_site) = ''PUBLIC_ALLOWLIST.txt'' # release_names"
  by (simp add: release_site_def comp_def)

lemma release_site_ok: "site_ok release_site"
proof -
  have "''PUBLIC_ALLOWLIST.txt'' \<notin> set release_names"
    using release_names_public index_not_public unfolding list_all_iff by blast
  moreover have "list_all canonical_name release_names"
    using release_names_plain release_name_plain(3) unfolding list_all_iff by blast
  ultimately show ?thesis
    unfolding site_ok_def release_site_names using release_names_distinct canonical_generated(5) by simp
qed

lemma release_site_file:
  "is_file release_site p \<longleftrightarrow> p = ''PUBLIC_ALLOWLIST.txt'' \<or> p \<in> set release_names" if "canonical_name p"
  unfolding is_file_def path_file_canonical [OF that] map_of_eq_None_iff release_site_def by (auto simp: image_image)

lemma release_site_tidy: "tidy release_site"
proof -
  have "\<not> is_file release_site (tmp_name p)" if "p \<in> set generated" for p
    using release_site_file [of "tmp_name p"] canonical_tmp [OF that] generated_tmp [OF that] release_names_tidy
    unfolding list_all_iff by (metis list.set_intros)
  then show ?thesis unfolding tidy_def by blast
qed

lemma release_site_evidence: "list_all (is_file release_site) evidence_paths"
  using release_names_evidence evidence_canonical release_site_file unfolding list_all_iff by blast

lemma release_site_ascii: "list_all (list_all (\<lambda>c. (of_char c :: nat) < 128)) (map fst (site_files release_site))"
proof -
  have "list_all (\<lambda>c. (of_char c :: nat) < 128) ''PUBLIC_ALLOWLIST.txt''" by simp
  moreover have "list_all (list_all (\<lambda>c. (of_char c :: nat) < 128)) release_names"
    using release_names_plain release_name_plain(1) list.pred_mono_strong by blast
  ultimately show ?thesis unfolding release_site_names by simp
qed

section \<open>The rebuild on this tree\<close>

lemma release_site_releasable: "releasable ascii_tables release_site"
proof -
  have g: "p \<in> fst ` set (site_files release_site)"
    if "p \<in> {''experiments/MANIFEST.sha256'', LEDGER_REL, ''SBOM.spdx.json'', ''LICENSE_INVENTORY.json''}" for p
  proof -
    have "p \<in> set release_names" using that release_names_generated by auto
    then show ?thesis unfolding set_map [symmetric] release_site_names by (rule list.set_intros(2))
  qed
  have "portable_public_relative_path ascii_tables (VStr p)" if "p \<in> set release_names" for p
    using that release_names_plain release_name_plain(4) unfolding list_all_iff by blast
  moreover have "distinct (map (collision_key ascii_tables) (sort release_names @ INDEXES))"
    using release_names_apart by (simp add: distinct_map)
  ultimately show ?thesis
    unfolding releasable_def release_files set_sort using release_site_ok g by blast
qed

lemma release_listing_parsed: "parse_canonical_allowlist ascii_tables release_listing = Inr (sort release_names)"
proof -
  have nb: "list_all no_break (sort release_names)"
    using release_names_plain release_name_plain(2) by (simp add: list_all_iff)
  have u: "utf8_text release_listing = Some (joined_lines (sort release_names))"
    unfolding release_listing_def by (rule utf8_text_encode)
  have r: "splitlines (joined_lines (sort release_names)) = sort release_names" by (rule splitlines_joined [OF nb])
  have ne: "sort release_names \<noteq> []"
    using release_names_generated unfolding set_empty [symmetric] set_sort by auto
  have safe: "\<not> list_ex unsafe_reviewed (sort release_names)"
    using release_names_plain release_name_plain(5) release_names_public
    unfolding list_ex_iff list_all_iff set_sort unsafe_reviewed_def public_name_def by blast
  have k: "distinct (map (collision_key ascii_tables) (sort release_names))"
    using release_names_apart by (simp add: distinct_map)
  show ?thesis
    unfolding parse_canonical_allowlist_def u option.case Let_def r
    using ne safe k release_names_distinct sort_key_id_if_sorted [of "\<lambda>x. x", OF sorted_sort_key, of release_names] by simp
qed

lemma release_site_listing: "path_file (site_files release_site) ''PUBLIC_ALLOWLIST.txt'' = Some release_listing"
  unfolding path_file_canonical [OF canonical_generated(5)] by (simp add: release_site_def)

lemma release_site_member:
  "membership_check ascii_tables zero_sha own_arguments release_site = Inr (sort release_names)"
proof -
  have "\<not> unsafe_public p" if "p \<in> set release_names" for p
    using that release_names_plain release_name_plain(5) unfolding list_all_iff by blast
  then have "check_paths release_site (sort release_names) = Inr ()"
    unfolding check_paths_clean by (simp add: linked_def list_ex_iff release_site_def)
  moreover have "distinct (map (collision_key ascii_tables) (sort release_names))"
    using release_names_apart by (simp add: distinct_map)
  ultimately have v: "validate_release_paths ascii_tables release_site (all_files [] release_site) = Inr (sort release_names)"
    unfolding release_files validate_release_paths_def by simp
  have "is_file release_site ''PUBLIC_ALLOWLIST.txt''" unfolding is_file_def release_site_listing by (rule option.distinct(2))
  then have "own_allowlist ascii_tables release_site = Inr (sort release_names)"
    unfolding own_allowlist_def release_site_listing option.sel release_listing_parsed by (simp add: release_site_def)
  then show ?thesis
    unfolding membership_check_def v reviewed_list_def by (simp add: own_arguments_def check_arguments_def)
qed

lemma zero_digest: "digest32 zero_sha"
  by (simp add: digest32_def zero_sha_def)

text \<open>The claim schema of the tree reads back as the schema of the repository.\<close>

lemma claim_schema_json: "wf_value claim_schema" "to_json claim_schema \<noteq> None"
  by code_simp+

lemma release_site_schema: "strict_json release_site ''schemas/claim.schema.json'' = (claim_schema, [])"
proof -
  obtain j where j: "to_json claim_schema = Some j" using claim_schema_json(2) by blast
  have wf: "wf_json j" using to_json_wf(1) j claim_schema_json(1) by blast
  have "canonical_name ''schemas/claim.schema.json''" "''schemas/claim.schema.json'' \<in> set release_names"
    "''schemas/claim.schema.json'' \<noteq> ''PUBLIC_ALLOWLIST.txt''" by code_simp+
  moreover have "map_of (map (\<lambda>p. (p, f p)) ps) p = (if p \<in> set ps then Some (f p) else None)"
    for f :: "string \<Rightarrow> bytes" and ps p by (induction ps) auto
  ultimately have f: "path_file (site_files release_site) ''schemas/claim.schema.json'' = Some (ascii (show_json j))"
    by (simp only: path_file_canonical release_site_def site.simps map_of.simps fst_conv snd_conv fun_upd_def if_False if_True simp_thms release_data_def j option.sel)
  have "utf8_text (ascii (show_json j)) = Some (show_json j)" by (rule utf8_text_ascii) (rule plain_show(1))
  moreover have "json_loads_with unique_hook (show_json j) = Inr j"
    using read_show(1) [OF plain_unique_hook wf, of "2 * length (show_json j) + 2" "[]"] by (simp add: json_loads_with_def)
  ultimately show ?thesis unfolding strict_json_def f by (simp add: of_to_json(1) [OF j])
qed

end
