(* ===== verification/Tool_Theorems.thy ===== *)
theory Tool_Theorems
  imports Compare Sample_World Sample_Release
begin

text \<open>
  The properties of the comparison tool, of the metadata rebuild and of the release verifier's sections, with
  the concrete input each is applied to.
\<close>

text \<open>The witnesses need no pattern that the model leaves to \<open>re\<close>.\<close>

definition no_regex :: regex where "no_regex p t = Inr False"

section \<open>Comparing reruns\<close>

text \<open>
  C22. Two runs of a campaign, with any clocks, meters, shuffles and keys, compare as equal: the tool loads
  both raw files, finds no missing, extra or different tuple, and exits with 0 after 1200 and 1500 rows.
\<close>

theorem reruns_compare_equal:
  assumes "world_ok W" "world_ok W'" and "\<not> output_exists R" "\<not> output_exists R'"
    and "s5_run_campaign W False prereg R = (r5, C5)" "s5_run_campaign W' False prereg' R' = (r5', C5')"
    and "s6_run_campaign W False prereg R = (r6, C6)" "s6_run_campaign W' False prereg' R' = (r6', C6')"
  shows "(\<exists>c. compare_main (p, raw_bytes (the (raw_runs (out C5)))) (q, raw_bytes (the (raw_runs (out C5')))) = Inr (0, c)
      \<and> comparison_pass c \<and> sealed_rows c = 1200 \<and> rerun_rows c = 1200)
    \<and> (\<exists>c. compare_main (p, raw_bytes (the (raw_runs (out C6)))) (q, raw_bytes (the (raw_runs (out C6')))) = Inr (0, c)
      \<and> comparison_pass c \<and> sealed_rows c = 1500 \<and> rerun_rows c = 1500)"
proof -
  have "raw_runs (out C5) = Some (s5_lines W)" "raw_runs (out C5') = Some (s5_lines W')"
    using s5_campaign_eq [OF assms(1,3), of prereg] s5_campaign_eq [OF assms(2,4), of prereg'] assms(5,6) by auto
  moreover have "raw_runs (out C6) = Some (s6_lines W)" "raw_runs (out C6') = Some (s6_lines W')"
    using s6_campaign_eq [OF assms(1,3), of prereg] s6_campaign_eq [OF assms(2,4), of prereg'] assms(7,8) by auto
  ultimately show ?thesis using s5_reruns [OF assms(1,2), of p q] s6_reruns [OF assms(1,2), of p q] by simp
qed

theorem reruns_compare_equal_witness:
  "\<exists>(C :: campaign) (D :: campaign) c. compare_main (''sealed'', raw_bytes (the (raw_runs (out C))))
     (''rerun'', raw_bytes (the (raw_runs (out D)))) = Inr (0, c) \<and> sealed_rows c = 1200"
proof -
  obtain C where C: "s5_run_campaign sample_world False [] no_results = (Inr (), C)"
    using s5_campaign_eq [OF sample_world_ok, of no_results "[]"] by (auto simp: no_results_def)
  obtain D where D: "s6_run_campaign sample_world False [] no_results = (Inr (), D)"
    using s6_campaign_eq [OF sample_world_ok, of no_results "[]"] by (auto simp: no_results_def)
  have n: "\<not> output_exists no_results" by (simp add: no_results_def)
  show ?thesis using reruns_compare_equal [OF sample_world_ok sample_world_ok n n C C D D] by blast
qed

section \<open>The rebuild\<close>



text \<open>
  C31. On a tree with ASCII names, the claim evidence in place, no temporary file left over, a reviewed
  allowlist that matches and a disk that takes the writes, the rebuild ends normally.
\<close>

theorem rebuild_comes_to_its_end:
  assumes "digest32 sha" and "releasable U s" and "membership_check U sha ra s = Inr ps"
    and "list_all (is_file s) evidence_paths" and "tidy s"
    and "list_all (list_all (\<lambda>c. (of_char c :: nat) < 128)) (map fst (site_files s))"
  shows "\<exists>s'. rebuild U sha sha1 (\<lambda>_. None) ra s = (Inr (), s')"
  by (rule rebuild_completes [OF assms])

theorem rebuild_comes_to_its_end_witness:
  "\<exists>s'. rebuild ascii_tables zero_sha zero_sha (\<lambda>_. None) own_arguments release_site = (Inr (), s')"
  by (rule rebuild_comes_to_its_end [OF zero_digest release_site_releasable release_site_member release_site_evidence
      release_site_tidy release_site_ascii])

text \<open>
  C17. Whatever a rebuild returns and whichever writes fail, no file but the six generated ones and their
  temporary files has changed; and if the checks before the first write refuse, nothing has.
\<close>

theorem rebuild_changes_generated_only:
  assumes "rebuild U sha sha1 io ra s = (r, s')"
  shows "(\<forall>q. q \<notin> set generated \<longrightarrow> q \<notin> tmp_name ` set generated \<longrightarrow>
       map_of (site_files s') q = map_of (site_files s) q)
    \<and> (\<forall>e. membership_check U sha ra s = Inl e \<longrightarrow> r = Inl e \<and> s' = s)"
  using rebuild_frame [OF assms] rebuild_refused [of U sha ra s _ sha1 io] assms by auto

theorem rebuild_changes_generated_only_witness:
  "\<exists>r s'. rebuild ascii_tables zero_sha zero_sha (\<lambda>_. Some (Some [])) own_arguments release_site = (r, s')
     \<and> map_of (site_files s') ''Cargo.toml'' = Some []"
proof -
  obtain r s' where r: "rebuild ascii_tables zero_sha zero_sha (\<lambda>_. Some (Some [])) own_arguments release_site = (r, s')"
    by fastforce
  have "''Cargo.toml'' \<notin> set generated" "''Cargo.toml'' \<notin> set (map tmp_name generated)" by code_simp+
  moreover have "map_of (site_files release_site) ''Cargo.toml'' = Some []"
    by (simp add: release_site_def release_names_def release_data_def)
  ultimately show ?thesis using rebuild_changes_generated_only [OF r] r unfolding set_map by metis
qed

section \<open>The license inventory\<close>

text \<open>
  C25. On a tree with portable names, the license-inventory section of the verifier reports nothing exactly
  when the file parses, with unique keys, to a value that Python finds equal to the inventory that the
  rebuild would write for that tree.
\<close>

theorem inventory_exact:
  assumes "site_ok s" and "\<And>p. p \<in> set (inventory_files s) \<Longrightarrow> portable_public_relative_path U (VStr p)"
  shows "inventory_section U sha s = Inr [] \<longleftrightarrow>
    (\<exists>v w. strict_json s ''LICENSE_INVENTORY.json'' = (v, []) \<and> license_inventory sha s = Inr w \<and> py_eq v w)"
  by (rule inventory_section_exact [OF assms])

lemma empty_text: "(case utf8_text [] of None \<Rightarrow> True | Some t \<Rightarrow> (case json_loads_with unique_hook t of Inl e \<Rightarrow> True | Inr j \<Rightarrow> False))"
  by code_simp

theorem inventory_exact_witness:
  "inventory_section ascii_tables zero_sha release_site \<noteq> Inr []"
proof -
  have p: "portable_public_relative_path ascii_tables (VStr p)" if "p \<in> set (inventory_files release_site)" for p
  proof -
    have "p \<in> set (all_files [] release_site)" using that by (auto simp: inventory_files_def all_files_def public_name_def)
    then show ?thesis using release_site_releasable by (simp add: releasable_def)
  qed
  have "path_file (site_files release_site) ''LICENSE_INVENTORY.json'' = Some []"
    unfolding path_file_canonical [OF canonical_generated(4)] by (simp add: release_site_def release_names_def release_data_def)
  then have "snd (strict_json release_site ''LICENSE_INVENTORY.json'') \<noteq> []"
    using empty_text unfolding strict_json_def by (auto split: option.splits sum.splits)
  then show ?thesis using inventory_exact [OF release_site_ok p, of zero_sha] by auto
qed

section \<open>The claim schema\<close>

text \<open>
  C18. The schema validator ends: when the nodes that a schema node can lead to, through references,
  items and properties, are exhausted after n calls, n nested calls are enough for every value, more change
  nothing, and the check does not run into a RecursionError.
\<close>

theorem schema_check_ends:
  assumes "ends_within n whole schema" and "n \<le> limit" and "\<And>p t. re p t \<noteq> Inl RecursionError"
  shows "json_schema_violations limit re whole v schema loc = json_schema_violations n re whole v schema loc
    \<and> json_schema_violations limit re whole v schema loc \<noteq> Inl RecursionError"
  using violations_limit [OF assms(1,2)] violations_end [OF assms(3,1)] by simp

theorem schema_check_ends_witness:
  "\<forall>v loc. json_schema_violations 1000 no_regex claim_schema v claim_schema loc \<noteq> Inl RecursionError"
proof -
  have "(5::nat) \<le> 1000" "\<And>p t. no_regex p t \<noteq> Inl RecursionError" by (simp_all add: no_regex_def)
  from schema_check_ends [where re = no_regex, OF claim_schema_ends this] show ?thesis by blast
qed

text \<open>
  C29. The claim schema is a type: a parsed value has no violation exactly when it is an object with the six
  members of a claim, an identifier of the form CL-ddd (a final newline goes through), texts that are not
  empty, at least one piece of evidence of a path and a 64-digit hash, exclusions and a known confidence.
\<close>

theorem claim_rows_typed:
  assumes "5 \<le> limit"
  shows "json_schema_violations limit re claim_schema v claim_schema loc = Inr [] \<longleftrightarrow> well_formed_claim v"
  using violations_limit [OF claim_schema_ends assms] claim_schema_exact [of 0] by (simp add: numeral_eq_Suc)

theorem claim_rows_typed_witness: "well_formed_claim (VDict valid_fixture)"
proof -
  have "(5::nat) \<le> 5" by simp
  from claim_rows_typed [OF this] fixture_accepted show ?thesis by blast
qed

end
