(* ===== verification/Sample_Results.thy ===== *)
theory Sample_Results
  imports Evidence_Sound Sample_World Rebuild_Live
begin

text \<open>
  A concrete results directory: a raw file, two documents and the digest manifest that lists the three.  Only
  the witnesses use it.
\<close>

definition result_names :: "string list" where
  "result_names = [''INDEPENDENT_VERIFY_RESULT.json'', ''RAW_RUNS.jsonl'', ''SUMMARY.json'']"

definition sample_documents :: "bytes \<Rightarrow> tree" where
  "sample_documents raw = [(''RAW_RUNS.jsonl'', raw), (''SUMMARY.json'', [1]), (''INDEPENDENT_VERIFY_RESULT.json'', [2])]"

definition sample_manifest :: "bytes \<Rightarrow> bytes" where
  "sample_manifest raw = ascii (joined_lines (map (manifest_entry sample_sha (sample_documents raw)) result_names))"

definition sample_results :: "bytes \<Rightarrow> tree" where
  "sample_results raw = sample_documents raw @ [(''RESULT_MANIFEST.sha256'', sample_manifest raw)]"

lemma result_names_plain:
  "p \<in> set result_names \<Longrightarrow> canonical_name p \<and> no_break p \<and> list_all (\<lambda>c. (of_char c :: nat) < 128) p \<and> \<not> unsafe_path p
     \<and> CHR 0x5C \<notin> set p \<and> p \<noteq> ''RESULT_MANIFEST.sha256'' \<and> ''__pycache__'' \<notin> set (path_parts p) \<and> py_suffix p \<notin> {''.pyc'', ''.pyo''}"
proof -
  have "list_all (\<lambda>p. canonical_name p \<and> no_break p \<and> list_all (\<lambda>c. (of_char c :: nat) < 128) p \<and> \<not> unsafe_path p
     \<and> CHR 0x5C \<notin> set p \<and> p \<noteq> ''RESULT_MANIFEST.sha256'' \<and> ''__pycache__'' \<notin> set (path_parts p) \<and> py_suffix p \<notin> {''.pyc'', ''.pyo''}) result_names"
    by code_simp
  then show "p \<in> set result_names \<Longrightarrow> ?thesis" unfolding list_all_iff by blast
qed

lemma sample_lookup:
  "map_of (sample_results raw) ''RAW_RUNS.jsonl'' = Some raw" "map_of (sample_results raw) ''SUMMARY.json'' = Some [1]"
  "map_of (sample_results raw) ''INDEPENDENT_VERIFY_RESULT.json'' = Some [2]"
  "map_of (sample_results raw) ''RESULT_MANIFEST.sha256'' = Some (sample_manifest raw)"
  by (simp_all add: sample_results_def sample_documents_def)

lemma sample_entry: "p \<in> set result_names \<Longrightarrow> manifest_entry sample_sha (sample_results raw) p = manifest_entry sample_sha (sample_documents raw) p"
  using result_names_plain [of p]
  by (auto simp: manifest_entry_def path_file_canonical sample_results_def map_add_def split: option.splits)

theorem sample_listing: "listing_of sample_sha (sample_results raw) ''RESULT_MANIFEST.sha256'' (sample_manifest raw) result_names"
proof -
  let ?lines = "map (manifest_entry sample_sha (sample_documents raw)) result_names"
  have space: "no_break ''  ''" "list_all (\<lambda>c. (of_char c :: nat) < 128) ''  ''" by code_simp+
  have line: "no_break (manifest_entry sample_sha s p)" "list_all (\<lambda>c. (of_char c :: nat) < 128) (manifest_entry sample_sha s p)"
    if "p \<in> set result_names" for p and s :: tree
  proof -
    let ?h = "sha_hex sample_sha (the (path_file s p))"
    have h: "no_break ?h" "list_all (\<lambda>c. (of_char c :: nat) < 128) ?h"
      using hex_no_space(2) [OF hex_digest [OF sample_digest]] hex_digest [OF sample_digest] lower_hex_ascii
      unfolding hex64_def list_all_iff by blast+
    then show "no_break (manifest_entry sample_sha s p)" "list_all (\<lambda>c. (of_char c :: nat) < 128) (manifest_entry sample_sha s p)"
      using result_names_plain [OF that] space unfolding manifest_entry_def no_break_def by simp_all
  qed
  have nb: "list_all no_break ?lines" using line(1) by (simp add: list_all_iff)
  have "list_all (\<lambda>c. (of_char c :: nat) < 128) (joined_lines ?lines)"
    using line(2) by (auto simp: joined_lines_def list_all_iff)
  from ascii_text_ascii [OF this]
  have decoded: "list_all (\<lambda>b. unat b < 128) (sample_manifest raw)" "map (\<lambda>b. char_of (unat b)) (sample_manifest raw) = joined_lines ?lines"
    by (auto simp: ascii_text_def sample_manifest_def split: if_splits)
  have "splitlines (map (\<lambda>b. char_of (unat b)) (sample_manifest raw)) = map (manifest_entry sample_sha (sample_results raw)) result_names"
    unfolding decoded(2) splitlines_joined [OF nb] using sample_entry by simp
  moreover have "sorted result_names" "distinct result_names" by code_simp+
  moreover have "set result_names = set (observed_files (sample_results raw) ''RESULT_MANIFEST.sha256'')"
  proof -
    have f: "set (map fst (sample_results raw)) = insert ''RESULT_MANIFEST.sha256'' (set result_names)"
      by (auto simp: sample_results_def sample_documents_def result_names_def)
    then show ?thesis using result_names_plain unfolding observed_files_def set_filter by blast
  qed
  moreover have "\<forall>p \<in> set result_names. path_file (sample_results raw) p \<noteq> None \<and> \<not> unsafe_path p \<and> p \<noteq> [] \<and> CHR 0x5C \<notin> set p"
  proof
    fix p assume p: "p \<in> set result_names"
    note plain = result_names_plain [OF p]
    have "p = ''INDEPENDENT_VERIFY_RESULT.json'' \<or> p = ''RAW_RUNS.jsonl'' \<or> p = ''SUMMARY.json''" using p by (simp add: result_names_def)
    then have "map_of (sample_results raw) p \<noteq> None" using sample_lookup [of raw] by (elim disjE) simp_all
    then show "path_file (sample_results raw) p \<noteq> None \<and> \<not> unsafe_path p \<and> p \<noteq> [] \<and> CHR 0x5C \<notin> set p"
      using plain by (simp add: path_file_canonical canonical_name_def)
  qed
  ultimately show ?thesis using decoded(1) unfolding listing_of_def by blast
qed

lemma world_digest: "world_ok W \<Longrightarrow> digest32 (w_sha W)"
  by (simp add: world_ok_def fixture_def)

lemma result_names_length: "length result_names = 3"
  by (simp add: result_names_def)

lemma entry_path: "manifest_entry sample_sha s p = manifest_entry sample_sha t q \<Longrightarrow> p = q"
proof -
  assume e: "manifest_entry sample_sha s p = manifest_entry sample_sha t q"
  have "length (sha_hex sample_sha b) = 64" for b using hex_digest [OF sample_digest] by (simp add: hex64_def)
  then show "p = q" using e by (simp add: manifest_entry_def)
qed

lemma sample_changed:
  "manifest_entry sample_sha (sample_results [7]) ''RAW_RUNS.jsonl''
     = manifest_entry sample_sha (sample_documents [7, 7] @ [(''RESULT_MANIFEST.sha256'', m)]) q \<Longrightarrow> False"
proof -
  assume e: "manifest_entry sample_sha (sample_results [7]) ''RAW_RUNS.jsonl''
     = manifest_entry sample_sha (sample_documents [7, 7] @ [(''RESULT_MANIFEST.sha256'', m)]) q"
  have q: "q = ''RAW_RUNS.jsonl''" using entry_path [OF e] by simp
  have c: "canonical_name ''RAW_RUNS.jsonl''" by code_simp
  have "sha_hex sample_sha [7] = sha_hex sample_sha [7, 7]"
    using e unfolding q by (simp add: manifest_entry_def path_file_canonical [OF c] sample_results_def sample_documents_def)
  moreover have "sha_hex sample_sha [7] \<noteq> sha_hex sample_sha [7, 7]" by code_simp
  ultimately show False by blast
qed

end
