(* ===== verification/Spec2Isabelle.thy ===== *)
theory Spec2Isabelle
  imports Broker_Theorems Campaign_Theorems Release_Theorems Tool_Theorems Sample_Results
begin

text \<open>
  A model of the Python programs of the OASI/AERA research preview: the one-shot broker, the two
  simulated campaigns S5 and S6, the verifiers of their results, and the tools that build and check
  the release.  All paths are below \<open>src/\<close>.

  \<^bold>\<open>The parts and how they interact.\<close>  The broker (\<open>experiments/common/oasi_broker.py\<close>) sends
  one prepare and one execute frame to a guest over a channel and keeps every step in a sealed,
  hash-chained ledger, so that no restart sends a second execute frame.  The campaigns
  (\<open>experiments/s5/experiment.py\<close>, \<open>experiments/s6/experiment.py\<close>) run stateless, coordinated and OASI
  mechanisms against an effect sink in every fault case, 30 times per cell, and write a locked
  preregistration, a line of JSON per run and a summary.  The detached verifiers
  (\<open>experiments/s5/verify_results.py\<close>, \<open>experiments/s6/verify_results.py\<close>) and
  \<open>tools/verify_experiments.py\<close> recompute these files; \<open>tools/compare_experiment_categories.py\<close> compares
  two of them.  \<open>tools/rebuild_release_metadata.py\<close> writes the digests, the claims ledger, the SBOM and
  the inventory of a release tree, \<open>tools/verify_release.py\<close> checks them,
  \<open>tools/build_deterministic_zip.py\<close> packs the tree and \<open>tools/verify_archive.py\<close> checks the archive.

  \<^bold>\<open>Theories and what they model.\<close>
  \<^item> Prelude: results and actions (a state with exceptions), lists, words, hexadecimal text.  Json,
    Pyval, Text_Codec: JSON reading and printing, Python's values and their equality, UTF-8 and the
    other codecs.  Json_Pretty, Json_Values: indented documents and that they read back equal.
  \<^item> Sealed_File, Ledger, Wire, Broker: class \<open>Ledger\<close>, the frames and receipts, \<open>run_qemu\<close> with its
    polling loops.  Ledger_Props, Broker_Props, Broker_Live, Broker_Theorems: life cycle, reachable
    ledgers, chain, crashes; the safety and liveness of a run.
  \<^item> Frame, Sink, Coordinator, Run_Dir, Stats, Grid: the classes both campaigns share.  S5_Runs,
    S5_Campaign, S6_Runs, S6_Campaign: the mechanisms, records, aggregates and campaigns; the \<open>_Props\<close>
    theories compute every cell.  S5_Verify, S6_Verify, Verify_Experiments: the verifiers; Wilson_Roots: that
    the rounded Wilson intervals do not depend on which square root is taken.  Evidence, Evidence_S5, Evidence_S6,
    Evidence_Sound: that the verifiers accept what the campaigns write, and what acceptance of rows and of a
    digest manifest means.  Campaign_Base, Campaign_Theorems: the fixture and the properties.
  \<^item> Portable, Allowlist, Source_Tree, Build_Zip, Zip_Layout, Zip_Reader, Verify_Archive: portable
    names, the allowlist and its two parsers, each with its own tables and line pattern, the walk of the source,
    the archive bytes as \<open>zipfile\<close> writes and reads them, builder and verifier.  Build_Props, Zip_Sound, Zip_Complete,
    Release_Theorems: what an accepted archive is, that a built one is accepted, and publication.
  \<^item> Compare: the comparison tool.  Release_Files, Rebuild_Metadata: the release tree and the rebuild.
    Verify_Release, Claim_Schema, Sbom_Check: the sections of the release verifier on manifest, paths
    and inventory, on the claims ledger with its JSON-schema validator, and on the SBOM.
    Inventory_Props, Claim_Props: what a section accepts.  Rebuild_Props, Rebuild_Sound, Claim_Ledger,
    Sbom_Props, Rebuild_Live: what a rebuild changes, that its output is accepted, and that it ends.
    Sample_World, Sample_Roots, Sample_Results, Sample_Release: concrete inputs of the witnesses.  Tool_Theorems: the properties of these tools.

  \<^bold>\<open>How state corresponds.\<close>  A class is a record of its attributes; a SQLite file is its tables, the
  seal file and the bytes of its image; a directory is a record of its files or an association list
  by path; the output of a program is its list of messages.  An operation is a function from the
  state to a result and the new state: \<open>Inl\<close> is the raised exception, \<open>Inr\<close> the value, and the state
  is the one that is left in both cases.  While the archive is published, other processes may change the partial
  file and the output at named moments between the program's own steps (\<open>others\<close> in Build_Zip); the look at the
  output and \<open>os.replace\<close> are two such steps, and the properties do not close the gap between them.

  \<^bold>\<open>Parameters.\<close>  SHA-256 and SHA-1 (used: length 32 of a SHA-256 digest; properties on tampering
  conclude a collision), Ed25519 (used: a signature is 64 bytes and verifies, a mutated one does not),
  DEFLATE (used: inflating a deflated text), patterns of a schema other than fixed-length classes,
  the Unicode tables of \<open>unicodedata\<close> and \<open>str\<close>, floats of
  \<open>statistics\<close> and \<open>math\<close> as rounding functions (used: IEEE 754 rounding, both square roots within a relative
  error of \<open>2 ^ -40\<close>, \<open>round(x, 9)\<close> nearest), \<open>json.loads\<close> on the result documents that hold floats, SQLite file images, clocks, meters, shuffles, and what the
  operating system, the QEMU process and the guest answer, given as lists of observations.  Where a
  property assumes something of a parameter the hypothesis says it, and its witness instantiates it.

  \<^bold>\<open>Bounds and fuel.\<close>  The JSON readers take fuel \<open>2 * length + 2\<close>; every call uses up one unit or one
  character, so it is enough for each text, which the round trips show.  The polling loops of the
  broker run over a finite list of observations.  The schema validator takes the number of nested calls
  that the interpreter allows; five are enough for the claim schema.  Lengths of frames and of archive fields are kept
  at their width, as words or bytes.

  \<^bold>\<open>Choices.\<close>  Texts of the campaigns and of release metadata are over code points below 256 (the paths
  and documents of the repository are ASCII), those of the archive tools over all code points.  The
  \<open>zipfile\<close> model is the one of Python 3.11 and 3.12.  A JSON number with a fraction or an exponent
  is outside the model's reader of release files, which treats it as a decoding error.  Messages keep their constant text; the repr of
  a value inside a message is left out in a few places, which the theories name.

  \<^bold>\<open>Not modelled.\<close>  Argument parsing and printing; the QEMU command line and the stopping of the
  process; the network denial of the campaigns; the pins of executed sources and the phrases of public
  documents (\<open>verify_experiments.py\<close>); in \<open>verify_release.py\<close> the pattern scans over file contents,
  the fixed phrases of documents and the YAML of \<open>CITATION.cff\<close>, which a third-party parser
  reads; \<open>build_article_verified.py\<close>, which drives LaTeX and PDF programs.  The Rust crate, the tests
  and the paper are outside the language modelled here.
\<close>

section \<open>The published evidence\<close>

text \<open>
  C30. The files of the first campaign pass the published-evidence verifier: when the results directory holds
  the raw file and the summary that the campaign wrote, the result that the detached verifier gave for them, and
  a digest manifest that lists the directory, \<open>verify_campaign\<close> - manifest, rows, summary and sealed result -
  ends without any error, and the totals of every mechanism in the rows it returns are the pinned ones.
\<close>

theorem s5_published_evidence:
  assumes "world_ok W" and "sound_floats (w_floats W)" and "\<not> output_exists R" and "s5_run_campaign W False prereg R = (res, C)"
    and "s5v_main (w_floats W) (w_sha W) (map_option raw_bytes (raw_runs (out C))) (summary_file (out C)) = Inr checker"
    and "map_of t ''RAW_RUNS.jsonl'' = map_option raw_bytes (raw_runs (out C))"
    and "document parse t ''SUMMARY.json'' = summary_file (out C)" "document parse t ''INDEPENDENT_VERIFY_RESULT.json'' = Some checker"
    and "map_of t ''RESULT_MANIFEST.sha256'' = Some mf" "listing_of (w_sha W) t ''RESULT_MANIFEST.sha256'' mf paths"
  shows "\<exists>rows. verify_campaign (w_sha W) frepr parse ''s5'' 1200 40 t = Inr (rows, []) \<and> totals_drift ''S5'' rows expected_s5 = Inr []"
proof -
  have "verify_manifest (w_sha W) t ''RESULT_MANIFEST.sha256'' = Inr []"
    using verify_manifest_exact [OF world_digest [OF assms(1)]] assms(9,10) by blast
  from s5_evidence [OF assms(1-5) this assms(6-8)] show ?thesis .
qed

theorem s5_published_evidence_witness:
  "\<exists>parse t rows. map_of t ''RESULT_MANIFEST.sha256'' \<noteq> None
     \<and> verify_campaign sample_sha (\<lambda>q. []) parse ''s5'' 1200 40 t = Inr (rows, []) \<and> totals_drift ''S5'' rows expected_s5 = Inr []"
proof -
  obtain C where C: "s5_run_campaign sample_world False [] no_results = (Inr (), C)"
    using s5_campaign_eq [OF sample_world_ok, of no_results "[]"] by (auto simp: no_results_def)
  have n: "\<not> output_exists no_results" by (simp add: no_results_def)
  have F: "sound_floats (w_floats sample_world)" using sample_sound_floats by (simp add: sample_world_floats)
  obtain v where v: "s5v_main (w_floats sample_world) (w_sha sample_world) (map_option raw_bytes (raw_runs (out C))) (summary_file (out C)) = Inr v"
    using s5v_accepts_campaign [OF sample_world_ok F n C] by blast
  obtain raw where raw: "map_option raw_bytes (raw_runs (out C)) = Some raw"
    using s5_campaign_eq [OF sample_world_ok n, of "[]"] C by auto
  define parse where "parse = (\<lambda>b :: bytes. if b = [1] then summary_file (out C) else if b = [2] then Some v else None)"
  let ?t = "sample_results raw"
  have l: "map_of ?t ''RAW_RUNS.jsonl'' = map_option raw_bytes (raw_runs (out C))" "document parse ?t ''SUMMARY.json'' = summary_file (out C)"
      "document parse ?t ''INDEPENDENT_VERIFY_RESULT.json'' = Some v"
    unfolding document_def parse_def raw by (simp_all add: sample_lookup)
  have w: "w_sha sample_world = sample_sha" by (simp add: sample_world_def)
  from s5_published_evidence [OF sample_world_ok F n C v l sample_lookup(4), unfolded w, OF sample_listing, of "\<lambda>q. []"] sample_lookup(4)
  show ?thesis by blast
qed

text \<open>
  The same for the second campaign, and its B2 and B3-without-idempotency rows are equal field
  by field in every case and repetition.
\<close>

theorem s6_published_evidence:
  assumes "world_ok W" and "\<not> output_exists R" and "s6_run_campaign W False prereg R = (res, C)"
    and "s6v_main (w_floats W) (w_sha W) (map_option raw_bytes (raw_runs (out C))) (summary_file (out C)) = Inr checker"
    and "map_of t ''RAW_RUNS.jsonl'' = map_option raw_bytes (raw_runs (out C))"
    and "document parse t ''SUMMARY.json'' = summary_file (out C)" "document parse t ''INDEPENDENT_VERIFY_RESULT.json'' = Some checker"
    and "map_of t ''RESULT_MANIFEST.sha256'' = Some mf" "listing_of (w_sha W) t ''RESULT_MANIFEST.sha256'' mf paths"
  shows "\<exists>rows. verify_campaign (w_sha W) frepr parse ''s6'' 1500 50 t = Inr (rows, []) \<and> totals_drift ''S6'' rows expected_s6 = Inr []
    \<and> equivalence_drift rows = []"
proof -
  have "verify_manifest (w_sha W) t ''RESULT_MANIFEST.sha256'' = Inr []"
    using verify_manifest_exact [OF world_digest [OF assms(1)]] assms(8,9) by blast
  from s6_evidence [OF assms(1-4) this assms(5-7)] show ?thesis .
qed

theorem s6_published_evidence_witness:
  "\<exists>parse t rows. verify_campaign sample_sha (\<lambda>q. []) parse ''s6'' 1500 50 t = Inr (rows, [])
     \<and> totals_drift ''S6'' rows expected_s6 = Inr [] \<and> equivalence_drift rows = []"
proof -
  obtain C where C: "s6_run_campaign sample_world False [] no_results = (Inr (), C)"
    using s6_campaign_eq [OF sample_world_ok, of no_results "[]"] by (auto simp: no_results_def)
  have n: "\<not> output_exists no_results" by (simp add: no_results_def)
  obtain v where v: "s6v_main (w_floats sample_world) (w_sha sample_world) (map_option raw_bytes (raw_runs (out C))) (summary_file (out C)) = Inr v"
    using s6v_accepts_campaign [OF sample_world_ok n C] by blast
  obtain raw where raw: "map_option raw_bytes (raw_runs (out C)) = Some raw"
    using s6_campaign_eq [OF sample_world_ok n, of "[]"] C by auto
  define parse where "parse = (\<lambda>b :: bytes. if b = [1] then summary_file (out C) else if b = [2] then Some v else None)"
  let ?t = "sample_results raw"
  have l: "map_of ?t ''RAW_RUNS.jsonl'' = map_option raw_bytes (raw_runs (out C))" "document parse ?t ''SUMMARY.json'' = summary_file (out C)"
      "document parse ?t ''INDEPENDENT_VERIFY_RESULT.json'' = Some v"
    unfolding document_def parse_def raw by (simp_all add: sample_lookup)
  have w: "w_sha sample_world = sample_sha" by (simp add: sample_world_def)
  from s6_published_evidence [OF sample_world_ok n C v l sample_lookup(4), unfolded w, OF sample_listing, of "\<lambda>q. []"]
  show ?thesis by blast
qed

text \<open>
  C32. A digest manifest has no error exactly when it is the sorted listing of the observed files with
  their digests: its text is ASCII, no observed file is missing, none is listed twice, no path leaves the
  directory, is empty or has a backslash, and every listed digest is that of the file.
\<close>

theorem manifest_is_listing:
  assumes "digest32 sha"
  shows "verify_manifest sha t name = Inr [] \<longleftrightarrow> (\<exists>raw ps. map_of t name = Some raw
    \<and> list_all (\<lambda>b. unat b < 128) raw
    \<and> splitlines (map (\<lambda>b. char_of (unat b)) raw) = map (manifest_entry sha t) ps
    \<and> sorted ps \<and> distinct ps \<and> set ps = set (observed_files t name)
    \<and> (\<forall>p \<in> set ps. path_file t p \<noteq> None \<and> \<not> unsafe_path p \<and> p \<noteq> [] \<and> CHR 0x5C \<notin> set p))"
  using verify_manifest_exact [OF assms, of t name] unfolding listing_of_def .

text \<open>
  The witness is a directory of four files, whose manifest has three lines; with one byte of the raw file
  changed after the listing, the manifest is refused.
\<close>

theorem manifest_is_listing_witness:
  "verify_manifest sample_sha (sample_results [7]) ''RESULT_MANIFEST.sha256'' = Inr []
   \<and> length (splitlines (map (\<lambda>b :: byte. char_of (unat b)) (sample_manifest [7]))) = 3
   \<and> verify_manifest sample_sha (sample_documents [7, 7] @ [(''RESULT_MANIFEST.sha256'', sample_manifest [7])]) ''RESULT_MANIFEST.sha256'' \<noteq> Inr []"
proof -
  let ?n = "''RESULT_MANIFEST.sha256''" and ?t = "sample_documents [7, 7] @ [(''RESULT_MANIFEST.sha256'', sample_manifest [7])]"
  note exact = manifest_is_listing [OF sample_digest]
  have l: "listing_of sample_sha (sample_results [7]) ?n (sample_manifest [7]) result_names" by (rule sample_listing)
  have ok: "verify_manifest sample_sha (sample_results [7]) ?n = Inr []"
    unfolding exact using sample_lookup(4) [of "[7]"] l [unfolded listing_of_def] by blast
  have lines: "splitlines (map (\<lambda>b. char_of (unat b)) (sample_manifest [7])) = map (manifest_entry sample_sha (sample_results [7])) result_names"
    using l unfolding listing_of_def by blast
  have "verify_manifest sample_sha ?t ?n \<noteq> Inr []"
  proof
    assume "verify_manifest sample_sha ?t ?n = Inr []"
    then obtain raw ps where r: "map_of ?t ?n = Some raw" "splitlines (map (\<lambda>b. char_of (unat b)) raw) = map (manifest_entry sample_sha ?t) ps"
      unfolding exact by blast
    have "raw = sample_manifest [7]" using r(1) by (simp add: sample_documents_def)
    then have e: "map (manifest_entry sample_sha (sample_results [7])) result_names = map (manifest_entry sample_sha ?t) ps"
      using r(2) lines by simp
    then have "length ps = 3" by (metis length_map result_names_length)
    then obtain a b c where "ps = [a, b, c]" by (auto simp: numeral_3_eq_3 length_Suc_conv)
    then have m: "manifest_entry sample_sha (sample_results [7]) ''RAW_RUNS.jsonl'' = manifest_entry sample_sha ?t b"
      using e by (simp add: result_names_def)
    then show False by (rule sample_changed)
  qed
  then show ?thesis using ok lines result_names_length by simp
qed

text \<open>
  C33. A results directory that \<open>verify_campaign\<close> finds no error in: its manifest is clean, its raw file loads
  as the rows returned, they have the expected number, every cell has exactly thirty rows whose
  repetitions are 1 to 30, every row has the required fields and keeps the scope, and the summary document has
  the digest of the raw file.
\<close>

theorem verify_campaign_means:
  assumes "verify_campaign sha frepr parse name n c t = Inr (rows, [])" and "d \<in> set rows"
  shows "int (length rows) = n \<and> length (group_of rows d) = 30
    \<and> set (map (\<lambda>e. canon (dict_get e ''repetition'')) (group_of rows d)) = set (map (\<lambda>i. canon (VInt i)) [1..30])
    \<and> dom d = set (required_fields name) \<and> \<not> scope_drift d
    \<and> verify_manifest sha t ''RESULT_MANIFEST.sha256'' = Inr []
    \<and> (\<exists>raw summary. map_of t ''RAW_RUNS.jsonl'' = Some raw \<and> load_jsonl ''RAW_RUNS.jsonl'' raw = (rows, [])
         \<and> document parse t ''SUMMARY.json'' = Some (VDict summary)
         \<and> py_eq (dict_get (map_of summary) ''raw_sha256'') (VStr (sha_hex sha raw)))"
proof -
  obtain raw summary where f: "map_of t ''RAW_RUNS.jsonl'' = Some raw" "load_jsonl ''RAW_RUNS.jsonl'' raw = (rows, [])"
      "row_errors name n c rows = []" "document parse t ''SUMMARY.json'' = Some (VDict summary)"
      "py_eq (dict_get (map_of summary) ''raw_sha256'') (VStr (sha_hex sha raw))"
    using verify_campaign_sound(2) [OF assms(1)] by (elim exE conjE)
  note R = row_errors_sound [OF f(3)]
  show ?thesis
    by (intro conjI R(1) R(3) [OF assms(2)] R(4) [OF assms(2)] R(5) [OF assms(2), THEN conjunct1] R(5) [OF assms(2), THEN conjunct2]
        verify_campaign_sound(1) [OF assms(1)] exI [of _ raw] exI [of _ summary] f(1,2,4,5))
qed

theorem verify_campaign_means_witness:
  "\<exists>parse t rows d. verify_campaign sample_sha (\<lambda>q. []) parse ''s6'' 1500 50 t = Inr (rows, [])
     \<and> d \<in> set rows \<and> length (group_of rows d) = 30"
proof -
  obtain C where C: "s6_run_campaign sample_world False [] no_results = (Inr (), C)"
    using s6_campaign_eq [OF sample_world_ok, of no_results "[]"] by (auto simp: no_results_def)
  have n: "\<not> output_exists no_results" by (simp add: no_results_def)
  obtain v where v: "s6v_main (w_floats sample_world) (w_sha sample_world) (map_option raw_bytes (raw_runs (out C))) (summary_file (out C)) = Inr v"
    using s6v_accepts_campaign [OF sample_world_ok n C] by blast
  obtain raw where raw: "map_option raw_bytes (raw_runs (out C)) = Some raw"
    using s6_campaign_eq [OF sample_world_ok n, of "[]"] C by auto
  define parse where "parse = (\<lambda>b :: bytes. if b = [1] then summary_file (out C) else if b = [2] then Some v else None)"
  let ?t = "sample_results raw"
  have l: "map_of ?t ''RAW_RUNS.jsonl'' = map_option raw_bytes (raw_runs (out C))" "document parse ?t ''SUMMARY.json'' = summary_file (out C)"
      "document parse ?t ''INDEPENDENT_VERIFY_RESULT.json'' = Some v"
    unfolding document_def parse_def raw by (simp_all add: sample_lookup)
  have w: "w_sha sample_world = sample_sha" by (simp add: sample_world_def)
  have m: "verify_manifest (w_sha sample_world) ?t ''RESULT_MANIFEST.sha256'' = Inr []"
    unfolding w using verify_manifest_exact [OF sample_digest] sample_lookup(4) sample_listing by blast
  obtain rows where rows: "verify_campaign sample_sha (\<lambda>q. []) parse ''s6'' 1500 50 ?t = Inr (rows, [])"
    using s6_evidence [OF sample_world_ok n C v m l, of "\<lambda>q. []"] unfolding w by blast
  have "row_errors ''s6'' 1500 50 rows = []" using verify_campaign_sound(2) [OF rows] by (elim exE conjE)
  then have "int (length rows) = 1500" by (rule row_errors_sound(1))
  then obtain d where "d \<in> set rows" by (cases rows) auto
  then have "length (group_of rows d) = 30" using verify_campaign_means [OF rows \<open>d \<in> set rows\<close>] by (elim conjE)
  then show ?thesis using rows \<open>d \<in> set rows\<close> by (intro exI conjI)
qed

end
